(* ===== verification/Prelude.thy ===== *)
theory Prelude
  imports Main "HOL-Library.Word" "HOL-Library.Monad_Syntax"
begin

text \<open>
  Shared vocabulary of the development: the machine integer types of the kernel, the status
  codes of \<^verbatim>\<open>status.h\<close>, and generic facts on words, lists and option blocks.

  A C function that may run into undefined behaviour (a dereferenced \<^verbatim>\<open>NULL\<close>, an index
  outside an array, a signed overflow) is modelled with result type \<open>'a option\<close>, where
  \<open>None\<close> is that fault. Error returns of the code are integers, as in the source:
  \<open>0\<close> on success and a negated status code otherwise.
\<close>

unbundle bit_operations_syntax

type_synonym byte = "8 word"
type_synonym u16 = "16 word"
type_synonym u32 = "32 word"
type_synonym u64 = "64 word"

text \<open>Physical memory, byte addressed, without an MMU fault.\<close>

type_synonym mem = "u64 \<Rightarrow> byte"

section \<open>Status codes (status.h)\<close>

definition SUCCESS :: int where [simp]: "SUCCESS = 0"
definition ENMEM :: int where [simp]: "ENMEM = 1"
definition EIO :: int where [simp]: "EIO = 2"
definition EIARG :: int where [simp]: "EIARG = 3"
definition ENFOUND :: int where [simp]: "ENFOUND = 4"
definition EIUSE :: int where [simp]: "EIUSE = 5"
definition EOF :: int where [simp]: "EOF = 6"
definition EFSYSTEM :: int where [simp]: "EFSYSTEM = 7"
definition EWMODE :: int where [simp]: "EWMODE = 8"
definition EHARDWARE :: int where [simp]: "EHARDWARE = 9"
definition ENOPEN :: int where [simp]: "ENOPEN = 10"
definition EFORMAT :: int where [simp]: "EFORMAT = 11"
definition EDISKSPACE :: int where [simp]: "EDISKSPACE = 12"
definition ELONG :: int where [simp]: "ELONG = 13"
definition ENSPACE :: int where [simp]: "ENSPACE = 14"
definition ENIMPLEMENTED :: int where [simp]: "ENIMPLEMENTED = 255"

section \<open>Words\<close>

named_theorems word_offset

lemma offset_cancel [word_offset]:
  fixes a :: "'a::len word"
  shows "unat (a + of_nat n - a) = n mod 2 ^ LENGTH('a)"
  by (simp add: unat_of_nat)

lemma offset_eq_iff [word_offset]:
  fixes a :: "'a::len word"
  assumes "i < 2 ^ LENGTH('a)"
  shows "x = a + of_nat i \<longleftrightarrow> unat (x - a) = i"
proof
  assume "x = a + of_nat i"
  with assms show "unat (x - a) = i" by (simp add: unat_of_nat)
next
  assume "unat (x - a) = i"
  then have "of_nat i = x - a" by auto
  then show "x = a + of_nat i" by simp
qed

lemma unat_less_pow64: "unat (x :: u64) < 2 ^ 64"
  using unsigned_less [of x] by simp

lemma unat_add_small:
  fixes a b :: "'a::len word"
  shows "unat a + unat b < 2 ^ LENGTH('a) \<Longrightarrow> unat (a + b) = unat a + unat b"
  by (simp add: unat_word_ariths)

lemma unat_mult_small:
  fixes a b :: "'a::len word"
  shows "unat a * unat b < 2 ^ LENGTH('a) \<Longrightarrow> unat (a * b) = unat a * unat b"
  by (simp add: unat_word_ariths)

lemma unat_of_nat_small:
  "n < 2 ^ LENGTH('a::len) \<Longrightarrow> unat (of_nat n :: 'a word) = n"
  by (simp add: unat_of_nat)

lemma of_nat_eq_word_iff:
  fixes w :: "'a::len word"
  shows "j < 2 ^ LENGTH('a) \<Longrightarrow> of_nat j = w \<longleftrightarrow> j = unat w"
  by (simp add: word_unat_eq_iff unat_of_nat_small)

lemma of_nat_Suc_eq_word_iff:
  fixes w :: "'a::len word"
  assumes "Suc j < 2 ^ LENGTH('a)"
  shows "of_nat j + 1 = w \<longleftrightarrow> Suc j = unat w"
  using of_nat_eq_word_iff [OF assms, of w] by (simp only: of_nat_Suc add.commute)

text \<open>A conversion through the 32-bit signed \<^verbatim>\<open>int\<close> and back keeps small values.\<close>

lemma sint_small32:
  fixes y :: u32
  assumes "unat y < 2 ^ 31"
  shows "sint y = int (unat y)"
proof -
  have "int (unat y) < int (2 ^ 31)" using assms by (simp only: of_nat_less_iff)
  then have "uint y < 2 ^ 31" by simp
  moreover have "- (2 ^ 31) \<le> uint y" by (rule order_trans [OF _ uint_ge_0]) simp
  ultimately have "sint y = uint y" by (simp add: sint_uint signed_take_bit_int_eq_self)
  then show ?thesis by simp
qed

lemma scast_small32: "unat (y :: u32) < 2 ^ 31 \<Longrightarrow> scast y = (of_nat (unat y) :: u64)"
  by (simp add: sint_small32 scast_eq)

lemma unat_ucast_32:
  "i < 2 ^ 31 \<Longrightarrow> unat (ucast (of_nat i :: u64) :: u32) = i"
  by (simp add: unsigned_ucast_eq unat_of_nat take_bit_eq_mod)

section \<open>Rounding up\<close>

lemma roundup_aligned:
  fixes a c :: nat
  assumes "0 < c" and "a mod c = 0"
  shows "(a + (c - 1)) div c * c = a"
proof -
  obtain k where k: "a = c * k" using assms(2) by (auto elim: dvdE simp flip: dvd_eq_mod_eq_0)
  have "(c * k + (c - 1)) div c = k" using assms(1) by (intro div_nat_eqI) auto
  with k show ?thesis by simp
qed

lemma roundup_unaligned:
  fixes a c :: nat
  assumes "a mod c \<noteq> 0" and "0 < c"
  shows "a + (c - a mod c) = (a + (c - 1)) div c * c"
proof -
  let ?r = "a mod c"
  have r: "?r < c" "0 < ?r" using assms by auto
  have "a + (c - 1) = c * (a div c) + (?r + (c - 1))" by simp
  also have "\<dots> div c = a div c + (?r + (c - 1)) div c"
    using assms(2) by (intro div_mult_self4) simp
  also have "(?r + (c - 1)) div c = 1"
    using r by (intro div_nat_eqI) auto
  finally have "(a + (c - 1)) div c * c = a div c * c + c" by simp
  moreover have "a + (c - ?r) = a div c * c + c"
    using r div_mult_mod_eq [of a c] by linarith
  ultimately show ?thesis by simp
qed

section \<open>Lists and options\<close>

lemma bind_Some_iff [simp]:
  "Option.bind x f = Some y \<longleftrightarrow> (\<exists>a. x = Some a \<and> f a = Some y)"
  by (cases x) auto

lemma take_update_append:
  "i < length xs \<Longrightarrow> take i xs @ v # drop (Suc i) xs = xs[i := v]"
  by (simp add: upd_conv_take_nth_drop)

text \<open>Overwriting a list at an offset: the specification of a block copy into an array.\<close>

definition overwrite :: "'a list \<Rightarrow> nat \<Rightarrow> 'a list \<Rightarrow> 'a list" where
  "overwrite xs off ys = take off xs @ ys @ drop (off + length ys) xs"

lemma length_overwrite [simp]:
  "off + length ys \<le> length xs \<Longrightarrow> length (overwrite xs off ys) = length xs"
  by (simp add: overwrite_def)

lemma overwrite_Nil [simp]: "overwrite xs off [] = xs"
  by (simp add: overwrite_def)

lemma nth_overwrite:
  assumes "off + length ys \<le> length xs" and "i < length xs"
  shows "overwrite xs off ys ! i =
    (if off \<le> i \<and> i < off + length ys then ys ! (i - off) else xs ! i)"
  using assms by (auto simp: overwrite_def nth_append min_def)

lemma take_overwrite:
  "off + length ys \<le> length xs \<Longrightarrow> take off (overwrite xs off ys) = take off xs"
  by (simp add: overwrite_def)

lemma read_overwrite:
  "off + length ys \<le> length xs \<Longrightarrow>
   take (length ys) (drop off (overwrite xs off ys)) = ys"
  by (simp add: overwrite_def)

section \<open>Stores\<close>

text \<open>Access to a store of structures through a pointer, which must not be \<^verbatim>\<open>NULL\<close>.\<close>

definition at :: "(u64 \<Rightarrow> 'b) \<Rightarrow> u64 \<Rightarrow> 'b option" where
  "at store p = (if p = 0 then None else Some (store p))"

end
