(* ===== verification/Memory.thy ===== *)
theory Memory
  imports Prelude
begin

text \<open>
  The byte primitives of \<^verbatim>\<open>memory/memory.c\<close>. \<open>memset\<close> and \<open>memcpy\<close> work on the
  flat memory, byte by byte and in increasing order as the loops do, so that a copy between
  overlapping regions has the effect it has in the code. \<open>memcpy_buf\<close> is the same loop for
  two offsets of one local array, with a fault where it would leave the array.
\<close>

section \<open>Definitions\<close>

primrec memset_upto :: "nat \<Rightarrow> u64 \<Rightarrow> byte \<Rightarrow> mem \<Rightarrow> mem" where
  "memset_upto 0 addr v m = m"
| "memset_upto (Suc i) addr v m = (memset_upto i addr v m)(addr + of_nat i := v)"

definition memset :: "u64 \<Rightarrow> byte \<Rightarrow> u64 \<Rightarrow> mem \<Rightarrow> mem" where
  "memset addr v sz m = memset_upto (unat sz) addr v m"

primrec memcpy_upto :: "nat \<Rightarrow> u64 \<Rightarrow> u64 \<Rightarrow> mem \<Rightarrow> mem" where
  "memcpy_upto 0 dest src m = m"
| "memcpy_upto (Suc i) dest src m =
     (let m' = memcpy_upto i dest src m in m'(dest + of_nat i := m' (src + of_nat i)))"

definition memcpy :: "u64 \<Rightarrow> u64 \<Rightarrow> u64 \<Rightarrow> mem \<Rightarrow> mem" where
  "memcpy dest src sz m = memcpy_upto (unat sz) dest src m"

primrec memcmp_loop :: "nat \<Rightarrow> u64 \<Rightarrow> u64 \<Rightarrow> mem \<Rightarrow> int" where
  "memcmp_loop 0 p1 p2 m = 0"
| "memcmp_loop (Suc n) p1 p2 m =
     (if m p1 \<noteq> m p2 then (if m p1 < m p2 then -1 else 1)
      else memcmp_loop n (p1 + 1) (p2 + 1) m)"

definition memcmp :: "u64 \<Rightarrow> u64 \<Rightarrow> u64 \<Rightarrow> mem \<Rightarrow> int" where
  "memcmp ptr1 ptr2 sz m = memcmp_loop (unat sz) ptr1 ptr2 m"

primrec memcpy_buf :: "nat \<Rightarrow> nat \<Rightarrow> nat \<Rightarrow> 'a list \<Rightarrow> 'a list option" where
  "memcpy_buf 0 d s buf = Some buf"
| "memcpy_buf (Suc n) d s buf =
     (if d < length buf \<and> s < length buf
      then memcpy_buf n (Suc d) (Suc s) (buf[d := buf ! s])
      else None)"

text \<open>The bytes of a region, for stating what the primitives do.\<close>

definition bytes_at :: "mem \<Rightarrow> u64 \<Rightarrow> nat \<Rightarrow> byte list" where
  "bytes_at m a n = map (\<lambda>i. m (a + of_nat i)) [0..<n]"

lemma length_bytes_at [simp]: "length (bytes_at m a n) = n"
  by (simp add: bytes_at_def)

lemma bytes_at_Suc: "bytes_at m a (Suc n) = m a # bytes_at m (a + 1) n"
  by (simp add: bytes_at_def upt_conv_Cons map_Suc_upt [symmetric] add.assoc del: upt_Suc)

section \<open>memset\<close>

lemma memset_upto_apply:
  "n \<le> 2 ^ 64 \<Longrightarrow> memset_upto n a v m x = (if unat (x - a) < n then v else m x)"
proof (induction n)
  case (Suc n)
  then show ?case using offset_eq_iff [of n x a] by auto
qed simp

lemma memset_apply [simp]:
  "memset a v sz m x = (if unat (x - a) < unat sz then v else m x)"
  unfolding memset_def by (rule memset_upto_apply) (use unat_less_pow64 [of sz] in simp)

section \<open>memcpy\<close>

text \<open>
  The forward loop copies the old contents exactly when the destination does not lie
  strictly inside the source region.
\<close>

definition copy_safe :: "u64 \<Rightarrow> u64 \<Rightarrow> nat \<Rightarrow> bool" where
  "copy_safe dest src n \<longleftrightarrow> dest = src \<or> n \<le> unat (dest - src)"

lemma copy_safe_Suc: "copy_safe d s (Suc n) \<Longrightarrow> copy_safe d s n"
  by (auto simp: copy_safe_def)

lemma copy_safe_no_hit:
  assumes "copy_safe d s (Suc n)" and "n < 2 ^ 64" and "s \<noteq> d"
  shows "\<not> unat (s + of_nat n - d) < n"
proof
  assume less: "unat (s + of_nat n - d) < n"
  define j where "j = unat (s + of_nat n - d)"
  have "of_nat j = s + of_nat n - d" by (simp add: j_def)
  then have "d - s = of_nat n - of_nat j" by (simp add: algebra_simps)
  also have "\<dots> = of_nat (n - j)" using less by (simp add: j_def of_nat_diff)
  finally have "unat (d - s) = n - j" using assms(2) by (simp add: unat_of_nat)
  moreover have "n - j < Suc n" by simp
  ultimately show False using assms(1,3) by (auto simp: copy_safe_def)
qed

lemma memcpy_upto_apply:
  assumes "copy_safe d s n" and "n \<le> 2 ^ 64"
  shows "memcpy_upto n d s m x = (if unat (x - d) < n then m (s + (x - d)) else m x)"
  using assms
proof (induction n arbitrary: x)
  case (Suc n)
  let ?m = "memcpy_upto n d s m"
  have IH: "?m y = (if unat (y - d) < n then m (s + (y - d)) else m y)" for y
    using Suc.IH Suc.prems copy_safe_Suc by simp
  have src: "?m (s + of_nat n) = m (s + of_nat n)"
  proof (cases "s = d")
    case True
    then show ?thesis using IH [of "s + of_nat n"] by simp
  next
    case False
    with Suc.prems show ?thesis by (simp add: IH copy_safe_no_hit)
  qed
  show ?case
  proof (cases "x = d + of_nat n")
    case True
    then show ?thesis using Suc.prems by (simp add: src unat_of_nat)
  next
    case False
    then have "unat (x - d) \<noteq> n" using Suc.prems offset_eq_iff [of n x d] by simp
    with False show ?thesis by (simp add: IH Let_def less_Suc_eq)
  qed
qed simp

lemma memcpy_apply:
  "copy_safe d s (unat sz) \<Longrightarrow>
   memcpy d s sz m x = (if unat (x - d) < unat sz then m (s + (x - d)) else m x)"
  unfolding memcpy_def using memcpy_upto_apply unat_less_pow64 [of sz] by simp

lemma bytes_at_memcpy:
  assumes "copy_safe d s (unat sz)"
  shows "bytes_at (memcpy d s sz m) d (unat sz) = bytes_at m s (unat sz)"
proof -
  have "i < unat sz \<Longrightarrow> i < 2 ^ 64" for i
    using unat_less_pow64 [of sz] by simp
  with assms show ?thesis by (auto simp: bytes_at_def memcpy_apply unat_of_nat)
qed

section \<open>memcmp\<close>

lemma memcmp_loop_0_iff:
  "memcmp_loop n p1 p2 m = 0 \<longleftrightarrow> bytes_at m p1 n = bytes_at m p2 n"
  by (induction n arbitrary: p1 p2) (auto simp: bytes_at_Suc, simp add: bytes_at_def)

lemma memcmp_loop_lex:
  "memcmp_loop n p1 p2 m = -1 \<longleftrightarrow>
   (bytes_at m p1 n, bytes_at m p2 n) \<in> lexord {(a, b). a < b}"
  by (induction n arbitrary: p1 p2) (auto simp: bytes_at_Suc, simp add: bytes_at_def)

section \<open>memcpy inside one array\<close>

lemma memcpy_buf_forward:
  "\<lbrakk> d \<le> s; s + n \<le> length buf \<rbrakk> \<Longrightarrow>
   memcpy_buf n d s buf = Some (overwrite buf d (take n (drop s buf)))"
proof (induction n arbitrary: d s buf)
  case (Suc n)
  let ?b = "buf[d := buf ! s]"
  have "memcpy_buf (Suc n) d s buf = memcpy_buf n (Suc d) (Suc s) ?b"
    using Suc.prems by simp
  also have "\<dots> = Some (overwrite ?b (Suc d) (take n (drop (Suc s) ?b)))"
    by (rule Suc.IH) (use Suc.prems in auto)
  also have "drop (Suc s) ?b = drop (Suc s) buf" using Suc.prems by simp
  also have "overwrite ?b (Suc d) (take n (drop (Suc s) buf))
    = overwrite buf d (take (Suc n) (drop s buf))"
  proof -
    have "take (Suc n) (drop s buf) = buf ! s # take n (drop (Suc s) buf)"
      using Suc.prems by (simp flip: Cons_nth_drop_Suc)
    moreover have "take (Suc d) ?b = take d buf @ [buf ! s]"
      using Suc.prems by (simp add: take_Suc_conv_app_nth)
    ultimately show ?thesis using Suc.prems by (simp add: overwrite_def)
  qed
  finally show ?case .
qed simp

section \<open>Numbers in memory\<close>

text \<open>Numbers are stored with the lowest byte first.\<close>

definition le64_at :: "mem \<Rightarrow> u64 \<Rightarrow> u64" where
  "le64_at m a = foldr (\<lambda>b acc. ucast b OR push_bit 8 acc) (bytes_at m a 8) 0"

definition le16_at :: "mem \<Rightarrow> u64 \<Rightarrow> u16" where
  "le16_at m a = ucast (m a) OR push_bit 8 (ucast (m (a + 1)))"

definition le32_at :: "mem \<Rightarrow> u64 \<Rightarrow> u32" where
  "le32_at m a = ucast (m a) OR push_bit 8 (ucast (m (a + 1))) OR push_bit 16 (ucast (m (a + 2))) OR
     push_bit 24 (ucast (m (a + 3)))"

definition bytes16 :: "u16 \<Rightarrow> byte list" where
  "bytes16 w = [ucast w, ucast (drop_bit 8 w)]"

definition bytes32 :: "u32 \<Rightarrow> byte list" where
  "bytes32 w = [ucast w, ucast (drop_bit 8 w), ucast (drop_bit 16 w), ucast (drop_bit 24 w)]"

definition bytes64 :: "u64 \<Rightarrow> byte list" where
  "bytes64 w = map (\<lambda>i. ucast (drop_bit (8 * i) w)) [0..<8]"

text \<open>Placing the bytes of an object that was worked on as a list back into memory.\<close>

definition put_bytes :: "u64 \<Rightarrow> byte list \<Rightarrow> mem \<Rightarrow> mem" where
  "put_bytes a bs m = (\<lambda>x. if unat (x - a) < length bs then bs ! unat (x - a) else m x)"

lemma put_bytes_at: "length bs < 2 ^ 64 \<Longrightarrow> bytes_at (put_bytes a bs m) a (length bs) = bs"
  by (intro nth_equalityI) (simp_all add: bytes_at_def put_bytes_def unat_of_nat_small)


lemma bit_le64_at:
  "bit (le64_at m a) n \<longleftrightarrow> n < 64 \<and> bit (m (a + of_nat (n div 8))) (n mod 8)"
proof (cases "n < 64")
  case True
  have *: "bit (foldr (\<lambda>b acc. ucast b OR push_bit 8 acc) bs (0::u64)) n \<longleftrightarrow> n div 8 < length bs \<and> bit (bs ! (n div 8)) (n mod 8)"
    if "n < 64" for n and bs :: "byte list" using that
  proof (induction bs arbitrary: n)
    case (Cons b bs)
    show ?case
    proof (cases "n < 8")
      case True
      then show ?thesis using Cons.prems by (simp add: bit_or_iff bit_ucast_iff bit_push_bit_iff)
    next
      case False
      then have "n div 8 = Suc ((n - 8) div 8)" "n mod 8 = (n - 8) mod 8"
        by (simp_all add: le_div_geq le_mod_geq)
      moreover have "\<not> bit b n" using False bit_imp_le_length [of b n] by auto
      ultimately show ?thesis using False Cons by (simp add: bit_or_iff bit_ucast_iff bit_push_bit_iff)
    qed
  qed simp
  from True have "n div 8 < 8" by linarith
  with True show ?thesis by (simp add: le64_at_def * bytes_at_def del: upt_Suc)
qed (auto dest: bit_imp_le_length)

lemma le64_at_cong: "(\<And>i. i < 8 \<Longrightarrow> m (a + of_nat i) = m' (b + of_nat i)) \<Longrightarrow> le64_at m a = le64_at m' b"
  by (intro bit_word_eqI) (simp add: bit_le64_at)

lemma length_bytes64 [simp]: "length (bytes64 v) = 8"
  by (simp add: bytes64_def)

lemma le64_at_put [simp]: "le64_at (put_bytes a (bytes64 v) m) a = v"
proof (rule bit_word_eqI)
  fix n assume n: "n < LENGTH(64)"
  then have "n div 8 < 8" by auto
  with n show "bit (le64_at (put_bytes a (bytes64 v) m) a) n \<longleftrightarrow> bit v n"
    by (simp add: bit_le64_at put_bytes_def unat_of_nat_small bytes64_def bit_ucast_iff bit_drop_bit_eq del: upt_Suc)
qed

text \<open>A write leaves the numbers alone that do not overlap with it.\<close>

lemma le64_at_put_other:
  assumes "unat a + length bs \<le> unat b \<or> unat b + 8 \<le> unat a" and "unat a + length bs \<le> 2 ^ 64" "unat b + 8 \<le> 2 ^ 64"
  shows "le64_at (put_bytes a bs m) b = le64_at m b"
proof (rule le64_at_cong)
  fix i :: nat assume i: "i < 8"
  then have b: "unat (b + of_nat i) = unat b + i"
    using assms(3) by (subst unat_add_small) (simp_all add: unat_of_nat_small)
  have "\<not> unat (b + of_nat i - a) < length bs"
    using i assms b by (subst unat_sub_if') auto
  then show "put_bytes a bs m (b + of_nat i) = m (b + of_nat i)" by (simp add: put_bytes_def)
qed

lemma le64_at_zero: "(\<And>i. i < 8 \<Longrightarrow> m (a + of_nat i) = 0) \<Longrightarrow> le64_at m a = 0"
  by (intro bit_word_eqI) (simp add: bit_le64_at)

end
