(* ===== verification/Heap_Page.thy ===== *)
theory Heap_Page
  imports Memory
begin

text \<open>
  The page allocator of \<^verbatim>\<open>memory/kheap/kheap_page.c\<close>: one table byte per 4 KiB page of the
  kernel heap, at the very bottom of physical memory, with the flags \<^verbatim>\<open>LOCKED\<close>, \<^verbatim>\<open>START\<close>
  (first page of an allocation) and \<^verbatim>\<open>NEXT\<close> (the allocation goes on in the next page).
  The first part holds the operations; the second the representation invariant and what
  each operation does to the set of allocated blocks.
\<close>

section \<open>State and constants\<close>

record heap_page =
  hmem :: mem
  table_size :: u64
  tableMaxSize :: u64

definition KHEAP_FLAG_FREE :: byte where "KHEAP_FLAG_FREE = 0x0"
definition KHEAP_FLAG_LOCKED :: byte where "KHEAP_FLAG_LOCKED = 0x1"
definition KHEAP_FLAG_START :: byte where "KHEAP_FLAG_START = 0x40"
definition KHEAP_FLAG_NEXT :: byte where "KHEAP_FLAG_NEXT = 0x80"
definition KHEAP_BLOCK_SIZE :: u64 where "KHEAP_BLOCK_SIZE = 4096"

definition BOBAOS_KERNEL_HEAP_TABLE_ADDRESS :: u64 where "BOBAOS_KERNEL_HEAP_TABLE_ADDRESS = 0x0"
definition BOBAOS_KERNEL_HEAP_ADDRESS :: u64 where "BOBAOS_KERNEL_HEAP_ADDRESS = 0x500000"
definition BOBAOS_KERNEL_HEAP_SIZE :: u64 where "BOBAOS_KERNEL_HEAP_SIZE = 1024 * 1024 * 100"

lemmas heap_const_defs =
  KHEAP_FLAG_FREE_def KHEAP_FLAG_LOCKED_def KHEAP_FLAG_START_def KHEAP_FLAG_NEXT_def
  KHEAP_BLOCK_SIZE_def BOBAOS_KERNEL_HEAP_TABLE_ADDRESS_def BOBAOS_KERNEL_HEAP_ADDRESS_def
  BOBAOS_KERNEL_HEAP_SIZE_def

section \<open>Operations\<close>

text \<open>\<open>maxMem\<close> and \<open>upperMem\<close> are what \<^verbatim>\<open>getMaxMemorySize\<close> and \<^verbatim>\<open>getUpperMemorySize\<close> return.\<close>

definition kheapInitTable :: "u64 \<Rightarrow> u64 \<Rightarrow> 'a heap_page_scheme \<Rightarrow> int \<times> 'a heap_page_scheme" where
  "kheapInitTable maxMem upperMem s =
     (let s1 = s\<lparr>table_size := BOBAOS_KERNEL_HEAP_SIZE div KHEAP_BLOCK_SIZE,
                 tableMaxSize := maxMem - upperMem\<rparr>
      in if table_size s1 + BOBAOS_KERNEL_HEAP_TABLE_ADDRESS > tableMaxSize s1 then (- ENMEM, s1)
         else (0, s1\<lparr>hmem := memset BOBAOS_KERNEL_HEAP_TABLE_ADDRESS 0 (table_size s1) (hmem s1)\<rparr>))"

definition checkAlignment :: "u64 \<Rightarrow> int" where
  "checkAlignment page = (if page mod KHEAP_BLOCK_SIZE = 0 then 0 else -1)"

definition sizeUpToPage :: "u64 \<Rightarrow> u64" where
  "sizeUpToPage sz =
     (if checkAlignment sz = 0 then sz
      else sz + (KHEAP_BLOCK_SIZE - sz mod KHEAP_BLOCK_SIZE))"

text \<open>The out parameter is passed in and returned, since the error path leaves it as it was.\<close>

definition getPageCount :: "u64 \<Rightarrow> u64 \<Rightarrow> int \<times> u64" where
  "getPageCount sz pagesOut =
     (if sz mod KHEAP_BLOCK_SIZE \<noteq> 0 then (- EIO, pagesOut)
      else (0, sz div KHEAP_BLOCK_SIZE))"

definition getTableEntry :: "u64 \<Rightarrow> u64" where
  "getTableEntry offset = BOBAOS_KERNEL_HEAP_TABLE_ADDRESS + offset"

primrec markEntryTaken_upto :: "nat \<Rightarrow> u64 \<Rightarrow> u64 \<Rightarrow> mem \<Rightarrow> mem" where
  "markEntryTaken_upto 0 startIndex sz m = m"
| "markEntryTaken_upto (Suc i) startIndex sz m =
     (let m' = markEntryTaken_upto i startIndex sz m;
          tableEntry = getTableEntry (of_nat i + startIndex);
          e1 = (if of_nat i = (0 :: u64) then m' tableEntry OR KHEAP_FLAG_START else m' tableEntry);
          e2 = (if of_nat i + 1 \<noteq> sz then e1 OR KHEAP_FLAG_NEXT else e1)
      in m'(tableEntry := e2 OR KHEAP_FLAG_LOCKED))"

definition markEntryTaken :: "u64 \<Rightarrow> u64 \<Rightarrow> mem \<Rightarrow> mem" where
  "markEntryTaken startIndex sz m = markEntryTaken_upto (unat sz) startIndex sz m"

text \<open>
  The scan of \<^verbatim>\<open>findFreePages\<close>: \<open>k\<close> pages are left, \<open>i\<close> is the loop variable. The result is
  the index \<^verbatim>\<open>i+1 - foundCount\<close> at which the loop returns.
\<close>

primrec findFreePages_scan :: "nat \<Rightarrow> u64 \<Rightarrow> u64 \<Rightarrow> u64 \<Rightarrow> mem \<Rightarrow> u64 option" where
  "findFreePages_scan 0 i foundCount pagesCount m = None"
| "findFreePages_scan (Suc k) i foundCount pagesCount m =
     (let foundCount' =
            (if m (getTableEntry i) AND KHEAP_FLAG_LOCKED = 0 then foundCount + 1 else 0)
      in if foundCount' = pagesCount then Some (i + 1 - foundCount')
         else findFreePages_scan k (i + 1) foundCount' pagesCount m)"

definition findFreePages ::
  "u64 \<Rightarrow> u64 \<Rightarrow> 'a heap_page_scheme \<Rightarrow> int \<times> u64 \<times> 'a heap_page_scheme" where
  "findFreePages pagesCount memOut s =
     (case findFreePages_scan (unat (table_size s)) 0 0 pagesCount (hmem s) of
        None \<Rightarrow> (- ENMEM, memOut, s)
      | Some start \<Rightarrow>
          (0, BOBAOS_KERNEL_HEAP_ADDRESS + start * KHEAP_BLOCK_SIZE,
           s\<lparr>hmem := markEntryTaken start pagesCount (hmem s)\<rparr>))"

definition kzallocPage :: "u64 \<Rightarrow> 'a heap_page_scheme \<Rightarrow> u64 \<times> 'a heap_page_scheme" where
  "kzallocPage sz s =
     (let sz' = sizeUpToPage sz;
          (_, pagesCount) = getPageCount sz' 0;
          (ret, mm, s') = findFreePages pagesCount 0 s
      in if ret < 0 then (mm, s')
         else (mm, s'\<lparr>hmem := memset mm 0 (pagesCount * KHEAP_BLOCK_SIZE) (hmem s')\<rparr>))"

text \<open>The result type of \<^verbatim>\<open>addressToTableIndex\<close> is \<^verbatim>\<open>int\<close>: a 32-bit value.\<close>

definition addressToTableIndex :: "u64 \<Rightarrow> 'a heap_page_scheme \<Rightarrow> u32" where
  "addressToTableIndex address s =
     (if address < BOBAOS_KERNEL_HEAP_ADDRESS \<and> address > tableMaxSize s then - 3
      else ucast ((address - BOBAOS_KERNEL_HEAP_ADDRESS) div KHEAP_BLOCK_SIZE))"

text \<open>
  The loop clears entries until one without \<^verbatim>\<open>NEXT\<close>. It always stops: every round clears
  the flag of one more of the finitely many bytes of memory.
\<close>

function freeAllocatedMemory :: "u64 \<Rightarrow> mem \<Rightarrow> mem" where
  "freeAllocatedMemory index m =
     (let entry = getTableEntry index;
          m' = m(entry := m entry AND KHEAP_FLAG_FREE)
      in if m entry AND KHEAP_FLAG_NEXT = 0 then m' else freeAllocatedMemory (index + 1) m')"
  by pat_completeness auto
termination
proof (relation "measure (\<lambda>(index, m). card {a. m a AND KHEAP_FLAG_NEXT \<noteq> 0})", goal_cases)
  case (2 index m entry m')
  have "{a. m' a AND KHEAP_FLAG_NEXT \<noteq> 0} \<subset> {a. m a AND KHEAP_FLAG_NEXT \<noteq> 0}"
    using 2 by (auto simp: KHEAP_FLAG_FREE_def)
  then show ?case by (auto intro: psubset_card_mono)
qed simp

declare freeAllocatedMemory.simps [simp del]

definition kzfreePage :: "u64 \<Rightarrow> 'a heap_page_scheme \<Rightarrow> int \<times> 'a heap_page_scheme" where
  "kzfreePage pointer s =
     (if checkAlignment pointer < 0 then (- EIARG, s)
      else let index = scast (addressToTableIndex pointer s) :: u64
           in if index < 0 then (- EIARG, s)
              else if hmem s (getTableEntry index) AND KHEAP_FLAG_START = 0 then (- EIARG, s)
              else (0, s\<lparr>hmem := freeAllocatedMemory index (hmem s)\<rparr>))"

definition kheapInitPage :: "u64 \<Rightarrow> u64 \<Rightarrow> 'a heap_page_scheme \<Rightarrow> int \<times> 'a heap_page_scheme" where
  "kheapInitPage maxMem upperMem s = kheapInitTable maxMem upperMem s"

section \<open>Flags\<close>

definition locked :: "byte \<Rightarrow> bool" where "locked e \<longleftrightarrow> e AND KHEAP_FLAG_LOCKED \<noteq> 0"
definition starts :: "byte \<Rightarrow> bool" where "starts e \<longleftrightarrow> e AND KHEAP_FLAG_START \<noteq> 0"
definition nexts :: "byte \<Rightarrow> bool" where "nexts e \<longleftrightarrow> e AND KHEAP_FLAG_NEXT \<noteq> 0"

lemma flag_bit:
  "locked e \<longleftrightarrow> bit e 0" "starts e \<longleftrightarrow> bit e 6" "nexts e \<longleftrightarrow> bit e 7"
proof -
  have "e AND 2 ^ n = 0 \<longleftrightarrow> \<not> bit e n" for n by (rule and_exp_eq_0_iff_not_bit)
  from this [of 0] this [of 6] this [of 7]
  show "locked e \<longleftrightarrow> bit e 0" "starts e \<longleftrightarrow> bit e 6" "nexts e \<longleftrightarrow> bit e 7"
    by (simp_all add: locked_def starts_def nexts_def heap_const_defs)
qed

lemma flags_fold:
  "e AND KHEAP_FLAG_LOCKED = 0 \<longleftrightarrow> \<not> locked e"
  "e AND KHEAP_FLAG_START = 0 \<longleftrightarrow> \<not> starts e"
  "e AND KHEAP_FLAG_NEXT = 0 \<longleftrightarrow> \<not> nexts e"
  by (simp_all add: locked_def starts_def nexts_def)

lemma flags_zero [simp]: "\<not> locked 0" "\<not> starts 0" "\<not> nexts 0"
  by (simp_all add: flag_bit)

lemma getTableEntry_id [simp]: "getTableEntry i = i"
  by (simp add: getTableEntry_def BOBAOS_KERNEL_HEAP_TABLE_ADDRESS_def)

text \<open>What \<open>markEntryTaken\<close> makes of the \<open>i\<close>-th of \<open>n\<close> entries.\<close>

definition mark :: "nat \<Rightarrow> nat \<Rightarrow> byte \<Rightarrow> byte" where
  "mark n i e =
     (e OR (if i = 0 then KHEAP_FLAG_START else 0)
        OR (if Suc i \<noteq> n then KHEAP_FLAG_NEXT else 0) OR KHEAP_FLAG_LOCKED)"

lemma mark_flags [simp]:
  "locked (mark n i e)"
  "starts (mark n i e) \<longleftrightarrow> starts e \<or> i = 0"
  "nexts (mark n i e) \<longleftrightarrow> nexts e \<or> Suc i \<noteq> n"
  by (auto simp: flag_bit mark_def heap_const_defs bit_or_iff bit_simps)

section \<open>The loops\<close>

lemma markEntryTaken_upto_apply:
  assumes "k \<le> unat n"
  shows "markEntryTaken_upto k st n m x =
    (if unat (x - st) < k then mark (unat n) (unat (x - st)) (m x) else m x)"
  using assms
proof (induction k arbitrary: x)
  case (Suc k)
  let ?m = "markEntryTaken_upto k st n m"
  have k: "k < 2 ^ 64" using Suc.prems unat_less_pow64 [of n] by simp
  then have ku: "unat (of_nat k :: u64) = k" by (simp add: unat_of_nat)
  have last: "of_nat k + 1 \<noteq> n \<longleftrightarrow> Suc k \<noteq> unat n"
    using Suc.prems unat_less_pow64 [of n] of_nat_Suc_eq_word_iff [of k n] by simp
  have first: "of_nat k = (0 :: u64) \<longleftrightarrow> k = 0" using ku by fastforce
  have hit: "x = of_nat k + st \<longleftrightarrow> unat (x - st) = k"
    by (subst add.commute) (rule offset_eq_iff, use k in simp)
  have old: "?m (of_nat k + st) = m (of_nat k + st)" using Suc ku by simp
  show ?case
    using Suc hit by (auto simp: Let_def old last first mark_def less_Suc_eq ku or.assoc)
qed simp

lemma markEntryTaken_apply:
  "markEntryTaken st n m x =
    (if unat (x - st) < unat n then mark (unat n) (unat (x - st)) (m x) else m x)"
  by (simp add: markEntryTaken_def markEntryTaken_upto_apply)

lemma freeAllocatedMemory_apply:
  assumes "\<forall>j < k. nexts (m (st + of_nat j))" and "\<not> nexts (m (st + of_nat k))"
    and "k < 2 ^ 64"
  shows "freeAllocatedMemory st m x = (if unat (x - st) \<le> k then 0 else m x)"
  using assms
proof (induction k arbitrary: st m x)
  case 0
  then show ?case
    by (auto simp: freeAllocatedMemory.simps [of st m] Let_def flags_fold KHEAP_FLAG_FREE_def
        unat_eq_0)
next
  case (Suc k)
  let ?m = "m(st := 0)"
  have ne: "st + 1 + of_nat j \<noteq> st" if "j \<le> k" for j
  proof
    assume "st + 1 + of_nat j = st"
    then have "of_nat (Suc j) = (0 :: u64)" by (simp add: add.commute add.left_commute)
    then have "unat (of_nat (Suc j) :: u64) = 0" by (simp only: unat_0)
    with that Suc.prems(3) show False by (simp only: unat_of_nat) simp
  qed
  have start: "nexts (m st)" using Suc.prems(1) by force
  have "freeAllocatedMemory st m x = freeAllocatedMemory (st + 1) ?m x"
    using start by (simp add: freeAllocatedMemory.simps [of st m] Let_def flags_fold
        KHEAP_FLAG_FREE_def)
  also have "\<dots> = (if unat (x - (st + 1)) \<le> k then 0 else ?m x)"
  proof (rule Suc.IH)
    show "\<forall>j < k. nexts (?m (st + 1 + of_nat j))"
    proof (intro allI impI)
      fix j assume "j < k"
      then show "nexts (?m (st + 1 + of_nat j))"
        using Suc.prems(1) [rule_format, of "Suc j"] ne [of j] by (simp add: add.assoc)
    qed
    show "\<not> nexts (?m (st + 1 + of_nat k))"
      using Suc.prems(2) ne [of k] by (simp add: add.assoc)
  qed (use Suc.prems(3) in simp)
  also have "\<dots> = (if unat (x - st) \<le> Suc k then 0 else m x)"
  proof (cases "x = st")
    case False
    then have "unat (x - st) = Suc (unat (x - (st + 1)))"
      using unat_eq_zero [of "x - st"] by (simp add: diff_diff_eq [symmetric] unat_minus_one)
    with False show ?thesis by simp
  qed simp
  finally show ?case .
qed

definition free_run :: "mem \<Rightarrow> nat \<Rightarrow> nat \<Rightarrow> bool" where
  "free_run m st n \<longleftrightarrow> (\<forall>j < n. \<not> locked (m (of_nat (st + j))))"

lemma free_run_Suc:
  "free_run m st (Suc n) \<longleftrightarrow> free_run m st n \<and> \<not> locked (m (of_nat (st + n)))"
  by (auto simp: free_run_def less_Suc_eq)

text \<open>
  Between two rounds of the scan \<open>F\<close> is the length of the maximal run of free pages that
  ends before \<open>I\<close>, and no run of the wanted length ends there or before.
\<close>

definition scan_inv :: "mem \<Rightarrow> nat \<Rightarrow> nat \<Rightarrow> nat \<Rightarrow> bool" where
  "scan_inv m P I F \<longleftrightarrow> F \<le> I \<and> F < P \<and> free_run m (I - F) F \<and>
     (F < I \<longrightarrow> locked (m (of_nat (I - F - 1)))) \<and> (\<forall>S. S + P \<le> I \<longrightarrow> \<not> free_run m S P)"

lemma scan_inv_locked:
  assumes "scan_inv m P I F" and "locked (m (of_nat I))"
  shows "scan_inv m P (Suc I) 0"
proof -
  have "\<not> free_run m S P" if "S + P = Suc I" for S
  proof
    assume run: "free_run m S P"
    have "P - 1 < P" "S + (P - 1) = I" using assms(1) that by (auto simp: scan_inv_def)
    with run have "\<not> locked (m (of_nat I))" by (metis free_run_def)
    with assms(2) show False by simp
  qed
  with assms show ?thesis
    by (auto simp: scan_inv_def le_Suc_eq free_run_def)
qed

lemma scan_inv_free:
  assumes "scan_inv m P I F" and "\<not> locked (m (of_nat I))" and "Suc F \<noteq> P"
  shows "scan_inv m P (Suc I) (Suc F)"
proof -
  have "\<not> free_run m S P" if S: "S + P = Suc I" for S
  proof
    assume run: "free_run m S P"
    have "I - F - 1 - S < P" "S + (I - F - 1 - S) = I - F - 1"
      using assms(1,3) S by (auto simp: scan_inv_def)
    with run have "\<not> locked (m (of_nat (I - F - 1)))" by (metis free_run_def)
    then show False using assms(1,3) S by (auto simp: scan_inv_def)
  qed
  with assms show ?thesis
    by (auto simp: scan_inv_def le_Suc_eq free_run_Suc)
qed

lemma scan_inv_found:
  assumes "scan_inv m P I F" and "\<not> locked (m (of_nat I))" and "Suc F = P"
  shows "free_run m (I - F) P" and "\<forall>S < I - F. \<not> free_run m S P"
  using assms by (auto simp: scan_inv_def free_run_Suc)

lemma findFreePages_scan_spec:
  assumes "scan_inv m (unat pc) I F" and "I + k < 2 ^ 63"
  shows "case findFreePages_scan k (of_nat I) (of_nat F) pc m of
      None \<Rightarrow> \<forall>S. S + unat pc \<le> I + k \<longrightarrow> \<not> free_run m S (unat pc)
    | Some st \<Rightarrow> \<exists>S. st = of_nat S \<and> S + unat pc \<le> I + k \<and> free_run m S (unat pc) \<and>
        (\<forall>S' < S. \<not> free_run m S' (unat pc))"
  using assms
proof (induction k arbitrary: I F)
  case 0
  then show ?case by (auto simp: scan_inv_def)
next
  case (Suc k)
  have F: "F \<le> I" "F < unat pc" using Suc.prems by (auto simp: scan_inv_def)
  have IH: "case findFreePages_scan k (of_nat (Suc I)) (of_nat F') pc m of
      None \<Rightarrow> \<forall>S. S + unat pc \<le> I + Suc k \<longrightarrow> \<not> free_run m S (unat pc)
    | Some st \<Rightarrow> \<exists>S. st = of_nat S \<and> S + unat pc \<le> I + Suc k \<and> free_run m S (unat pc) \<and>
        (\<forall>S' < S. \<not> free_run m S' (unat pc))"
    if "scan_inv m (unat pc) (Suc I) F'" for F'
    using Suc.IH [OF that] Suc.prems(2) by (simp only: add_Suc_shift)
  show ?case
  proof (cases "locked (m (of_nat I))")
    case True
    have eq: "findFreePages_scan (Suc k) (of_nat I) (of_nat F) pc m
        = findFreePages_scan k (of_nat (Suc I)) (of_nat 0) pc m"
      using True F by (auto simp: flags_fold Let_def add.commute)
    show ?thesis
      unfolding eq by (rule IH [OF scan_inv_locked [OF Suc.prems(1) True]])
  next
    case False
    have eq: "of_nat F + 1 = pc \<longleftrightarrow> Suc F = unat pc"
      using F Suc.prems(2) of_nat_Suc_eq_word_iff [of F pc] by simp
    show ?thesis
    proof (cases "Suc F = unat pc")
      case found: True
      have "of_nat I + 1 - (of_nat F + 1) = (of_nat (I - F) :: u64)"
        using F by (simp add: of_nat_diff)
      with found False eq
      have "findFreePages_scan (Suc k) (of_nat I) (of_nat F) pc m = Some (of_nat (I - F))"
        by (simp add: flags_fold Let_def)
      moreover have "I - F + unat pc \<le> I + Suc k" using F found by simp
      ultimately show ?thesis using scan_inv_found [OF Suc.prems(1) False found] by auto
    next
      case more: False
      have step: "findFreePages_scan (Suc k) (of_nat I) (of_nat F) pc m
          = findFreePages_scan k (of_nat (Suc I)) (of_nat (Suc F)) pc m"
        using False more eq by (simp add: flags_fold Let_def add.commute)
      show ?thesis
        unfolding step by (rule IH [OF scan_inv_free [OF Suc.prems(1) False more]])
    qed
  qed
qed

section \<open>Blocks of the page table\<close>

text \<open>
  \<open>e i\<close> is the table byte of page \<open>i\<close>. A block is a run of locked pages that begins with the
  only \<^verbatim>\<open>START\<close> page and ends with the only page without \<^verbatim>\<open>NEXT\<close>. The table is well
  formed when every locked page lies in a block and every other page has no flag.
\<close>

definition is_block :: "(nat \<Rightarrow> byte) \<Rightarrow> nat \<Rightarrow> nat \<Rightarrow> nat \<Rightarrow> bool" where
  "is_block e n i k \<longleftrightarrow> 0 < k \<and> i + k \<le> n \<and>
     (\<forall>j < k. locked (e (i + j)) \<and> (nexts (e (i + j)) \<longleftrightarrow> Suc j < k) \<and>
        (starts (e (i + j)) \<longleftrightarrow> j = 0))"

definition table_wf :: "(nat \<Rightarrow> byte) \<Rightarrow> nat \<Rightarrow> bool" where
  "table_wf e n \<longleftrightarrow> (\<forall>i < n.
     if locked (e i) then \<exists>b k. is_block e n b k \<and> b \<le> i \<and> i < b + k
     else e i = 0)"

lemma is_blockD:
  assumes "is_block e n b k" and "b \<le> i" and "i < b + k"
  shows "locked (e i)" "nexts (e i) \<longleftrightarrow> Suc i < b + k" "starts (e i) \<longleftrightarrow> i = b"
proof -
  have "i = b + (i - b)" "i - b < k" using assms by auto
  with assms(1) show "locked (e i)" "nexts (e i) \<longleftrightarrow> Suc i < b + k" "starts (e i) \<longleftrightarrow> i = b"
    unfolding is_block_def by (metis, metis Suc_diff_le add_Suc_right assms(2) nat_add_left_cancel_less
        le_add_diff_inverse, metis diff_is_0_eq' le_add_diff_inverse add.right_neutral order_refl diff_self_eq_0)
qed

lemma is_block_start: "is_block e n b k \<Longrightarrow> locked (e b) \<and> starts (e b) \<and> b < n"
  using is_blockD [of e n b k b] by (auto simp: is_block_def)

lemma is_block_disjoint:
  assumes "is_block e n b k" and "is_block e n b' k'" and "b < b'"
  shows "b + k \<le> b'"
proof (rule ccontr)
  assume "\<not> b + k \<le> b'"
  then have "starts (e b') \<longleftrightarrow> b' = b" using assms by (intro is_blockD) auto
  then show False using assms is_block_start by fastforce
qed

lemma is_block_unique:
  assumes "is_block e n b k" and "is_block e n b k'"
  shows "k = k'"
proof -
  have "\<not> k < k'" if "is_block e n b k" "is_block e n b k'" for k k'
  proof
    assume "k < k'"
    then have "nexts (e (b + (k - 1)))" using is_blockD(2) [OF that(2), of "b + (k - 1)"] that(1)
      by (simp add: is_block_def)
    moreover have "b \<le> b + (k - 1)" "b + (k - 1) < b + k" "\<not> Suc (b + (k - 1)) < b + k"
      using that(1) by (auto simp: is_block_def)
    ultimately show False using is_blockD(2) [OF that(1)] by blast
  qed
  with assms show ?thesis by (meson linorder_neqE_nat)
qed

lemma is_block_cong:
  assumes "\<And>j. b \<le> j \<Longrightarrow> j < b + k \<Longrightarrow> e' j = e j"
  shows "is_block e' n b k \<longleftrightarrow> is_block e n b k"
  using assms by (auto simp: is_block_def)

subsection \<open>Allocation adds one block\<close>

definition table_alloc :: "(nat \<Rightarrow> byte) \<Rightarrow> (nat \<Rightarrow> byte) \<Rightarrow> nat \<Rightarrow> nat \<Rightarrow> nat \<Rightarrow> bool" where
  "table_alloc e e' n st P \<longleftrightarrow> table_wf e n \<and> (\<forall>j < P. \<not> locked (e (st + j))) \<and> 0 < P \<and> st + P \<le> n \<and>
     (\<forall>j. e' j = (if st \<le> j \<and> j < st + P then mark P (j - st) (e j) else e j))"

lemma table_alloc_entry:
  "table_alloc e e' n st P \<Longrightarrow>
   e' j = (if st \<le> j \<and> j < st + P then mark P (j - st) (e j) else e j)"
  by (simp add: table_alloc_def)

lemma table_alloc_clear:
  assumes "table_alloc e e' n st P" and "st \<le> j" and "j < st + P"
  shows "e j = 0"
proof -
  obtain i where "j = st + i" "i < P" using assms(2,3) by (metis le_Suc_ex nat_add_left_cancel_less)
  with assms(1) show ?thesis by (auto simp: table_alloc_def table_wf_def)
qed

lemma table_alloc_new:
  assumes "table_alloc e e' n st P" shows "is_block e' n st P"
  using assms table_alloc_clear [OF assms]
  by (auto simp: is_block_def table_alloc_entry [OF assms] table_alloc_def)

lemma table_alloc_old:
  assumes a: "table_alloc e e' n st P" and b: "is_block e n i k"
  shows "is_block e' n i k"
proof (rule is_block_cong [THEN iffD2, OF _ b])
  fix j assume "i \<le> j" "j < i + k"
  with b have "locked (e j)" by (rule is_blockD)
  with table_alloc_clear [OF a, of j] show "e' j = e j" by (auto simp: table_alloc_entry [OF a])
qed

lemma table_alloc_cases:
  assumes a: "table_alloc e e' n st P" and b: "is_block e' n i k"
  shows "is_block e n i k \<or> i = st \<and> k = P"
proof (cases "i = st")
  case True
  with b table_alloc_new [OF a] show ?thesis using is_block_unique by blast
next
  case False
  have "starts (e' i)" using b is_block_start by blast
  with False have out: "\<not> (st \<le> i \<and> i < st + P)"
    using table_alloc_clear [OF a] by (auto simp: table_alloc_entry [OF a])
  have "e j = e' j" if j: "i \<le> j" "j < i + k" for j
  proof (cases "st \<le> j \<and> j < st + P")
    case True
    have "starts (e' st) \<longleftrightarrow> st = i" using j True out by (intro is_blockD [OF b]) auto
    then show ?thesis using table_alloc_new [OF a] is_block_start False by blast
  qed (auto simp: table_alloc_entry [OF a])
  then have "is_block e n i k" using b is_block_cong by blast
  then show ?thesis ..
qed

lemma table_alloc_blocks:
  "table_alloc e e' n st P \<Longrightarrow> is_block e' n i k \<longleftrightarrow> is_block e n i k \<or> i = st \<and> k = P"
  using table_alloc_new table_alloc_old table_alloc_cases by blast

lemma table_alloc_wf:
  assumes a: "table_alloc e e' n st P" shows "table_wf e' n"
  unfolding table_wf_def
proof (intro allI impI)
  fix i assume i: "i < n"
  show "if locked (e' i) then \<exists>b k. is_block e' n b k \<and> b \<le> i \<and> i < b + k
    else e' i = 0"
  proof (cases "st \<le> i \<and> i < st + P")
    case True
    then show ?thesis using table_alloc_new [OF a] by (auto simp: table_alloc_entry [OF a])
  next
    case False
    then have "e' i = e i" by (auto simp: table_alloc_entry [OF a])
    then show ?thesis using a i table_alloc_old [OF a] unfolding table_alloc_def table_wf_def by metis
  qed
qed

subsection \<open>Releasing removes one block\<close>

definition table_free :: "(nat \<Rightarrow> byte) \<Rightarrow> (nat \<Rightarrow> byte) \<Rightarrow> nat \<Rightarrow> nat \<Rightarrow> nat \<Rightarrow> bool" where
  "table_free e e' n st P \<longleftrightarrow> table_wf e n \<and> is_block e n st P \<and>
     (\<forall>j. e' j = (if st \<le> j \<and> j < st + P then 0 else e j))"

lemma table_free_blocks:
  assumes f: "table_free e e' n st P"
  shows "is_block e' n i k \<longleftrightarrow> is_block e n i k \<and> i \<noteq> st"
proof
  have entry: "e' j = (if st \<le> j \<and> j < st + P then 0 else e j)" for j
    using f by (simp add: table_free_def)
  have block: "is_block e n st P" using f by (simp add: table_free_def)
  {
    assume b: "is_block e' n i k"
    have same: "e j = e' j" if "i \<le> j" "j < i + k" for j
      using is_blockD(1) [OF b that] by (auto simp: entry split: if_splits)
    then have "is_block e n i k" using b is_block_cong by blast
    moreover have "i \<noteq> st"
      using is_block_start [OF b] block by (auto simp: entry is_block_def split: if_splits)
    ultimately show "is_block e n i k \<and> i \<noteq> st" ..
  next
    assume b: "is_block e n i k \<and> i \<noteq> st"
    then have "i + k \<le> st \<or> st + P \<le> i"
      using block is_block_disjoint by (meson linorder_neqE_nat)
    then have "e' j = e j" if "i \<le> j" "j < i + k" for j
      using that by (auto simp: entry)
    then show "is_block e' n i k" using b is_block_cong by blast
  }
qed

lemma table_free_wf:
  assumes f: "table_free e e' n st P" shows "table_wf e' n"
  unfolding table_wf_def
proof (intro allI impI)
  fix i assume i: "i < n"
  have wf: "table_wf e n" and entry: "e' i = (if st \<le> i \<and> i < st + P then 0 else e i)"
    using f by (simp_all add: table_free_def)
  show "if locked (e' i) then \<exists>b k. is_block e' n b k \<and> b \<le> i \<and> i < b + k
    else e' i = 0"
  proof (cases "locked (e' i)")
    case True
    then have out: "\<not> (st \<le> i \<and> i < st + P)" and "locked (e i)"
      using entry by (auto split: if_splits)
    with wf i obtain b k where bk: "is_block e n b k" "b \<le> i" "i < b + k"
      unfolding table_wf_def by metis
    have "b \<noteq> st" using out bk f is_block_unique unfolding table_free_def by blast
    with bk True table_free_blocks [OF f] show ?thesis by auto
  next
    case False
    with wf i entry show ?thesis unfolding table_wf_def by metis
  qed
qed

section \<open>The heap as a set of live blocks\<close>

text \<open>\<open>ent s\<close> is the page table of a state, \<open>live s\<close> its blocks as (address, bytes) pairs.\<close>

definition ent :: "'a heap_page_scheme \<Rightarrow> nat \<Rightarrow> byte" where
  "ent s j = (if j < unat (table_size s) then hmem s (of_nat j) else 0)"

definition heap_wf :: "'a heap_page_scheme \<Rightarrow> bool" where
  "heap_wf s \<longleftrightarrow> unat (table_size s) \<le> 25600 \<and> table_wf (ent s) (unat (table_size s))"

definition page_address :: "nat \<Rightarrow> u64" where
  "page_address i = BOBAOS_KERNEL_HEAP_ADDRESS + of_nat i * KHEAP_BLOCK_SIZE"

definition live :: "'a heap_page_scheme \<Rightarrow> (u64 \<times> nat) set" where
  "live s = {(page_address i, k * 4096) | i k. is_block (ent s) (unat (table_size s)) i k}"

text \<open>Requests for which rounding up to a page does not wrap around.\<close>

definition size_ok :: "u64 \<Rightarrow> bool" where
  "size_ok sz \<longleftrightarrow> 0 < sz \<and> unat sz + 4095 < 2 ^ 64"

definition pages_for :: "u64 \<Rightarrow> nat" where
  "pages_for sz = (unat sz + 4095) div 4096"

lemma unat_page_address:
  "i \<le> 25600 \<Longrightarrow> unat (page_address i) = 0x500000 + i * 4096"
  by (simp add: page_address_def heap_const_defs unat_word_ariths unat_of_nat)

lemma page_address_inject:
  assumes "i \<le> 25600" and "j \<le> 25600"
  shows "page_address i = page_address j \<longleftrightarrow> i = j"
proof
  assume "page_address i = page_address j"
  then have "0x500000 + i * 4096 = (0x500000 + j * 4096 :: nat)"
    using assms by (metis unat_page_address)
  then show "i = j" by simp
qed simp

lemma page_address_nonzero: "i \<le> 25600 \<Longrightarrow> page_address i \<noteq> 0"
  using unat_page_address [of i] by auto

subsection \<open>Rounding\<close>

lemma unat_mod_page: "unat (sz mod KHEAP_BLOCK_SIZE) = unat sz mod 4096"
  by (simp add: KHEAP_BLOCK_SIZE_def unat_mod_distrib)

lemma mod_page_eq_0: "sz mod KHEAP_BLOCK_SIZE = 0 \<longleftrightarrow> unat sz mod 4096 = 0"
  using unat_mod_page [of sz] by (metis unat_0 unat_eq_zero)

lemma sizeUpToPage_unat:
  "unat (sizeUpToPage sz) = ((unat sz + 4095) div 4096 * 4096) mod 2 ^ 64"
proof (cases "unat sz mod 4096 = 0")
  case True
  then have "(unat sz + 4095) div 4096 * 4096 = unat sz"
    using roundup_aligned [of 4096 "unat sz"] by simp
  with True show ?thesis
    using unat_less_pow64 [of sz] by (simp add: sizeUpToPage_def checkAlignment_def mod_page_eq_0)
next
  case False
  have "unat (KHEAP_BLOCK_SIZE - sz mod KHEAP_BLOCK_SIZE) = 4096 - unat sz mod 4096"
    using unat_mod_page [of sz]
    by (subst unat_sub) (simp_all add: word_le_nat_alt KHEAP_BLOCK_SIZE_def)
  moreover have "unat sz + (4096 - unat sz mod 4096) = (unat sz + 4095) div 4096 * 4096"
    using False roundup_unaligned [of "unat sz" 4096] by simp
  ultimately show ?thesis
    using False by (simp add: sizeUpToPage_def checkAlignment_def mod_page_eq_0 unat_word_ariths)
qed

lemma getPageCount_up: "getPageCount (sizeUpToPage sz) p = (0, sizeUpToPage sz div KHEAP_BLOCK_SIZE)"
proof -
  have "(2 :: nat) ^ 64 = 4096 * 2 ^ 52" by simp
  then have "unat (sizeUpToPage sz) mod 4096 = 0"
    by (simp only: sizeUpToPage_unat mod_mult_right_eq mod_mod_cancel dvd_triv_left)
      (simp add: mod_mod_cancel)
  then show ?thesis by (simp add: getPageCount_def mod_page_eq_0)
qed

lemma page_count_unat:
  assumes "size_ok sz"
  shows "unat (sizeUpToPage sz div KHEAP_BLOCK_SIZE) = pages_for sz"
proof -
  have "(unat sz + 4095) div 4096 < 2 ^ 52"
    using assms by (intro less_mult_imp_div_less) (simp add: size_ok_def)
  then show ?thesis
    by (simp add: unat_div_distrib sizeUpToPage_unat pages_for_def KHEAP_BLOCK_SIZE_def)
qed

lemma pages_for_pos: "size_ok sz \<Longrightarrow> 0 < pages_for sz"
  by (simp add: size_ok_def pages_for_def word_less_nat_alt div_greater_zero_iff)

subsection \<open>The scan on a well-formed table\<close>

lemma free_run_ent:
  assumes "S + P \<le> unat (table_size s)"
  shows "free_run (hmem s) S P \<longleftrightarrow> (\<forall>j < P. \<not> locked (ent s (S + j)))"
  using assms by (auto simp: free_run_def ent_def)

lemma scan_inv_start: "0 < P \<Longrightarrow> scan_inv m P 0 0"
  by (simp add: scan_inv_def free_run_def)

lemma findFreePages_cases:
  assumes "unat (table_size s) \<le> 25600" and "0 < unat pc"
  obtains
    (full) "\<forall>S. S + unat pc \<le> unat (table_size s) \<longrightarrow> \<not> free_run (hmem s) S (unat pc)"
      "findFreePages pc 0 s = (- ENMEM, 0, s)"
  | (found) st where "st + unat pc \<le> unat (table_size s)" "free_run (hmem s) st (unat pc)"
      "\<forall>S < st. \<not> free_run (hmem s) S (unat pc)"
      "findFreePages pc 0 s =
        (0, page_address st, s\<lparr>hmem := markEntryTaken (of_nat st) pc (hmem s)\<rparr>)"
proof -
  let ?r = "findFreePages_scan (unat (table_size s)) 0 0 pc (hmem s)"
  from findFreePages_scan_spec [OF scan_inv_start [OF assms(2)], of "unat (table_size s)" "hmem s",
      unfolded add_0 of_nat_0]
  have spec: "case ?r of
      None \<Rightarrow> \<forall>S. S + unat pc \<le> unat (table_size s) \<longrightarrow> \<not> free_run (hmem s) S (unat pc)
    | Some st \<Rightarrow> \<exists>S. st = of_nat S \<and> S + unat pc \<le> unat (table_size s) \<and>
        free_run (hmem s) S (unat pc) \<and> (\<forall>S' < S. \<not> free_run (hmem s) S' (unat pc))"
    using assms(1) by simp
  show thesis
  proof (cases ?r)
    case None
    with spec show ?thesis by (intro full) (simp_all add: findFreePages_def)
  next
    case (Some w)
    with spec obtain S where "w = of_nat S" "S + unat pc \<le> unat (table_size s)"
      "free_run (hmem s) S (unat pc)" "\<forall>S' < S. \<not> free_run (hmem s) S' (unat pc)" by auto
    with Some show ?thesis
      by (intro found [of S]) (simp_all add: findFreePages_def page_address_def)
  qed
qed

text \<open>Zeroing a block of the heap leaves the page table alone.\<close>

lemma memset_heap_table:
  assumes "st + P \<le> 25600" and "unat sz = P * 4096" and "j < 25600"
  shows "memset (page_address st) 0 sz m (of_nat j) = m (of_nat j)"
proof -
  have "unat (of_nat j - page_address st) = j + 2 ^ 64 - (0x500000 + st * 4096)"
    using assms by (subst unat_sub_if') (simp add: unat_page_address unat_of_nat)
  moreover have "st * 4096 + P * 4096 \<le> 104857600" using assms(1) by simp
  ultimately have "\<not> unat (of_nat j - page_address st) < unat sz" using assms(2) by simp
  then show ?thesis by (simp only: memset_apply if_False)
qed

lemma ent_marked:
  assumes "unat (table_size s) \<le> 25600" and "st + unat pc \<le> unat (table_size s)"
    and "unat sz = unat pc * 4096"
    and "s' = s\<lparr>hmem := memset (page_address st) 0 sz (markEntryTaken (of_nat st) pc (hmem s))\<rparr>"
  shows "ent s' j =
    (if st \<le> j \<and> j < st + unat pc then mark (unat pc) (j - st) (ent s j) else ent s j)"
proof (cases "j < unat (table_size s)")
  case True
  have "unat (of_nat j - of_nat st :: u64) = (if st \<le> j then j - st else j + 2 ^ 64 - st)"
    using True assms by (subst unat_sub_if') (auto simp: unat_of_nat)
  with True assms show ?thesis
    by (auto simp: ent_def memset_heap_table [of st "unat pc"] markEntryTaken_apply
        simp del: memset_apply)
next
  case False
  with assms show ?thesis by (simp add: ent_def)
qed

section \<open>Allocation\<close>

lemma table_alloc_state:
  assumes "heap_wf s" and "st + unat pc \<le> unat (table_size s)" and "0 < unat pc"
    and "free_run (hmem s) st (unat pc)" and "unat sz = unat pc * 4096"
    and "s' = s\<lparr>hmem := memset (page_address st) 0 sz (markEntryTaken (of_nat st) pc (hmem s))\<rparr>"
  shows "table_alloc (ent s) (ent s') (unat (table_size s)) st (unat pc)"
  using assms ent_marked [of s st pc sz s'] free_run_ent [of st "unat pc" s]
  by (auto simp: table_alloc_def heap_wf_def)

lemma live_alloc:
  assumes "table_alloc (ent s) (ent s') (unat (table_size s)) st P" and "table_size s' = table_size s"
  shows "live s' = insert (page_address st, P * 4096) (live s)"
  using table_alloc_blocks [OF assms(1)] assms(2) unfolding live_def by auto

text \<open>What a request of a positive, not wrapping size does, in all cases.\<close>

lemma kzallocPage_cases:
  assumes wf: "heap_wf s" and ok: "size_ok sz"
  obtains
    (full) "\<forall>S. S + pages_for sz \<le> unat (table_size s) \<longrightarrow> \<not> free_run (hmem s) S (pages_for sz)"
      "kzallocPage sz s = (0, s)"
  | (found) st s' where "st + pages_for sz \<le> unat (table_size s)"
      "\<forall>S < st. \<not> free_run (hmem s) S (pages_for sz)" "free_run (hmem s) st (pages_for sz)"
      "kzallocPage sz s = (page_address st, s')" "table_size s' = table_size s"
      "table_alloc (ent s) (ent s') (unat (table_size s)) st (pages_for sz)"
      "\<forall>x. unat (x - page_address st) < pages_for sz * 4096 \<longrightarrow> hmem s' x = 0"
proof -
  let ?pc = "sizeUpToPage sz div KHEAP_BLOCK_SIZE"
  have pc: "unat ?pc = pages_for sz" using page_count_unat [OF ok] .
  have n: "unat (table_size s) \<le> 25600" using wf by (simp add: heap_wf_def)
  have pos: "0 < unat ?pc" using pages_for_pos [OF ok] pc by simp
  show thesis
  proof (rule findFreePages_cases [OF n pos])
    assume "\<forall>S. S + unat ?pc \<le> unat (table_size s) \<longrightarrow> \<not> free_run (hmem s) S (unat ?pc)"
      "findFreePages ?pc 0 s = (- ENMEM, 0, s)"
    then show thesis by (intro full) (simp_all add: kzallocPage_def getPageCount_up pc)
  next
    fix st
    let ?s' = "s\<lparr>hmem := memset (page_address st) 0 (?pc * KHEAP_BLOCK_SIZE)
      (markEntryTaken (of_nat st) ?pc (hmem s))\<rparr>"
    assume st: "st + unat ?pc \<le> unat (table_size s)" "free_run (hmem s) st (unat ?pc)"
      "\<forall>S < st. \<not> free_run (hmem s) S (unat ?pc)"
      "findFreePages ?pc 0 s = (0, page_address st,
         s\<lparr>hmem := markEntryTaken (of_nat st) ?pc (hmem s)\<rparr>)"
    have bytes: "unat (?pc * KHEAP_BLOCK_SIZE) = unat ?pc * 4096"
      using st(1) n by (simp add: KHEAP_BLOCK_SIZE_def unat_word_ariths)
    show thesis
      by (rule found [of st ?s'])
        (use st pc bytes table_alloc_state [OF wf st(1) pos st(2) bytes refl]
          in \<open>simp_all add: kzallocPage_def getPageCount_up\<close>)
  qed
qed

lemma heap_wf_alloc:
  "table_alloc (ent s) (ent s') (unat (table_size s)) st P \<Longrightarrow> table_size s' = table_size s \<Longrightarrow>
   heap_wf s \<Longrightarrow> heap_wf s'"
  by (simp add: heap_wf_def table_alloc_wf)

lemma live_bounds:
  assumes "heap_wf s" and "(a, l) \<in> live s"
  obtains i k where "a = page_address i" "l = k * 4096" "0 < k" "i + k \<le> unat (table_size s)"
    "is_block (ent s) (unat (table_size s)) i k" "unat a = 0x500000 + i * 4096"
  using assms unat_page_address by (fastforce simp: live_def heap_wf_def is_block_def)

lemma live_disjoint:
  assumes "heap_wf s" and "(a, l) \<in> live s" and "(b, k) \<in> live s" and "(a, l) \<noteq> (b, k)"
  shows "unat a + l \<le> unat b \<or> unat b + k \<le> unat a"
proof -
  obtain i ki where i: "a = page_address i" "l = ki * 4096" "unat a = 0x500000 + i * 4096"
    "is_block (ent s) (unat (table_size s)) i ki" using assms by (elim live_bounds)
  obtain j kj where j: "b = page_address j" "k = kj * 4096" "unat b = 0x500000 + j * 4096"
    "is_block (ent s) (unat (table_size s)) j kj" using assms by (elim live_bounds)
  have "i \<noteq> j" using i j assms(4) is_block_unique by blast
  then consider "i + ki \<le> j" | "j + kj \<le> i"
    using i(4) j(4) is_block_disjoint by (meson linorder_neqE_nat)
  then show ?thesis
  proof cases
    case 1
    then have "(i + ki) * 4096 \<le> j * 4096" by (rule mult_le_mono1)
    then show ?thesis using i j by (simp add: add_mult_distrib)
  next
    case 2
    then have "(j + kj) * 4096 \<le> i * 4096" by (rule mult_le_mono1)
    then show ?thesis using i j by (simp add: add_mult_distrib)
  qed
qed

lemma pages_for_bytes: "unat sz \<le> pages_for sz * 4096"
  unfolding pages_for_def by linarith

section \<open>Release\<close>

text \<open>For pages below \<open>2^31\<close> the \<^verbatim>\<open>int\<close> index survives the conversion back to 64 bits.\<close>

lemma addressToTableIndex_page:
  assumes "i < 2 ^ 31"
  shows "scast (addressToTableIndex (page_address i) s) = (of_nat i :: u64)"
proof -
  have pa: "unat (page_address i) = 0x500000 + i * 4096"
    using assms by (simp add: page_address_def heap_const_defs unat_word_ariths unat_of_nat)
  have ge: "\<not> page_address i < BOBAOS_KERNEL_HEAP_ADDRESS"
    using pa by (simp add: word_less_nat_alt BOBAOS_KERNEL_HEAP_ADDRESS_def)
  have "(page_address i - BOBAOS_KERNEL_HEAP_ADDRESS) div KHEAP_BLOCK_SIZE = of_nat i"
    using assms by (simp add: word_unat_eq_iff page_address_def unat_div_distrib
        KHEAP_BLOCK_SIZE_def unat_word_ariths unat_of_nat)
  with ge have "addressToTableIndex (page_address i) s = ucast (of_nat i :: u64)"
    by (simp add: addressToTableIndex_def)
  with assms show ?thesis by (simp add: scast_small32 unat_ucast_32)
qed

lemma kzfreePage_page:
  assumes "i < 2 ^ 31"
  shows "kzfreePage (page_address i) s =
    (if starts (hmem s (of_nat i)) then (0, s\<lparr>hmem := freeAllocatedMemory (of_nat i) (hmem s)\<rparr>)
     else (- EIARG, s))"
proof -
  have "unat (page_address i) = (0x500 + i) * 4096"
    using assms by (simp add: page_address_def heap_const_defs unat_word_ariths unat_of_nat)
  then have "checkAlignment (page_address i) = 0"
    by (simp add: checkAlignment_def mod_page_eq_0)
  then show ?thesis
    using addressToTableIndex_page [OF assms, of s]
    by (simp add: kzfreePage_def flags_fold Let_def)
qed

lemma table_free_state:
  assumes wf: "heap_wf s" and b: "is_block (ent s) (unat (table_size s)) i k"
    and s': "s' = s\<lparr>hmem := freeAllocatedMemory (of_nat i) (hmem s)\<rparr>"
  shows "table_free (ent s) (ent s') (unat (table_size s)) i k"
proof -
  let ?n = "unat (table_size s)"
  have n: "?n \<le> 25600" and k: "0 < k" "i + k \<le> ?n" using wf b by (auto simp: heap_wf_def is_block_def)
  have e: "hmem s (of_nat i + of_nat j) = ent s (i + j)" if "j < k" for j
    using that k by (simp add: ent_def)
  have "freeAllocatedMemory (of_nat i) (hmem s) x =
      (if unat (x - of_nat i) \<le> k - 1 then 0 else hmem s x)" for x
  proof (rule freeAllocatedMemory_apply)
    show "\<forall>j < k - 1. nexts (hmem s (of_nat i + of_nat j))"
      using e is_blockD(2) [OF b] by auto
    show "\<not> nexts (hmem s (of_nat i + of_nat (k - 1)))"
      using e [of "k - 1"] is_blockD(2) [OF b, of "i + (k - 1)"] k by simp
  qed (use n k in simp)
  moreover have "unat (of_nat j - of_nat i :: u64) = (if i \<le> j then j - i else j + 2 ^ 64 - i)"
    if "j < ?n" for j
    using that n k by (subst unat_sub_if') (auto simp: unat_of_nat)
  ultimately have "ent s' j = (if i \<le> j \<and> j < i + k then 0 else ent s j)" for j
    using n k s' by (auto simp: ent_def)
  with wf b show ?thesis by (simp add: table_free_def heap_wf_def)
qed

lemma kzfreePage_live:
  assumes wf: "heap_wf s" and l: "(a, l) \<in> live s"
  obtains s' where "kzfreePage a s = (0, s')" "heap_wf s'" "live s' = live s - {(a, l)}"
    "table_size s' = table_size s"
proof -
  obtain i k where i: "a = page_address i" "l = k * 4096" "0 < k" "i + k \<le> unat (table_size s)"
    and b: "is_block (ent s) (unat (table_size s)) i k" using assms by (elim live_bounds)
  have n: "unat (table_size s) \<le> 25600" using wf by (simp add: heap_wf_def)
  define s' where "s' = s\<lparr>hmem := freeAllocatedMemory (of_nat i) (hmem s)\<rparr>"
  have f: "table_free (ent s) (ent s') (unat (table_size s)) i k"
    using table_free_state [OF wf b s'_def] .
  have "starts (hmem s (of_nat i))" using is_block_start [OF b] by (auto simp: ent_def split: if_splits)
  then have res: "kzfreePage a s = (0, s')"
    using i n by (simp add: kzfreePage_page s'_def)
  have ts: "table_size s' = table_size s" by (simp add: s'_def)
  let ?B = "is_block (ent s) (unat (table_size s))"
  have "live s' = live s - {(a, l)}"
  proof (intro set_eqI iffI)
    fix p assume "p \<in> live s'"
    then obtain j kj where j: "p = (page_address j, kj * 4096)" "?B j kj" "j \<noteq> i"
      unfolding live_def ts using table_free_blocks [OF f] by blast
    then have "j \<le> 25600" using n by (simp add: is_block_def)
    then have "page_address j \<noteq> page_address i" using j(3) i n by (simp add: page_address_inject)
    with j i show "p \<in> live s - {(a, l)}" unfolding live_def by blast
  next
    fix p assume "p \<in> live s - {(a, l)}"
    then obtain j kj where j: "p = (page_address j, kj * 4096)" "?B j kj" "p \<noteq> (a, l)"
      unfolding live_def by blast
    then have "j \<noteq> i" using is_block_unique [OF b] i by blast
    with j(1,2) show "p \<in> live s'" unfolding live_def ts using table_free_blocks [OF f] by blast
  qed
  with that res ts show thesis using table_free_wf [OF f] wf by (simp add: heap_wf_def)
qed

section \<open>Properties of the page allocator\<close>

lemma live_disjoint_new:
  assumes "heap_wf s'" and "live s' = insert (a, l) (live s)" and "(b, k) \<in> live s" and "a \<noteq> b"
  shows "unat a + l \<le> unat b \<or> unat b + k \<le> unat a"
  by (rule live_disjoint [OF assms(1)]) (use assms in auto)

lemma alloc_fresh_address:
  assumes wf: "heap_wf s" and a: "table_alloc (ent s) (ent s') (unat (table_size s)) st P"
    and b: "(b, k) \<in> live s"
  shows "page_address st \<noteq> b"
proof -
  obtain i ki where i: "b = page_address i" "i + ki \<le> unat (table_size s)"
    "is_block (ent s) (unat (table_size s)) i ki" using wf b by (elim live_bounds)
  have "ent s st = 0" using table_alloc_clear [OF a, of st] a by (simp add: table_alloc_def)
  then have "st \<noteq> i" using is_block_start [OF i(3)] by auto
  then show ?thesis
    using i a wf page_address_inject [of st i] by (auto simp: table_alloc_def heap_wf_def)
qed

text \<open>
  Property C1. A successful request keeps the table well formed, adds exactly one live block at
  the returned address, of at least the requested size, disjoint from every block that was live
  before, and zeroed.
\<close>

theorem kzallocPage_sound:
  assumes wf: "heap_wf s" and ok: "size_ok sz" and res: "kzallocPage sz s = (a, s')" and "a \<noteq> 0"
  shows "heap_wf s' \<and> live s' = insert (a, pages_for sz * 4096) (live s) \<and>
    unat sz \<le> pages_for sz * 4096 \<and>
    (\<forall>(b, l) \<in> live s. unat a + pages_for sz * 4096 \<le> unat b \<or> unat b + l \<le> unat a) \<and>
    bytes_at (hmem s') a (pages_for sz * 4096) = replicate (pages_for sz * 4096) 0"
proof (rule kzallocPage_cases [OF wf ok])
  fix st t
  assume t: "st + pages_for sz \<le> unat (table_size s)" "kzallocPage sz s = (page_address st, t)"
    "table_size t = table_size s" "table_alloc (ent s) (ent t) (unat (table_size s)) st (pages_for sz)"
    "\<forall>x. unat (x - page_address st) < pages_for sz * 4096 \<longrightarrow> hmem t x = 0"
  with res have [simp]: "a = page_address st" "s' = t" by auto
  have wf': "heap_wf s'" using heap_wf_alloc [OF t(4,3) wf] by simp
  have lv: "live s' = insert (a, pages_for sz * 4096) (live s)" using live_alloc [OF t(4,3)] by simp
  have "pages_for sz * 4096 < 2 ^ 64" using t(1) wf by (simp add: heap_wf_def)
  then have "bytes_at (hmem s') a (pages_for sz * 4096) = replicate (pages_for sz * 4096) 0"
    using t(5) by (intro nth_equalityI) (auto simp: bytes_at_def unat_of_nat)
  moreover have "\<forall>(b, l) \<in> live s. unat a + pages_for sz * 4096 \<le> unat b \<or> unat b + l \<le> unat a"
    using live_disjoint_new [OF wf' lv] alloc_fresh_address [OF wf t(4)] by auto
  ultimately show ?thesis using wf' lv pages_for_bytes by blast
qed (use res \<open>a \<noteq> 0\<close> in auto)

text \<open>An empty heap of four pages, for the witnesses.\<close>

definition small_heap :: heap_page where
  "small_heap = \<lparr>hmem = \<lambda>_. 0, table_size = 4, tableMaxSize = 0x9FC00\<rparr>"

lemma small_heap_wf: "heap_wf small_heap" and small_heap_live: "live small_heap = {}"
  by (auto simp: heap_wf_def table_wf_def ent_def small_heap_def live_def is_block_def)

lemma size_ok_5000: "size_ok 5000" and pages_for_5000: "pages_for 5000 = 2"
  by (simp_all add: size_ok_def pages_for_def)

lemma small_heap_runs: "free_run (hmem small_heap) S P"
  by (simp add: free_run_def small_heap_def)

lemma small_heap_pages: "unat (table_size small_heap) = 4"
  by (simp add: small_heap_def)

lemma small_heap_first:
  obtains s' where "kzallocPage 5000 small_heap = (0x500000, s')" "table_size s' = table_size small_heap"
    "table_alloc (ent small_heap) (ent s') 4 0 2"
proof (rule kzallocPage_cases [OF small_heap_wf size_ok_5000], unfold pages_for_5000 small_heap_pages)
  fix st s'
  assume a: "\<forall>S < st. \<not> free_run (hmem small_heap) S 2"
    "kzallocPage 5000 small_heap = (page_address st, s')" "table_size s' = table_size small_heap"
    "table_alloc (ent small_heap) (ent s') 4 st 2"
  then have "st = 0" using small_heap_runs by blast
  with a that show thesis by (simp add: page_address_def heap_const_defs)
qed (use small_heap_runs in \<open>auto dest: spec [of _ 0]\<close>)

definition small_heap1 :: heap_page where
  "small_heap1 = snd (kzallocPage 5000 small_heap)"

lemma small_heap_alloc: "kzallocPage 5000 small_heap = (0x500000, small_heap1)"
  by (rule small_heap_first) (simp add: small_heap1_def)

lemma small_heap1_wf: "heap_wf small_heap1" and small_heap1_live: "live small_heap1 = {(0x500000, 8192)}"
proof -
  obtain s' where "s' = small_heap1" "table_size s' = table_size small_heap"
    and a: "table_alloc (ent small_heap) (ent s') 4 0 2"
    by (rule small_heap_first) (use small_heap_alloc in auto)
  moreover note a' = a [folded small_heap_pages]
  ultimately show "heap_wf small_heap1" "live small_heap1 = {(0x500000, 8192)}"
    using heap_wf_alloc [OF a'] small_heap_wf live_alloc [OF a'] small_heap_live
    by (simp_all add: page_address_def heap_const_defs)
qed

theorem kzallocPage_sound_witness:
  "heap_wf small_heap1 \<and> live small_heap1 = {(0x500000, 8192)}"
  using kzallocPage_sound [OF small_heap_wf size_ok_5000 small_heap_alloc]
  by (auto simp: pages_for_5000 small_heap_live)

text \<open>
  Property C2. The allocator is first fit and complete: it fails, leaving the state alone, exactly when
  no run of free pages is long enough, and otherwise returns the lowest such run.
\<close>

theorem kzallocPage_first_fit:
  assumes wf: "heap_wf s" and ok: "size_ok sz"
  defines "fits \<equiv> \<lambda>S. S + pages_for sz \<le> unat (table_size s) \<and>
    (\<forall>j < pages_for sz. \<not> locked (ent s (S + j)))"
  shows "if \<exists>S. fits S then \<exists>S. fits S \<and> (\<forall>S' < S. \<not> fits S') \<and> fst (kzallocPage sz s) = page_address S
    else kzallocPage sz s = (0, s)"
  using free_run_ent [of _ "pages_for sz" s]
  by (rule_tac kzallocPage_cases [OF wf ok]) (auto simp: fits_def)

theorem kzallocPage_first_fit_witness:
  "heap_wf small_heap \<and> kzallocPage 20000 small_heap = (0, small_heap)"
proof -
  have ok: "size_ok 20000" and p: "pages_for 20000 = 5" by (simp_all add: size_ok_def pages_for_def)
  show ?thesis
    using small_heap_wf kzallocPage_first_fit [OF small_heap_wf ok]
    unfolding p small_heap_pages by simp
qed

text \<open>
  Property C3. Releasing a live block succeeds, keeps the table well formed and removes exactly that
  block.
\<close>

theorem kzfreePage_releases:
  assumes "heap_wf s" and "(a, l) \<in> live s"
  shows "\<exists>s'. kzfreePage a s = (0, s') \<and> heap_wf s' \<and> live s' = live s - {(a, l)}"
  by (rule kzfreePage_live [OF assms]) blast

theorem kzfreePage_releases_witness:
  "\<exists>s'. kzfreePage 0x500000 small_heap1 = (0, s') \<and> live s' = {}"
  using kzfreePage_releases [OF small_heap1_wf] by (fastforce simp: small_heap1_live)

text \<open>
  Property C4. Releasing what was just allocated restores every entry of the page table.
\<close>

theorem kzallocPage_kzfreePage:
  assumes wf: "heap_wf s" and ok: "size_ok sz" and res: "kzallocPage sz s = (a, s')" and "a \<noteq> 0"
  shows "\<exists>s''. kzfreePage a s' = (0, s'') \<and> ent s'' = ent s"
proof (rule kzallocPage_cases [OF wf ok])
  fix st t
  assume t: "st + pages_for sz \<le> unat (table_size s)" "kzallocPage sz s = (page_address st, t)"
    "table_size t = table_size s" "table_alloc (ent s) (ent t) (unat (table_size s)) st (pages_for sz)"
  with res have [simp]: "a = page_address st" "s' = t" by auto
  let ?s'' = "s'\<lparr>hmem := freeAllocatedMemory (of_nat st) (hmem s')\<rparr>"
  have b: "is_block (ent s') (unat (table_size s')) st (pages_for sz)"
    using table_alloc_new [OF t(4)] t(3) by simp
  have f: "table_free (ent s') (ent ?s'') (unat (table_size s')) st (pages_for sz)"
    using table_free_state [OF _ b refl] heap_wf_alloc [OF t(4,3) wf] by simp
  have "starts (hmem s' (of_nat st))"
    using is_block_start [OF b] by (auto simp: ent_def split: if_splits)
  then have "kzfreePage a s' = (0, ?s'')"
    using t(1) wf by (simp add: kzfreePage_page heap_wf_def)
  moreover have "ent ?s'' = ent s"
  proof
    fix j
    have "ent ?s'' j = (if st \<le> j \<and> j < st + pages_for sz then 0 else ent s' j)"
      using f by (simp add: table_free_def)
    then show "ent ?s'' j = ent s j"
      using table_alloc_clear [OF t(4), of j] table_alloc_entry [OF t(4), of j] by auto
  qed
  ultimately show ?thesis by blast
qed (use res \<open>a \<noteq> 0\<close> in auto)

theorem kzallocPage_kzfreePage_witness:
  "\<exists>s''. kzfreePage 0x500000 small_heap1 = (0, s'') \<and> ent s'' = ent small_heap"
  using kzallocPage_kzfreePage [OF small_heap_wf size_ok_5000 small_heap_alloc] by simp

text \<open>
  Property C5. Initialisation succeeds exactly when the lower memory can hold the 25600 table bytes, and
  leaves a well-formed heap of 25600 free pages.
\<close>

theorem kheapInitPage_spec:
  "case kheapInitPage maxMem upperMem s of (ret, s') \<Rightarrow>
     if 25600 \<le> maxMem - upperMem
     then ret = 0 \<and> table_size s' = 25600 \<and> tableMaxSize s' = maxMem - upperMem \<and>
       heap_wf s' \<and> live s' = {}
     else ret = - ENMEM \<and> hmem s' = hmem s"
proof -
  have zero: "memset 0 0 25600 m (of_nat j) = 0" if "j < 25600" for m j
    using that by (simp add: unat_of_nat)
  show ?thesis
    using zero
    by (auto simp: kheapInitPage_def kheapInitTable_def heap_const_defs Let_def heap_wf_def
        table_wf_def live_def is_block_def ent_def not_less simp del: memset_apply)
qed

lemma kzallocPage_zero:
  assumes "0 < table_size s" and "locked (ent s 0)"
  shows "kzallocPage 0 s = (page_address 1, s)"
proof -
  obtain k where "unat (table_size s) = Suc k"
    using assms(1) by (metis gr0_implies_Suc word_less_nat_alt unat_0)
  moreover have "locked (hmem s 0)" using assms(2) by (auto simp: ent_def split: if_splits)
  ultimately have "findFreePages 0 0 s = (0, page_address 1, s)"
    by (simp add: findFreePages_def flags_fold page_address_def markEntryTaken_def)
  moreover have "memset x 0 0 m = m" for x m by (simp add: memset_def)
  ultimately show ?thesis
    by (simp add: kzallocPage_def sizeUpToPage_def checkAlignment_def getPageCount_def)
qed

text \<open>
  A request of zero bytes on a heap whose first page is taken returns the address of page 1
  and reserves nothing. If a block begins there, its owner and the new caller now share it, and the new
  caller's release frees the owner's block.
\<close>

theorem kzallocPage_zero_aliases:
  assumes wf: "heap_wf s" and p0: "0 < table_size s" "locked (ent s 0)" and l: "(page_address 1, l) \<in> live s"
  shows "kzallocPage 0 s = (page_address 1, s) \<and>
    (\<exists>s'. kzfreePage (page_address 1) s = (0, s') \<and> live s' = live s - {(page_address 1, l)})"
  using kzallocPage_zero [OF p0] kzfreePage_live [OF wf l] by metis

text \<open>
  The range check of \<^verbatim>\<open>addressToTableIndex\<close> does not look at the size of the table:
  releasing a page-aligned pointer above the heap inspects the byte of memory at the page index, and
  where that byte has the \<^verbatim>\<open>START\<close> bit the call succeeds and clears it.
\<close>

theorem kzfreePage_beyond_table:
  assumes "i < 2 ^ 31" and "unat (table_size s) \<le> i" and "starts (hmem s (of_nat i))"
    and "\<not> nexts (hmem s (of_nat i))"
  shows "\<exists>s'. kzfreePage (page_address i) s = (0, s') \<and>
    hmem s' = (hmem s)(of_nat i := 0) \<and> ent s' = ent s"
proof -
  have "freeAllocatedMemory (of_nat i) (hmem s) = (hmem s)(of_nat i := 0)"
    using freeAllocatedMemory_apply [of 0 "hmem s" "of_nat i"] assms(4) by (auto simp: unat_eq_0)
  moreover have "(of_nat j :: u64) \<noteq> of_nat i" if "j < unat (table_size s)" for j
    using that assms(1,2) unat_of_nat_small [of j, where 'a = 64] unat_of_nat_small [of i, where 'a = 64]
      unat_less_pow64 [of "table_size s"] by fastforce
  ultimately show ?thesis using assms by (auto simp: kzfreePage_page ent_def)
qed

theorem kzfreePage_beyond_table_witness:
  "\<exists>s'. kzfreePage (page_address 100) (small_heap\<lparr>hmem := (\<lambda>_. 0)(100 := 0x40)\<rparr>) = (0, s') \<and>
    hmem s' = ((\<lambda>_. 0)(100 := 0x40))(100 := 0)"
  using kzfreePage_beyond_table [of 100 "small_heap\<lparr>hmem := (\<lambda>_. 0)(100 := 0x40)\<rparr>"]
  by (auto simp: small_heap_def flag_bit bit_numeral_rec)

text \<open>Two one-page blocks at the bottom of the heap.\<close>

definition two_blocks :: heap_page where
  "two_blocks = small_heap\<lparr>hmem := (\<lambda>_. 0)(0 := 0x41, 1 := 0x41)\<rparr>"

lemma two_blocks_size: "table_size two_blocks = 4"
  by (simp add: two_blocks_def small_heap_def)

lemma two_blocks_ent: "ent two_blocks j = (if j < 2 then 0x41 else 0)"
proof -
  have "of_nat j = (0 :: u64) \<longleftrightarrow> j = 0" "of_nat j = (1 :: u64) \<longleftrightarrow> j = 1" if "j < 4"
    using that of_nat_eq_word_iff [of j "0 :: u64"] of_nat_eq_word_iff [of j "1 :: u64"] by simp_all
  then show ?thesis
    unfolding ent_def two_blocks_size by (auto simp: two_blocks_def)
qed

lemma two_blocks_block: "j < 2 \<Longrightarrow> is_block (ent two_blocks) 4 j 1"
  by (auto simp: is_block_def two_blocks_ent flag_bit bit_numeral_rec)

lemma two_blocks_wf: "heap_wf two_blocks"
proof -
  have "\<exists>b k. is_block (ent two_blocks) 4 b k \<and> b \<le> i \<and> i < b + k" if "i < 2" for i
    using two_blocks_block [OF that] by (intro exI [of _ i] exI [of _ 1]) simp
  then show ?thesis
    by (auto simp: heap_wf_def table_wf_def two_blocks_size two_blocks_ent flag_bit)
qed

theorem kzallocPage_zero_aliases_witness:
  "kzallocPage 0 two_blocks = (page_address 1, two_blocks) \<and> (page_address 1, 4096) \<in> live two_blocks"
proof -
  have "(page_address 1, 4096) \<in> live two_blocks"
    using two_blocks_block [of 1] by (force simp: live_def two_blocks_size)
  moreover have "0 < table_size two_blocks" by (simp add: two_blocks_size)
  moreover have "locked (ent two_blocks 0)" by (simp add: two_blocks_ent flag_bit bit_numeral_rec)
  ultimately show ?thesis using kzallocPage_zero_aliases [OF two_blocks_wf] by blast
qed

end
