(* ===== verification/Heap_Buddy.thy ===== *)
theory Heap_Buddy
  imports Heap_Page
begin

text \<open>
  The buddy allocator of \<^verbatim>\<open>memory/kheap/kheap_buddy.c\<close>. Every level has a table of packed
  18-byte entries; the free entries of a level form a doubly linked list whose head is the
  first entry of the table. Entries are kept in a store indexed by their address. A
  dereferenced \<^verbatim>\<open>NULL\<close> is the fault \<open>None\<close>.
\<close>

section \<open>State\<close>

record blockEntry =
  b_next :: u64
  b_prev :: u64
  b_lvl :: byte
  b_flags :: byte

record tableMetaData =
  maxEntries :: u64
  tableSize :: u64
  md_tableStartAddress :: u64
  blockSize :: u64

text \<open>
  The arrays \<^verbatim>\<open>lvlTable\<close> and \<^verbatim>\<open>tableMetaData\<close> have static storage: 32 elements, zero at the
  start. The code indexes them below \<^verbatim>\<open>maxLvl + 1\<close>, and \<^verbatim>\<open>detectMaxLvl\<close> returns at most 31.
\<close>

record heap_buddy = heap_page +
  bent :: "u64 \<Rightarrow> blockEntry"
  lvlTable :: "nat \<Rightarrow> u64"
  tmeta :: "nat \<Rightarrow> tableMetaData"
  tableStartAddress :: u64
  lowerMemorySize :: u64
  heapSize :: u64
  maxLvl :: u16
  maxPage :: u64
  minPage :: u64

datatype removeType = REMOVE_TYPE_SPLIT | REMOVE_TYPE_ALLOCATED | REMOVE_TYPE_MERGE

definition KHEAP_B_FLAG_FREE :: byte where "KHEAP_B_FLAG_FREE = 0x1"
definition KHEAP_B_FLAG_SPLITUP :: byte where "KHEAP_B_FLAG_SPLITUP = 0x2"
definition KHEAP_B_FLAG_ALLOCATED :: byte where "KHEAP_B_FLAG_ALLOCATED = 0x4"
definition KHEAP_B_FLAG_HAS_ENTRIES :: byte where "KHEAP_B_FLAG_HAS_ENTRIES = 0x80"
definition BOBAOS_KERNEL_HEAP_SMALLEST_PAGE :: u64 where "BOBAOS_KERNEL_HEAP_SMALLEST_PAGE = 0x400"
definition BOBAOS_KERNEL_HEAP_BIGGEST_PAGE :: u64 where "BOBAOS_KERNEL_HEAP_BIGGEST_PAGE = 0x20000"

lemmas buddy_const_defs =
  KHEAP_B_FLAG_FREE_def KHEAP_B_FLAG_SPLITUP_def KHEAP_B_FLAG_ALLOCATED_def
  KHEAP_B_FLAG_HAS_ENTRIES_def BOBAOS_KERNEL_HEAP_SMALLEST_PAGE_def
  BOBAOS_KERNEL_HEAP_BIGGEST_PAGE_def

text \<open>The size of a packed entry and pointer arithmetic on entries.\<close>

definition sizeof_blockEntry :: u64 where "sizeof_blockEntry = 18"

definition entry_at :: "u64 \<Rightarrow> u64 \<Rightarrow> u64" where
  "entry_at table i = table + i * sizeof_blockEntry"

definition deref :: "u64 \<Rightarrow> 'a heap_buddy_scheme \<Rightarrow> blockEntry option" where
  "deref p s = (if p = 0 then None else Some (bent s p))"

definition upd_entry ::
  "u64 \<Rightarrow> (blockEntry \<Rightarrow> blockEntry) \<Rightarrow> 'a heap_buddy_scheme \<Rightarrow> 'a heap_buddy_scheme option" where
  "upd_entry p f s = (if p = 0 then None else Some (s\<lparr>bent := (bent s)(p := f (bent s p))\<rparr>))"

section \<open>Initialisation\<close>

function toNextLvl_loop :: "u64 \<Rightarrow> u64 \<Rightarrow> u64" where
  "toNextLvl_loop n ret =
     (if n > 0 then toNextLvl_loop (drop_bit 1 n) (push_bit 1 ret) else ret)"
  by pat_completeness auto
termination
  by (relation "measure (\<lambda>(n, ret). unat n)")
    (auto simp: drop_bit_eq_div unat_div_distrib word_less_nat_alt)

declare toNextLvl_loop.simps [simp del]

definition toNextLvl :: "u64 \<Rightarrow> u64" where
  "toNextLvl n = (if n = 0 then 1 else toNextLvl_loop (n - 1) 1)"

text \<open>\<open>k\<close> rounds of the loop are left; the loop variable is \<open>32 - k\<close>.\<close>

primrec detectMaxLvl_loop :: "nat \<Rightarrow> u64 \<Rightarrow> nat" where
  "detectMaxLvl_loop 0 curPage = 0"
| "detectMaxLvl_loop (Suc k) curPage =
     (if curPage = BOBAOS_KERNEL_HEAP_SMALLEST_PAGE then 32 - Suc k
      else detectMaxLvl_loop k (curPage div 2))"

definition detectMaxLvl :: "u64 \<Rightarrow> u16" where
  "detectMaxLvl mp = of_nat (detectMaxLvl_loop 31 mp)"

primrec initLvlTable_list :: "nat \<Rightarrow> 'a heap_buddy_scheme \<Rightarrow> 'a heap_buddy_scheme" where
  "initLvlTable_list 0 s = s"
| "initLvlTable_list (Suc i) s =
     (let s = initLvlTable_list i s;
          n = maxEntries (tmeta s 0);
          p = entry_at (lvlTable s 0) (of_nat i);
          e = (bent s p)\<lparr>b_lvl := 0, b_flags := b_flags (bent s p) OR KHEAP_B_FLAG_FREE\<rparr>;
          e = (if i > 0 then e\<lparr>b_prev := entry_at (lvlTable s 0) (of_nat i - 1)\<rparr> else e);
          e = (if of_nat i + 1 \<noteq> n then e\<lparr>b_next := entry_at (lvlTable s 0) (of_nat i + 1)\<rparr> else e)
      in s\<lparr>bent := (bent s)(p := e)\<rparr>)"

definition initLvlTable :: "'a heap_buddy_scheme \<Rightarrow> 'a heap_buddy_scheme" where
  "initLvlTable s =
     (let s = s\<lparr>lvlTable := (\<lambda>i. if i < unat (maxLvl s) then md_tableStartAddress (tmeta s i)
                                  else lvlTable s i)\<rparr>
      in initLvlTable_list (unat (maxEntries (tmeta s 0))) s)"

text \<open>Rounds \<open>i\<close> to \<open>i + k\<close> of the loop of \<^verbatim>\<open>readMetaData\<close>.\<close>

primrec readMetaData_loop ::
  "nat \<Rightarrow> nat \<Rightarrow> u64 \<Rightarrow> u64 \<Rightarrow> 'a heap_buddy_scheme \<Rightarrow> 'a heap_buddy_scheme" where
  "readMetaData_loop 0 i currentBlockSize currentAddress s = s"
| "readMetaData_loop (Suc k) i currentBlockSize currentAddress s =
     (let entries = heapSize s div currentBlockSize;
          data = \<lparr>maxEntries = entries, tableSize = entries * sizeof_blockEntry,
                  md_tableStartAddress = currentAddress, blockSize = currentBlockSize\<rparr>
      in readMetaData_loop k (Suc i) (drop_bit 1 currentBlockSize)
           (currentAddress + tableSize data) (s\<lparr>tmeta := (tmeta s)(i := data)\<rparr>))"

definition readMetaData :: "'a heap_buddy_scheme \<Rightarrow> (int \<times> 'a heap_buddy_scheme) option" where
  "readMetaData s =
     (let s = readMetaData_loop (unat (maxLvl s)) 0 (maxPage s) (tableStartAddress s) s
      in if maxLvl s = 0 then None
         else let data = tmeta s (unat (maxLvl s) - 1)
              in Some (if md_tableStartAddress data + tableSize data > lowerMemorySize s then - ENMEM
                       else 0, s))"

text \<open>The search for the biggest page never ends when halving misses it.\<close>

partial_function (option) biggestPage :: "u64 \<Rightarrow> u64 option" where
  "biggestPage p =
     (if p \<noteq> BOBAOS_KERNEL_HEAP_BIGGEST_PAGE then biggestPage (p div 2) else Some p)"

definition kheapInitBuddy ::
  "u64 \<Rightarrow> u64 \<Rightarrow> 'a heap_buddy_scheme \<Rightarrow> (int \<times> 'a heap_buddy_scheme) option" where
  "kheapInitBuddy maxMem upperMem s = do {
     let start = BOBAOS_KERNEL_HEAP_TABLE_ADDRESS;
     let start = (if start = 0 then start + sizeof_blockEntry else start);
     let hs = toNextLvl BOBAOS_KERNEL_HEAP_SIZE;
     let s = s\<lparr>tableStartAddress := start, lowerMemorySize := maxMem - upperMem, heapSize := hs\<rparr>;
     mp \<leftarrow> biggestPage hs;
     let ml = detectMaxLvl mp;
     let mn = ((\<lambda>p. p div 2) ^^ (unat ml - 1)) mp;
     let s = s\<lparr>maxPage := mp, maxLvl := ml, minPage := mn\<rparr>;
     if mn \<noteq> BOBAOS_KERNEL_HEAP_SMALLEST_PAGE then Some (- ENMEM, s)
     else do {
       (r, s) \<leftarrow> readMetaData s;
       if r < 0 then Some (- ENMEM, s)
       else Some (0, initLvlTable
         (s\<lparr>hmem := memset start 0 (lowerMemorySize s) (hmem s),
            bent := (\<lambda>p. if unat (p - start) < unat (lowerMemorySize s)
                         then \<lparr>b_next = 0, b_prev = 0, b_lvl = 0, b_flags = 0\<rparr> else bent s p)\<rparr>))
     }
   }"

section \<open>Navigation\<close>

definition addressIsABlock :: "u64 \<Rightarrow> int" where "addressIsABlock address = 1"

definition lvlToBlockSize :: "u16 \<Rightarrow> 'a heap_buddy_scheme \<Rightarrow> u64" where
  "lvlToBlockSize lvl s = blockSize (tmeta s (unat lvl))"

primrec findLvlForBlock_loop :: "nat \<Rightarrow> u64 \<Rightarrow> 'a heap_buddy_scheme \<Rightarrow> int" where
  "findLvlForBlock_loop 0 block s = - ENFOUND"
| "findLvlForBlock_loop (Suc searchLvl) block s =
     (if blockSize (tmeta s searchLvl) = block then int searchLvl
      else findLvlForBlock_loop searchLvl block s)"

definition findLvlForBlock :: "u64 \<Rightarrow> 'a heap_buddy_scheme \<Rightarrow> int" where
  "findLvlForBlock block s = findLvlForBlock_loop (unat (maxLvl s)) block s"

definition entry_index :: "u64 \<Rightarrow> blockEntry \<Rightarrow> 'a heap_buddy_scheme \<Rightarrow> u64" where
  "entry_index p e s = (p - lvlTable s (unat (b_lvl e))) div sizeof_blockEntry"

definition getHigherTableEntryAddressFromBlock :: "u64 \<Rightarrow> 'a heap_buddy_scheme \<Rightarrow> u64 option" where
  "getHigherTableEntryAddressFromBlock entry s = do {
     e \<leftarrow> deref entry s;
     if unat (b_lvl e) + 1 = unat (maxLvl s) then Some 0
     else Some (entry_at (lvlTable s (unat (b_lvl e) + 1)) (entry_index entry e s * 2))
   }"

definition getLowerTableEntryAddressFromBlock :: "u64 \<Rightarrow> 'a heap_buddy_scheme \<Rightarrow> u64 option" where
  "getLowerTableEntryAddressFromBlock entry s = do {
     e \<leftarrow> deref entry s;
     if b_lvl e = 0 then Some 0
     else Some (entry_at (lvlTable s (unat (b_lvl e) - 1)) (entry_index entry e s div 2))
   }"

definition getFreeEntry :: "nat \<Rightarrow> 'a heap_buddy_scheme \<Rightarrow> u64 option" where
  "getFreeEntry lvl s = do {
     h \<leftarrow> deref (lvlTable s lvl) s;
     if b_flags h AND KHEAP_B_FLAG_HAS_ENTRIES \<noteq> 0 then
       if b_flags h AND KHEAP_B_FLAG_FREE \<noteq> 0 then Some (lvlTable s lvl) else Some (b_next h)
     else Some 0
   }"

definition getBuddy :: "u64 \<Rightarrow> 'a heap_buddy_scheme \<Rightarrow> u64 option" where
  "getBuddy entry s = do {
     e \<leftarrow> deref entry s;
     let asd = (if entry_index entry e s mod 2 = 0 then 1 else - 1);
     Some (entry_at entry asd)
   }"

definition entryToHeapAddress :: "u64 \<Rightarrow> 'a heap_buddy_scheme \<Rightarrow> u64 option" where
  "entryToHeapAddress entry s = do {
     e \<leftarrow> deref entry s;
     Some (BOBAOS_KERNEL_HEAP_ADDRESS + entry_index entry e s * lvlToBlockSize (ucast (b_lvl e)) s)
   }"

primrec heapAddressToEntry_loop :: "nat \<Rightarrow> nat \<Rightarrow> u64 \<Rightarrow> u64 \<Rightarrow> 'a heap_buddy_scheme \<Rightarrow> u64 option" where
  "heapAddressToEntry_loop 0 curLvl curPage offsetInHeap s = Some 0"
| "heapAddressToEntry_loop (Suc k) curLvl curPage offsetInHeap s = do {
     let entry = entry_at (lvlTable s curLvl) (offsetInHeap div curPage);
     e \<leftarrow> deref entry s;
     if b_flags e AND KHEAP_B_FLAG_ALLOCATED \<noteq> 0 then Some entry
     else heapAddressToEntry_loop k (Suc curLvl) (drop_bit 1 curPage) offsetInHeap s
   }"

definition heapAddressToEntry :: "u64 \<Rightarrow> 'a heap_buddy_scheme \<Rightarrow> u64 option" where
  "heapAddressToEntry address s =
     heapAddressToEntry_loop (unat (maxLvl s)) 0 (maxPage s) (address - BOBAOS_KERNEL_HEAP_ADDRESS) s"

section \<open>The free lists\<close>

definition set_next :: "u64 \<Rightarrow> u64 \<Rightarrow> 'a heap_buddy_scheme \<Rightarrow> 'a heap_buddy_scheme option" where
  "set_next p v s = upd_entry p (\<lambda>e. e\<lparr>b_next := v\<rparr>) s"

definition set_prev :: "u64 \<Rightarrow> u64 \<Rightarrow> 'a heap_buddy_scheme \<Rightarrow> 'a heap_buddy_scheme option" where
  "set_prev p v s = upd_entry p (\<lambda>e. e\<lparr>b_prev := v\<rparr>) s"

definition or_flags :: "u64 \<Rightarrow> byte \<Rightarrow> 'a heap_buddy_scheme \<Rightarrow> 'a heap_buddy_scheme option" where
  "or_flags p v s = upd_entry p (\<lambda>e. e\<lparr>b_flags := b_flags e OR v\<rparr>) s"

definition and_flags :: "u64 \<Rightarrow> byte \<Rightarrow> 'a heap_buddy_scheme \<Rightarrow> 'a heap_buddy_scheme option" where
  "and_flags p v s = upd_entry p (\<lambda>e. e\<lparr>b_flags := b_flags e AND v\<rparr>) s"

definition removeEntry ::
  "u64 \<Rightarrow> removeType \<Rightarrow> 'a heap_buddy_scheme \<Rightarrow> (int \<times> 'a heap_buddy_scheme) option" where
  "removeEntry entry type s = do {
     e \<leftarrow> deref entry s;
     if b_flags e AND KHEAP_B_FLAG_FREE = 0 then Some (- EIARG, s)
     else do {
       s \<leftarrow> and_flags entry (NOT KHEAP_B_FLAG_FREE) s;
       let head = lvlTable s (unat (b_lvl e));
       s \<leftarrow> (if entry \<noteq> head then do {
           s \<leftarrow> (if b_prev e \<noteq> 0 then set_next (b_prev e) (b_next e) s else Some s);
           e \<leftarrow> deref entry s;
           s \<leftarrow> (if b_next e \<noteq> 0 then do {
               s \<leftarrow> set_prev (b_next e) (b_prev e) s;
               e \<leftarrow> deref entry s;
               h \<leftarrow> deref head s;
               (if b_prev e = 0 \<and> b_next h = entry then set_next head (b_next e) s else Some s)
             } else Some s);
           e \<leftarrow> deref entry s;
           s \<leftarrow> (if b_prev e = 0 \<and> b_next e = 0 then do {
               s \<leftarrow> and_flags head (NOT KHEAP_B_FLAG_HAS_ENTRIES) s;
               set_next head 0 s
             } else Some s);
           s \<leftarrow> set_next entry 0 s;
           set_prev entry 0 s
         } else
           (if b_next e \<noteq> 0 then do {
               s \<leftarrow> set_prev (b_next e) 0 s;
               or_flags entry KHEAP_B_FLAG_HAS_ENTRIES s
             } else Some s));
       (case type of
          REMOVE_TYPE_SPLIT \<Rightarrow> do { s \<leftarrow> or_flags entry KHEAP_B_FLAG_SPLITUP s; Some (0, s) }
        | REMOVE_TYPE_ALLOCATED \<Rightarrow> do { s \<leftarrow> or_flags entry KHEAP_B_FLAG_ALLOCATED s; Some (0, s) }
        | REMOVE_TYPE_MERGE \<Rightarrow> Some (0, s))
     }
   }"

definition addEntry ::
  "u64 \<Rightarrow> nat \<Rightarrow> 'a heap_buddy_scheme \<Rightarrow> (int \<times> 'a heap_buddy_scheme) option" where
  "addEntry newEntry lvl s =
     (if newEntry < md_tableStartAddress (tmeta s lvl) \<and>
         newEntry > md_tableStartAddress (tmeta s lvl) + tableSize (tmeta s lvl)
      then Some (- EIARG, s)
      else do {
        s \<leftarrow> upd_entry newEntry (\<lambda>e. e\<lparr>b_lvl := of_nat lvl\<rparr>) s;
        let head = lvlTable s lvl;
        h \<leftarrow> deref head s;
        s \<leftarrow> (if b_flags h AND KHEAP_B_FLAG_HAS_ENTRIES = 0 then
               (if head \<noteq> newEntry then set_next head newEntry s else Some s)
             else if newEntry \<noteq> head then do {
               s \<leftarrow> (if b_flags h AND KHEAP_B_FLAG_FREE = 0 then set_prev newEntry 0 s
                     else set_prev newEntry head s);
               h \<leftarrow> deref head s;
               s \<leftarrow> set_next newEntry (b_next h) s;
               s \<leftarrow> set_prev (b_next h) newEntry s;
               set_next head newEntry s
             } else set_prev (b_next h) head s);
        s \<leftarrow> or_flags head KHEAP_B_FLAG_HAS_ENTRIES s;
        s \<leftarrow> or_flags newEntry KHEAP_B_FLAG_FREE s;
        s \<leftarrow> and_flags newEntry (NOT (KHEAP_B_FLAG_SPLITUP OR KHEAP_B_FLAG_ALLOCATED)) s;
        Some (0, s)
      })"

section \<open>Splitting and merging\<close>

definition splitEntryUp :: "nat \<Rightarrow> 'a heap_buddy_scheme \<Rightarrow> (u64 \<times> 'a heap_buddy_scheme) option" where
  "splitEntryUp lvl s =
     (if lvl + 1 = unat (maxLvl s) then Some (0, s)
      else do {
        let head = lvlTable s lvl;
        h \<leftarrow> deref head s;
        let entry = (if b_flags h AND KHEAP_B_FLAG_FREE = 0 then
            (if b_flags h AND KHEAP_B_FLAG_HAS_ENTRIES \<noteq> 0 then Some (b_next h) else None)
          else Some head);
        (case entry of None \<Rightarrow> Some (0, s)
         | Some entry \<Rightarrow> do {
             newStartAddr \<leftarrow> getHigherTableEntryAddressFromBlock entry s;
             e \<leftarrow> deref entry s;
             (if entry_at newStartAddr 1 \<ge> lvlTable s (unat (b_lvl e) + 2) then Some (0, s)
              else do {
                (_, s) \<leftarrow> removeEntry entry REMOVE_TYPE_SPLIT s;
                (_, s) \<leftarrow> addEntry newStartAddr (unat (b_lvl e) + 1) s;
                e \<leftarrow> deref entry s;
                (_, s) \<leftarrow> addEntry (entry_at newStartAddr 1) (unat (b_lvl e) + 1) s;
                Some (newStartAddr, s)
              })
           })
      })"

text \<open>\<open>k\<close> levels from \<open>lvl\<close> on, the result being that of the last split.\<close>

primrec splitAndReturn_loop ::
  "nat \<Rightarrow> nat \<Rightarrow> u64 \<Rightarrow> 'a heap_buddy_scheme \<Rightarrow> (u64 \<times> 'a heap_buddy_scheme) option" where
  "splitAndReturn_loop 0 lvl entry s = Some (entry, s)"
| "splitAndReturn_loop (Suc k) lvl entry s = do {
     (entry, s) \<leftarrow> splitEntryUp lvl s;
     splitAndReturn_loop k (Suc lvl) entry s
   }"

definition splitAndReturn ::
  "nat \<Rightarrow> nat \<Rightarrow> 'a heap_buddy_scheme \<Rightarrow> (u64 \<times> 'a heap_buddy_scheme) option" where
  "splitAndReturn startLvl endLvl s = splitAndReturn_loop (endLvl - startLvl) startLvl 0 s"

definition clearFlags :: "u64 \<Rightarrow> 'a heap_buddy_scheme \<Rightarrow> 'a heap_buddy_scheme option" where
  "clearFlags entry s = and_flags entry 0 s"

text \<open>
  Every recursive call of \<^verbatim>\<open>merge\<close> is one level further down and level 0 returns at once, so
  the 256 values of the level byte bound the recursion; \<open>kzfreeBuddy\<close> passes that bound.
\<close>

primrec merge :: "nat \<Rightarrow> u64 \<Rightarrow> u64 \<Rightarrow> 'a heap_buddy_scheme \<Rightarrow> 'a heap_buddy_scheme option" where
  "merge 0 block1 block2 s = None"
| "merge (Suc fuel) block1 block2 s = do {
     e1 \<leftarrow> deref block1 s;
     if b_lvl e1 = 0 then Some s
     else do {
       e2 \<leftarrow> deref block2 s;
       if b_lvl e1 \<noteq> b_lvl e2 then Some s
       else do {
         (_, s) \<leftarrow> removeEntry block1 REMOVE_TYPE_MERGE s;
         (_, s) \<leftarrow> removeEntry block2 REMOVE_TYPE_MERGE s;
         s \<leftarrow> clearFlags block1 s;
         s \<leftarrow> clearFlags block2 s;
         newBlock \<leftarrow> getLowerTableEntryAddressFromBlock block1 s;
         (_, s) \<leftarrow> addEntry newBlock (unat (b_lvl e1) - 1) s;
         newBuddy \<leftarrow> getBuddy newBlock s;
         nb \<leftarrow> deref newBuddy s;
         if b_flags nb AND KHEAP_B_FLAG_FREE \<noteq> 0 then merge fuel newBlock newBuddy s
         else Some s
       }
     }
   }"

section \<open>Allocation and release\<close>

text \<open>The descent to a level with a free block, from \<open>searchLvl = k - 1\<close> down.\<close>

primrec freeLvl_loop :: "nat \<Rightarrow> 'a heap_buddy_scheme \<Rightarrow> int option" where
  "freeLvl_loop 0 s = Some (- 1)"
| "freeLvl_loop (Suc k) s = do {
     h \<leftarrow> deref (lvlTable s k) s;
     if b_flags h AND KHEAP_B_FLAG_FREE \<noteq> 0 \<or> b_flags h AND KHEAP_B_FLAG_HAS_ENTRIES \<noteq> 0
     then Some (int k) else freeLvl_loop k s
   }"

definition kzallocBuddy :: "u64 \<Rightarrow> 'a heap_buddy_scheme \<Rightarrow> (u64 \<times> 'a heap_buddy_scheme) option" where
  "kzallocBuddy sz s =
     (if sz = 0 \<or> sz > maxPage s then Some (0, s)
      else do {
        let requestedBlock = toNextLvl sz;
        let searchLvl = findLvlForBlock requestedBlock s;
        freeLvl \<leftarrow> (if searchLvl < 0 then Some searchLvl else freeLvl_loop (nat searchLvl + 1) s);
        if freeLvl < 0 then Some (0, s)
        else do {
          (takeEntry, s) \<leftarrow> (if searchLvl \<noteq> freeLvl
             then splitAndReturn (nat freeLvl) (nat searchLvl) s
             else do { e \<leftarrow> getFreeEntry (nat searchLvl) s; Some (e, s) });
          (_, s) \<leftarrow> removeEntry takeEntry REMOVE_TYPE_ALLOCATED s;
          address \<leftarrow> entryToHeapAddress takeEntry s;
          Some (address, s\<lparr>hmem := memset address 0 requestedBlock (hmem s)\<rparr>)
        }
      })"

definition kzfreeBuddy :: "u64 \<Rightarrow> 'a heap_buddy_scheme \<Rightarrow> (int \<times> 'a heap_buddy_scheme) option" where
  "kzfreeBuddy pointer s =
     (if pointer < BOBAOS_KERNEL_HEAP_ADDRESS \<or> pointer > BOBAOS_KERNEL_HEAP_ADDRESS + heapSize s
      then Some (- EIARG, s)
      else do {
        entry \<leftarrow> heapAddressToEntry pointer s;
        if entry = 0 then Some (- EIARG, s)
        else do {
          buddy \<leftarrow> getBuddy entry s;
          b \<leftarrow> deref buddy s;
          if b_lvl b > 0 \<and> b_flags b AND KHEAP_B_FLAG_FREE \<noteq> 0
          then do { s \<leftarrow> merge 256 entry buddy s; Some (0, s) }
          else do {
            e \<leftarrow> deref entry s;
            (_, s) \<leftarrow> addEntry entry (unat (b_lvl e)) s;
            Some (0, s)
          }
        }
      })"


section \<open>Block sizes\<close>

lemma drop1_unat: "unat (drop_bit (Suc 0) (n :: u64)) = unat n div 2"
  by (simp add: drop_bit_eq_div unat_div_distrib)

lemma toNextLvl_loop_pow:
  assumes "unat n < 2 ^ k" and "k = 0 \<or> 2 ^ (k - 1) \<le> unat n"
  shows "toNextLvl_loop n r = push_bit k r"
  using assms
proof (induction k arbitrary: n r)
  case 0
  then have "n = 0" by (simp add: unat_eq_0)
  then show ?case by (simp add: toNextLvl_loop.simps)
next
  case (Suc k)
  have pos: "0 < n" using Suc.prems by (cases k) (auto simp: word_less_nat_alt intro: gr0I)
  have "toNextLvl_loop n r = toNextLvl_loop (drop_bit 1 n) (push_bit 1 r)"
    using pos by (simp add: toNextLvl_loop.simps [of n])
  also have "\<dots> = push_bit k (push_bit 1 r)"
  proof (rule Suc.IH)
    show "unat (drop_bit 1 n) < 2 ^ k" using Suc.prems(1) by (simp add: drop1_unat)
    show "k = 0 \<or> 2 ^ (k - 1) \<le> unat (drop_bit 1 n)"
      using Suc.prems(2) by (cases k) (auto simp: drop1_unat)
  qed
  also have "\<dots> = push_bit (Suc k) r" by (simp add: ac_simps)
  finally show ?case .
qed

lemma toNextLvl_pow:
  assumes "unat n \<le> 2 ^ k" and "k = 0 \<and> n = 1 \<or> 0 < k \<and> 2 ^ (k - 1) < unat n"
  shows "toNextLvl n = 2 ^ k"
proof -
  have n: "n \<noteq> 0" using assms(2) by auto
  have m: "unat (n - 1) = unat n - 1" using n by (simp add: unat_minus_one)
  have "toNextLvl_loop (n - 1) 1 = push_bit k 1"
  proof (rule toNextLvl_loop_pow)
    show "unat (n - 1) < 2 ^ k" using assms n m by (auto simp: unat_eq_0)
    show "k = 0 \<or> 2 ^ (k - 1) \<le> unat (n - 1)" using assms m by auto
  qed
  with n show ?thesis by (simp add: toNextLvl_def push_bit_eq_mult)
qed

lemma least_pow2:
  fixes n :: nat
  assumes "0 < n"
  obtains k where "n \<le> 2 ^ k" "k = 0 \<and> n = 1 \<or> 0 < k \<and> 2 ^ (k - 1) < n"
proof
  let ?k = "LEAST k. n \<le> 2 ^ k"
  have ex: "n \<le> 2 ^ n" by simp
  show "n \<le> 2 ^ ?k" by (rule LeastI [of _ n]) (rule ex)
  show "?k = 0 \<and> n = 1 \<or> 0 < ?k \<and> 2 ^ (?k - 1) < n"
  proof (cases "?k = 0")
    case True
    with \<open>n \<le> 2 ^ ?k\<close> assms show ?thesis by simp
  next
    case False
    then have "\<not> n \<le> 2 ^ (?k - 1)" using not_less_Least [of "?k - 1" "\<lambda>k. n \<le> 2 ^ k"] by simp
    with False show ?thesis by simp
  qed
qed

text \<open>
  For a request of at most \<open>2 ^ 63\<close> bytes \<^verbatim>\<open>toNextLvl\<close> is the least power of two
  that holds it; a bigger request makes the shift run out of the 64 bits and yields 0.
\<close>

theorem toNextLvl_least:
  "unat n \<le> 2 ^ 63 \<and> (\<exists>k \<le> 63. unat (toNextLvl n) = 2 ^ k \<and> unat n \<le> 2 ^ k \<and>
     (\<forall>j. unat n \<le> 2 ^ j \<longrightarrow> k \<le> j)) \<or>
   2 ^ 63 < unat n \<and> toNextLvl n = 0"
proof (cases "n = 0")
  case True
  then show ?thesis by (auto simp: toNextLvl_def intro!: exI [of _ 0])
next
  case False
  then obtain k where k: "unat n \<le> 2 ^ k" "k = 0 \<and> unat n = 1 \<or> 0 < k \<and> 2 ^ (k - 1) < unat n"
    using least_pow2 [of "unat n"] by (auto simp: unat_gt_0)
  have "unat n = 1 \<longleftrightarrow> n = 1" by (metis unat_1 word_unat_eq_iff)
  then have eq: "toNextLvl n = 2 ^ k" using toNextLvl_pow [of n k] k by simp
  have min: "\<forall>j. unat n \<le> 2 ^ j \<longrightarrow> k \<le> j"
  proof (intro allI impI)
    fix j assume "unat n \<le> 2 ^ j"
    with k(2) have "k = 0 \<or> (2 :: nat) ^ (k - 1) < 2 ^ j" using less_le_trans by blast
    then show "k \<le> j" by (auto simp: power_strict_increasing_iff)
  qed
  show ?thesis
  proof (cases "k \<le> 63")
    case True
    then have "(2 :: nat) ^ k < 2 ^ 64" by (intro power_strict_increasing) auto
    then have "unat (2 ^ k :: u64) = 2 ^ k" using unat_of_nat_small [of "2 ^ k", where 'a = 64] by simp
    moreover have "(2 :: nat) ^ k \<le> 2 ^ 63" using True by (intro power_increasing) auto
    ultimately show ?thesis using True eq k(1) min by auto
  next
    case False
    have "(2 :: nat) ^ 63 \<le> 2 ^ (k - 1)" using False by (intro power_increasing) auto
    then have "2 ^ 63 < unat n" using k(2) False by auto
    moreover have "(2 :: u64) ^ k = 0" using False by simp
    ultimately show ?thesis using eq by simp
  qed
qed

theorem toNextLvl_least_witness:
  "unat (toNextLvl 513) = 1024 \<and> toNextLvl 0x8000000000000001 = 0"
proof
  obtain k where k: "unat (toNextLvl 513) = 2 ^ k" "(513 :: nat) \<le> 2 ^ k"
      "\<forall>j. (513 :: nat) \<le> 2 ^ j \<longrightarrow> k \<le> j"
    using toNextLvl_least [of 513] by auto
  have "k \<le> 10" using k(3) [rule_format, of 10] by simp
  moreover have "\<not> k \<le> 9"
    using k(2) power_increasing [of k 9 "2 :: nat"] by auto
  ultimately have "k = 10" by simp
  with k(1) show "unat (toNextLvl 513) = 1024" by simp
  show "toNextLvl 0x8000000000000001 = 0" using toNextLvl_least [of "0x8000000000000001"] by simp
qed


section \<open>Initialisation\<close>

lemma biggestPage_halve: "p \<noteq> 0x20000 \<Longrightarrow> biggestPage p = biggestPage (p div 2)"
  by (subst biggestPage.simps) (simp add: BOBAOS_KERNEL_HEAP_BIGGEST_PAGE_def)

lemma biggestPage_heap: "biggestPage 0x8000000 = Some 0x20000"
proof -
  have "biggestPage 0x20000 = Some 0x20000"
    by (subst biggestPage.simps) (simp add: BOBAOS_KERNEL_HEAP_BIGGEST_PAGE_def)
  then show ?thesis by (simp add: biggestPage_halve)
qed

lemma detectMaxLvl_biggest: "detectMaxLvl 0x20000 = 8"
  by code_simp

lemma toNextLvl_heap: "toNextLvl BOBAOS_KERNEL_HEAP_SIZE = 0x8000000"
  using toNextLvl_pow [of BOBAOS_KERNEL_HEAP_SIZE 27] by (simp add: BOBAOS_KERNEL_HEAP_SIZE_def)

text \<open>Where the table of level \<open>i\<close> begins, and what \<open>readMetaData\<close> records for that level.\<close>

definition buddy_table :: "nat \<Rightarrow> u64" where
  "buddy_table i = 18 + 18432 * (2 ^ i - 1)"

definition level_data :: "nat \<Rightarrow> tableMetaData" where
  "level_data i = \<lparr>maxEntries = 1024 * 2 ^ i, tableSize = 18432 * 2 ^ i,
     md_tableStartAddress = buddy_table i, blockSize = 0x20000 div 2 ^ i\<rparr>"

lemma level_step:
  assumes "i < 8"
  shows "0x8000000 div (0x20000 div 2 ^ i) = (1024 * 2 ^ i :: u64)"
    and "drop_bit 1 (0x20000 div 2 ^ i) = (0x20000 div 2 ^ Suc i :: u64)"
    and "buddy_table i + 18432 * 2 ^ i = buddy_table (Suc i)"
proof -
  have "i \<in> {0, 1, 2, 3, 4, 5, 6, 7}" using assms by auto
  then show "0x8000000 div (0x20000 div 2 ^ i) = (1024 * 2 ^ i :: u64)"
    and "drop_bit 1 (0x20000 div 2 ^ i) = (0x20000 div 2 ^ Suc i :: u64)"
    by auto
  show "buddy_table i + 18432 * 2 ^ i = buddy_table (Suc i)"
    by (simp add: buddy_table_def algebra_simps)
qed

lemma readMetaData_loop_heap:
  "\<lbrakk> heapSize s = 0x8000000; i + k = 8 \<rbrakk> \<Longrightarrow>
   readMetaData_loop k i (0x20000 div 2 ^ i) (buddy_table i) s =
     s\<lparr>tmeta := (\<lambda>j. if i \<le> j \<and> j < 8 then level_data j else tmeta s j)\<rparr>"
proof (induction k arbitrary: i s)
  case 0
  then show ?case by (intro heap_buddy.equality) (auto simp: fun_eq_iff)
next
  case (Suc k)
  have ts: "1024 * 2 ^ i * sizeof_blockEntry = (18432 * 2 ^ i :: u64)"
    by (simp add: sizeof_blockEntry_def)
  let ?s = "s\<lparr>tmeta := (tmeta s)(i := level_data i)\<rparr>"
  have "readMetaData_loop (Suc k) i (0x20000 div 2 ^ i) (buddy_table i) s
    = readMetaData_loop k (Suc i) (0x20000 div 2 ^ Suc i) (buddy_table (Suc i)) ?s"
    using Suc.prems level_step [of i] by (simp add: Let_def ts level_data_def del: power_Suc)
  also have "\<dots> = ?s\<lparr>tmeta := (\<lambda>j. if Suc i \<le> j \<and> j < 8 then level_data j else tmeta ?s j)\<rparr>"
    by (rule Suc.IH) (use Suc.prems in auto)
  also have "\<dots> = s\<lparr>tmeta := (\<lambda>j. if i \<le> j \<and> j < 8 then level_data j else tmeta s j)\<rparr>"
    using Suc.prems by (intro heap_buddy.equality) auto
  finally show ?case .
qed

lemma readMetaData_heap:
  assumes "maxLvl s = 8" and "maxPage s = 0x20000" and "tableStartAddress s = 18"
    and "heapSize s = 0x8000000"
  shows "readMetaData s = Some (if lowerMemorySize s < 4700178 then - ENMEM else 0,
    s\<lparr>tmeta := (\<lambda>j. if j < 8 then level_data j else tmeta s j)\<rparr>)"
  using assms readMetaData_loop_heap [of s 0 8]
  by (simp add: readMetaData_def level_data_def buddy_table_def Let_def)


text \<open>Entry \<open>i\<close> of the table of level 0 after initialisation, when the entries were zero.\<close>

definition init_entry :: "nat \<Rightarrow> blockEntry" where
  "init_entry i = \<lparr>b_next = (if i = 1023 then 0 else entry_at 18 (of_nat i + 1)),
     b_prev = (if i = 0 then 0 else entry_at 18 (of_nat i - 1)),
     b_lvl = 0, b_flags = KHEAP_B_FLAG_FREE\<rparr>"

definition zero_entry :: blockEntry where
  "zero_entry = \<lparr>b_next = 0, b_prev = 0, b_lvl = 0, b_flags = 0\<rparr>"

lemma entry_at_inject:
  assumes "i < 1024" and "j < 1024"
  shows "entry_at 18 (of_nat i) = entry_at 18 (of_nat j) \<longleftrightarrow> i = j"
proof
  assume "entry_at 18 (of_nat i) = entry_at 18 (of_nat j)"
  then have "unat (of_nat (i * 18) :: u64) = unat (of_nat (j * 18) :: u64)"
    by (simp add: entry_at_def sizeof_blockEntry_def)
  with assms show "i = j" by (simp only: unat_of_nat) simp
qed simp

lemma initLvlTable_list_heap:
  assumes "lvlTable s 0 = 18" and "maxEntries (tmeta s 0) = 1024" and "n \<le> 1024"
    and "\<forall>i < 1024. bent s (entry_at 18 (of_nat i)) = zero_entry"
  shows "\<exists>be. initLvlTable_list n s = s\<lparr>bent := be\<rparr> \<and>
    (\<forall>i < 1024. be (entry_at 18 (of_nat i)) = (if i < n then init_entry i else zero_entry)) \<and>
    (\<forall>x. (\<forall>i < n. x \<noteq> entry_at 18 (of_nat i)) \<longrightarrow> be x = bent s x)"
  using assms(3)
proof (induction n)
  case 0
  show ?case using assms(4) by (intro exI [of _ "bent s"]) simp
next
  case (Suc n)
  then obtain be where be: "initLvlTable_list n s = s\<lparr>bent := be\<rparr>"
    "\<forall>i < 1024. be (entry_at 18 (of_nat i)) = (if i < n then init_entry i else zero_entry)"
    "\<forall>x. (\<forall>i < n. x \<noteq> entry_at 18 (of_nat i)) \<longrightarrow> be x = bent s x" by auto
  have n: "n < 1024" using Suc.prems by simp
  have last: "of_nat n + 1 = (1024 :: u64) \<longleftrightarrow> n = 1023"
    using n of_nat_Suc_eq_word_iff [of n "1024 :: u64"] by simp
  have cur: "be (entry_at 18 (of_nat n)) = zero_entry" using be(2) n by simp
  let ?be = "be(entry_at 18 (of_nat n) := init_entry n)"
  have "initLvlTable_list (Suc n) s = s\<lparr>bent := ?be\<rparr>"
    unfolding initLvlTable_list.simps be(1) Let_def
    using assms(1,2) cur
    by (cases "n = 0"; cases "n = 1023") (simp_all add: Let_def init_entry_def zero_entry_def last)
  moreover have "\<forall>i < 1024. ?be (entry_at 18 (of_nat i)) = (if i < Suc n then init_entry i else zero_entry)"
    using be(2) n by (auto simp: entry_at_inject less_Suc_eq)
  moreover have "\<forall>x. (\<forall>i < Suc n. x \<noteq> entry_at 18 (of_nat i)) \<longrightarrow> ?be x = bent s x"
    using be(3) by auto
  ultimately show ?case by blast
qed

text \<open>The state in which a successful initialisation leaves the allocator.\<close>

definition buddy_ready :: "'a heap_buddy_scheme \<Rightarrow> bool" where
  "buddy_ready s \<longleftrightarrow> maxLvl s = 8 \<and> maxPage s = 0x20000 \<and> heapSize s = 0x8000000 \<and>
     (\<forall>i < 8. tmeta s i = level_data i \<and> lvlTable s i = buddy_table i) \<and>
     (\<forall>i < 1024. bent s (entry_at 18 (of_nat i)) = init_entry i) \<and>
     (\<forall>x. buddy_table 1 \<le> x \<and> x < 4700178 \<longrightarrow> bent s x = zero_entry)"

lemma level0_below_level1: "i < 1024 \<Longrightarrow> unat (entry_at 18 (of_nat i)) = 18 + 18 * i"
  by (simp add: entry_at_def sizeof_blockEntry_def unat_word_ariths unat_of_nat)

lemma smallest: "((\<lambda>p. p div 2) ^^ 7) (0x20000 :: u64) = BOBAOS_KERNEL_HEAP_SMALLEST_PAGE"
  by code_simp

lemma initLvlTable_heap:
  assumes "maxLvl s = 8" and "\<forall>i < 8. tmeta s i = level_data i"
  shows "initLvlTable s =
    initLvlTable_list 1024 (s\<lparr>lvlTable := (\<lambda>i. if i < 8 then buddy_table i else lvlTable s i)\<rparr>)"
proof -
  have "(\<lambda>i. if i < unat (maxLvl s) then md_tableStartAddress (tmeta s i) else lvlTable s i)
    = (\<lambda>i. if i < 8 then buddy_table i else lvlTable s i)"
    using assms by (auto simp: fun_eq_iff level_data_def)
  with assms show ?thesis by (simp add: initLvlTable_def level_data_def Let_def)
qed

text \<open>The state in which the metadata has been computed.\<close>

definition buddy_meta :: "u64 \<Rightarrow> 'a heap_buddy_scheme \<Rightarrow> 'a heap_buddy_scheme" where
  "buddy_meta low s = s\<lparr>tableStartAddress := 18, lowerMemorySize := low, heapSize := 0x8000000,
     maxPage := 0x20000, maxLvl := 8, minPage := BOBAOS_KERNEL_HEAP_SMALLEST_PAGE,
     tmeta := (\<lambda>j. if j < 8 then level_data j else tmeta s j)\<rparr>"

lemma kheapInitBuddy_result:
  "kheapInitBuddy maxMem upperMem s =
    (let low = maxMem - upperMem; t = buddy_meta low s
     in Some (if low < 4700178 then (- ENMEM, t)
       else (0, initLvlTable (t\<lparr>hmem := memset 18 0 low (hmem s),
         bent := (\<lambda>p. if unat (p - 18) < unat low then zero_entry else bent s p)\<rparr>))))"
proof -
  let ?low = "maxMem - upperMem"
  have start: "(if BOBAOS_KERNEL_HEAP_TABLE_ADDRESS = 0
      then BOBAOS_KERNEL_HEAP_TABLE_ADDRESS + sizeof_blockEntry
      else BOBAOS_KERNEL_HEAP_TABLE_ADDRESS) = 18"
    by (simp add: BOBAOS_KERNEL_HEAP_TABLE_ADDRESS_def sizeof_blockEntry_def)
  define s1 where "s1 = s\<lparr>tableStartAddress := 18, lowerMemorySize := ?low, heapSize := 0x8000000,
    maxPage := 0x20000, maxLvl := 8, minPage := BOBAOS_KERNEL_HEAP_SMALLEST_PAGE\<rparr>"
  have t: "s1\<lparr>tmeta := (\<lambda>j. if j < 8 then level_data j else tmeta s1 j)\<rparr> = buddy_meta ?low s"
    by (simp add: s1_def buddy_meta_def cong: if_cong)
  have meta: "readMetaData s1 = Some (if ?low < 4700178 then - ENMEM else 0, buddy_meta ?low s)"
    unfolding t [symmetric] by (subst readMetaData_heap) (simp_all add: s1_def)
  show ?thesis
    unfolding kheapInitBuddy_def Let_def start toNextLvl_heap biggestPage_heap
    using meta [unfolded s1_def]
    by (simp add: detectMaxLvl_biggest smallest) (simp add: buddy_meta_def zero_entry_def cong: if_cong)
qed

lemma kheapInitBuddy_ready:
  assumes low: "4700178 \<le> unat (maxMem - upperMem)"
  shows "\<exists>s'. kheapInitBuddy maxMem upperMem s = Some (0, s') \<and> buddy_ready s'"
proof -
  let ?low = "maxMem - upperMem"
  define t where "t = (buddy_meta ?low s)\<lparr>hmem := memset 18 0 ?low (hmem s),
    bent := (\<lambda>p. if unat (p - 18) < unat ?low then zero_entry else bent s p)\<rparr>"
  define u where "u = t\<lparr>lvlTable := (\<lambda>i. if i < 8 then buddy_table i else lvlTable t i)\<rparr>"
  have zero: "bent u x = zero_entry" if "18 \<le> unat x" "unat x < 4700178" for x
  proof -
    have "unat (x - 18) = unat x - 18" using that by (simp add: unat_sub word_le_nat_alt)
    with that low show ?thesis by (simp add: u_def t_def)
  qed
  have i: "initLvlTable t = initLvlTable_list 1024 u"
    unfolding u_def by (rule initLvlTable_heap) (simp_all add: t_def buddy_meta_def)
  have "\<exists>be. initLvlTable_list 1024 u = u\<lparr>bent := be\<rparr> \<and>
    (\<forall>i < 1024. be (entry_at 18 (of_nat i)) = (if i < 1024 then init_entry i else zero_entry)) \<and>
    (\<forall>x. (\<forall>i < 1024. x \<noteq> entry_at 18 (of_nat i)) \<longrightarrow> be x = bent u x)"
    by (rule initLvlTable_list_heap)
      (use zero level0_below_level1 in \<open>auto simp: u_def t_def buddy_meta_def buddy_table_def level_data_def\<close>)
  then obtain be where be: "initLvlTable_list 1024 u = u\<lparr>bent := be\<rparr>"
    "\<forall>i < 1024. be (entry_at 18 (of_nat i)) = init_entry i"
    "\<forall>x. (\<forall>i < 1024. x \<noteq> entry_at 18 (of_nat i)) \<longrightarrow> be x = bent u x" by auto
  have above: "be x = zero_entry" if x: "buddy_table 1 \<le> x" "x < 4700178" for x
  proof -
    have b: "18450 \<le> unat x" "unat x < 4700178" using x by (simp_all add: buddy_table_def word_le_nat_alt word_less_nat_alt)
    then have "\<forall>i < 1024. x \<noteq> entry_at 18 (of_nat i)" using level0_below_level1 by fastforce
    with be(3) zero b show ?thesis by simp
  qed
  have "buddy_ready (u\<lparr>bent := be\<rparr>)"
    using be(2) above by (simp add: buddy_ready_def) (simp add: u_def t_def buddy_meta_def)
  then show ?thesis
    using low be(1) i by (auto simp: kheapInitBuddy_result Let_def t_def word_less_nat_alt)
qed

text \<open>
  Property C7. \<^verbatim>\<open>kheapInitBuddy\<close> returns on every memory size, and succeeds exactly when the lower
  memory holds the 4700178 bytes of the eight level tables. Then the levels describe blocks of
  128 KiB down to 1 KiB, and the free list of level 0 holds its 1024 entries in order.
\<close>

theorem kheapInitBuddy_spec:
  "\<exists>r s'. kheapInitBuddy maxMem upperMem s = Some (r, s') \<and>
     (if maxMem - upperMem < 4700178 then r = - ENMEM else r = 0 \<and> buddy_ready s')"
proof (cases "maxMem - upperMem < 4700178")
  case True
  then show ?thesis by (simp add: kheapInitBuddy_result Let_def)
next
  case False
  then show ?thesis
    using kheapInitBuddy_ready [of maxMem upperMem s] by (auto simp: not_less word_le_nat_alt)
qed


section \<open>The first request\<close>

lemma ready_level:
  assumes "buddy_ready s" and "i < 8"
  shows "blockSize (tmeta s i) = 0x20000 div 2 ^ i" "lvlTable s i = buddy_table i"
  using assms by (auto simp: buddy_ready_def level_data_def)

lemma ready_head:
  assumes "buddy_ready s"
  shows "bent s 18 = init_entry 0" and "0 < i \<Longrightarrow> i < 8 \<Longrightarrow> bent s (buddy_table i) = zero_entry"
proof -
  have "\<forall>i < 1024. bent s (entry_at 18 (of_nat i)) = init_entry i"
    using assms by (simp add: buddy_ready_def)
  from this [rule_format, of 0] show "bent s 18 = init_entry 0" by (simp add: entry_at_def)
  assume i: "0 < i" "i < 8"
  then have "i \<in> {1, 2, 3, 4, 5, 6, 7}" by auto
  then have "buddy_table 1 \<le> buddy_table i \<and> buddy_table i < 4700178"
    by (auto simp: buddy_table_def)
  then show "bent s (buddy_table i) = zero_entry" using assms by (simp add: buddy_ready_def)
qed

lemma ready_table_nonzero: "i < 8 \<Longrightarrow> buddy_table i \<noteq> 0"
proof -
  assume "i < 8"
  then have "i \<in> {0, 1, 2, 3, 4, 5, 6, 7}" by auto
  then show ?thesis by (auto simp: buddy_table_def)
qed

lemma freeLvl_loop_ready:
  assumes "buddy_ready s" and "j < 8"
  shows "freeLvl_loop (Suc j) s = Some 0"
  using assms(2)
proof (induction j)
  case 0
  then show ?case using ready_level(2) [OF assms(1), of 0] ready_head(1) [OF assms(1)]
    by (simp add: deref_def buddy_table_def init_entry_def buddy_const_defs)
next
  case (Suc j)
  then show ?case
    using ready_level(2) [OF assms(1), of "Suc j"] ready_head(2) [OF assms(1), of "Suc j"]
      ready_table_nonzero [of "Suc j"]
    by (simp add: deref_def zero_entry_def del: freeLvl_loop.simps(2))
      (simp add: deref_def zero_entry_def)
qed

lemma findLvlForBlock_ready:
  assumes "buddy_ready s"
  shows "j < 8 \<Longrightarrow> findLvlForBlock (0x20000 div 2 ^ j) s = int j"
    and "b < 0x400 \<Longrightarrow> findLvlForBlock b s = - ENFOUND"
proof -
  have m: "maxLvl s = 8" using assms by (simp add: buddy_ready_def)
  have less: "findLvlForBlock_loop n b s = - ENFOUND"
    if "\<forall>i < n. (0x20000 div 2 ^ i :: u64) \<noteq> b" "n \<le> 8" for n b
    using that by (induction n) (auto simp: ready_level [OF assms])
  have eight: "i < 8 \<Longrightarrow> i \<in> {0, 1, 2, 3, 4, 5, 6, 7}" for i :: nat by auto
  have inj: "(0x20000 div 2 ^ i :: u64) = 0x20000 div 2 ^ j \<longleftrightarrow> i = j" if "i < 8" "j < 8" for i j
    using eight [OF that(1)] eight [OF that(2)] by auto
  have "findLvlForBlock_loop n (0x20000 div 2 ^ j) s = int j" if "j < n" "n \<le> 8" for n j
    using that by (induction n) (auto simp: ready_level [OF assms] inj less_Suc_eq)
  then show "j < 8 \<Longrightarrow> findLvlForBlock (0x20000 div 2 ^ j) s = int j"
    by (simp add: findLvlForBlock_def m)
  assume b: "b < 0x400"
  have "(0x20000 div 2 ^ i :: u64) \<noteq> b" if "i < 8" for i
    using eight [OF that] b by auto
  then show "findLvlForBlock b s = - ENFOUND" by (simp add: findLvlForBlock_def m less)
qed

lemma splitEntryUp_ready:
  assumes r: "buddy_ready s"
  shows "splitEntryUp 0 s = None"
proof -
  have l: "lvlTable s 0 = 18" "lvlTable s (Suc 0) = 18450" "lvlTable s (Suc (Suc 0)) = 55314" and m: "maxLvl s = 8"
    using ready_level(2) [OF r, of 0] ready_level(2) [OF r, of 1] ready_level(2) [OF r, of 2] r
    by (simp_all add: buddy_table_def buddy_ready_def numeral_2_eq_2)
  have b0: "bent s 18 = \<lparr>b_next = 36, b_prev = 0, b_lvl = 0, b_flags = 1\<rparr>"
    using ready_head(1) [OF r] by (simp add: init_entry_def entry_at_def sizeof_blockEntry_def buddy_const_defs)
  have b1: "bent s 18450 = zero_entry" using ready_head(2) [OF r, of 1] by (simp add: buddy_table_def)
  have up: "getHigherTableEntryAddressFromBlock 18 s = Some 18450"
    by (simp add: getHigherTableEntryAddressFromBlock_def deref_def l m b0 entry_index_def
        entry_at_def sizeof_blockEntry_def)
  define s1 where "s1 = s\<lparr>bent := (bent s)(36 := (bent s 36)\<lparr>b_prev := 0\<rparr>,
    18 := \<lparr>b_next = 36, b_prev = 0, b_lvl = 0, b_flags = 0x82\<rparr>)\<rparr>"
  have rem: "removeEntry 18 REMOVE_TYPE_SPLIT s = Some (0, s1)"
    by (simp add: removeEntry_def deref_def set_prev_def or_flags_def and_flags_def upd_entry_def
        b0 l s1_def buddy_const_defs fun_upd_twist)
  have lvl1: "lvlTable s1 = lvlTable s" "tmeta s1 = tmeta s" and b1': "bent s1 18450 = zero_entry"
    and b0': "bent s1 18 = \<lparr>b_next = 36, b_prev = 0, b_lvl = 0, b_flags = 0x82\<rparr>"
    by (simp_all add: s1_def b1)
  define s2 where "s2 = s1\<lparr>bent := (bent s1)(18450 := \<lparr>b_next = 0, b_prev = 0, b_lvl = 1, b_flags = 0x81\<rparr>)\<rparr>"
  have add1: "addEntry 18450 (Suc 0) s1 = Some (0, s2)"
    using r by (simp add: addEntry_def deref_def or_flags_def and_flags_def upd_entry_def lvl1 l b1'
        s2_def zero_entry_def buddy_const_defs buddy_ready_def level_data_def buddy_table_def)
  have lvl2: "lvlTable s2 = lvlTable s" "tmeta s2 = tmeta s"
    "bent s2 18450 = \<lparr>b_next = 0, b_prev = 0, b_lvl = 1, b_flags = 0x81\<rparr>"
    "bent s2 18 = \<lparr>b_next = 36, b_prev = 0, b_lvl = 0, b_flags = 0x82\<rparr>"
    by (simp_all add: s2_def lvl1 b0')
  have add2: "addEntry 18468 (Suc 0) s2 = None"
    using r by (simp add: addEntry_def deref_def set_next_def set_prev_def upd_entry_def lvl2 l
        buddy_const_defs buddy_ready_def level_data_def buddy_table_def)
  show ?thesis
    by (simp add: splitEntryUp_def m l deref_def b0 up rem add1 lvl2 add2 entry_at_def
        sizeof_blockEntry_def KHEAP_B_FLAG_FREE_def)
qed

text \<open>
  Property C8. The first request on a freshly initialised buddy heap is never served: up to 512
  bytes it is refused, because no level has blocks below 1 KiB, above 128 KiB it is refused, because no block is that
  large, and from 513 bytes to 128 KiB the code dereferences \<^verbatim>\<open>NULL\<close> (the head of level 0 lacks \<^verbatim>\<open>HAS_ENTRIES\<close>, and a split links its second
  half in front of a list without a successor).
\<close>

theorem kzallocBuddy_first_request:
  assumes r: "buddy_ready s"
  shows "kzallocBuddy sz s = (if 512 < sz \<and> sz \<le> 0x20000 then None else Some (0, s))"
proof (cases "sz = 0 \<or> sz > 0x20000")
  case True
  then show ?thesis using r by (auto simp: kzallocBuddy_def buddy_ready_def)
next
  case False
  then have sz: "sz \<noteq> 0" "\<not> maxPage s < sz" "unat sz \<le> 2 ^ 17" using r
    by (auto simp: buddy_ready_def word_less_nat_alt)
  obtain k where k: "unat sz \<le> 2 ^ k" "k = 0 \<and> unat sz = 1 \<or> 0 < k \<and> 2 ^ (k - 1) < unat sz"
    using least_pow2 [of "unat sz"] sz(1) by (auto simp: unat_gt_0)
  have "unat sz = 1 \<longleftrightarrow> sz = 1" by (metis unat_1 word_unat_eq_iff)
  then have block: "toNextLvl sz = 2 ^ k" using toNextLvl_pow [of sz k] k by simp
  show ?thesis
  proof (cases "512 < sz")
    case small: False
    have "k \<le> 9"
    proof (rule ccontr)
      assume "\<not> k \<le> 9"
      then have "(2 :: nat) ^ 9 \<le> 2 ^ (k - 1)" by (intro power_increasing) auto
      with k(2) \<open>\<not> k \<le> 9\<close> small show False by (simp add: word_less_nat_alt)
    qed
    then have "k \<in> {0, 1, 2, 3, 4, 5, 6, 7, 8, 9}" by auto
    then have "(2 ^ k :: u64) < 0x400" by auto
    then show ?thesis
      using sz small findLvlForBlock_ready(2) [OF r] by (simp add: kzallocBuddy_def block)
  next
    case big: True
    have "(2 :: nat) ^ (k - 1) < 2 ^ 17" if "0 < k"
      using k(2) sz(3) that by linarith
    then have "k \<le> 17" using power_less_imp_less_exp [of "2 :: nat" "k - 1" 17] by fastforce
    moreover have "10 \<le> k"
    proof (rule ccontr)
      assume "\<not> 10 \<le> k"
      then have "(2 :: nat) ^ k \<le> 2 ^ 9" by (intro power_increasing) auto
      with k(1) big show False by (simp add: word_less_nat_alt)
    qed
    ultimately have kk: "k \<in> {10, 11, 12, 13, 14, 15, 16, 17}" by auto
    then have "(2 ^ k :: u64) = 0x20000 div 2 ^ (17 - k)" by auto
    then have lvl: "findLvlForBlock (2 ^ k) s = int (17 - k)"
      using findLvlForBlock_ready(1) [OF r, of "17 - k"] kk by auto
    have fr: "freeLvl_loop (Suc (17 - k)) s = Some 0"
      by (rule freeLvl_loop_ready [OF r]) (use kk in auto)
    show ?thesis
    proof (cases "k = 17")
      case True
      have "getFreeEntry 0 s = Some 0"
        using ready_level(2) [OF r, of 0] ready_head(1) [OF r]
        by (simp add: getFreeEntry_def deref_def buddy_table_def init_entry_def buddy_const_defs)
      moreover have "removeEntry 0 REMOVE_TYPE_ALLOCATED s = None"
        by (simp add: removeEntry_def deref_def)
      ultimately show ?thesis
        using sz big False lvl fr True by (simp add: kzallocBuddy_def block not_less del: freeLvl_loop.simps)
    next
      case False
      then obtain j where j: "17 - k = Suc j" using kk by (cases "17 - k") auto
      have "splitAndReturn 0 (17 - k) s = None"
        by (simp add: splitAndReturn_def j splitEntryUp_ready [OF r])
      then show ?thesis
        using sz big \<open>\<not> (sz = 0 \<or> 0x20000 < sz)\<close> lvl fr j
        by (simp add: kzallocBuddy_def block not_less nat_add_distrib del: freeLvl_loop.simps)
    qed
  qed
qed


text \<open>A heap initialised with 16 MiB of lower memory, for the witnesses.\<close>

definition blank_buddy :: heap_buddy where
  "blank_buddy = \<lparr>hmem = (\<lambda>_. 0), table_size = 0, tableMaxSize = 0, bent = (\<lambda>_. zero_entry),
     lvlTable = (\<lambda>_. 0), tmeta = (\<lambda>_. \<lparr>maxEntries = 0, tableSize = 0, md_tableStartAddress = 0, blockSize = 0\<rparr>),
     tableStartAddress = 0, lowerMemorySize = 0, heapSize = 0, maxLvl = 0, maxPage = 0, minPage = 0\<rparr>"

definition fresh_buddy :: heap_buddy where
  "fresh_buddy = snd (the (kheapInitBuddy 0x1000000 0 blank_buddy))"

lemma fresh_buddy_ready: "buddy_ready fresh_buddy"
  using kheapInitBuddy_ready [of "0x1000000" 0 blank_buddy] by (auto simp: fresh_buddy_def)

theorem kzallocBuddy_first_request_witness:
  "kzallocBuddy 4096 fresh_buddy = None \<and> kzallocBuddy 100 fresh_buddy = Some (0, fresh_buddy)"
  using kzallocBuddy_first_request [OF fresh_buddy_ready, of 4096]
    kzallocBuddy_first_request [OF fresh_buddy_ready, of 100] by simp

section \<open>The recursion of merge\<close>

lemma upd_entry_frame:
  assumes "upd_entry p f s = Some s'"
  shows "tmeta s' = tmeta s" "lvlTable s' = lvlTable s" "bent s' p = f (bent s p)"
    "q \<noteq> p \<Longrightarrow> bent s' q = bent s q"
  using assms by (auto simp: upd_entry_def split: if_splits)

definition same_levels :: "'a heap_buddy_scheme \<Rightarrow> 'a heap_buddy_scheme \<Rightarrow> bool" where
  "same_levels s s' \<longleftrightarrow> tmeta s' = tmeta s \<and> lvlTable s' = lvlTable s \<and>
     (\<forall>q. b_lvl (bent s' q) = b_lvl (bent s q))"

lemma same_levels_refl [simp]: "same_levels s s"
  by (simp add: same_levels_def)

lemma same_levels_trans: "same_levels s t \<Longrightarrow> same_levels t u \<Longrightarrow> same_levels s u"
  by (simp add: same_levels_def)

lemma upd_same_levels:
  "set_next p v s = Some s' \<Longrightarrow> same_levels s s'"
  "set_prev p v s = Some s' \<Longrightarrow> same_levels s s'"
  "or_flags p w s = Some s' \<Longrightarrow> same_levels s s'"
  "and_flags p w s = Some s' \<Longrightarrow> same_levels s s'"
  by (auto simp: set_next_def set_prev_def or_flags_def and_flags_def upd_entry_def same_levels_def
      split: if_splits)

lemma removeEntry_levels: "removeEntry p ty s = Some (r, s') \<Longrightarrow> same_levels s s'"
  by (auto simp: removeEntry_def Let_def split: if_splits removeType.splits
      dest!: upd_same_levels elim!: same_levels_trans)


lemma addEntry_levels:
  assumes "addEntry p l s = Some (r, s')"
    and "md_tableStartAddress (tmeta s l) \<le> md_tableStartAddress (tmeta s l) + tableSize (tmeta s l)"
  shows "same_levels (s\<lparr>bent := (bent s)(p := (bent s p)\<lparr>b_lvl := of_nat l\<rparr>)\<rparr>) s'"
proof -
  have "\<not> (p < md_tableStartAddress (tmeta s l) \<and>
      md_tableStartAddress (tmeta s l) + tableSize (tmeta s l) < p)"
    using assms(2) by (meson less_trans not_le order.strict_trans1)
  with assms(1) show ?thesis
    by (auto simp: addEntry_def Let_def upd_entry_def [of p "\<lambda>e. e\<lparr>b_lvl := of_nat l\<rparr>"]
        split: if_splits dest!: upd_same_levels elim!: same_levels_trans)
qed

lemma bind_pair_cong:
  "(\<And>a b. m = Some (a, b) \<Longrightarrow> f a b = g a b) \<Longrightarrow>
   Option.bind m (\<lambda>(a, b). f a b) = Option.bind m (\<lambda>(a, b). g a b)"
  by (cases m) auto

definition tables_ok :: "'a heap_buddy_scheme \<Rightarrow> bool" where
  "tables_ok s \<longleftrightarrow> (\<forall>l. md_tableStartAddress (tmeta s l)
     \<le> md_tableStartAddress (tmeta s l) + tableSize (tmeta s l))"

lemma same_levels_ok: "same_levels s t \<Longrightarrow> tables_ok t \<longleftrightarrow> tables_ok s"
  by (simp add: same_levels_def tables_ok_def)

lemma lower_level:
  assumes "(lvl :: byte) \<noteq> 0"
  shows "of_nat (unat lvl - 1) = lvl - 1" "unat (lvl - 1) < unat lvl"
  using assms unat_gt_0 [of lvl] by (simp_all add: unat_minus_one of_nat_diff)

text \<open>
  The recursion of \<^verbatim>\<open>merge\<close> ends: each call is one level further down. Where no level
  table wraps around the address space, a bound above the level of the first block is enough, so
  the bound that \<open>kzfreeBuddy\<close> passes never decides the result.
\<close>

theorem merge_fuel:
  assumes "tables_ok s" and "unat (b_lvl (bent s block1)) < f" and "f \<le> f'"
  shows "merge f block1 block2 s = merge f' block1 block2 s"
  using assms
proof (induction f arbitrary: f' block1 block2 s)
  case (Suc f)
  then obtain g where g: "f' = Suc g" "f \<le> g" by (cases f') auto
  let ?l = "b_lvl (bent s block1)"
  have rec: "merge f p q t = merge g p q t"
    if "?l \<noteq> 0" "tables_ok t" "b_lvl (bent t p) = ?l - 1"
    for p q and t :: "'a heap_buddy_scheme"
    using Suc.IH [of t p g q] g(2) Suc.prems(2) that(2) lower_level [OF that(1)] that(3) by simp
  have step: "tables_ok t' \<and> b_lvl (bent t' p) = ?l - 1"
    if "?l \<noteq> 0" "same_levels s t" "addEntry p (unat ?l - 1) t = Some (r, t')" for p r and t t' :: "'a heap_buddy_scheme"
  proof -
    have "tables_ok t" using that(2) Suc.prems(1) same_levels_ok by blast
    then have "same_levels (t\<lparr>bent := (bent t)(p := (bent t p)\<lparr>b_lvl := ?l - 1\<rparr>)\<rparr>) t'"
      using addEntry_levels [OF that(3)] lower_level [OF that(1)] by (simp add: tables_ok_def)
    then show ?thesis using \<open>tables_ok t\<close> by (auto simp: same_levels_def tables_ok_def)
  qed
  show ?case
  proof (cases "block1 = 0 \<or> ?l = 0")
    case False
    then have d: "deref block1 s = Some (bent s block1)" "?l \<noteq> 0" by (simp_all add: deref_def)
    show ?thesis
      unfolding g(1) merge.simps d(1)
      by (auto simp: d(2) clearFlags_def intro!: Option.bind_cong bind_pair_cong rec
          dest!: removeEntry_levels upd_same_levels)
        (metis step d(2) same_levels_trans One_nat_def)+
  qed (auto simp: g deref_def)
qed simp

theorem merge_fuel_witness:
  "merge 256 18 36 blank_buddy = merge 1 18 36 blank_buddy \<and> merge 1 18 36 blank_buddy = Some blank_buddy"
  using merge_fuel [of blank_buddy 18 1 256 36]
  by (simp add: blank_buddy_def tables_ok_def deref_def zero_entry_def)

end
