(* ===== verification/Kheap.thy ===== *)
theory Kheap
  imports Heap_Page Heap_Buddy
begin

text \<open>
  The kernel's allocator interface of \<^verbatim>\<open>memory/kheap/kheap.c\<close>: the allocator chosen at start-up
  serves \<^verbatim>\<open>kzalloc\<close> and \<^verbatim>\<open>kzfree\<close>. The locale \<open>allocator\<close> is the contract on which the rest of
  the kernel relies; the page allocator meets it. The buddy allocator may run into a fault, so
  that both operations have an option result.
\<close>

section \<open>Operations\<close>

datatype kernelHeapType = KERNEL_HEAP_TYPE_PAGE | KERNEL_HEAP_TYPE_BUDDY

record kheap = heap_buddy +
  selected :: kernelHeapType

text \<open>The default branch of the switch is not reached by a value of the enumeration.\<close>

definition kheapInit ::
  "u64 \<Rightarrow> u64 \<Rightarrow> kernelHeapType \<Rightarrow> 'a kheap_scheme \<Rightarrow> (int \<times> 'a kheap_scheme) option" where
  "kheapInit maxMem upperMem type s = do {
     (ret, s) \<leftarrow> (case type of
         KERNEL_HEAP_TYPE_PAGE \<Rightarrow> Some (kheapInitPage maxMem upperMem s)
       | KERNEL_HEAP_TYPE_BUDDY \<Rightarrow> kheapInitBuddy maxMem upperMem s);
     Some (ret, s\<lparr>selected := type\<rparr>)
   }"

definition kzalloc :: "u64 \<Rightarrow> 'a kheap_scheme \<Rightarrow> (u64 \<times> 'a kheap_scheme) option" where
  "kzalloc sz s =
     (if selected s = KERNEL_HEAP_TYPE_PAGE then Some (kzallocPage sz s) else kzallocBuddy sz s)"

definition kzfree :: "u64 \<Rightarrow> 'a kheap_scheme \<Rightarrow> (int \<times> 'a kheap_scheme) option" where
  "kzfree pointer s =
     (if pointer = 0 then Some (- EIARG, s)
      else if selected s = KERNEL_HEAP_TYPE_PAGE then Some (kzfreePage pointer s)
      else kzfreeBuddy pointer s)"

section \<open>The contract\<close>

text \<open>
  \<open>ok\<close> are the request sizes the contract covers, \<open>blocks\<close> the live blocks as pairs of an
  address and a number of bytes.
\<close>

locale allocator =
  fixes alloc :: "u64 \<Rightarrow> 's \<Rightarrow> (u64 \<times> 's) option"
    and free :: "u64 \<Rightarrow> 's \<Rightarrow> (int \<times> 's) option"
    and inv :: "'s \<Rightarrow> bool"
    and blocks :: "'s \<Rightarrow> (u64 \<times> nat) set"
    and ok :: "u64 \<Rightarrow> bool"
  assumes alloc_total: "\<lbrakk> inv s; ok n \<rbrakk> \<Longrightarrow> \<exists>a s'. alloc n s = Some (a, s')"
    and alloc_null: "\<lbrakk> inv s; ok n; alloc n s = Some (0, s') \<rbrakk> \<Longrightarrow> s' = s"
    and alloc_block: "\<lbrakk> inv s; ok n; alloc n s = Some (a, s'); a \<noteq> 0 \<rbrakk> \<Longrightarrow>
      inv s' \<and> (\<exists>l. unat n \<le> l \<and> blocks s' = insert (a, l) (blocks s) \<and> (\<forall>k. (a, k) \<notin> blocks s))"
    and free_block: "\<lbrakk> inv s; (a, l) \<in> blocks s \<rbrakk> \<Longrightarrow>
      \<exists>s'. free a s = Some (0, s') \<and> inv s' \<and> blocks s' = blocks s - {(a, l)}"
begin

lemma alloc_cases:
  assumes "inv s" and "ok n"
  obtains (null) "alloc n s = Some (0, s)"
  | (block) a s' l where "alloc n s = Some (a, s')" "a \<noteq> 0" "inv s'" "unat n \<le> l"
      "blocks s' = insert (a, l) (blocks s)" "\<forall>k. (a, k) \<notin> blocks s"
proof -
  obtain a s' where a: "alloc n s = Some (a, s')" using alloc_total [OF assms] by blast
  show thesis
  proof (cases "a = 0")
    case True
    with a alloc_null [OF assms, of s'] null show thesis by simp
  next
    case False
    with a alloc_block [OF assms a] block show thesis by blast
  qed
qed

text \<open>A scratch buffer that is released again leaves the blocks as they were.\<close>

lemma alloc_free:
  assumes "inv s" "ok n" "alloc n s = Some (a, s')" "a \<noteq> 0" "inv t" "blocks t = blocks s'"
  shows "\<exists>t'. free a t = Some (0, t') \<and> inv t' \<and> blocks t' = blocks s"
proof -
  obtain l where l: "blocks s' = insert (a, l) (blocks s)" "\<forall>k. (a, k) \<notin> blocks s"
    using alloc_block [OF assms(1-4)] by blast
  then have "(a, l) \<in> blocks t" "blocks t - {(a, l)} = blocks s" using assms(6) by auto
  with free_block [OF assms(5), of a l] show ?thesis by simp
qed

text \<open>Releasing an older block does not touch a newer one.\<close>

lemma alloc_free_other:
  assumes "inv s" "ok n" "alloc n s = Some (a, s')" "a \<noteq> 0" "(b, k) \<in> blocks s"
  shows "\<exists>s'' l. free b s' = Some (0, s'') \<and> inv s'' \<and> unat n \<le> l \<and>
    blocks s'' = insert (a, l) (blocks s - {(b, k)})"
proof -
  obtain l where l: "inv s'" "unat n \<le> l" "blocks s' = insert (a, l) (blocks s)" "\<forall>k. (a, k) \<notin> blocks s"
    using alloc_block [OF assms(1-4)] by blast
  moreover have "(b, k) \<in> blocks s'" and ne: "(b, k) \<noteq> (a, l)" using l assms(5) by auto
  ultimately obtain s'' where "free b s' = Some (0, s'')" "inv s''" "blocks s'' = blocks s' - {(b, k)}"
    using free_block by blast
  moreover have "blocks s' - {(b, k)} = insert (a, l) (blocks s - {(b, k)})" using l(3) ne by auto
  ultimately show ?thesis using l(2) by blast
qed

end

section \<open>The page allocator meets the contract\<close>

definition kheap_wf :: "'a kheap_scheme \<Rightarrow> bool" where
  "kheap_wf s \<longleftrightarrow> selected s = KERNEL_HEAP_TYPE_PAGE \<and> heap_wf s"

lemma selected_kzallocPage [simp]: "selected (snd (kzallocPage sz s)) = selected s"
  by (auto simp: kzallocPage_def findFreePages_def Let_def split: prod.splits option.splits)

lemma selected_kzfreePage [simp]: "selected (snd (kzfreePage p s)) = selected s"
  by (auto simp: kzfreePage_def Let_def)

lemma kzfreePage_selected:
  "kzfreePage p s = (r, s') \<Longrightarrow> selected s' = selected (s :: 'a kheap_scheme)"
  using selected_kzfreePage [of p s] by simp

lemma kheap_alloc:
  fixes s :: "'a kheap_scheme"
  assumes "kheap_wf s" and "size_ok sz"
  obtains (null) "kzalloc sz s = Some (0, s)"
  | (block) a s' where "kzalloc sz s = Some (a, s')" "a \<noteq> 0" "kheap_wf s'"
      "live s' = insert (a, pages_for sz * 4096) (live s)" "\<forall>k. (a, k) \<notin> live s"
proof -
  have wf: "heap_wf s" and sel: "selected s = KERNEL_HEAP_TYPE_PAGE"
    using assms(1) by (simp_all add: kheap_wf_def)
  show thesis
  proof (rule kzallocPage_cases [OF wf assms(2)])
    assume "kzallocPage sz s = (0, s)"
    with sel null show thesis by (simp add: kzalloc_def)
  next
    fix st t
    assume t: "st + pages_for sz \<le> unat (table_size s)" "kzallocPage sz s = (page_address st, t)"
      "table_size t = table_size s"
      "table_alloc (ent s) (ent t) (unat (table_size s)) st (pages_for sz)"
    show thesis
    proof (rule block)
      show "kzalloc sz s = Some (page_address st, t)" using sel t(2) by (simp add: kzalloc_def)
      show "page_address st \<noteq> 0" using t(1) wf page_address_nonzero by (simp add: heap_wf_def)
      show "kheap_wf t"
        using heap_wf_alloc [OF t(4,3) wf] selected_kzallocPage [of sz s] sel t(2)
        by (simp add: kheap_wf_def)
      show "live t = insert (page_address st, pages_for sz * 4096) (live s)"
        by (rule live_alloc [OF t(4,3)])
      show "\<forall>k. (page_address st, k) \<notin> live s"
        using alloc_fresh_address [OF wf t(4)] by auto
    qed
  qed
qed

lemma kheap_free:
  fixes s :: "'a kheap_scheme"
  assumes "kheap_wf s" and "(a, l) \<in> live s"
  shows "\<exists>s'. kzfree a s = Some (0, s') \<and> kheap_wf s' \<and> live s' = live s - {(a, l)}"
proof -
  have wf: "heap_wf s" and sel: "selected s = KERNEL_HEAP_TYPE_PAGE"
    using assms(1) by (simp_all add: kheap_wf_def)
  obtain i where i: "a = page_address i" "i \<le> 25600"
    using live_bounds [OF wf assms(2)] wf by (metis add_leD1 heap_wf_def le_trans)
  then have "a \<noteq> 0" using page_address_nonzero by simp
  moreover obtain s' where s': "kzfreePage a s = (0, s')" "heap_wf s'" "live s' = live s - {(a, l)}"
    using kzfreePage_live [OF wf assms(2)] by metis
  ultimately show ?thesis
    using sel kzfreePage_selected [OF s'(1)] by (auto simp: kzfree_def kheap_wf_def)
qed

interpretation kh: allocator kzalloc kzfree kheap_wf live size_ok
proof
  fix s :: "'a kheap_scheme" and n a l s'
  assume wf: "kheap_wf s"
  show "size_ok n \<Longrightarrow> \<exists>a s'. kzalloc n s = Some (a, s')"
    by (rule kheap_alloc [OF wf]) auto
  show "size_ok n \<Longrightarrow> kzalloc n s = Some (0, s') \<Longrightarrow> s' = s"
    by (rule kheap_alloc [OF wf]) auto
  show "kheap_wf s' \<and> (\<exists>l. unat n \<le> l \<and> live s' = insert (a, l) (live s) \<and> (\<forall>k. (a, k) \<notin> live s))"
    if "size_ok n" "kzalloc n s = Some (a, s')" "a \<noteq> 0"
    by (rule kheap_alloc [OF wf that(1)]) (use that pages_for_bytes in auto)
  show "(a, l) \<in> live s \<Longrightarrow> \<exists>s'. kzfree a s = Some (0, s') \<and> kheap_wf s' \<and> live s' = live s - {(a, l)}"
    by (rule kheap_free [OF wf])
qed


section \<open>Frames\<close>

text \<open>Under the page allocator the two operations change physical memory only.\<close>

lemma kzalloc_frame:
  "\<lbrakk> selected s = KERNEL_HEAP_TYPE_PAGE; kzalloc sz s = Some (a, s') \<rbrakk> \<Longrightarrow> \<exists>m. s' = s\<lparr>hmem := m\<rparr>"
  by (auto simp: kzalloc_def kzallocPage_def findFreePages_def Let_def
      split: prod.splits option.splits if_splits intro: exI [of _ "hmem s"])

lemma kzfree_frame:
  "\<lbrakk> selected s = KERNEL_HEAP_TYPE_PAGE; kzfree p s = Some (r, s') \<rbrakk> \<Longrightarrow> \<exists>m. s' = s\<lparr>hmem := m\<rparr>"
  by (auto simp: kzfree_def kzfreePage_def Let_def split: if_splits intro: exI [of _ "hmem s"])

section \<open>When a request fails\<close>

text \<open>
  Whether the page allocator can serve a request depends on the live blocks only: it fails exactly when no run of pages
  that they leave free is long enough.
\<close>

definition page_held :: "(u64 \<times> nat) set \<Rightarrow> nat \<Rightarrow> nat \<Rightarrow> bool" where
  "page_held blocks n i \<longleftrightarrow> (\<exists>b l. (page_address b, l * 4096) \<in> blocks \<and> b \<le> i \<and> i < b + l \<and> b + l \<le> n)"

definition no_run :: "nat \<Rightarrow> (u64 \<times> nat) set \<Rightarrow> nat \<Rightarrow> bool" where
  "no_run k blocks n \<longleftrightarrow> (\<forall>S. S + k \<le> n \<longrightarrow> (\<exists>j < k. page_held blocks n (S + j)))"

lemma locked_held:
  assumes "heap_wf s" and "i < unat (table_size s)"
  shows "locked (ent s i) \<longleftrightarrow> page_held (live s) (unat (table_size s)) i"
proof
  assume "locked (ent s i)"
  then obtain b l where b: "is_block (ent s) (unat (table_size s)) b l" "b \<le> i" "i < b + l"
    using assms unfolding heap_wf_def table_wf_def by meson
  then have "(page_address b, l * 4096) \<in> live s" "b + l \<le> unat (table_size s)"
    unfolding live_def by (blast, simp add: is_block_def)
  with b(2,3) show "page_held (live s) (unat (table_size s)) i" unfolding page_held_def by blast
next
  assume "page_held (live s) (unat (table_size s)) i"
  then obtain b l where b: "(page_address b, l * 4096) \<in> live s" "b \<le> i" "i < b + l" "b + l \<le> unat (table_size s)"
    unfolding page_held_def by blast
  obtain c k where c: "page_address b = page_address c" "l * 4096 = k * 4096" "c + k \<le> unat (table_size s)"
    "is_block (ent s) (unat (table_size s)) c k"
    by (rule live_bounds [OF assms(1) b(1)])
  have "c = b" using page_address_inject [of b c] c(1,3) b(4) assms(1) by (simp add: heap_wf_def)
  with c(2,4) b(2,3) show "locked (ent s i)" using is_blockD(1) by simp
qed

lemma kzalloc_null_iff:
  fixes s :: "'a kheap_scheme"
  assumes "kheap_wf s" and "size_ok sz"
  shows "kzalloc sz s = Some (0, s) \<longleftrightarrow> no_run (pages_for sz) (live s) (unat (table_size s))"
proof -
  have wf: "heap_wf s" and sel: "selected s = KERNEL_HEAP_TYPE_PAGE"
    using assms(1) by (simp_all add: kheap_wf_def)
  let ?n = "unat (table_size s)" and ?k = "pages_for sz"
  have run: "free_run (hmem s) S ?k \<longleftrightarrow> \<not> (\<exists>j < ?k. page_held (live s) ?n (S + j))" if "S + ?k \<le> ?n" for S
    using locked_held [OF wf] that unfolding free_run_ent [OF that] by auto
  show ?thesis
  proof (rule kzallocPage_cases [OF wf assms(2)])
    assume "\<forall>S. S + ?k \<le> ?n \<longrightarrow> \<not> free_run (hmem s) S ?k" "kzallocPage sz s = (0, s)"
    with run sel show ?thesis by (simp add: kzalloc_def no_run_def)
  next
    fix st s'
    assume a: "st + ?k \<le> ?n" "free_run (hmem s) st ?k" "kzallocPage sz s = (page_address st, s')"
    have "page_address st \<noteq> 0" using a(1) wf page_address_nonzero by (simp add: heap_wf_def)
    then have "kzalloc sz s \<noteq> Some (0, s)" using a(3) sel by (simp add: kzalloc_def)
    moreover have "\<not> no_run ?k (live s) ?n" using a(1,2) run [OF a(1)] unfolding no_run_def by blast
    ultimately show ?thesis by simp
  qed
qed

section \<open>Properties\<close>

lemma live_unique:
  assumes "heap_wf s" and "(a, l) \<in> live s" and "(a, k) \<in> live s"
  shows "l = k"
proof -
  from live_bounds [OF assms(1,2)] obtain i m where i: "a = page_address i" "l = m * 4096"
    "i + m \<le> unat (table_size s)" "is_block (ent s) (unat (table_size s)) i m" by metis
  from live_bounds [OF assms(1,3)] obtain j n where j: "a = page_address j" "k = n * 4096"
    "j + n \<le> unat (table_size s)" "is_block (ent s) (unat (table_size s)) j n" by metis
  have "i = j" using i(1,3) j(1,3) page_address_inject [of i j] assms(1) by (simp add: heap_wf_def)
  with i j is_block_unique show ?thesis by blast
qed

lemma starts_live:
  assumes "heap_wf s" and "i < unat (table_size s)"
  shows "starts (ent s i) \<longleftrightarrow> (\<exists>l. (page_address i, l) \<in> live s)"
proof
  assume st: "starts (ent s i)"
  then have "ent s i \<noteq> 0" by auto
  moreover have "if locked (ent s i)
      then \<exists>b k. is_block (ent s) (unat (table_size s)) b k \<and> b \<le> i \<and> i < b + k
      else ent s i = 0"
    using assms unfolding heap_wf_def table_wf_def by blast
  ultimately obtain b k where b: "is_block (ent s) (unat (table_size s)) b k" "b \<le> i" "i < b + k"
    by (auto split: if_splits)
  with st have "i = b" using is_blockD(3) [OF b] by simp
  with b show "\<exists>l. (page_address i, l) \<in> live s" by (auto simp: live_def)
next
  assume "\<exists>l. (page_address i, l) \<in> live s"
  then obtain j k where j: "page_address i = page_address j" "is_block (ent s) (unat (table_size s)) j k"
    "j + k \<le> unat (table_size s)"
    using live_bounds [OF assms(1)] by metis
  then have "i = j" using assms page_address_inject [of i j] by (simp add: heap_wf_def)
  with j show "starts (ent s i)" using is_block_start by blast
qed


text \<open>A page heap inside the kernel's heap state, for the witnesses.\<close>

definition kheap_of :: "heap_page \<Rightarrow> kheap" where
  "kheap_of h = \<lparr>hmem = hmem h, table_size = table_size h, tableMaxSize = tableMaxSize h,
     bent = (\<lambda>_. zero_entry), lvlTable = (\<lambda>_. 0), tmeta = tmeta blank_buddy,
     tableStartAddress = 0, lowerMemorySize = 0, heapSize = 0, maxLvl = 0, maxPage = 0, minPage = 0,
     selected = KERNEL_HEAP_TYPE_PAGE\<rparr>"

lemma kheap_of_simps [simp]:
  "ent (kheap_of h) = ent h" "table_size (kheap_of h) = table_size h" "live (kheap_of h) = live h"
  "kheap_wf (kheap_of h) = heap_wf h"
proof -
  show e: "ent (kheap_of h) = ent h" and t: "table_size (kheap_of h) = table_size h"
    by (simp_all add: kheap_of_def ent_def fun_eq_iff)
  show "live (kheap_of h) = live h" "kheap_wf (kheap_of h) = heap_wf h"
    by (simp_all add: live_def kheap_wf_def heap_wf_def e t) (simp add: kheap_of_def)
qed



text \<open>Requests of up to four pages are served by the four free pages.\<close>

lemma small_heap_serves:
  fixes s :: "'a kheap_scheme"
  assumes h: "hmem s = hmem small_heap" "table_size s = table_size small_heap" "kheap_wf s"
    and sz: "size_ok sz" "pages_for sz \<le> 4"
  shows "kzalloc sz s \<noteq> Some (0, s')"
proof (rule kzallocPage_cases [OF _ sz(1), of s])
  show hw: "heap_wf s" using h(3) by (simp add: kheap_wf_def)
  {
    assume "\<forall>S. S + pages_for sz \<le> unat (table_size s) \<longrightarrow> \<not> free_run (hmem s) S (pages_for sz)"
    from this [rule_format, of 0] sz(2) h(1,2) show ?thesis by (simp add: small_heap_pages small_heap_runs)
  next
    fix st t
    assume "kzallocPage sz s = (page_address st, t)" "st + pages_for sz \<le> unat (table_size s)"
    then show ?thesis
      using page_address_nonzero [of st] hw h(3) by (auto simp: kzalloc_def kheap_wf_def heap_wf_def)
  }
qed

lemma small_kheap_alloc:
  assumes "size_ok sz" and "pages_for sz \<le> 4"
  obtains a s' where "kzalloc sz (kheap_of small_heap) = Some (a, s')" "a \<noteq> 0"
    "kheap_wf s'" "live s' = {(a, pages_for sz * 4096)}"
proof -
  let ?s = "kheap_of small_heap"
  have wf: "kheap_wf ?s" by (simp add: small_heap_wf)
  have "kzalloc sz ?s \<noteq> Some (0, ?s)"
    by (rule small_heap_serves [OF _ _ wf assms]) (simp_all add: kheap_of_def)
  with wf assms(1) that show thesis by (cases rule: kheap_alloc) (auto simp: small_heap_live)
qed

section \<open>States with the same heap\<close>

lemma same_heap:
  fixes s :: "'a kheap_scheme" and t :: "'b kheap_scheme"
  assumes "hmem t = hmem s" and "table_size t = table_size s" and "selected t = selected s"
  shows "live t = live s" "kheap_wf t \<longleftrightarrow> kheap_wf s"
proof -
  have "ent t = ent s" using assms by (simp add: ent_def fun_eq_iff)
  then show "live t = live s" "kheap_wf t \<longleftrightarrow> kheap_wf s"
    using assms by (simp_all add: live_def kheap_wf_def heap_wf_def)
qed


text \<open>A fresh block of the page allocator is zeroed.\<close>

lemma kheap_zeroed:
  fixes s :: "'a kheap_scheme"
  assumes "kheap_wf s" and "size_ok sz" and "kzalloc sz s = Some (a, s')" and "a \<noteq> 0"
  shows "\<forall>x. unat (x - a) < pages_for sz * 4096 \<longrightarrow> hmem s' x = 0"
proof -
  have wf: "heap_wf s" and k: "kzallocPage sz s = (a, s')"
    using assms by (simp_all add: kheap_wf_def kzalloc_def)
  show ?thesis by (rule kzallocPage_cases [OF wf assms(2)]) (use k assms(4) in auto)
qed


text \<open>A one-page request succeeds while fewer one-page blocks are live than there are pages.\<close>

lemma kheap_serves_page:
  fixes s :: "'a kheap_scheme"
  assumes wf: "kheap_wf s" and lv: "live s = (\<lambda>a. (a, 4096)) ` A" and fin: "finite A"
    and card: "card A < unat (table_size s)" and sz: "size_ok sz" "pages_for sz = 1"
  shows "kzalloc sz s \<noteq> Some (0, s')"
proof
  assume k: "kzalloc sz s = Some (0, s')"
  have hw: "heap_wf s" and k': "kzallocPage sz s = (0, s')"
    using wf k by (simp_all add: kheap_wf_def kzalloc_def)
  let ?n = "unat (table_size s)"
  have n: "?n \<le> 25600" and tw: "table_wf (ent s) ?n" using hw by (simp_all add: heap_wf_def)
  have "page_address st \<noteq> 0" if "st < ?n" for st
    using page_address_nonzero [of st] that n by simp
  with k' have "\<forall>S. S + 1 \<le> ?n \<longrightarrow> \<not> free_run (hmem s) S 1"
    by (cases rule: kzallocPage_cases [OF hw sz(1)]) (auto simp: sz(2))
  then have taken: "locked (ent s i)" if "i < ?n" for i
    using that free_run_ent [of i 1 s] by simp
  have "page_address i \<in> A" if i: "i < ?n" for i
  proof -
    obtain b c where b: "is_block (ent s) ?n b c" "b \<le> i" "i < b + c"
      using tw taken [OF i] i unfolding table_wf_def by meson
    then have "(page_address b, c * 4096) \<in> live s" by (auto simp: live_def)
    then have "page_address b \<in> A" "c = 1" by (auto simp: lv)
    moreover have "i = b" using b \<open>c = 1\<close> by simp
    ultimately show ?thesis by simp
  qed
  then have "page_address ` {..<?n} \<subseteq> A" by auto
  from card_mono [OF fin this] have "card (page_address ` {..<?n}) \<le> card A" .
  moreover have "inj_on page_address {..<?n}"
    using n by (auto simp: inj_on_def page_address_inject)
  then have "card (page_address ` {..<?n}) = ?n" by (simp add: card_image)
  ultimately show False using card by simp
qed


text \<open>An allocation writes only the table and the new block.\<close>

lemma kzallocPage_memory:
  assumes wf: "heap_wf s" and ok: "size_ok sz" and res: "kzallocPage sz s = (a, s')" and "a \<noteq> 0"
    and x: "25600 \<le> unat x" "\<not> unat (x - a) < pages_for sz * 4096"
  shows "hmem s' x = hmem s x"
proof -
  let ?pc = "sizeUpToPage sz div KHEAP_BLOCK_SIZE"
  have pc: "unat ?pc = pages_for sz" using page_count_unat [OF ok] .
  have n: "unat (table_size s) \<le> 25600" using wf by (simp add: heap_wf_def)
  have pos: "0 < unat ?pc" using pages_for_pos [OF ok] pc by simp
  show ?thesis
  proof (rule findFreePages_cases [OF n pos])
    assume "findFreePages ?pc 0 s = (- ENMEM, 0, s)"
    with res \<open>a \<noteq> 0\<close> show ?thesis by (simp add: kzallocPage_def getPageCount_up pc)
  next
    fix st
    assume st: "st + unat ?pc \<le> unat (table_size s)"
      "findFreePages ?pc 0 s = (0, page_address st, s\<lparr>hmem := markEntryTaken (of_nat st) ?pc (hmem s)\<rparr>)"
    have bytes: "unat (?pc * KHEAP_BLOCK_SIZE) = unat ?pc * 4096"
      using st(1) n by (simp add: KHEAP_BLOCK_SIZE_def unat_word_ariths)
    have "\<not> unat (x - of_nat st) < unat ?pc"
      using st(1) n x(1) by (subst unat_sub_if') (auto simp: unat_of_nat_small)
    then show ?thesis
      using res st(2) x(2) by (auto simp: kzallocPage_def getPageCount_up bytes pc markEntryTaken_apply)
  qed
qed

lemma live_disjoint_kheap:
  fixes s :: "'a kheap_scheme"
  assumes "kheap_wf s" "(a, l) \<in> live s" "(b, k) \<in> live s" "a \<noteq> b"
  shows "unat a + l \<le> unat b \<or> unat b + k \<le> unat a"
  using live_disjoint [of s a l b k] assms by (auto simp: kheap_wf_def)

text \<open>Live blocks lie in the region of the heap.\<close>

lemma live_region:
  fixes s :: "'a kheap_scheme"
  assumes "kheap_wf s" "(a, l) \<in> live s"
  shows "0x500000 \<le> unat a" "unat a + l \<le> 0x6900000" "0 < l" "unat a mod 4096 = 0"
proof -
  have wf: "heap_wf s" using assms by (simp add: kheap_wf_def)
  obtain i k where i: "l = k * 4096" "0 < k" "i + k \<le> unat (table_size s)" "unat a = 0x500000 + i * 4096"
    using live_bounds [OF wf assms(2)] by metis
  have "(i + k) * 4096 \<le> 25600 * 4096" using i(3) wf by (intro mult_le_mono1) (simp add: heap_wf_def)
  then show "0x500000 \<le> unat a" "unat a + l \<le> 0x6900000" "0 < l" "unat a mod 4096 = 0"
    using i by (simp_all add: add_mult_distrib mod_add_eq [symmetric] del: mod_add_eq) 
qed

text \<open>An allocation keeps the contents of the live blocks, and so does a write to the rest of the heap.\<close>

lemma kheap_alloc_keeps:
  fixes s :: "'a kheap_scheme"
  assumes wf: "kheap_wf s" and ok: "size_ok sz" and res: "kzalloc sz s = Some (a, s')"
    and b: "(b, l) \<in> live s" "unat (x - b) < l"
  shows "hmem s' x = hmem s x"
proof (cases "a = 0")
  case True
  with wf ok res show ?thesis by (cases rule: kheap_alloc) auto
next
  case False
  have "kheap_wf s' \<and> live s' = insert (a, pages_for sz * 4096) (live s) \<and> (\<forall>k. (a, k) \<notin> live s)"
    by (rule kheap_alloc [OF wf ok]) (use res False in simp_all)
  then have k: "kheap_wf s'" "live s' = insert (a, pages_for sz * 4096) (live s)" "\<forall>k. (a, k) \<notin> live s"
    by blast+
  have ne: "a \<noteq> b" using k(3) b(1) by auto
  have dj: "unat a + pages_for sz * 4096 \<le> unat b \<or> unat b + l \<le> unat a"
    using live_disjoint_kheap [OF k(1), of a _ b l] k(2) b(1) ne by auto
  have reg: "0x500000 \<le> unat b" "unat b + l \<le> 0x6900000" using live_region [OF wf b(1)] by simp_all
  have rega: "unat a + pages_for sz * 4096 \<le> 0x6900000"
    using live_region [OF k(1), of a] k(2) by auto
  have xb: "unat x = unat b + unat (x - b)"
  proof -
    have "unat (b + (x - b)) = unat b + unat (x - b)"
      using reg b(2) by (intro unat_add_small) simp
    then show ?thesis by simp
  qed
  have h: "heap_wf s" "kzallocPage sz s = (a, s')" using wf res by (simp_all add: kheap_wf_def kzalloc_def)
  have "\<not> unat (x - a) < pages_for sz * 4096"
    using dj xb b(2) reg rega by (subst unat_sub_if') auto
  then show ?thesis
    using kzallocPage_memory [OF h(1) ok h(2) False, of x] xb reg by simp
qed

lemma live_write:
  fixes s :: "'a kheap_scheme"
  assumes "kheap_wf s" "\<forall>x. unat x < 25600 \<longrightarrow> m x = hmem s x"
  shows "live (s\<lparr>hmem := m\<rparr>) = live s" "kheap_wf (s\<lparr>hmem := m\<rparr>)"
proof -
  have n: "unat (table_size s) \<le> 25600" using assms(1) by (simp add: kheap_wf_def heap_wf_def)
  have "ent (s\<lparr>hmem := m\<rparr>) = ent s"
    using n assms(2) by (auto simp: ent_def fun_eq_iff unat_of_nat_small)
  then show "live (s\<lparr>hmem := m\<rparr>) = live s" "kheap_wf (s\<lparr>hmem := m\<rparr>)"
    using assms(1) by (simp_all add: live_def kheap_wf_def heap_wf_def)
qed

end
