(* ===== verification/Paging.thy ===== *)
theory Paging
  imports Kheap
begin

text \<open>
  The page tables of \<^verbatim>\<open>memory/paging/paging.c\<close>. The four levels of tables are blocks of the kernel
  heap in the memory of the state, every entry eight bytes, lowest byte first; tables are read and
  written at their addresses, as the code does. The memory map of the boot loader lies at
  \<^verbatim>\<open>0xF000\<close> of the memory; the array it is copied to is a list. The assembly routine that loads a
  table into the processor is an update of \<open>loadedTable\<close>. Text output is left out.
\<close>

section \<open>State\<close>

record memoryMap =
  mm_address :: u64
  mm_length :: u64
  mm_type :: u32

record paging = kheap +
  memoryMap :: "memoryMap list"
  memoryMapLength :: byte
  upperMemorySize :: u64
  totalMemorySize :: u64
  loadedTable :: u64

definition PAGING_FLAG_P :: u16 where "PAGING_FLAG_P = 1"
definition PAGING_FLAG_RW :: u16 where "PAGING_FLAG_RW = 2"
definition SHIFT_PML4 :: nat where "SHIFT_PML4 = 0x27"
definition SHIFT_PDP :: nat where "SHIFT_PDP = 0x1E"
definition SHIFT_PD :: nat where "SHIFT_PD = 0x15"
definition SHIFT_PT :: nat where "SHIFT_PT = 0xC"
definition SIZE_4KB :: u64 where "SIZE_4KB = 0x1000"
definition SIZE_1MB :: u64 where "SIZE_1MB = 0x100000"
definition FULL_512 :: u64 where "FULL_512 = 0x1FF"
definition FULL_4KB :: u64 where "FULL_4KB = 0xFFF"
definition MEMORY_TYPE_FREE :: u32 where "MEMORY_TYPE_FREE = 1"
definition BOBAOS_MEMORY_MAP_MAX_ENTRIES :: nat where "BOBAOS_MEMORY_MAP_MAX_ENTRIES = 0xF"
definition sizeof_memoryMap :: u16 where "sizeof_memoryMap = 20"

lemmas paging_const_defs =
  PAGING_FLAG_P_def PAGING_FLAG_RW_def SHIFT_PML4_def SHIFT_PDP_def SHIFT_PD_def SHIFT_PT_def
  SIZE_4KB_def SIZE_1MB_def FULL_512_def FULL_4KB_def MEMORY_TYPE_FREE_def
  BOBAOS_MEMORY_MAP_MAX_ENTRIES_def sizeof_memoryMap_def

section \<open>Entries\<close>

definition writePointerTableEntry :: "u64 \<Rightarrow> u64 \<Rightarrow> u64 \<Rightarrow> u16 \<Rightarrow> mem \<Rightarrow> mem" where
  "writePointerTableEntry dest src index flags m =
     put_bytes (dest + 8 * index) (bytes64 ((src AND 0xFFFFFFFFF000) OR ucast flags)) m"

definition downToPage :: "u64 \<Rightarrow> u64" where
  "downToPage var = (if var mod SIZE_4KB = 0 then var else var - var mod SIZE_4KB)"

definition upToPage :: "u64 \<Rightarrow> u64" where
  "upToPage var = (if var mod SIZE_4KB = 0 then var else var + SIZE_4KB - var mod SIZE_4KB)"

definition returnTableEntryNoFlags :: "u64 \<Rightarrow> u16 \<Rightarrow> mem \<Rightarrow> u64" where
  "returnTableEntryNoFlags table index m = le64_at m (table + 8 * ucast index) AND 0xFFFFFFFFFFFFF000"

definition getPml4IndexFromVirtual :: "u64 \<Rightarrow> u16" where
  "getPml4IndexFromVirtual virt = ucast (drop_bit SHIFT_PML4 virt AND FULL_512)"

definition getPdpIndexFromVirtual :: "u64 \<Rightarrow> u16" where
  "getPdpIndexFromVirtual virt = ucast (drop_bit SHIFT_PDP virt AND FULL_512)"

definition getPdIndexFromVirtual :: "u64 \<Rightarrow> u16" where
  "getPdIndexFromVirtual virt = ucast (drop_bit SHIFT_PD virt AND FULL_512)"

definition getPtIndexFromVirtual :: "u64 \<Rightarrow> u16" where
  "getPtIndexFromVirtual virt = ucast (drop_bit SHIFT_PT virt AND FULL_512)"

definition getPTTable :: "u64 \<Rightarrow> u64 \<Rightarrow> mem \<Rightarrow> u64" where
  "getPTTable virt table m =
     (let pdpIndex = ucast (drop_bit SHIFT_PDP virt AND FULL_512);
          pdIndex = ucast (drop_bit SHIFT_PD virt AND FULL_512);
          pdpTable = returnTableEntryNoFlags table (getPml4IndexFromVirtual virt) m
      in if pdpTable = 0 then 0
         else let pdTable = returnTableEntryNoFlags pdpTable pdpIndex m
              in if pdTable = 0 then 0 else returnTableEntryNoFlags pdTable pdIndex m)"

definition getOrCreateEntry :: "u64 \<Rightarrow> u16 \<Rightarrow> 'a kheap_scheme \<Rightarrow> (u64 \<times> 'a kheap_scheme) option" where
  "getOrCreateEntry table entryIndex s =
     (if le64_at (hmem s) (table + 8 * ucast entryIndex) = 0 then do {
        (newEntry, s) \<leftarrow> kzalloc 4096 s;
        if newEntry = 0 then Some (0, s)
        else Some (newEntry, s\<lparr>hmem := writePointerTableEntry table newEntry (ucast entryIndex)
          (PAGING_FLAG_P OR PAGING_FLAG_RW) (hmem s)\<rparr>)
      }
      else Some (le64_at (hmem s) (table + 8 * ucast entryIndex), s))"

section \<open>Mapping\<close>

text \<open>One round of the loop of \<^verbatim>\<open>mapOrCreateRange\<close>.\<close>

definition mapOrCreatePage :: "u64 \<Rightarrow> u64 \<Rightarrow> u64 \<Rightarrow> 'a kheap_scheme \<Rightarrow> (int \<times> 'a kheap_scheme) option" where
  "mapOrCreatePage pml4Table phys virt s = do {
     (e, s) \<leftarrow> getOrCreateEntry pml4Table (getPml4IndexFromVirtual virt) s;
     let pdpTable = e AND 0xFFFFFFFFFFFFF000;
     if pdpTable = 0 then Some (- ENMEM, s)
     else do {
       (e, s) \<leftarrow> getOrCreateEntry pdpTable (getPdpIndexFromVirtual virt) s;
       let pdTable = e AND 0xFFFFFFFFFFFFF000;
       if pdTable = 0 then Some (- ENMEM, s)
       else do {
         (e, s) \<leftarrow> getOrCreateEntry pdTable (getPdIndexFromVirtual virt) s;
         let ptTable = e AND 0xFFFFFFFFFFFFF000;
         if ptTable = 0 then Some (- ENMEM, s)
         else Some (SUCCESS, s\<lparr>hmem := writePointerTableEntry ptTable phys (ucast (getPtIndexFromVirtual virt))
           (PAGING_FLAG_P OR PAGING_FLAG_RW) (hmem s)\<rparr>)
       }
     }
   }"

text \<open>
  The product \<^verbatim>\<open>pageCounter * SIZE_4KB\<close> has the type \<^verbatim>\<open>int\<close>: for the page \<open>2 ^ 19\<close> it overflows, which
  is a fault. So the loop ends for every size.
\<close>

function mapOrCreateRange_loop ::
  "u64 \<Rightarrow> u64 \<Rightarrow> u64 \<Rightarrow> u64 \<Rightarrow> nat \<Rightarrow> u64 \<Rightarrow> 'a kheap_scheme \<Rightarrow> (int \<times> 'a kheap_scheme) option" where
  "mapOrCreateRange_loop pml4Table physStart virtStart sz pageCounter sizeMapped s =
     (if 2 ^ 31 \<le> pageCounter * 4096 then None
      else do {
        (ret, s) \<leftarrow> mapOrCreatePage pml4Table (physStart + of_nat (pageCounter * 4096))
          (virtStart + of_nat (pageCounter * 4096)) s;
        if ret < 0 then Some (ret, s)
        else if sizeMapped + SIZE_4KB < sz then
          mapOrCreateRange_loop pml4Table physStart virtStart sz (Suc pageCounter) (sizeMapped + SIZE_4KB) s
        else Some (SUCCESS, s)
      })"
  by pat_completeness auto
termination
  by (relation "measure (\<lambda>(_, _, _, _, pageCounter, _, _). 2 ^ 31 - pageCounter)") auto

declare mapOrCreateRange_loop.simps [simp del]

definition mapOrCreateRange ::
  "u64 \<Rightarrow> u64 \<Rightarrow> u64 \<Rightarrow> u64 \<Rightarrow> 'a kheap_scheme \<Rightarrow> (int \<times> 'a kheap_scheme) option" where
  "mapOrCreateRange pml4Table physStart virtStart sz s =
     mapOrCreateRange_loop pml4Table physStart virtStart sz 0 0 s"

definition virtualToPhysical :: "u64 \<Rightarrow> u64 \<Rightarrow> mem \<Rightarrow> u64" where
  "virtualToPhysical virt table m =
     (let ptTable = getPTTable virt table m
      in if ptTable = 0 then 0
         else let ptIndex = ucast (drop_bit SHIFT_PT virt AND FULL_512);
                  offset = ucast (virt AND FULL_4KB) :: u16;
                  address = returnTableEntryNoFlags ptTable ptIndex m
              in address + ucast offset)"

definition remapPhysicalToVirtual :: "u64 \<Rightarrow> u64 \<Rightarrow> u64 \<Rightarrow> 'a kheap_scheme \<Rightarrow> (int \<times> 'a kheap_scheme) option" where
  "remapPhysicalToVirtual physical virtual table s = mapOrCreateRange table physical virtual SIZE_4KB s"

definition remapPhysicalToVirtualRange ::
  "u64 \<Rightarrow> u64 \<Rightarrow> u64 \<Rightarrow> u64 \<Rightarrow> 'a kheap_scheme \<Rightarrow> (int \<times> 'a kheap_scheme) option" where
  "remapPhysicalToVirtualRange physical virtual sz table s =
     mapOrCreateRange table physical virtual (upToPage sz) s"

definition remapVirtualToVirtual :: "u64 \<Rightarrow> u64 \<Rightarrow> u64 \<Rightarrow> 'a kheap_scheme \<Rightarrow> (int \<times> 'a kheap_scheme) option" where
  "remapVirtualToVirtual to from_virt table s =
     mapOrCreateRange table (downToPage (virtualToPhysical from_virt table (hmem s))) (downToPage to) SIZE_4KB s"

text \<open>\<open>blocks\<close> rounds are left, \<open>i\<close> is the loop variable.\<close>

primrec remapVirtualToVirtualRange_loop ::
  "nat \<Rightarrow> u64 \<Rightarrow> u64 \<Rightarrow> u64 \<Rightarrow> u64 \<Rightarrow> 'a kheap_scheme \<Rightarrow> (int \<times> 'a kheap_scheme) option" where
  "remapVirtualToVirtualRange_loop 0 i to from_virt table s = Some (SUCCESS, s)"
| "remapVirtualToVirtualRange_loop (Suc blocks) i to from_virt table s = do {
     (ret, s) \<leftarrow> remapVirtualToVirtual (to + i * SIZE_4KB) (from_virt + i * SIZE_4KB) table s;
     if ret > 0 then Some (- ENMEM, s)
     else remapVirtualToVirtualRange_loop blocks (i + 1) to from_virt table s
   }"

definition remapVirtualToVirtualRange ::
  "u64 \<Rightarrow> u64 \<Rightarrow> u64 \<Rightarrow> u64 \<Rightarrow> 'a kheap_scheme \<Rightarrow> (int \<times> 'a kheap_scheme) option" where
  "remapVirtualToVirtualRange to from_virt sz table s =
     remapVirtualToVirtualRange_loop (unat (upToPage sz div SIZE_4KB)) 0 to from_virt table s"

text \<open>Writing through a table that does not exist is a fault.\<close>

definition removePageFlag :: "u64 \<Rightarrow> u16 \<Rightarrow> u64 \<Rightarrow> 'a kheap_scheme \<Rightarrow> 'a kheap_scheme option" where
  "removePageFlag virtual flag table s =
     (let ptTable = getPTTable virtual table (hmem s);
          a = ptTable + 8 * ucast (getPtIndexFromVirtual virtual)
      in if ptTable = 0 then None
         else Some (s\<lparr>hmem := put_bytes a (bytes64 (le64_at (hmem s) a AND NOT (ucast flag))) (hmem s)\<rparr>))"

definition createEmptyPageTable :: "'a kheap_scheme \<Rightarrow> (u64 \<times> 'a kheap_scheme) option" where
  "createEmptyPageTable s = kzalloc SIZE_4KB s"

section \<open>The memory map\<close>

definition no_memoryMap :: memoryMap where
  "no_memoryMap = \<lparr>mm_address = 0, mm_length = 0, mm_type = 0\<rparr>"

definition memoryMap_at :: "mem \<Rightarrow> u64 \<Rightarrow> memoryMap" where
  "memoryMap_at m a = \<lparr>mm_address = le64_at m a, mm_length = le64_at m (a + 8), mm_type = le32_at m (a + 16)\<rparr>"

definition getUpperMemorySize :: "'a paging_scheme \<Rightarrow> u64" where
  "getUpperMemorySize s = upperMemorySize s"

definition getMaxMemorySize :: "'a paging_scheme \<Rightarrow> u64" where
  "getMaxMemorySize s = totalMemorySize s"

text \<open>The number of entries at the front that lie below 1 MiB; running over the array is a fault.\<close>

fun lowEntries :: "memoryMap list \<Rightarrow> nat option" where
  "lowEntries [] = None"
| "lowEntries (e # es) =
     (if mm_type e \<noteq> 0 \<and> mm_address e < 0x100000 then map_option Suc (lowEntries es) else Some 0)"

text \<open>
  The counter is a byte. Without an entry below 1 MiB it wraps around to 255, and the number of bytes
  to be moved, a negative \<^verbatim>\<open>int\<close>, becomes a huge unsigned number.
\<close>

definition reworkMemoryMap :: "'a paging_scheme \<Rightarrow> 'a paging_scheme option" where
  "reworkMemoryMap s = do {
     n \<leftarrow> lowEntries (memoryMap s);
     let mm = replicate n no_memoryMap @ drop n (memoryMap s);
     let mm = mm[0 := \<lparr>mm_address = 0, mm_length = 0x100000, mm_type = MEMORY_TYPE_FREE\<rparr>];
     let counter = (of_nat n - 1 :: byte);
     if counter > 0 then
       if memoryMapLength s < counter then None
       else do {
         mm \<leftarrow> memcpy_buf (unat (memoryMapLength s) - unat counter) 1 (unat counter + 1) mm;
         Some (s\<lparr>memoryMap := mm, memoryMapLength := memoryMapLength s - counter\<rparr>)
       }
     else Some (s\<lparr>memoryMap := mm\<rparr>)
   }"

text \<open>A sixteenth entry would be written behind the array.\<close>

function readMemoryMap_loop :: "nat \<Rightarrow> 'a paging_scheme \<Rightarrow> (nat \<times> 'a paging_scheme) option" where
  "readMemoryMap_loop n s =
     (let e = memoryMap_at (hmem s) (0xF000 + ucast (of_nat n * sizeof_memoryMap))
      in if mm_type e = 0 then Some (n, s)
         else if length (memoryMap s) \<le> n then None
         else readMemoryMap_loop (Suc n)
           (s\<lparr>memoryMap := (memoryMap s)[n := e],
              totalMemorySize := totalMemorySize s + mm_length e,
              upperMemorySize := (if SIZE_1MB \<le> mm_address e then upperMemorySize s + mm_length e
                else upperMemorySize s)\<rparr>))"
  by pat_completeness auto
termination
  by (relation "measure (\<lambda>(n, s). length (memoryMap s) - n)") auto

declare readMemoryMap_loop.simps [simp del]

definition readMemoryMap :: "'a paging_scheme \<Rightarrow> 'a paging_scheme option" where
  "readMemoryMap s = do {
     (n, s) \<leftarrow> readMemoryMap_loop 0 s;
     reworkMemoryMap (s\<lparr>memoryMapLength := of_nat n\<rparr>)
   }"

text \<open>The result is the index of the entry.\<close>

definition getMemoryMapForAddress :: "u64 \<Rightarrow> 'a paging_scheme \<Rightarrow> nat option" where
  "getMemoryMapForAddress address s =
     find (\<lambda>i. let e = memoryMap s ! i
               in mm_address e \<le> address \<and> mm_address e + mm_length e > address) [0..<unat (memoryMapLength s)]"

primrec createKernelTable_loop ::
  "memoryMap list \<Rightarrow> u64 \<Rightarrow> u64 \<Rightarrow> u64 \<Rightarrow> 'a kheap_scheme \<Rightarrow> (int \<times> 'a kheap_scheme) option" where
  "createKernelTable_loop [] pml4Table virtualStart sizeMapped s = Some (SUCCESS, s)"
| "createKernelTable_loop (e # es) pml4Table virtualStart sizeMapped s =
     (if mm_type e = MEMORY_TYPE_FREE then do {
        let physicalStart = downToPage (mm_address e);
        let rangeSize = downToPage (mm_length e);
        (ret, s) \<leftarrow> mapOrCreateRange pml4Table physicalStart (virtualStart + sizeMapped) rangeSize s;
        if ret < 0 then Some (ret, s)
        else createKernelTable_loop es pml4Table virtualStart (sizeMapped + rangeSize) s
      }
      else createKernelTable_loop es pml4Table virtualStart sizeMapped s)"

definition createKernelTable :: "u64 \<Rightarrow> 'a paging_scheme \<Rightarrow> (u64 \<times> 'a paging_scheme) option" where
  "createKernelTable virtualStart s = do {
     (pml4Table, s) \<leftarrow> kzalloc 4096 s;
     if pml4Table = 0 then Some (0, s)
     else do {
       (ret, s) \<leftarrow> createKernelTable_loop (take (unat (memoryMapLength s)) (memoryMap s)) pml4Table virtualStart 0 s;
       if ret < 0 then do {
         (_, s) \<leftarrow> kzfree pml4Table s;
         Some (0, s)
       }
       else Some (pml4Table, s\<lparr>loadedTable := pml4Table\<rparr>)
     }
   }"

end
