(* ===== verification/Page_Map.thy ===== *)
theory Page_Map
  imports Paging
begin

text \<open>
  What the operations of \<^verbatim>\<open>paging.c\<close> do to a tree of page tables. \<open>page_table\<close> is the invariant: the
  tables are different live pages of the heap. \<open>page_map\<close> is the abstract view, a map from the four
  indices of a page to its frame, which mapping updates and \<^verbatim>\<open>virtualToPhysical\<close> reads.
\<close>


section \<open>The tree of tables\<close>

definition pte :: "mem \<Rightarrow> u64 \<Rightarrow> u16 \<Rightarrow> u64" where
  "pte m t i = le64_at m (t + 8 * ucast i)"

definition table_of :: "u64 \<Rightarrow> u64" where
  "table_of e = e AND 0xFFFFFFFFFFFFF000"

fun descend :: "mem \<Rightarrow> u64 \<Rightarrow> u16 list \<Rightarrow> u64 option" where
  "descend m t [] = Some t"
| "descend m t (i # is) = (if pte m t i = 0 then None else descend m (table_of (pte m t i)) is)"

definition indices_ok :: "u16 list \<Rightarrow> bool" where
  "indices_ok p \<longleftrightarrow> (\<forall>i \<in> set p. i < 512)"

lemma indices_ok_simps [simp]:
  "indices_ok []" "indices_ok (i # p) \<longleftrightarrow> i < 512 \<and> indices_ok p" "indices_ok (p @ q) \<longleftrightarrow> indices_ok p \<and> indices_ok q"
  by (auto simp: indices_ok_def)

lemma descend_append:
  "descend m t (p @ q) = Option.bind (descend m t p) (\<lambda>u. descend m u q)"
  by (induction p arbitrary: t) auto

lemma descend_snoc:
  "descend m t (p @ [i]) =
     (case descend m t p of None \<Rightarrow> None
      | Some u \<Rightarrow> if pte m u i = 0 then None else Some (table_of (pte m u i)))"
  by (simp add: descend_append split: option.split)

lemma descend_prefix: "descend m t (p @ q) \<noteq> None \<Longrightarrow> descend m t p \<noteq> None"
  by (cases "descend m t p") (simp_all add: descend_append)

text \<open>
  The invariant: the tables reached by at most three indices are live pages of the heap, and each is
  reached in one way only.
\<close>

definition page_table :: "'a kheap_scheme \<Rightarrow> u64 \<Rightarrow> bool" where
  "page_table s root \<longleftrightarrow>
     (\<forall>p t. length p \<le> 3 \<and> indices_ok p \<and> descend (hmem s) root p = Some t \<longrightarrow> (t, 4096) \<in> live s) \<and>
     (\<forall>p q t. length p \<le> 3 \<and> indices_ok p \<and> length q \<le> 3 \<and> indices_ok q \<and>
        descend (hmem s) root p = Some t \<and> descend (hmem s) root q = Some t \<longrightarrow> p = q)"

lemma page_table_live:
  "\<lbrakk> page_table s root; descend (hmem s) root p = Some t; length p \<le> 3; indices_ok p \<rbrakk> \<Longrightarrow> (t, 4096) \<in> live s"
  by (simp add: page_table_def)

lemma page_table_unique:
  "\<lbrakk> page_table s root; descend (hmem s) root p = Some t; descend (hmem s) root q = Some t;
     length p \<le> 3; indices_ok p; length q \<le> 3; indices_ok q \<rbrakk> \<Longrightarrow> p = q"
  unfolding page_table_def by blast

text \<open>The abstract view of a page table: the frames of the pages, by their four indices.\<close>

definition page_map :: "mem \<Rightarrow> u64 \<Rightarrow> u16 list \<Rightarrow> u64 option" where
  "page_map m root r =
     (if length r = 4 \<and> indices_ok r then descend m root r else None)"

definition indices :: "u64 \<Rightarrow> u16 list" where
  "indices v = [getPml4IndexFromVirtual v, getPdpIndexFromVirtual v, getPdIndexFromVirtual v, getPtIndexFromVirtual v]"

lemma index_less: "(ucast (x AND FULL_512) :: u16) < 512" for x :: u64
proof -
  have "x AND FULL_512 = take_bit 9 x" by (simp add: FULL_512_def take_bit_eq_mask mask_eq_exp_minus_1)
  then have u: "unat (x AND FULL_512) < 2 ^ 9" by (simp only: unsigned_take_bit_eq take_bit_nat_less_exp)
  then have "unat (ucast (x AND FULL_512) :: u16) < 2 ^ 9"
    by (simp add: unsigned_ucast_eq take_bit_nat_eq_self)
  then show ?thesis by (simp add: word_less_nat_alt)
qed

lemma indices_ok_indices [simp]: "indices_ok (indices v)" "length (indices v) = 4"
  by (simp_all add: indices_def getPml4IndexFromVirtual_def getPdpIndexFromVirtual_def
      getPdIndexFromVirtual_def getPtIndexFromVirtual_def index_less)

section \<open>Writing an entry\<close>

lemma entry_offset:
  assumes "i < (512 :: u16)" and "unat t + 4096 \<le> 2 ^ 63"
  shows "unat (t + 8 * ucast i :: u64) = unat t + 8 * unat i"
proof -
  have "unat i < 512" using assms(1) by (simp add: word_less_nat_alt)
  then have "unat (8 * ucast i :: u64) = 8 * unat i"
    by (subst unat_mult_small) (simp_all add: unsigned_ucast_eq take_bit_nat_eq_self)
  then show ?thesis using assms(2) \<open>unat i < 512\<close> by (subst unat_add_small) simp_all
qed

lemma pte_write_same:
  "pte (writePointerTableEntry t x (ucast i) f m) t i = (x AND 0xFFFFFFFFF000) OR ucast f"
  by (simp add: pte_def writePointerTableEntry_def)

lemma pte_write_other:
  fixes s :: "'a kheap_scheme"
  assumes "kheap_wf s" "(t, 4096) \<in> live s" "(u, 4096) \<in> live s" "i < 512" "j < 512" "(u, j) \<noteq> (t, i)"
  shows "pte (writePointerTableEntry t x (ucast i) f m) u j = pte m u j"
proof -
  note r = live_region [OF assms(1,2)] live_region [OF assms(1,3)]
  have i: "unat i < 512" "unat j < 512" using assms by (simp_all add: word_less_nat_alt)
  have a: "unat (t + 8 * ucast i :: u64) = unat t + 8 * unat i" "unat (u + 8 * ucast j :: u64) = unat u + 8 * unat j"
    using r assms by (simp_all add: entry_offset)
  have "unat t + 8 * unat i + 8 \<le> unat u + 8 * unat j \<or> unat u + 8 * unat j + 8 \<le> unat t + 8 * unat i"
  proof (cases "u = t")
    case True
    then have "unat i \<noteq> unat j" using assms(6) by (auto simp: word_unat_eq_iff)
    with True show ?thesis by auto
  next
    case False
    then show ?thesis using live_disjoint_kheap [OF assms(1,2,3)] i by auto
  qed
  then show ?thesis
    unfolding pte_def writePointerTableEntry_def using a r i by (intro le64_at_put_other) auto
qed

lemma write_entry_wf:
  fixes s :: "'a kheap_scheme" and i :: u16
  assumes "kheap_wf s" "(t, 4096) \<in> live s" "i < 512"
  shows "live (s\<lparr>hmem := writePointerTableEntry t x (ucast i) f (hmem s)\<rparr>) = live s"
    "kheap_wf (s\<lparr>hmem := writePointerTableEntry t x (ucast i) f (hmem s)\<rparr>)"
proof -
  note r = live_region [OF assms(1,2)]
  have i: "unat i < 512" using assms by (simp add: word_less_nat_alt)
  have a: "unat (t + 8 * ucast i :: u64) = unat t + 8 * unat i"
    using r assms by (simp add: entry_offset)
  have "\<not> unat (y - (t + 8 * ucast i :: u64)) < 8" if "unat y < 25600" for y
    using a r i that by (subst unat_sub_if') auto
  then have "\<forall>y. unat y < 25600 \<longrightarrow> writePointerTableEntry t x (ucast i) f (hmem s) y = hmem s y"
    by (simp add: writePointerTableEntry_def put_bytes_def)
  from live_write [OF assms(1) this]
  show "live (s\<lparr>hmem := writePointerTableEntry t x (ucast i) f (hmem s)\<rparr>) = live s"
    "kheap_wf (s\<lparr>hmem := writePointerTableEntry t x (ucast i) f (hmem s)\<rparr>)" by simp_all
qed

text \<open>The masks.\<close>

definition page_frame :: "u64 \<Rightarrow> u64" where
  "page_frame x = x AND 0xFFFFFFFFF000"

lemma bit_frame: "bit (page_frame x) n \<longleftrightarrow> 12 \<le> n \<and> n < 48 \<and> bit x n"
proof -
  have e: "(0xFFFFFFFFF000 :: u64) = mask 48 AND NOT (mask 12)" by (simp add: mask_eq_exp_minus_1)
  show ?thesis
    unfolding page_frame_def e by (auto simp: bit_and_iff bit_not_iff bit_mask_iff dest: bit_imp_le_length)
qed

lemma bit_table_of: "bit (table_of x) n \<longleftrightarrow> 12 \<le> n \<and> bit x n"
proof -
  have e: "(0xFFFFFFFFFFFFF000 :: u64) = NOT (mask 12)" by (simp add: mask_eq_exp_minus_1)
  show ?thesis
    unfolding table_of_def e by (auto simp: bit_and_iff bit_not_iff bit_mask_iff dest: bit_imp_le_length)
qed

lemma table_of_entry:
  "table_of (page_frame x OR ucast (PAGING_FLAG_P OR PAGING_FLAG_RW)) = page_frame x"
proof (rule bit_word_eqI)
  fix n
  have "(ucast (PAGING_FLAG_P OR PAGING_FLAG_RW) :: u64) = mask 2"
    by (simp add: paging_const_defs mask_eq_exp_minus_1)
  then show "bit (table_of (page_frame x OR ucast (PAGING_FLAG_P OR PAGING_FLAG_RW))) n \<longleftrightarrow> bit (page_frame x) n"
    by (auto simp: bit_table_of bit_or_iff bit_mask_iff bit_frame)
qed

lemma entry_nonzero: "page_frame x OR ucast (PAGING_FLAG_P OR PAGING_FLAG_RW) \<noteq> 0"
proof
  assume "page_frame x OR ucast (PAGING_FLAG_P OR PAGING_FLAG_RW) = 0"
  then have "bit (page_frame x OR ucast (PAGING_FLAG_P OR PAGING_FLAG_RW)) 0 = bit (0 :: u64) 0" by simp
  then show False by (simp add: bit_or_iff paging_const_defs)
qed

lemma frame_page:
  assumes "unat q mod 4096 = 0" and "unat q < 2 ^ 48"
  shows "page_frame q = q"
proof (rule bit_word_eqI)
  fix n
  have "unat (take_bit 12 q) = take_bit 12 (unat q)" by (simp only: unsigned_take_bit_eq)
  also have "\<dots> = 0" using assms(1) by (simp add: take_bit_eq_mod)
  finally have "take_bit 12 q = 0" by (rule unat_eq_zero [THEN iffD1])
  then have "\<not> bit (take_bit 12 q) n" by simp
  moreover have "take_bit 48 q = q"
    using assms(2) by (simp add: word_unat_eq_iff unsigned_take_bit_eq take_bit_nat_eq_self)
  then have "bit (take_bit 48 q) n \<longleftrightarrow> bit q n" by simp
  ultimately show "bit (page_frame q) n \<longleftrightarrow> bit q n" by (auto simp: bit_frame bit_take_bit_iff)
qed


section \<open>Two ways of changing the tree\<close>

lemma page_map_cong:
  "(\<And>r. length r = 4 \<Longrightarrow> indices_ok r \<Longrightarrow> descend m' root r = descend m root r) \<Longrightarrow>
   page_map m' root = page_map m root"
  by (rule ext) (simp add: page_map_def)

text \<open>An entry of a table at the last level.\<close>

lemma descend_write_leaf:
  fixes s :: "'a kheap_scheme"
  assumes wf: "kheap_wf s" and pt: "page_table s root"
    and p: "descend (hmem s) root p = Some t" "length p = 3" "indices_ok p" "i < 512"
    and m: "m = writePointerTableEntry t x (ucast i) (PAGING_FLAG_P OR PAGING_FLAG_RW) (hmem s)"
    and r: "length r \<le> 4" "indices_ok r"
  shows "descend m root r = (if r = p @ [i] then Some (page_frame x) else descend (hmem s) root r)"
  using r
proof (induction r rule: rev_induct)
  case (snoc j r)
  have ne: "r \<noteq> p @ [i]" using snoc.prems p by auto
  with snoc have IH: "descend m root r = descend (hmem s) root r" by simp
  show ?case
  proof (cases "descend (hmem s) root r")
    case None
    with IH p show ?thesis by (auto simp: descend_snoc)
  next
    case (Some u)
    have live: "(t, 4096) \<in> live s" "(u, 4096) \<in> live s"
      using page_table_live [OF pt p(1)] page_table_live [OF pt Some] p snoc.prems by auto
    show ?thesis
    proof (cases "r = p \<and> j = i")
      case True
      then have "u = t" using Some p by simp
      then show ?thesis
        using True IH Some entry_nonzero [of x] table_of_entry [of x]
        by (simp add: descend_snoc m pte_write_same page_frame_def)
    next
      case False
      have "u = t \<Longrightarrow> r = p"
        using page_table_unique [OF pt Some, of p] p snoc.prems by auto
      then have "pte m u j = pte (hmem s) u j"
        using False snoc.prems p unfolding m by (intro pte_write_other [OF wf live]) auto
      then show ?thesis using False IH Some by (auto simp: descend_snoc)
    qed
  qed
qed simp

lemma page_table_leaf:
  fixes s :: "'a kheap_scheme"
  assumes wf: "kheap_wf s" and pt: "page_table s root"
    and p: "descend (hmem s) root p = Some t" "length p = 3" "indices_ok p" "i < 512"
    and s': "s' = s\<lparr>hmem := writePointerTableEntry t x (ucast i) (PAGING_FLAG_P OR PAGING_FLAG_RW) (hmem s)\<rparr>"
  shows "kheap_wf s'" "live s' = live s" "page_table s' root"
    "page_map (hmem s') root = (page_map (hmem s) root)(p @ [i] \<mapsto> page_frame x)"
proof -
  have live: "(t, 4096) \<in> live s" using page_table_live [OF pt p(1)] p by simp
  show w: "kheap_wf s'" "live s' = live s" using write_entry_wf [OF wf live p(4)] by (simp_all add: s')
  have d: "descend (hmem s') root r = (if r = p @ [i] then Some (page_frame x) else descend (hmem s) root r)"
    if "length r \<le> 4" "indices_ok r" for r
    by (rule descend_write_leaf [OF wf pt p _ that]) (simp add: s')
  have d3: "descend (hmem s') root r = descend (hmem s) root r" if "length r \<le> 3" "indices_ok r" for r
    using d [of r] that p(2) by auto
  show "page_table s' root"
    using pt d3 w(2) unfolding page_table_def by (metis (no_types, lifting))
  show "page_map (hmem s') root = (page_map (hmem s) root)(p @ [i] \<mapsto> page_frame x)"
    using d p by (auto simp: page_map_def fun_eq_iff)
qed


text \<open>A fresh table.\<close>

lemma pte_cong:
  assumes "\<forall>x. unat (x - u) < 4096 \<longrightarrow> m x = m' x" and "j < (512 :: u16)"
  shows "pte m u j = pte m' u j"
  unfolding pte_def
proof (rule le64_at_cong)
  fix k :: nat assume k: "k < 8"
  have j: "unat j < 512" using assms(2) by (simp add: word_less_nat_alt)
  then have "unat (8 * ucast j :: u64) = 8 * unat j"
    by (subst unat_mult_small) (simp_all add: unsigned_ucast_eq take_bit_nat_eq_self)
  then have "unat (8 * ucast j + of_nat k :: u64) = 8 * unat j + k"
    using j k by (subst unat_add_small) (simp_all add: unat_of_nat_small)
  then show "m (u + 8 * ucast j + of_nat k) = m' (u + 8 * ucast j + of_nat k)"
    using assms(1) j k by (simp add: add.assoc)
qed

lemma size_ok_page: "size_ok 4096" and pages_for_page: "pages_for 4096 = 1"
  by (simp_all add: size_ok_def pages_for_def)

lemma alloc_page_cases:
  fixes s :: "'a kheap_scheme"
  assumes "kheap_wf s"
  obtains (null) "kzalloc 4096 s = Some (0, s)"
  | (page) q s1 where "kzalloc 4096 s = Some (q, s1)" "q \<noteq> 0" "kheap_wf s1"
      "live s1 = insert (q, 4096) (live s)" "\<forall>k. (q, k) \<notin> live s" "\<exists>m. s1 = s\<lparr>hmem := m\<rparr>" "page_frame q = q"
      "\<And>j. j < 512 \<Longrightarrow> pte (hmem s1) q j = 0"
      "\<And>u j. (u, 4096) \<in> live s \<Longrightarrow> j < 512 \<Longrightarrow> pte (hmem s1) u j = pte (hmem s) u j"
proof (rule kheap_alloc [OF assms size_ok_page])
  fix q s1
  assume a: "kzalloc 4096 s = Some (q, s1)" "q \<noteq> 0" "kheap_wf s1"
    "live s1 = insert (q, pages_for 4096 * 4096) (live s)" "\<forall>k. (q, k) \<notin> live s"
  have lv: "live s1 = insert (q, 4096) (live s)" using a(4) by (simp add: pages_for_page)
  have fr: "page_frame q = q" using live_region [OF a(3), of q 4096] lv by (intro frame_page) simp_all
  have z: "pte (hmem s1) q j = 0" if "j < 512" for j
  proof -
    have "pte (hmem s1) q j = pte (\<lambda>_. 0) q j"
      using kheap_zeroed [OF assms size_ok_page a(1,2)] that by (intro pte_cong) (simp_all add: pages_for_page)
    then show ?thesis by (simp add: pte_def le64_at_zero)
  qed
  have k: "pte (hmem s1) u j = pte (hmem s) u j" if "(u, 4096) \<in> live s" "j < 512" for u j
    using kheap_alloc_keeps [OF assms size_ok_page a(1) that(1)] that(2) by (intro pte_cong) simp_all
  have "\<exists>m. s1 = s\<lparr>hmem := m\<rparr>" using kzalloc_frame [OF _ a(1)] assms by (simp add: kheap_wf_def)
  with page a lv fr z k show thesis by blast
qed (rule null)

lemma page_table_create:
  fixes s :: "'a kheap_scheme"
  assumes wf: "kheap_wf s" and pt: "page_table s root"
    and p: "descend (hmem s) root p = Some t" "length p \<le> 2" "indices_ok p" "i < 512" "pte (hmem s) t i = 0"
    and q: "q \<noteq> 0" "kheap_wf s1" "live s1 = insert (q, 4096) (live s)" "\<forall>k. (q, k) \<notin> live s" "page_frame q = q"
      "\<And>j. j < 512 \<Longrightarrow> pte (hmem s1) q j = 0"
      "\<And>u j. (u, 4096) \<in> live s \<Longrightarrow> j < 512 \<Longrightarrow> pte (hmem s1) u j = pte (hmem s) u j"
    and s': "s' = s1\<lparr>hmem := writePointerTableEntry t q (ucast i) (PAGING_FLAG_P OR PAGING_FLAG_RW) (hmem s1)\<rparr>"
  shows "kheap_wf s'" "live s' = insert (q, 4096) (live s)" "page_table s' root"
    "descend (hmem s') root (p @ [i]) = Some q" "page_map (hmem s') root = page_map (hmem s) root"
proof -
  have lt: "(t, 4096) \<in> live s" using page_table_live [OF pt p(1)] p by simp
  then have lt1: "(t, 4096) \<in> live s1" using q(3) by simp
  show w: "kheap_wf s'" "live s' = insert (q, 4096) (live s)"
    using write_entry_wf [OF q(2) lt1 p(4)] q(3) by (simp_all add: s')
  have tq: "t \<noteq> q" using q(4) lt by auto
  have old: "descend (hmem s) root (p @ [i]) = None" using p by (simp add: descend_snoc)
  have d: "descend (hmem s') root r = (if r = p @ [i] then Some q else descend (hmem s) root r)"
    if "length r \<le> 4" "indices_ok r" for r
    using that
  proof (induction r rule: rev_induct)
    case (snoc j r)
    show ?case
    proof (cases "r = p @ [i]")
      case True
      have "pte (hmem s') q j = pte (hmem s1) q j"
        unfolding s' using tq q(3) snoc.prems p(4) by simp (rule pte_write_other [OF q(2) lt1], auto)
      then have "pte (hmem s') q j = 0" using q(6) snoc.prems by simp
      moreover have "descend (hmem s') root r = Some q" using snoc True by simp
      moreover have "descend (hmem s) root r = None" "r @ [j] \<noteq> p @ [i]" using old True by simp_all
      ultimately show ?thesis by (simp add: descend_snoc)
    next
      case False
      with snoc have IH: "descend (hmem s') root r = descend (hmem s) root r" by simp
      show ?thesis
      proof (cases "descend (hmem s) root r")
        case None
        with IH p show ?thesis by (auto simp: descend_snoc)
      next
        case (Some u)
        have lu: "(u, 4096) \<in> live s"
          using page_table_live [OF pt Some] snoc.prems by auto
        show ?thesis
        proof (cases "r = p \<and> j = i")
          case True
          then have "u = t" using Some p by simp
          then show ?thesis
            using True IH Some entry_nonzero [of q] table_of_entry [of q] q(5)
            by (simp add: descend_snoc s' pte_write_same page_frame_def)
        next
          case False
          have "u = t \<Longrightarrow> r = p"
            using page_table_unique [OF pt Some, of p] p snoc.prems by auto
          then have "pte (hmem s') u j = pte (hmem s1) u j"
            using False snoc.prems p lu q(3) unfolding s' by simp (rule pte_write_other [OF q(2) lt1], auto)
          then show ?thesis using False IH Some q(7) [OF lu] snoc.prems by (auto simp: descend_snoc)
        qed
      qed
    qed
  qed simp
  then show "descend (hmem s') root (p @ [i]) = Some q" using p by simp
  have ne: "descend (hmem s) root r \<noteq> Some q" if "length r \<le> 3" "indices_ok r" for r
    using page_table_live [OF pt _ that] q(4) by blast
  show "page_map (hmem s') root = page_map (hmem s) root"
    using d p by (intro page_map_cong) auto
  show "page_table s' root"
    unfolding page_table_def
  proof (intro conjI allI impI; elim conjE)
    fix r u assume "length r \<le> 3" "indices_ok r" "descend (hmem s') root r = Some u"
    then show "(u, 4096) \<in> live s'"
      using d [of r] page_table_live [OF pt, of r u] w(2) by (auto split: if_splits)
  next
    fix r r' u assume "length r \<le> 3" "indices_ok r" "length r' \<le> 3" "indices_ok r'"
      "descend (hmem s') root r = Some u" "descend (hmem s') root r' = Some u"
    then show "r = r'"
      using d [of r] d [of r'] ne [of r] ne [of r'] page_table_unique [OF pt, of r u r'] by (auto split: if_splits)
  qed
qed


section \<open>The operations on the tree\<close>

text \<open>Room for \<open>k\<close> more pages, when all live blocks are pages.\<close>

definition room :: "'a heap_page_scheme \<Rightarrow> nat \<Rightarrow> bool" where
  "room s k \<longleftrightarrow> (\<exists>A. live s = (\<lambda>a. (a, 4096)) ` A \<and> finite A \<and> card A + k \<le> unat (table_size s))"

lemma room_less: "room s k \<Longrightarrow> j \<le> k \<Longrightarrow> room s j"
  unfolding room_def by fastforce

lemma room_alloc:
  assumes "room s (Suc k)" "live s' = insert (q, 4096) (live s)" "table_size s' = table_size s"
  shows "room s' k"
proof -
  obtain A where A: "live s = (\<lambda>a. (a, 4096)) ` A" "finite A" "card A + Suc k \<le> unat (table_size s)"
    using assms(1) by (auto simp: room_def)
  then have "live s' = (\<lambda>a. (a, 4096)) ` insert q A" "card (insert q A) \<le> Suc (card A)"
    using assms(2) by (simp_all add: card_insert_le_m1 card_insert_if)
  with A assms(3) show ?thesis unfolding room_def by (intro exI [of _ "insert q A"]) simp
qed

lemma room_serves:
  fixes s :: "'a kheap_scheme"
  assumes "kheap_wf s" "room s (Suc k)"
  shows "kzalloc 4096 s \<noteq> Some (0, s')"
proof -
  obtain A where "live s = (\<lambda>a. (a, 4096)) ` A" "finite A" "card A < unat (table_size s)"
    using assms(2) by (auto simp: room_def)
  then show ?thesis by (rule kheap_serves_page [OF assms(1) _ _ _ size_ok_page pages_for_page])
qed

lemma getOrCreateEntry_cases:
  fixes s :: "'a kheap_scheme"
  assumes wf: "kheap_wf s" and pt: "page_table s root"
    and p: "descend (hmem s) root p = Some t" "length p \<le> 2" "indices_ok p" "i < 512"
  obtains
    (full) "getOrCreateEntry t i s = Some (0, s)" "\<And>k. \<not> room s (Suc k)" "descend (hmem s) root (p @ [i]) = None"
  | (entry) e s' where "getOrCreateEntry t i s = Some (e, s')" "table_of e \<noteq> 0" "kheap_wf s'"
      "live s \<subseteq> live s'" "page_table s' root" "descend (hmem s') root (p @ [i]) = Some (table_of e)"
      "page_map (hmem s') root = page_map (hmem s) root" "\<exists>m. s' = s\<lparr>hmem := m\<rparr>"
      "\<And>k. room s (Suc k) \<Longrightarrow> room s' k" "descend (hmem s) root (p @ [i]) \<noteq> None \<Longrightarrow> s' = s"
proof (cases "pte (hmem s) t i = 0")
  case True
  have none: "descend (hmem s) root (p @ [i]) = None" using True p by (simp add: descend_snoc)
  show thesis
  proof (rule alloc_page_cases [OF wf])
    assume "kzalloc 4096 s = Some (0, s)"
    then show thesis
      using True room_serves [OF wf] none by (intro full) (auto simp: getOrCreateEntry_def pte_def)
  next
    fix q s1
    assume q: "kzalloc 4096 s = Some (q, s1)" "q \<noteq> 0" "kheap_wf s1"
      "live s1 = insert (q, 4096) (live s)" "\<forall>k. (q, k) \<notin> live s" "\<exists>m. s1 = s\<lparr>hmem := m\<rparr>" "page_frame q = q"
      "\<And>j. j < 512 \<Longrightarrow> pte (hmem s1) q j = 0"
      "\<And>u j. (u, 4096) \<in> live s \<Longrightarrow> j < 512 \<Longrightarrow> pte (hmem s1) u j = pte (hmem s) u j"
    define s' where "s' = s1\<lparr>hmem := writePointerTableEntry t q (ucast i) (PAGING_FLAG_P OR PAGING_FLAG_RW) (hmem s1)\<rparr>"
    note c = page_table_create [OF wf pt p True q(2-5,7-9) s'_def]
    have tq: "table_of q = q"
      using q(7) by (intro bit_word_eqI) (metis bit_frame bit_table_of)
    have fr: "\<exists>m. s' = s\<lparr>hmem := m\<rparr>" using q(6) by (auto simp: s'_def)
    show thesis
    proof (rule entry [of q s'])
      show "getOrCreateEntry t i s = Some (q, s')"
        using True q(1,2) by (simp add: getOrCreateEntry_def pte_def s'_def)
      show "room s' k" if "room s (Suc k)" for k
        using room_alloc [OF that c(2)] fr by auto
    qed (use c q(2) tq fr none in auto)
  qed
next
  case False
  let ?e = "pte (hmem s) t i"
  have d: "descend (hmem s) root (p @ [i]) = Some (table_of ?e)" using False p by (simp add: descend_snoc)
  have "(table_of ?e, 4096) \<in> live s" using page_table_live [OF pt d] p by simp
  then have "table_of ?e \<noteq> 0" using live_region(1) [OF wf] by fastforce
  moreover have "getOrCreateEntry t i s = Some (?e, s)"
    using False by (simp add: getOrCreateEntry_def pte_def)
  moreover have "\<exists>m. s = s\<lparr>hmem := m\<rparr>" by (rule exI [of _ "hmem s"]) simp
  ultimately show thesis using d wf pt room_less [of s] by (intro entry [of ?e s]) auto
qed

lemma mapOrCreatePage_cases:
  fixes s :: "'a kheap_scheme"
  assumes wf: "kheap_wf s" and pt: "page_table s root"
  obtains
    (full) s' where "mapOrCreatePage root phys virt s = Some (- ENMEM, s')" "kheap_wf s'" "live s \<subseteq> live s'"
      "page_table s' root" "page_map (hmem s') root = page_map (hmem s) root" "\<not> room s 3" "\<exists>m. s' = s\<lparr>hmem := m\<rparr>"
      "descend (hmem s) root (butlast (indices virt)) = None"
  | (mapped) s' where "mapOrCreatePage root phys virt s = Some (SUCCESS, s')" "kheap_wf s'" "live s \<subseteq> live s'"
      "page_table s' root" "page_map (hmem s') root = (page_map (hmem s) root)(indices virt \<mapsto> page_frame phys)"
      "\<And>k. room s (k + 3) \<Longrightarrow> room s' k" "\<exists>m. s' = s\<lparr>hmem := m\<rparr>"
      "descend (hmem s') root (butlast (indices virt)) \<noteq> None"
      "\<And>k. descend (hmem s) root (butlast (indices virt)) \<noteq> None \<Longrightarrow> room s k \<Longrightarrow> room s' k"
proof -
  let ?i4 = "getPml4IndexFromVirtual virt" and ?i3 = "getPdpIndexFromVirtual virt"
    and ?i2 = "getPdIndexFromVirtual virt" and ?i1 = "getPtIndexFromVirtual virt"
  have ix: "?i4 < 512" "?i3 < 512" "?i2 < 512" "?i1 < 512"
    using indices_ok_indices(1) [of virt] by (simp_all add: indices_def)
  have same: "\<exists>m. s = s\<lparr>hmem := m\<rparr>" by (rule exI [of _ "hmem s"]) simp
  have three: "\<not> room s 3" if "\<And>k. \<not> room s (Suc k)" using that [of 2] by (simp add: numeral_3_eq_3)
  have bl: "butlast (indices virt) = (([] @ [?i4]) @ [?i3]) @ [?i2]" by (simp add: indices_def)
  note pre = descend_prefix [of _ root "([] @ [?i4]) @ [?i3]" "[?i2]"] descend_prefix [of _ root "[] @ [?i4]" "[?i3]"]
  show thesis
  proof (rule getOrCreateEntry_cases [OF wf pt, of "[]" root ?i4])
    assume a: "getOrCreateEntry root ?i4 s = Some (0, s)" "\<And>k. \<not> room s (Suc k)" "descend (hmem s) root ([] @ [?i4]) = None"
    have "descend (hmem s) root (butlast (indices virt)) = None" using a(3) pre bl by metis
    then show thesis using a wf pt same three by (intro full [of s]) (simp_all add: mapOrCreatePage_def)
  next
    fix e3 s3
    assume e3: "getOrCreateEntry root ?i4 s = Some (e3, s3)" "table_of e3 \<noteq> 0" "kheap_wf s3"
      "live s \<subseteq> live s3" "page_table s3 root" "descend (hmem s3) root ([] @ [?i4]) = Some (table_of e3)"
      "page_map (hmem s3) root = page_map (hmem s) root" "\<exists>m. s3 = s\<lparr>hmem := m\<rparr>"
      "\<And>k. room s (Suc k) \<Longrightarrow> room s3 k" "descend (hmem s) root ([] @ [?i4]) \<noteq> None \<Longrightarrow> s3 = s"
    show thesis
    proof (rule getOrCreateEntry_cases [OF e3(3,5,6), of ?i3])
      assume a: "getOrCreateEntry (table_of e3) ?i3 s3 = Some (0, s3)" "\<And>k. \<not> room s3 (Suc k)"
        "descend (hmem s3) root (([] @ [?i4]) @ [?i3]) = None"
      have "descend (hmem s) root (butlast (indices virt)) = None" using a(3) e3(10) pre bl by metis
      then show thesis using a(1,2) e3(1-8) e3(9) [of 2]
        by (intro full [of s3]) (auto simp: mapOrCreatePage_def table_of_def numeral_eq_Suc)
    next
      fix e2 s2
      assume e2: "getOrCreateEntry (table_of e3) ?i3 s3 = Some (e2, s2)" "table_of e2 \<noteq> 0" "kheap_wf s2"
        "live s3 \<subseteq> live s2" "page_table s2 root" "descend (hmem s2) root (([] @ [?i4]) @ [?i3]) = Some (table_of e2)"
        "page_map (hmem s2) root = page_map (hmem s3) root" "\<exists>m. s2 = s3\<lparr>hmem := m\<rparr>"
        "\<And>k. room s3 (Suc k) \<Longrightarrow> room s2 k" "descend (hmem s3) root (([] @ [?i4]) @ [?i3]) \<noteq> None \<Longrightarrow> s2 = s3"
      show thesis
      proof (rule getOrCreateEntry_cases [OF e2(3,5,6), of ?i2])
        assume a: "getOrCreateEntry (table_of e2) ?i2 s2 = Some (0, s2)" "\<And>k. \<not> room s2 (Suc k)"
          "descend (hmem s2) root ((([] @ [?i4]) @ [?i3]) @ [?i2]) = None"
        have "descend (hmem s) root (butlast (indices virt)) = None" using a(3) e3(10) e2(10) pre bl by metis
        then show thesis using a(1,2) e3(1-8) e2(1-8) e3(9) [of 2] e2(9) [of 1]
          by (intro full [of s2]) (auto simp: mapOrCreatePage_def table_of_def numeral_eq_Suc)
      next
        fix e1 s1
        assume e1: "getOrCreateEntry (table_of e2) ?i2 s2 = Some (e1, s1)" "table_of e1 \<noteq> 0" "kheap_wf s1"
          "live s2 \<subseteq> live s1" "page_table s1 root"
          "descend (hmem s1) root ((([] @ [?i4]) @ [?i3]) @ [?i2]) = Some (table_of e1)"
          "page_map (hmem s1) root = page_map (hmem s2) root" "\<exists>m. s1 = s2\<lparr>hmem := m\<rparr>"
          "\<And>k. room s2 (Suc k) \<Longrightarrow> room s1 k"
          "descend (hmem s2) root ((([] @ [?i4]) @ [?i3]) @ [?i2]) \<noteq> None \<Longrightarrow> s1 = s2"
        define s' where "s' = s1\<lparr>hmem := writePointerTableEntry (table_of e1) phys (ucast ?i1)
          (PAGING_FLAG_P OR PAGING_FLAG_RW) (hmem s1)\<rparr>"
        note l = page_table_leaf [OF e1(3,5,6) _ _ ix(4) s'_def]
        have r: "room s' k" if "room s (k + 3)" for k
        proof -
          have "room s1 k" using that e3(9) [of "k + 2"] e2(9) [of "k + 1"] e1(9) [of k] by (simp add: numeral_eq_Suc)
          then show ?thesis using l(2) ix by (simp add: room_def s'_def)
        qed
        have m: "page_map (hmem s') root = (page_map (hmem s) root)(indices virt \<mapsto> page_frame phys)"
          using l e3(7) e2(7) e1(7) ix by (simp add: s'_def indices_def)
        have "page_map (hmem s') root (indices virt) \<noteq> None" using m by simp
        then have "descend (hmem s') root (butlast (indices virt) @ [?i1]) \<noteq> None"
          by (simp add: page_map_def indices_def split: if_splits)
        then have present: "descend (hmem s') root (butlast (indices virt)) \<noteq> None" by (rule descend_prefix)
        have kept: "room s' k" if "descend (hmem s) root (butlast (indices virt)) \<noteq> None" "room s k" for k
        proof -
          have "s1 = s" using that(1) e3(10) e2(10) e1(10) pre unfolding bl by metis
          then show ?thesis using l(2) ix that(2) by (simp add: room_def s'_def)
        qed
        have run: "mapOrCreatePage root phys virt s = Some (SUCCESS, s')"
          using e3(1,2) e2(1,2) e1(1,2) by (simp add: mapOrCreatePage_def s'_def table_of_def)
        have "live s \<subseteq> live s'" "\<exists>m. s' = s\<lparr>hmem := m\<rparr>" using e3(4,8) e2(4,8) e1(4,8) l ix by (auto simp: s'_def)
        with run m present kept r l ix show thesis by (intro mapped [of s']) (simp_all add: s'_def)
      qed (use ix in simp_all)
    qed (use ix in simp_all)
  qed (use ix in simp_all)
qed


section \<open>Mapping a range\<close>

text \<open>The number of pages that a request maps: one even for the size 0.\<close>

definition range_pages :: "u64 \<Rightarrow> nat" where
  "range_pages sz = max 1 ((unat sz + 4095) div 4096)"

primrec map_pages :: "nat \<Rightarrow> u64 \<Rightarrow> u64 \<Rightarrow> (u16 list \<Rightarrow> u64 option) \<Rightarrow> (u16 list \<Rightarrow> u64 option)" where
  "map_pages 0 phys virt M = M"
| "map_pages (Suc k) phys virt M =
     (map_pages k phys virt M)(indices (virt + of_nat (k * 4096)) \<mapsto> page_frame (phys + of_nat (k * 4096)))"

lemma more_pages:
  assumes "Suc k * 4096 < 2 ^ 64"
  shows "of_nat (k * 4096) + SIZE_4KB < sz \<longleftrightarrow> Suc k < range_pages sz"
proof -
  have u: "unat (of_nat (k * 4096) :: u64) = k * 4096"
    by (rule unat_of_nat_small) (use assms in simp)
  have "unat (of_nat (k * 4096) + SIZE_4KB) = Suc k * 4096"
    using assms u by (subst unat_add_small) (simp_all add: SIZE_4KB_def del: of_nat_mult)
  then have "of_nat (k * 4096) + SIZE_4KB < sz \<longleftrightarrow> Suc k * 4096 < unat sz" by (simp add: word_less_nat_alt)
  also have "\<dots> \<longleftrightarrow> Suc (Suc k) \<le> (unat sz + 4095) div 4096"
    by (subst less_eq_div_iff_mult_less_eq) auto
  finally show ?thesis by (auto simp: range_pages_def less_max_iff_disj)
qed

text \<open>
  The tables that mapping the pages from \<open>k\<close> to \<open>n\<close> may have to create: at most three for the first page,
  and three where a later page begins a new table.
\<close>

definition table_starts :: "u64 \<Rightarrow> nat \<Rightarrow> nat \<Rightarrow> nat" where
  "table_starts virt k n = card {i \<in> {k<..<n}. getPtIndexFromVirtual (virt + of_nat (i * 4096)) = 0}"

definition needed :: "mem \<Rightarrow> u64 \<Rightarrow> u64 \<Rightarrow> nat \<Rightarrow> nat \<Rightarrow> nat" where
  "needed m root virt k n =
     (if descend m root (butlast (indices (virt + of_nat (k * 4096)))) = None then 1 else 0) + table_starts virt k n"

definition range_tables :: "nat \<Rightarrow> nat" where
  "range_tables n = min n (n div 512 + 2)"

lemma unat_drop_bit_64: "unat (drop_bit n (v :: u64)) = unat v div 2 ^ n"
  using take_bit_nat_eq_self [OF unat_less_pow64 [of v]]
  by (simp only: unsigned_drop_bit_eq) (simp add: drop_bit_eq_div)

lemma pt_index_zero:
  assumes "k < 2 ^ 52"
  shows "getPtIndexFromVirtual (virt + of_nat (k * 4096)) = 0 \<longleftrightarrow> (unat virt div 4096 + k) mod 512 = 0"
proof -
  let ?w = "virt + of_nat (k * 4096) :: u64"
  have "unat (of_nat (k * 4096) :: u64) = k * 4096" by (rule unat_of_nat_small) (use assms in simp)
  then have "unat ?w = (unat virt + k * 4096) mod 2 ^ 64" by (simp only: unat_word_ariths) simp
  moreover have "(unat virt + k * 4096) mod 2 ^ 64 div 4096 mod 512 = (unat virt + k * 4096) div 4096 mod 512"
  proof -
    have "take_bit 9 (drop_bit 12 (take_bit 64 x)) = take_bit 9 (drop_bit 12 x)" for x :: nat
      by (rule bit_eqI) (auto simp: bit_simps)
    then show ?thesis by (simp add: take_bit_eq_mod drop_bit_eq_div)
  qed
  ultimately have m: "unat ?w div 4096 mod 512 = (unat virt div 4096 + k) mod 512" by (simp add: add.commute)
  have e: "FULL_512 = mask 9" by (simp add: FULL_512_def mask_eq_exp_minus_1)
  have "getPtIndexFromVirtual ?w = ucast (take_bit 9 (drop_bit 12 ?w))"
    by (simp add: getPtIndexFromVirtual_def SHIFT_PT_def e take_bit_eq_mask)
  moreover have "unat (take_bit 9 (drop_bit 12 ?w)) = unat ?w div 4096 mod 512"
    by (simp only: unsigned_take_bit_eq unat_drop_bit_64) (simp add: take_bit_eq_mod)
  ultimately have "unat (getPtIndexFromVirtual ?w) = unat ?w div 4096 mod 512"
    by (simp add: unsigned_ucast_eq take_bit_nat_eq_self)
  with m show ?thesis by (simp add: unat_eq_0 [symmetric] del: unat_eq_0)
qed

lemma upper_indices:
  assumes "unat v div 4096 mod 512 \<noteq> 511"
  shows "butlast (indices (v + 4096)) = butlast (indices v)"
proof -
  let ?x = "unat v"
  define q r where "q = ?x div 2097152" and "r = ?x mod 2097152"
  have x: "?x = 2097152 * q + r" by (simp add: q_def r_def)
  have "r = 4096 * (?x div 4096 mod 512) + ?x mod 4096" using mod_mult2_eq [of ?x 4096 512] by (simp add: r_def)
  moreover have "?x div 4096 mod 512 < 512" "?x mod 4096 < 4096" by simp_all
  ultimately have r: "r + 4096 < 2097152" using assms by linarith
  have "q < 2 ^ 43" using unat_less_pow64 [of v] x by simp
  with x r have "?x + 4096 < 2 ^ 64" by simp
  then have u: "unat (v + 4096) = ?x + 4096" by (subst unat_add_small) simp_all
  have "(?x + 4096) div 2097152 = ?x div 2097152" using r by (simp add: x add.assoc)
  with u have d: "drop_bit 21 (v + 4096) = drop_bit 21 v"
    by (simp only: word_unat_eq_iff unat_drop_bit_64) simp
  have "drop_bit (n + 21) (v + 4096) = drop_bit (n + 21) v" for n
    using d by (simp flip: drop_bit_drop_bit)
  from this [of 0] this [of 9] this [of 18] show ?thesis
    by (simp add: indices_def getPml4IndexFromVirtual_def getPdpIndexFromVirtual_def getPdIndexFromVirtual_def
        SHIFT_PML4_def SHIFT_PDP_def SHIFT_PD_def)
qed


lemma needed_step:
  assumes "Suc k < n" "Suc k * 4096 < 2 ^ 64" "descend m root (butlast (indices (virt + of_nat (k * 4096)))) \<noteq> None"
  shows "needed m root virt (Suc k) n \<le> table_starts virt k n"
proof -
  let ?P = "\<lambda>i. getPtIndexFromVirtual (virt + of_nat (i * 4096)) = 0"
  have "{k<..<n} = insert (Suc k) {Suc k<..<n}" using assms(1) by auto
  then have "{i \<in> {k<..<n}. ?P i} = (if ?P (Suc k) then {Suc k} else {}) \<union> {i \<in> {Suc k<..<n}. ?P i}"
    by (auto simp del: of_nat_mult)
  then have c: "table_starts virt k n = (if ?P (Suc k) then 1 else 0) + table_starts virt (Suc k) n"
    by (simp add: table_starts_def card_insert_if del: of_nat_mult)
  show ?thesis
  proof (cases "?P (Suc k)")
    case True
    with c show ?thesis by (simp add: needed_def del: of_nat_mult)
  next
    case False
    let ?v = "virt + of_nat (k * 4096)"
    have small: "k < 2 ^ 52" "Suc k < 2 ^ 52" using assms(2) by simp_all
    have "getPtIndexFromVirtual (?v + of_nat (Suc 0 * 4096)) \<noteq> 0" using False by (simp add: add.commute add.left_commute)
    then have "unat ?v div 4096 mod 512 \<noteq> 511"
      using pt_index_zero [of "Suc 0" ?v] by (auto simp: mod_Suc)
    from upper_indices [OF this] have "butlast (indices (virt + of_nat (Suc k * 4096))) = butlast (indices ?v)"
      by (simp add: add.commute add.left_commute)
    with assms(3) c False show ?thesis by (simp add: needed_def del: of_nat_mult)
  qed
qed

lemma card_residues: "card {i \<in> {0<..<n :: nat}. (c + i) mod 512 = 0} \<le> n div 512 + 1"
proof -
  have "inj_on (\<lambda>i. i div 512) {i \<in> {0<..<n}. (c + i) mod 512 = 0}"
  proof (rule inj_onI)
    fix x y assume a: "x \<in> {i \<in> {0<..<n}. (c + i) mod 512 = 0}" "y \<in> {i \<in> {0<..<n}. (c + i) mod 512 = 0}" "x div 512 = y div 512"
    then have d: "512 dvd c + x" "512 dvd c + y" by (simp_all add: dvd_eq_mod_eq_0)
    have e: "512 dvd y - x" "512 dvd x - y" using dvd_diff_nat [OF d(2,1)] dvd_diff_nat [OF d] by simp_all
    have "x = 512 * (y div 512) + x mod 512" "y = 512 * (y div 512) + y mod 512" "x mod 512 < 512" "y mod 512 < 512"
      using a(3) div_mult_mod_eq [of x 512] by simp_all
    then have "y - x < 512" "x - y < 512" by linarith+
    with e have "y - x = 0" "x - y = 0" by (auto dest: dvd_imp_le)
    then show "x = y" by simp
  qed
  moreover have "(\<lambda>i. i div 512) ` {i \<in> {0<..<n}. (c + i) mod 512 = 0} \<subseteq> {..n div 512}"
    by (auto intro: div_le_mono)
  ultimately have "card {i \<in> {0<..<n}. (c + i) mod 512 = 0} \<le> card {..n div 512}" by (intro card_inj_on_le) simp_all
  then show ?thesis by simp
qed

lemma needed_bound:
  assumes "0 < n" "n \<le> 2 ^ 52"
  shows "needed m root virt 0 n \<le> range_tables n"
proof -
  have "{i \<in> {0<..<n}. getPtIndexFromVirtual (virt + of_nat (i * 4096)) = 0} =
      {i \<in> {0<..<n}. (unat virt div 4096 + i) mod 512 = 0}"
    using assms(2) by (auto simp: pt_index_zero simp del: of_nat_mult)
  then have t: "table_starts virt 0 n = card {i \<in> {0<..<n}. (unat virt div 4096 + i) mod 512 = 0}"
    by (simp add: table_starts_def del: of_nat_mult)
  have "table_starts virt 0 n \<le> card {0<..<n}" unfolding t by (rule card_mono) auto
  then have "table_starts virt 0 n \<le> n - 1" by simp
  moreover have "table_starts virt 0 n \<le> n div 512 + 1" unfolding t by (rule card_residues)
  ultimately have "Suc (table_starts virt 0 n) \<le> range_tables n" using assms(1) by (simp add: range_tables_def)
  then show ?thesis by (simp add: needed_def)
qed

lemma range_tables_1 [simp]: "range_tables (Suc 0) = Suc 0"
  by (simp add: range_tables_def)

lemma mapOrCreateRange_loop_refines:
  fixes s :: "'a kheap_scheme"
  assumes "kheap_wf s" "page_table s root" "range_pages sz * 4096 \<le> 2 ^ 31" "k < range_pages sz"
    and "page_map (hmem s) root = map_pages k phys virt M"
  shows "\<exists>r s' j. mapOrCreateRange_loop root phys virt sz k (of_nat (k * 4096)) s = Some (r, s') \<and>
    kheap_wf s' \<and> page_table s' root \<and> live s \<subseteq> live s' \<and> (\<exists>m. s' = s\<lparr>hmem := m\<rparr>) \<and>
    page_map (hmem s') root = map_pages j phys virt M \<and>
    (if r = 0 then j = range_pages sz \<and> (\<forall>i. room s (i + 3 * needed (hmem s) root virt k (range_pages sz)) \<longrightarrow> room s' i)
     else r = - ENMEM \<and> j < range_pages sz \<and> \<not> room s (3 * needed (hmem s) root virt k (range_pages sz)))"
  using assms
proof (induction "range_pages sz - k" arbitrary: k s)
  case (Suc d)
  let ?n = "range_pages sz"
  have k: "k * 4096 < 2 ^ 31" "Suc k * 4096 < 2 ^ 64" using Suc.prems by simp_all
  note step = mapOrCreateRange_loop.simps [of root phys virt sz k "of_nat (k * 4096)" s]
  show ?case
  proof (rule mapOrCreatePage_cases [OF Suc.prems(1,2), of "phys + of_nat (k * 4096)" "virt + of_nat (k * 4096)"])
    fix s' assume f: "mapOrCreatePage root (phys + of_nat (k * 4096)) (virt + of_nat (k * 4096)) s = Some (- ENMEM, s')"
      "kheap_wf s'" "live s \<subseteq> live s'" "page_table s' root" "page_map (hmem s') root = page_map (hmem s) root"
      "\<not> room s 3" "\<exists>m. s' = s\<lparr>hmem := m\<rparr>"
      "descend (hmem s) root (butlast (indices (virt + of_nat (k * 4096)))) = None"
    have "3 \<le> 3 * needed (hmem s) root virt k ?n" using f(8) by (simp add: needed_def del: of_nat_mult)
    then have "\<not> room s (3 * needed (hmem s) root virt k ?n)" using f(6) room_less by blast
    with f k Suc.prems show ?thesis
      by (intro exI [of _ "- ENMEM"] exI [of _ s'] exI [of _ k]) (simp add: step del: of_nat_mult)
  next
    fix s1 assume s1: "mapOrCreatePage root (phys + of_nat (k * 4096)) (virt + of_nat (k * 4096)) s = Some (SUCCESS, s1)"
      "kheap_wf s1" "live s \<subseteq> live s1" "page_table s1 root"
      "page_map (hmem s1) root = (page_map (hmem s) root)(indices (virt + of_nat (k * 4096)) \<mapsto> page_frame (phys + of_nat (k * 4096)))"
      "\<And>k. room s (k + 3) \<Longrightarrow> room s1 k" "\<exists>m. s1 = s\<lparr>hmem := m\<rparr>"
      "descend (hmem s1) root (butlast (indices (virt + of_nat (k * 4096)))) \<noteq> None"
      "\<And>i. descend (hmem s) root (butlast (indices (virt + of_nat (k * 4096)))) \<noteq> None \<Longrightarrow> room s i \<Longrightarrow> room s1 i"
    define f :: nat where "f = (if descend (hmem s) root (butlast (indices (virt + of_nat (k * 4096)))) = None then 1 else 0)"
    have nd: "needed (hmem s) root virt k ?n = f + table_starts virt k ?n" by (simp only: needed_def f_def)
    have here: "room s1 i" if "room s (i + 3 * f)" for i
      using that s1(6,9) [of i] by (simp add: f_def del: of_nat_mult split: if_splits)
    have pm: "page_map (hmem s1) root = map_pages (Suc k) phys virt M" using s1(5) Suc.prems(5) by simp
    show ?thesis
    proof (cases "Suc k < ?n")
      case True
      have e: "of_nat (Suc k * 4096) = of_nat (k * 4096) + SIZE_4KB" by (simp add: SIZE_4KB_def)
      have go: "mapOrCreateRange_loop root phys virt sz k (of_nat (k * 4096)) s =
          mapOrCreateRange_loop root phys virt sz (Suc k) (of_nat (Suc k * 4096)) s1"
        unfolding e
        using s1(1) k True more_pages [OF k(2), of sz] by (simp add: step del: of_nat_mult)
      have d: "d = ?n - Suc k" using Suc.hyps(2) by simp
      obtain r s' j where r: "mapOrCreateRange_loop root phys virt sz (Suc k) (of_nat (Suc k * 4096)) s1 = Some (r, s')"
        "kheap_wf s'" "page_table s' root" "live s1 \<subseteq> live s'" "\<exists>m. s' = s1\<lparr>hmem := m\<rparr>"
        "page_map (hmem s') root = map_pages j phys virt M"
        "if r = 0 then j = ?n \<and> (\<forall>i. room s1 (i + 3 * needed (hmem s1) root virt (Suc k) ?n) \<longrightarrow> room s' i)
         else r = - ENMEM \<and> j < ?n \<and> \<not> room s1 (3 * needed (hmem s1) root virt (Suc k) ?n)"
        using Suc.hyps(1) [OF d s1(2,4) Suc.prems(3) True pm]
        by (elim exE conjE) (rule that; (assumption | rule exI, assumption))
      have le: "needed (hmem s1) root virt (Suc k) ?n \<le> table_starts virt k ?n"
        by (rule needed_step) (use True k s1(8) in simp_all)
      have step1: "room s1 (i + 3 * needed (hmem s1) root virt (Suc k) ?n)"
        if "room s (i + 3 * needed (hmem s) root virt k ?n)" for i
      proof (rule room_less)
        have "i + 3 * (f + table_starts virt k ?n) = (i + 3 * table_starts virt k ?n) + 3 * f" by simp
        with that have "room s ((i + 3 * table_starts virt k ?n) + 3 * f)" by (simp only: nd)
        then show "room s1 (i + 3 * table_starts virt k ?n)" by (rule here)
        show "i + 3 * needed (hmem s1) root virt (Suc k) ?n \<le> i + 3 * table_starts virt k ?n" using le by simp
      qed
      then have "\<not> room s1 (3 * needed (hmem s1) root virt (Suc k) ?n) \<Longrightarrow> \<not> room s (3 * needed (hmem s) root virt k ?n)"
        using step1 [of 0] by auto
      moreover note step1
      ultimately show ?thesis using r go s1(3,7)
        by (intro exI [of _ r] exI [of _ s'] exI [of _ j]) (auto split: if_splits)
    next
      case False
      then have n: "?n = Suc k" using Suc.prems(4) by simp
      have "mapOrCreateRange_loop root phys virt sz k (of_nat (k * 4096)) s = Some (SUCCESS, s1)"
        using s1(1) k False more_pages [OF k(2), of sz] by (simp add: step del: of_nat_mult)
      moreover have "room s1 i" if "room s (i + 3 * needed (hmem s) root virt k ?n)" for i
      proof -
        have "{k<..<?n} = {}" using n by auto
        then have "table_starts virt k ?n = 0" by (simp add: table_starts_def)
        with that here [of i] show ?thesis by (simp only: nd add_0_right)
      qed
      ultimately show ?thesis using s1(2-4,7) pm n
        by (intro exI [of _ 0] exI [of _ s1] exI [of _ "?n"]) simp
    qed
  qed
qed simp

lemma mapOrCreateRange_cases:
  fixes s :: "'a kheap_scheme"
  assumes "kheap_wf s" and "page_table s root" and "range_pages sz * 4096 \<le> 2 ^ 31"
  obtains
    (full) m j where "mapOrCreateRange root phys virt sz s = Some (- ENMEM, s\<lparr>hmem := m\<rparr>)"
      "kheap_wf (s\<lparr>hmem := m\<rparr>)" "page_table (s\<lparr>hmem := m\<rparr>) root" "live s \<subseteq> live (s\<lparr>hmem := m\<rparr>)"
      "page_map m root = map_pages j phys virt (page_map (hmem s) root)" "j < range_pages sz"
      "\<not> room s (3 * range_tables (range_pages sz))"
  | (mapped) m where "mapOrCreateRange root phys virt sz s = Some (0, s\<lparr>hmem := m\<rparr>)"
      "kheap_wf (s\<lparr>hmem := m\<rparr>)" "page_table (s\<lparr>hmem := m\<rparr>) root" "live s \<subseteq> live (s\<lparr>hmem := m\<rparr>)"
      "page_map m root = map_pages (range_pages sz) phys virt (page_map (hmem s) root)"
      "\<And>i. room s (i + 3 * range_tables (range_pages sz)) \<Longrightarrow> room (s\<lparr>hmem := m\<rparr>) i"
proof -
  let ?M = "page_map (hmem s) root"
  let ?q = "needed (hmem s) root virt 0 (range_pages sz)"
  have pos: "0 < range_pages sz" by (simp add: range_pages_def)
  have "?q \<le> range_tables (range_pages sz)" by (rule needed_bound) (use pos assms(3) in simp_all)
  then have w: "room s (i + 3 * range_tables (range_pages sz)) \<Longrightarrow> room s (i + 3 * ?q)"
    "room s (3 * range_tables (range_pages sz)) \<Longrightarrow> room s (3 * ?q)" for i
    by (auto elim: room_less)
  from pos have L: "\<exists>r s' j. mapOrCreateRange root phys virt sz s = Some (r, s') \<and>
    kheap_wf s' \<and> page_table s' root \<and> live s \<subseteq> live s' \<and> (\<exists>m. s' = s\<lparr>hmem := m\<rparr>) \<and>
    page_map (hmem s') root = map_pages j phys virt ?M \<and>
    (if r = 0 then j = range_pages sz \<and> (\<forall>i. room s (i + 3 * range_tables (range_pages sz)) \<longrightarrow> room s' i)
     else r = - ENMEM \<and> j < range_pages sz \<and> \<not> room s (3 * range_tables (range_pages sz)))"
    using mapOrCreateRange_loop_refines [OF assms, of 0 phys virt ?M] w
    by (simp add: mapOrCreateRange_def split del: if_split) (smt (verit))
  obtain r s' j m where r: "mapOrCreateRange root phys virt sz s = Some (r, s')"
    "kheap_wf s'" "page_table s' root" "live s \<subseteq> live s'" "s' = s\<lparr>hmem := m\<rparr>"
    "page_map (hmem s') root = map_pages j phys virt ?M"
    "if r = 0 then j = range_pages sz \<and> (\<forall>i. room s (i + 3 * range_tables (range_pages sz)) \<longrightarrow> room s' i) else r = - ENMEM \<and> j < range_pages sz \<and> \<not> room s (3 * range_tables (range_pages sz))"
    using L by (elim exE conjE) (rule that; assumption)
  show thesis
  proof (cases "r = 0")
    case True
    with r mapped [of m] show thesis by simp
  next
    case False
    with r full [of m j] show thesis by simp
  qed
qed

text \<open>
  Property C9. \<^verbatim>\<open>mapOrCreateRange\<close> implements the extension of the map from pages to frames. On a
  well-formed page table a request of at most 2 GiB maps the pages from the first one on and changes
  no other page; it returns success when all pages are mapped, and \<^verbatim>\<open>-ENMEM\<close> with the pages mapped so
  far when the heap has run out of pages. It never does with three free heap pages for each
  started group of 512 pages. The page table stays well formed and keeps its own tables. A request of size 0 maps one page.
\<close>

theorem mapOrCreateRange_refines:
  fixes s :: "'a kheap_scheme"
  assumes "kheap_wf s" and "page_table s root" and "range_pages sz * 4096 \<le> 2 ^ 31"
  shows "\<exists>r s' j. mapOrCreateRange root phys virt sz s = Some (r, s') \<and>
    kheap_wf s' \<and> page_table s' root \<and> live s \<subseteq> live s' \<and> (\<exists>m. s' = s\<lparr>hmem := m\<rparr>) \<and>
    page_map (hmem s') root = map_pages j phys virt (page_map (hmem s) root) \<and>
    (if r = 0 then j = range_pages sz
     else r = - ENMEM \<and> j < range_pages sz \<and> \<not> room s (3 * range_tables (range_pages sz)))"
proof (rule mapOrCreateRange_cases [OF assms, of phys virt])
  fix m j assume "mapOrCreateRange root phys virt sz s = Some (- ENMEM, s\<lparr>hmem := m\<rparr>)"
    "kheap_wf (s\<lparr>hmem := m\<rparr>)" "page_table (s\<lparr>hmem := m\<rparr>) root" "live s \<subseteq> live (s\<lparr>hmem := m\<rparr>)"
    "page_map m root = map_pages j phys virt (page_map (hmem s) root)" "j < range_pages sz"
    "\<not> room s (3 * range_tables (range_pages sz))"
  then show ?thesis by (intro exI [of _ "- ENMEM"] exI [of _ "s\<lparr>hmem := m\<rparr>"] exI [of _ j]) auto
next
  fix m assume "mapOrCreateRange root phys virt sz s = Some (0, s\<lparr>hmem := m\<rparr>)"
    "kheap_wf (s\<lparr>hmem := m\<rparr>)" "page_table (s\<lparr>hmem := m\<rparr>) root" "live s \<subseteq> live (s\<lparr>hmem := m\<rparr>)"
    "page_map m root = map_pages (range_pages sz) phys virt (page_map (hmem s) root)"
  then show ?thesis by (intro exI [of _ 0] exI [of _ "s\<lparr>hmem := m\<rparr>"] exI [of _ "range_pages sz"]) auto
qed

section \<open>Translation\<close>

lemma returnTableEntryNoFlags_eq: "returnTableEntryNoFlags t i m = table_of (pte m t i)"
  by (simp add: returnTableEntryNoFlags_def table_of_def pte_def)

lemma table_of_0 [simp]: "table_of 0 = 0"
  by (simp add: table_of_def)

lemma page_table_nonnull:
  fixes s :: "'a kheap_scheme"
  assumes "kheap_wf s" "page_table s root" "descend (hmem s) root p = Some t" "length p \<le> 3" "indices_ok p"
  shows "t \<noteq> 0"
  using live_region(1) [OF assms(1) page_table_live [OF assms(2-5)]] by auto

lemma page_offset: "ucast (ucast (v AND FULL_4KB) :: u16) = v AND 0xFFF" for v :: u64
proof -
  have "v AND 0xFFF = take_bit 12 v" by (simp add: take_bit_eq_mask mask_eq_exp_minus_1)
  then show ?thesis
    by (intro bit_word_eqI) (auto simp: FULL_4KB_def bit_ucast_iff bit_take_bit_iff)
qed

text \<open>What \<^verbatim>\<open>virtualToPhysical\<close> reads: for a page that is not mapped it may return the bare offset.\<close>

lemma virtualToPhysical_map:
  fixes s :: "'a kheap_scheme"
  assumes wf: "kheap_wf s" and pt: "page_table s root"
  shows "virtualToPhysical v root (hmem s) =
    (case page_map (hmem s) root (indices v) of
       Some f \<Rightarrow> f + (v AND 0xFFF)
     | None \<Rightarrow> if descend (hmem s) root (take 3 (indices v)) = None then 0 else v AND 0xFFF)"
proof -
  let ?m = "hmem s" and ?i4 = "getPml4IndexFromVirtual v" and ?i3 = "getPdpIndexFromVirtual v"
    and ?i2 = "getPdIndexFromVirtual v" and ?i1 = "getPtIndexFromVirtual v"
  have ix: "?i4 < 512" "?i3 < 512" "?i2 < 512" "?i1 < 512"
    using indices_ok_indices(1) [of v] by (simp_all add: indices_def)
  have u: "ucast (drop_bit SHIFT_PDP v AND FULL_512) = ?i3" "ucast (drop_bit SHIFT_PD v AND FULL_512) = ?i2"
      "ucast (drop_bit SHIFT_PT v AND FULL_512) = ?i1"
    by (simp_all add: getPdpIndexFromVirtual_def getPdIndexFromVirtual_def getPtIndexFromVirtual_def)
  have n: "pte ?m t i \<noteq> 0 \<Longrightarrow> table_of (pte ?m t i) \<noteq> 0"
    if "descend ?m root p = Some t" "length p \<le> 2" "indices_ok p" "i < 512" for p t i
    using page_table_nonnull [OF wf pt, of "p @ [i]" "table_of (pte ?m t i)"] that by (simp add: descend_snoc)
  define e4 where "e4 = pte ?m root ?i4"
  define e3 where "e3 = pte ?m (table_of e4) ?i3"
  define e2 where "e2 = pte ?m (table_of e3) ?i2"
  define e1 where "e1 = pte ?m (table_of e2) ?i1"
  have n4: "e4 \<noteq> 0 \<Longrightarrow> table_of e4 \<noteq> 0"
    using n [of "[]"] ix by (simp add: e4_def)
  have n3: "e4 \<noteq> 0 \<Longrightarrow> e3 \<noteq> 0 \<Longrightarrow> table_of e3 \<noteq> 0"
    using n [of "[?i4]"] ix by (simp add: e4_def e3_def)
  have n2: "e4 \<noteq> 0 \<Longrightarrow> e3 \<noteq> 0 \<Longrightarrow> e2 \<noteq> 0 \<Longrightarrow> table_of e2 \<noteq> 0"
    using n [of "[?i4, ?i3]"] ix by (simp add: e4_def e3_def e2_def)
  have l: "virtualToPhysical v root ?m =
    (if table_of e4 = 0 \<or> table_of e3 = 0 \<or> table_of e2 = 0 then 0 else table_of e1 + (v AND 0xFFF))"
    unfolding virtualToPhysical_def getPTTable_def u returnTableEntryNoFlags_eq
    by (simp add: Let_def page_offset e4_def e3_def e2_def e1_def)
  have d: "descend ?m root (take 3 (indices v)) = (if e4 = 0 \<or> e3 = 0 \<or> e2 = 0 then None else Some (table_of e2))"
    by (simp add: indices_def e4_def e3_def e2_def)
  have pm: "page_map ?m root (indices v) =
    (if e4 = 0 \<or> e3 = 0 \<or> e2 = 0 \<or> e1 = 0 then None else Some (table_of e1))"
    using ix by (simp add: page_map_def indices_def e4_def e3_def e2_def e1_def)
  show ?thesis unfolding l d pm using n4 n3 n2 by (auto split: if_splits)
qed

lemma bit_index:
  "j < 9 \<Longrightarrow> bit (ucast (drop_bit n v AND FULL_512) :: u16) j \<longleftrightarrow> bit v (n + j)" for v :: u64
proof -
  assume j: "j < 9"
  have e: "drop_bit n v AND FULL_512 = take_bit 9 (drop_bit n v)"
    by (simp add: FULL_512_def take_bit_eq_mask mask_eq_exp_minus_1)
  show ?thesis unfolding e using j by (simp add: bit_ucast_iff bit_take_bit_iff bit_drop_bit_eq)
qed

lemma indices_frame: "indices v = indices w \<Longrightarrow> page_frame v = page_frame w"
proof (rule bit_word_eqI)
  fix n assume eq: "indices v = indices w"
  have b: "bit v (k + j) \<longleftrightarrow> bit w (k + j)" if "k \<in> {39, 30, 21, 12}" "j < 9" for k j
    using bit_index [OF that(2), of k v] bit_index [OF that(2), of k w] eq that(1)
    by (auto simp: indices_def getPml4IndexFromVirtual_def getPdpIndexFromVirtual_def
        getPdIndexFromVirtual_def getPtIndexFromVirtual_def SHIFT_PML4_def SHIFT_PDP_def SHIFT_PD_def SHIFT_PT_def)
  have "bit v n \<longleftrightarrow> bit w n" if n: "12 \<le> n" "n < 48"
  proof -
    consider "39 \<le> n" | "30 \<le> n" "n < 39" | "21 \<le> n" "n < 30" | "n < 21" by linarith
    then show ?thesis
      by cases (use n b [of 39 "n - 39"] b [of 30 "n - 30"] b [of 21 "n - 21"] b [of 12 "n - 12"] in auto)
  qed
  then show "bit (page_frame v) n \<longleftrightarrow> bit (page_frame w) n" by (auto simp: bit_frame)
qed


lemma frame_indices: "page_frame v = page_frame w \<Longrightarrow> indices v = indices w"
proof -
  assume eq: "page_frame v = page_frame w"
  have "(ucast (drop_bit n v AND FULL_512) :: u16) = ucast (drop_bit n w AND FULL_512)" if "n \<in> {39, 30, 21, 12}" for n
  proof (rule bit_word_eqI)
    fix j
    have e: "drop_bit n x AND FULL_512 = take_bit 9 (drop_bit n x)" for x :: u64
      by (simp add: FULL_512_def take_bit_eq_mask mask_eq_exp_minus_1)
    have "bit v (n + j) \<longleftrightarrow> bit w (n + j)" if "j < 9"
      using arg_cong [OF eq, of "\<lambda>x. bit x (n + j)"] \<open>n \<in> _\<close> that by (auto simp: bit_frame)
    then show "bit (ucast (drop_bit n v AND FULL_512) :: u16) j \<longleftrightarrow> bit (ucast (drop_bit n w AND FULL_512) :: u16) j"
      unfolding e by (auto simp: bit_ucast_iff bit_take_bit_iff bit_drop_bit_eq)
  qed
  then show "indices v = indices w"
    by (simp add: indices_def getPml4IndexFromVirtual_def getPdpIndexFromVirtual_def
        getPdIndexFromVirtual_def getPtIndexFromVirtual_def SHIFT_PML4_def SHIFT_PDP_def SHIFT_PD_def SHIFT_PT_def)
qed

text \<open>For page-aligned addresses the frame determines the address below \<open>2 ^ 48\<close>.\<close>

lemma aligned_bit:
  fixes x :: u64
  assumes "unat x mod 4096 = 0" and "n < 12"
  shows "\<not> bit x n"
proof -
  have "unat (take_bit 12 x) = take_bit 12 (unat x)" by (simp only: unsigned_take_bit_eq)
  also have "\<dots> = 0" using assms by (simp add: take_bit_eq_mod)
  finally have "take_bit 12 x = 0" by (rule unat_eq_zero [THEN iffD1])
  then have "\<not> bit (take_bit 12 x) n" by simp
  with assms(2) show ?thesis by (simp add: bit_take_bit_iff)
qed

lemma offset_bit:
  fixes x :: u64
  assumes "unat x < 4096" and "12 \<le> n"
  shows "\<not> bit x n"
proof -
  have "unat x < 2 ^ 12" using assms by simp
  then have "unat (take_bit 12 x) = unat x" by (simp only: unsigned_take_bit_eq take_bit_nat_eq_self)
  then have "take_bit 12 x = x" by (simp only: word_unat_eq_iff)
  then have "bit x n \<longleftrightarrow> bit (take_bit 12 x) n" by simp
  with assms(2) show ?thesis by (simp add: bit_take_bit_iff)
qed

lemma frame_aligned:
  assumes "unat x mod 4096 = 0"
  shows "page_frame x = take_bit 48 x"
proof (rule bit_word_eqI)
  fix n show "bit (page_frame x) n \<longleftrightarrow> bit (take_bit 48 x) n"
    using aligned_bit [OF assms, of n] by (cases "n < 12") (auto simp: bit_frame bit_take_bit_iff)
qed

lemma frame_add_offset:
  assumes "unat x mod 4096 = 0" and "unat o' < 4096"
  shows "page_frame (x + o') = page_frame x" "(x + o') AND 0xFFF = o'"
proof -
  note b = aligned_bit [OF assms(1)] offset_bit [OF assms(2)]
  have plus: "x + o' = x OR o'"
    by (rule disjunctive_add) (use b not_le in blast)
  show "page_frame (x + o') = page_frame x"
    unfolding plus by (intro bit_word_eqI) (auto simp: bit_frame bit_or_iff dest: b(2))
  have e: "(0xFFF :: u64) = mask 12" by (simp add: mask_eq_exp_minus_1)
  show "(x + o') AND 0xFFF = o'"
    unfolding plus e
  proof (rule bit_word_eqI)
    fix n assume "n < LENGTH(64)"
    then show "bit ((x OR o') AND mask 12) n \<longleftrightarrow> bit o' n"
      using b(1) [of n] b(2) [of n] by (cases "n < 12") (auto simp: bit_and_iff bit_or_iff bit_mask_iff)
  qed
qed

lemma aligned_page:
  assumes "unat (x :: u64) mod 4096 = 0" "i \<le> 2 ^ 20"
  shows "unat (x + of_nat (i * 4096)) mod 4096 = 0"
proof -
  have "unat (of_nat (i * 4096) :: u64) = i * 4096" by (rule unat_of_nat_small) (use assms in simp)
  then have "unat (x + of_nat (i * 4096)) = (unat x + i * 4096) mod 2 ^ 64" by (simp only: unat_word_ariths) simp
  moreover have "(unat x + i * 4096) mod 2 ^ 64 mod 4096 = (unat x + i * 4096) mod 4096"
    by (rule mod_mod_cancel) simp
  ultimately show ?thesis using assms(1) by simp
qed

lemma take_bit_48_add:
  fixes a b c :: u64
  assumes "take_bit 48 a = take_bit 48 b"
  shows "take_bit 48 (b + c) = take_bit 48 (a + c)"
proof -
  have u: "unat (take_bit 48 (x + c)) = (unat x mod 2 ^ 48 + unat c) mod 2 ^ 48" for x
  proof -
    have "(unat x + unat c) mod 2 ^ 64 mod 2 ^ 48 = (unat x + unat c) mod 2 ^ 48"
      by (rule mod_mod_cancel) (simp add: le_imp_power_dvd)
    then have "unat (take_bit 48 (x + c)) = (unat x + unat c) mod 2 ^ 48"
      by (simp only: unsigned_take_bit_eq unat_word_ariths take_bit_eq_mod) simp
    then show ?thesis by (simp only: mod_add_left_eq)
  qed
  have "unat (take_bit 48 a) = unat (take_bit 48 b)" using assms by simp
  then have "take_bit 48 (unat a) = take_bit 48 (unat b)" by (simp only: unsigned_take_bit_eq)
  then have "unat a mod 2 ^ 48 = unat b mod 2 ^ 48" by (simp only: take_bit_eq_mod)
  then have "unat (take_bit 48 (b + c)) = unat (take_bit 48 (a + c))" by (simp only: u)
  then show ?thesis by (simp only: word_unat_eq_iff)
qed

lemma pages_distinct:
  assumes "unat virt mod 4096 = 0" "j < k" "k \<le> 2 ^ 20"
  shows "indices (virt + of_nat (j * 4096)) \<noteq> indices (virt + of_nat (k * 4096))"
proof
  let ?a = "\<lambda>i. virt + of_nat (i * 4096) :: u64"
  have al: "unat (?a i) mod 4096 = 0" if "i \<le> 2 ^ 20" for i using aligned_page [OF assms(1) that] .
  assume "indices (?a j) = indices (?a k)"
  then have "take_bit 48 (?a j) = take_bit 48 (?a k)"
    using indices_frame [of "?a j" "?a k"] frame_aligned [OF al [of j]] frame_aligned [OF al [of k]] assms
    by simp
  from take_bit_48_add [OF this, of "- ?a j"]
  have "take_bit 48 (?a k - ?a j) = 0" by (simp only: add_uminus_conv_diff) simp
  moreover have "?a k - ?a j = of_nat ((k - j) * 4096)"
    using assms(2) by (simp add: of_nat_diff left_diff_distrib)
  ultimately have z: "take_bit 48 (of_nat ((k - j) * 4096) :: u64) = 0" by simp
  have "unat (of_nat ((k - j) * 4096) :: u64) = (k - j) * 4096"
    by (rule unat_of_nat_small) (use assms in simp)
  then have "unat (take_bit 48 (of_nat ((k - j) * 4096) :: u64)) = (k - j) * 4096"
    using assms by (simp only: unsigned_take_bit_eq) (simp add: take_bit_nat_eq_self)
  with z assms(2) show False by simp
qed

lemma map_pages_lookup:
  assumes "unat virt mod 4096 = 0" "n \<le> 2 ^ 20"
  shows "k < n \<Longrightarrow> map_pages n phys virt M (indices (virt + of_nat (k * 4096))) = Some (page_frame (phys + of_nat (k * 4096)))"
    "\<forall>k < n. r \<noteq> indices (virt + of_nat (k * 4096)) \<Longrightarrow> map_pages n phys virt M r = M r"
proof -
  assume "k < n"
  then show "map_pages n phys virt M (indices (virt + of_nat (k * 4096))) = Some (page_frame (phys + of_nat (k * 4096)))"
    using assms(2)
  proof (induction n)
    case (Suc n)
    show ?case
    proof (cases "k = n")
      case False
      then have "k < n" using Suc.prems by simp
      with Suc pages_distinct [OF assms(1) this] show ?thesis by (simp del: of_nat_mult)
    qed (simp del: of_nat_mult)
  qed simp
next
  assume "\<forall>k < n. r \<noteq> indices (virt + of_nat (k * 4096))"
  then show "map_pages n phys virt M r = M r" by (induction n) (simp_all del: of_nat_mult)
qed


lemma range_translates:
  fixes s :: "'a kheap_scheme"
  assumes wf: "kheap_wf s" and pt: "page_table s root" and sz: "range_pages sz * 4096 \<le> 2 ^ 31"
    and al: "unat virt mod 4096 = 0" "unat phys mod 4096 = 0" "unat phys + range_pages sz * 4096 \<le> 2 ^ 48"
    and ok: "mapOrCreateRange root phys virt sz s = Some (0, s')"
  shows "(\<forall>i < range_pages sz * 4096. virtualToPhysical (virt + of_nat i) root (hmem s') = phys + of_nat i) \<and>
    (\<forall>v. page_map (hmem s) root (indices v) \<noteq> None \<and>
       (\<forall>k < range_pages sz. indices v \<noteq> indices (virt + of_nat (k * 4096))) \<longrightarrow>
       virtualToPhysical v root (hmem s') = virtualToPhysical v root (hmem s))"
proof -
  let ?n = "range_pages sz" and ?M = "page_map (hmem s) root"
  have n: "?n \<le> 2 ^ 20" using sz by simp
  have post: "kheap_wf s'" "page_table s' root" "page_map (hmem s') root = map_pages ?n phys virt ?M"
    using mapOrCreateRange_loop_refines [OF wf pt sz, of 0 phys virt ?M] ok
    by (auto simp: mapOrCreateRange_def range_pages_def)
  have "virtualToPhysical (virt + of_nat i) root (hmem s') = phys + of_nat i" if i: "i < ?n * 4096" for i
  proof -
    define k o' where "k = i div 4096" and "o' = i mod 4096"
    have k: "k < ?n" "o' < 4096" "i = k * 4096 + o'" using i by (auto simp: k_def o'_def div_less_iff_less_mult)
    let ?v = "virt + of_nat (k * 4096)" and ?p = "phys + of_nat (k * 4096)"
    have o: "unat (of_nat o' :: u64) < 4096" using k(2) by (simp add: unat_of_nat_small)
    have u: "unat (of_nat (k * 4096) :: u64) = k * 4096" by (rule unat_of_nat_small) (use k n in simp)
    have al': "unat ?v mod 4096 = 0" "unat ?p mod 4096 = 0" using aligned_page al k(1) n by simp_all
    have "k * 4096 < ?n * 4096" using k(1) by simp
    then have "unat ?p < 2 ^ 48" using u al(3) by (subst unat_add_small) simp_all
    then have fp: "page_frame ?p = ?p" using al'(2) by (intro frame_page)
    have sum: "(of_nat i :: u64) = of_nat (k * 4096) + of_nat o'" using k(3) by simp
    have "indices (?v + of_nat o') = indices ?v"
      by (rule frame_indices, rule frame_add_offset [OF al'(1) o])
    then have "page_map (hmem s') root (indices (virt + of_nat i)) = Some ?p"
      using map_pages_lookup(1) [OF al(1) n k(1), of phys ?M] fp unfolding post(3) sum by (simp add: add.assoc)
    moreover have "(virt + of_nat i) AND 0xFFF = of_nat o'"
      using frame_add_offset(2) [OF al'(1) o] unfolding sum by (simp add: add.assoc)
    ultimately show ?thesis
      unfolding virtualToPhysical_map [OF post(1,2)] sum by (simp add: add.assoc)
  qed
  moreover have "virtualToPhysical v root (hmem s') = virtualToPhysical v root (hmem s)"
    if "?M (indices v) \<noteq> None" "\<forall>k < ?n. indices v \<noteq> indices (virt + of_nat (k * 4096))" for v
    using map_pages_lookup(2) [OF al(1) n that(2), of phys ?M] that(1)
    unfolding virtualToPhysical_map [OF post(1,2)] virtualToPhysical_map [OF wf pt] post(3) by auto
  ultimately show ?thesis by blast
qed

text \<open>
  Property C10. Mapping and translating agree: after a range at page-aligned addresses has been mapped
  with success, \<^verbatim>\<open>virtualToPhysical\<close> takes every address of the range to the corresponding
  physical address, and the addresses of all other mapped pages to where they were before.
\<close>

theorem mapped_range_translates:
  fixes s :: "'a kheap_scheme"
  assumes wf: "kheap_wf s" and pt: "page_table s root" and sz: "range_pages sz * 4096 \<le> 2 ^ 31"
    and al: "unat virt mod 4096 = 0" "unat phys mod 4096 = 0" "unat phys + range_pages sz * 4096 \<le> 2 ^ 48"
    and ok: "mapOrCreateRange root phys virt sz s = Some (0, s')"
  shows "(\<forall>i < range_pages sz * 4096. virtualToPhysical (virt + of_nat i) root (hmem s') = phys + of_nat i) \<and>
    (\<forall>v. page_map (hmem s) root (indices v) \<noteq> None \<and>
       (\<forall>k < range_pages sz. indices v \<noteq> indices (virt + of_nat (k * 4096))) \<longrightarrow>
       virtualToPhysical v root (hmem s') = virtualToPhysical v root (hmem s))"
  using assms by (rule range_translates)

section \<open>Beyond 2 GiB\<close>

lemma mapOrCreateRange_loop_limit:
  fixes s :: "'a kheap_scheme"
  assumes "kheap_wf s" "page_table s root" "2 ^ 31 < range_pages sz * 4096" "k \<le> 2 ^ 19"
  shows "case mapOrCreateRange_loop root phys virt sz k (of_nat (k * 4096)) s of
      None \<Rightarrow> True | Some (r, s') \<Rightarrow> r = - ENMEM \<and> \<not> room s (3 * (2 ^ 19 - k))"
  using assms
proof (induction "2 ^ 19 - k" arbitrary: k s)
  case 0
  then have "k = 2 ^ 19" by simp
  then show ?case by (simp add: mapOrCreateRange_loop.simps del: of_nat_mult)
next
  case (Suc d)
  have k: "k < 2 ^ 19" "Suc k * 4096 < 2 ^ 64" using Suc.hyps(2) by simp_all
  note step = mapOrCreateRange_loop.simps [of root phys virt sz k "of_nat (k * 4096)" s]
  have more: "of_nat (k * 4096) + SIZE_4KB < sz"
    using more_pages [OF k(2), of sz] k(1) Suc.prems(3) by simp
  show ?case
  proof (rule mapOrCreatePage_cases [OF Suc.prems(1,2), of "phys + of_nat (k * 4096)" "virt + of_nat (k * 4096)"])
    fix s' assume f: "mapOrCreatePage root (phys + of_nat (k * 4096)) (virt + of_nat (k * 4096)) s = Some (- ENMEM, s')"
      "\<not> room s 3"
    have "3 \<le> 3 * (2 ^ 19 - k)" using k by simp
    then have "\<not> room s (3 * (2 ^ 19 - k))" using f(2) room_less by blast
    with f k show ?thesis by (simp add: step del: of_nat_mult)
  next
    fix s1 assume s1: "mapOrCreatePage root (phys + of_nat (k * 4096)) (virt + of_nat (k * 4096)) s = Some (SUCCESS, s1)"
      "kheap_wf s1" "page_table s1 root" "\<And>k. room s (k + 3) \<Longrightarrow> room s1 k"
    have e: "of_nat (Suc k * 4096) = of_nat (k * 4096) + SIZE_4KB" by (simp add: SIZE_4KB_def)
    have go: "mapOrCreateRange_loop root phys virt sz k (of_nat (k * 4096)) s =
        mapOrCreateRange_loop root phys virt sz (Suc k) (of_nat (Suc k * 4096)) s1"
      unfolding e using s1(1) k more by (simp add: step del: of_nat_mult)
    have d: "d = 2 ^ 19 - Suc k" "Suc k \<le> 2 ^ 19" using Suc.hyps(2) k by simp_all
    have "3 * (2 ^ 19 - k) = 3 * (2 ^ 19 - Suc k) + 3" using k by simp
    then have "\<not> room s1 (3 * (2 ^ 19 - Suc k)) \<Longrightarrow> \<not> room s (3 * (2 ^ 19 - k))"
      using s1(4) by metis
    with Suc.hyps(1) [OF d(1) s1(2,3) Suc.prems(3) d(2)] go show ?thesis
      by (auto split: option.splits)
  qed
qed

text \<open>
  A request of more than 2 GiB never succeeds: the product of the page counter and the
  page size overflows its type \<^verbatim>\<open>int\<close> (the fault), unless the heap runs out of pages before that. The
  loop itself ends for every size.
\<close>

theorem mapOrCreateRange_limit:
  fixes s :: "'a kheap_scheme"
  assumes "kheap_wf s" and "page_table s root" and "2 ^ 31 < range_pages sz * 4096"
  shows "mapOrCreateRange root phys virt sz s = None \<or>
    \<not> room s (3 * 2 ^ 19) \<and> (\<exists>s'. mapOrCreateRange root phys virt sz s = Some (- ENMEM, s'))"
  using mapOrCreateRange_loop_limit [OF assms, of 0 phys virt]
  by (auto simp: mapOrCreateRange_def split: option.splits)

section \<open>A first table\<close>

lemma createEmptyPageTable_cases:
  fixes s :: "'a kheap_scheme"
  assumes "kheap_wf s"
  obtains (null) "createEmptyPageTable s = Some (0, s)"
  | (table) root s' where "createEmptyPageTable s = Some (root, s')" "root \<noteq> 0" "kheap_wf s'"
      "live s' = insert (root, 4096) (live s)" "page_table s' root" "page_map (hmem s') root = Map.empty"
      "\<exists>m. s' = s\<lparr>hmem := m\<rparr>"
proof (rule alloc_page_cases [OF assms])
  fix q s1
  assume q: "kzalloc 4096 s = Some (q, s1)" "q \<noteq> 0" "kheap_wf s1"
    "live s1 = insert (q, 4096) (live s)" "\<And>j. j < 512 \<Longrightarrow> pte (hmem s1) q j = 0" "\<exists>m. s1 = s\<lparr>hmem := m\<rparr>"
  have d: "descend (hmem s1) q p = (if p = [] then Some q else None)" if "indices_ok p" for p
    using that q(5) by (cases p) auto
  have "page_table s1 q" unfolding page_table_def using d q(4) by (auto split: if_splits)
  moreover have "page_map (hmem s1) q = Map.empty" using d by (auto simp: page_map_def fun_eq_iff)
  ultimately show thesis using q by (intro table) (simp_all add: createEmptyPageTable_def SIZE_4KB_def)
qed (use null in \<open>simp add: createEmptyPageTable_def SIZE_4KB_def\<close>)

text \<open>An empty heap of \<open>n\<close> pages.\<close>

definition empty_kheap :: "u64 \<Rightarrow> kheap" where
  "empty_kheap n = kheap_of (small_heap\<lparr>table_size := n\<rparr>)"

lemma empty_kheap:
  assumes "unat n \<le> 25600"
  shows "kheap_wf (empty_kheap n)" "live (empty_kheap n) = {}" "table_size (empty_kheap n) = n"
proof -
  have "ent (small_heap\<lparr>table_size := n\<rparr>) = (\<lambda>_. 0)"
    by (auto simp: ent_def small_heap_def fun_eq_iff)
  then show "kheap_wf (empty_kheap n)" "live (empty_kheap n) = {}" "table_size (empty_kheap n) = n"
    using assms by (auto simp: empty_kheap_def heap_wf_def table_wf_def live_def is_block_def)
qed

lemma first_table:
  assumes "Suc k \<le> unat n" "unat n \<le> 25600"
  obtains root s where "createEmptyPageTable (empty_kheap n) = Some (root, s)" "kheap_wf s"
    "page_table s root" "page_map (hmem s) root = Map.empty" "room s k" "\<not> room s (3 * 2 ^ 19)"
proof (rule createEmptyPageTable_cases [of "empty_kheap n"])
  let ?h = "empty_kheap n"
  show wf: "kheap_wf ?h" using empty_kheap [OF assms(2)] by simp
  have "room ?h (Suc k)"
    unfolding room_def by (rule exI [of _ "{}"]) (use assms empty_kheap [OF assms(2)] in simp)
  then show "createEmptyPageTable ?h = Some (0, ?h) \<Longrightarrow> thesis"
    using room_serves [OF wf] by (auto simp: createEmptyPageTable_def SIZE_4KB_def)
  fix root s'
  assume a: "createEmptyPageTable ?h = Some (root, s')" "root \<noteq> 0" "kheap_wf s'"
    "live s' = insert (root, 4096) (live ?h)" "page_table s' root"
    "page_map (hmem s') root = Map.empty" "\<exists>m. s' = ?h\<lparr>hmem := m\<rparr>"
  have n: "table_size s' = n" using a(7) empty_kheap [OF assms(2)] by auto
  have "room s' k" unfolding room_def
    by (rule exI [of _ "{root}"]) (use assms a(4) empty_kheap [OF assms(2)] n in simp)
  moreover have "\<not> room s' (3 * 2 ^ 19)" using assms(2) by (auto simp: room_def n)
  ultimately show thesis using a that by blast
qed

theorem mapOrCreateRange_refines_witness:
  "\<exists>root s s'. createEmptyPageTable (empty_kheap 4) = Some (root, s) \<and>
     mapOrCreateRange root 0xFEB00000 0xFFFFA00000000000 0 s = Some (0, s') \<and>
     page_map (hmem s') root = [indices 0xFFFFA00000000000 \<mapsto> page_frame 0xFEB00000]"
proof -
  obtain root s where s: "createEmptyPageTable (empty_kheap 4) = Some (root, s)" "kheap_wf s"
    "page_table s root" "page_map (hmem s) root = Map.empty" "room s 3"
    by (rule first_table [of 3 4]) simp_all
  have n: "range_pages 0 = 1" by (simp add: range_pages_def)
  then have "range_pages 0 * 4096 \<le> 2 ^ 31" by simp
  from mapOrCreateRange_refines [OF s(2,3) this, of "0xFEB00000" "0xFFFFA00000000000"] s(1,4,5)
  show ?thesis by (auto simp: n split: if_splits)
qed

theorem mapped_range_translates_witness:
  "\<exists>root s s'. createEmptyPageTable (empty_kheap 4) = Some (root, s) \<and>
     mapOrCreateRange root 0xFEB00000 0xFFFFA00000000000 0x800 s = Some (0, s') \<and>
     virtualToPhysical 0xFFFFA00000000123 root (hmem s') = 0xFEB00123"
proof -
  obtain root s where s: "createEmptyPageTable (empty_kheap 4) = Some (root, s)" "kheap_wf s"
    "page_table s root" "page_map (hmem s) root = Map.empty" "room s 3"
    by (rule first_table [of 3 4]) simp_all
  have n: "range_pages 0x800 = 1" by (simp add: range_pages_def)
  have sz: "range_pages 0x800 * 4096 \<le> 2 ^ 31" by (simp add: n)
  obtain s' where s': "mapOrCreateRange root 0xFEB00000 0xFFFFA00000000000 0x800 s = Some (0, s')"
  proof (rule mapOrCreateRange_cases [OF s(2,3) sz, of "0xFEB00000" "0xFFFFA00000000000"])
    assume "\<not> room s (3 * range_tables (range_pages 0x800))"
    with s(5) show ?thesis by (simp add: n)
  qed (rule that)
  have "virtualToPhysical (0xFFFFA00000000000 + of_nat 0x123) root (hmem s') = 0xFEB00000 + of_nat 0x123"
    using mapped_range_translates [OF s(2,3) _ _ _ _ s', THEN conjunct1, rule_format, of "0x123"] by (simp add: n)
  with s(1) s' show ?thesis by auto
qed

theorem mapOrCreateRange_limit_witness:
  "\<exists>root s s'. createEmptyPageTable (empty_kheap 4) = Some (root, s) \<and>
     (mapOrCreateRange root 0x100000 0x100000 0x80001000 s = None \<or>
      mapOrCreateRange root 0x100000 0x100000 0x80001000 s = Some (- ENMEM, s'))"
proof -
  obtain root s where s: "createEmptyPageTable (empty_kheap 4) = Some (root, s)" "kheap_wf s"
    "page_table s root"
    by (rule first_table [of 3 4]) simp_all
  have "2 ^ 31 < range_pages 0x80001000 * 4096" by (simp add: range_pages_def)
  from mapOrCreateRange_limit [OF s(2,3) this, of "0x100000" "0x100000"] s(1)
  show ?thesis by blast
qed

end
