(* ===== verification/Mmio.thy ===== *)
theory Mmio
  imports Page_Map
begin

text \<open>
  The mapping of device registers, \<^verbatim>\<open>memory/mmioEngine.c\<close>: the regions of all devices are mapped one
  behind the other from \<^verbatim>\<open>0xffffA00000000000\<close> on. The kernel's page table of \<^verbatim>\<open>kernel.c\<close> is part of
  the state. An index outside the list of regions is a fault.
\<close>

section \<open>Operations\<close>

record mmioAllocateData =
  md_busDeviceFunction :: u32
  md_physical :: u64
  md_virtual :: u64
  md_size :: u64
  md_flags :: byte

record mmio = paging +
  kernelPageTable :: u64
  allocatedDataStructList :: "mmioAllocateData list"
  allocatedData :: u64
  allocatedSize :: u64
  currVirtualAddress :: u64

definition BOBAOS_MMIO_MAX_ALLOC :: nat where "BOBAOS_MMIO_MAX_ALLOC = 64"
definition BOBAOS_MMIO_VIRTUAL :: u64 where "BOBAOS_MMIO_VIRTUAL = 0xffffA00000000000"

definition blank_mmioData :: mmioAllocateData where
  "blank_mmioData = \<lparr>md_busDeviceFunction = 0, md_physical = 0, md_virtual = 0, md_size = 0, md_flags = 0\<rparr>"

definition getKernelPageTable :: "'a mmio_scheme \<Rightarrow> u64" where
  "getKernelPageTable s = kernelPageTable s"

definition mmioEngineInit :: "'a mmio_scheme \<Rightarrow> 'a mmio_scheme" where
  "mmioEngineInit s = s\<lparr>allocatedDataStructList := replicate BOBAOS_MMIO_MAX_ALLOC blank_mmioData\<rparr>"

definition mmioMap ::
  "u64 \<Rightarrow> u64 \<Rightarrow> byte \<Rightarrow> byte \<Rightarrow> byte \<Rightarrow> 'a mmio_scheme \<Rightarrow> (u64 \<times> 'a mmio_scheme) option" where
  "mmioMap physical sz bus device func s =
     (if allocatedData s > of_nat BOBAOS_MMIO_MAX_ALLOC then Some (0, s)
      else do {
        (ret, s) \<leftarrow> remapPhysicalToVirtualRange physical (currVirtualAddress s) sz (getKernelPageTable s) s;
        if ret < 0 then Some (0, s)
        else do {
          let i = unat (allocatedData s);
          if length (allocatedDataStructList s) \<le> i then None
          else do {
            let data = (allocatedDataStructList s ! i)\<lparr>
              md_busDeviceFunction := push_bit 16 (ucast bus) OR push_bit 8 (ucast device) OR ucast func,
              md_physical := physical, md_virtual := currVirtualAddress s, md_size := sz\<rparr>;
            let s = s\<lparr>allocatedDataStructList := (allocatedDataStructList s)[i := data],
              allocatedData := allocatedData s + 1,
              allocatedSize := allocatedSize s + sz,
              currVirtualAddress := currVirtualAddress s + sz\<rparr>;
            Some (currVirtualAddress s - sz, s)
          }
        }
      })"


section \<open>Properties\<close>

definition mmio_ok :: "'a mmio_scheme \<Rightarrow> bool" where
  "mmio_ok s \<longleftrightarrow> kheap_wf s \<and> page_table s (kernelPageTable s) \<and>
     length (allocatedDataStructList s) = BOBAOS_MMIO_MAX_ALLOC \<and> unat (currVirtualAddress s) mod 4096 = 0"

lemma upToPage_aligned: "unat sz mod 4096 = 0 \<Longrightarrow> upToPage sz = sz"
  using unat_mod_page [of sz] by (simp add: upToPage_def SIZE_4KB_def KHEAP_BLOCK_SIZE_def word_unat_eq_iff)

lemma upToPage_small:
  assumes "0 < sz" and "sz < 4096"
  shows "upToPage sz = 4096"
proof -
  have "unat sz < 4096" using assms(2) by (simp add: word_less_nat_alt)
  then have "unat (sz mod 4096) = unat sz"
    using unat_mod_page [of sz] by (simp add: KHEAP_BLOCK_SIZE_def)
  then have "sz mod 4096 = sz" by (simp add: word_unat_eq_iff)
  with assms show ?thesis by (simp add: upToPage_def SIZE_4KB_def)
qed

lemma page_table_same:
  fixes s :: "'a kheap_scheme" and t :: "'b kheap_scheme"
  assumes "hmem t = hmem s" "table_size t = table_size s" "selected t = selected s"
  shows "page_table t root \<longleftrightarrow> page_table s root"
  using same_heap [OF assms] by (simp add: page_table_def assms(1))

text \<open>A successful request, by the mapping that it makes.\<close>

lemma mmioMap_success:
  fixes s :: "'a mmio_scheme"
  assumes wf: "kheap_wf s" and pt: "page_table s (kernelPageTable s)"
    and n: "range_pages (upToPage sz) * 4096 \<le> 2 ^ 31"
    and ok: "mmioMap physical sz bus device func s = Some (v, s')" and v: "v \<noteq> 0"
  obtains m where "mapOrCreateRange (kernelPageTable s) physical (currVirtualAddress s) (upToPage sz) s = Some (0, s\<lparr>hmem := m\<rparr>)"
    "v = currVirtualAddress s" "kheap_wf s'" "page_table s' (kernelPageTable s)"
    "s' = s\<lparr>hmem := m, allocatedDataStructList := (allocatedDataStructList s)[unat (allocatedData s) :=
         (allocatedDataStructList s ! unat (allocatedData s))\<lparr>
           md_busDeviceFunction := push_bit 16 (ucast bus) OR push_bit 8 (ucast device) OR ucast func,
           md_physical := physical, md_virtual := v, md_size := sz\<rparr>],
       allocatedData := allocatedData s + 1, allocatedSize := allocatedSize s + sz, currVirtualAddress := v + sz\<rparr>"
    "page_map m (kernelPageTable s) = map_pages (range_pages (upToPage sz)) physical v (page_map (hmem s) (kernelPageTable s))"
    "\<And>i. room s (i + 3 * range_tables (range_pages (upToPage sz))) \<Longrightarrow> room s' i"
proof -
  let ?root = "kernelPageTable s"
  obtain m where m: "mapOrCreateRange ?root physical (currVirtualAddress s) (upToPage sz) s = Some (0, s\<lparr>hmem := m\<rparr>)"
    "kheap_wf (s\<lparr>hmem := m\<rparr>)" "page_table (s\<lparr>hmem := m\<rparr>) ?root"
    "page_map m ?root = map_pages (range_pages (upToPage sz)) physical (currVirtualAddress s) (page_map (hmem s) ?root)"
    "\<And>i. room s (i + 3 * range_tables (range_pages (upToPage sz))) \<Longrightarrow> room (s\<lparr>hmem := m\<rparr>) i"
  proof (rule mapOrCreateRange_cases [OF wf pt n, of physical "currVirtualAddress s"])
    fix m assume "mapOrCreateRange ?root physical (currVirtualAddress s) (upToPage sz) s = Some (- ENMEM, s\<lparr>hmem := m\<rparr>)"
    then show thesis using ok v by (simp add: mmioMap_def remapPhysicalToVirtualRange_def getKernelPageTable_def split: if_splits)
  qed (rule that)
  have s': "v = currVirtualAddress s" "s' = s\<lparr>hmem := m, allocatedDataStructList := (allocatedDataStructList s)[unat (allocatedData s) :=
         (allocatedDataStructList s ! unat (allocatedData s))\<lparr>
           md_busDeviceFunction := push_bit 16 (ucast bus) OR push_bit 8 (ucast device) OR ucast func,
           md_physical := physical, md_virtual := v, md_size := sz\<rparr>],
       allocatedData := allocatedData s + 1, allocatedSize := allocatedSize s + sz, currVirtualAddress := v + sz\<rparr>"
    using ok v m(1) by (auto simp: mmioMap_def remapPhysicalToVirtualRange_def getKernelPageTable_def Let_def
      split: if_splits)
  show thesis
  proof (rule that [of m])
    show "kheap_wf s'" "page_table s' (kernelPageTable s)"
      using m(2,3) same_heap(2) [of s' "s\<lparr>hmem := m\<rparr>"] page_table_same [of s' "s\<lparr>hmem := m\<rparr>"] s'(2) by simp_all
    show "page_map m (kernelPageTable s) = map_pages (range_pages (upToPage sz)) physical v (page_map (hmem s) (kernelPageTable s))"
      using m(4) s'(1) by simp
    show "room s' i" if "room s (i + 3 * range_tables (range_pages (upToPage sz)))" for i
      using m(5) [OF that] same_heap(1) [of s' "s\<lparr>hmem := m\<rparr>"] s'(2) by (simp add: room_def)
  qed (use m(1) s' in simp_all)
qed


text \<open>
  Property C11. A request for whole pages gets its own region: when \<^verbatim>\<open>mmioMap\<close> returns an address, it is
  the first free one, every address of the region is translated to the register of the device, the
  region is recorded, and the next region begins behind it.
\<close>

theorem mmioMap_region:
  fixes s :: "'a mmio_scheme"
  assumes ok: "mmio_ok s" and sz: "0 < sz" "unat sz mod 4096 = 0" "unat sz \<le> 2 ^ 31"
    and al: "unat physical mod 4096 = 0" "unat physical + unat sz \<le> 2 ^ 48"
    and res: "mmioMap physical sz bus device func s = Some (v, s')" "v \<noteq> 0"
  shows "mmio_ok s' \<and> v = currVirtualAddress s \<and> currVirtualAddress s' = v + sz \<and>
    (\<forall>i < unat sz. virtualToPhysical (v + of_nat i) (kernelPageTable s) (hmem s') = physical + of_nat i) \<and>
    (let d = allocatedDataStructList s' ! unat (allocatedData s)
     in md_physical d = physical \<and> md_virtual d = v \<and> md_size d = sz) \<and>
    allocatedData s' = allocatedData s + 1"
proof -
  have up: "upToPage sz = sz" using sz(2) by (rule upToPage_aligned)
  have pos: "0 < unat sz" using sz(1) by (simp add: word_less_nat_alt)
  have n: "range_pages sz * 4096 = unat sz"
  proof -
    have "(unat sz + 4095) div 4096 * 4096 = unat sz"
      using roundup_aligned [of 4096 "unat sz"] sz(2) by simp
    moreover from this have "0 < (unat sz + 4095) div 4096" using pos by (intro gr0I) simp
    ultimately show ?thesis by (simp add: range_pages_def max_def)
  qed
  have wf: "kheap_wf s" "page_table s (kernelPageTable s)" "unat (currVirtualAddress s) mod 4096 = 0"
    "length (allocatedDataStructList s) = 64"
    using ok by (simp_all add: mmio_ok_def BOBAOS_MMIO_MAX_ALLOC_def)
  have n2: "range_pages (upToPage sz) * 4096 \<le> 2 ^ 31" using sz(3) n up by simp
  show ?thesis
  proof (rule mmioMap_success [OF wf(1,2) n2 res])
    fix m
    assume m: "mapOrCreateRange (kernelPageTable s) physical (currVirtualAddress s) (upToPage sz) s = Some (0, s\<lparr>hmem := m\<rparr>)"
      "v = currVirtualAddress s" "kheap_wf s'" "page_table s' (kernelPageTable s)"
      "s' = s\<lparr>hmem := m, allocatedDataStructList := (allocatedDataStructList s)[unat (allocatedData s) :=
         (allocatedDataStructList s ! unat (allocatedData s))\<lparr>
           md_busDeviceFunction := push_bit 16 (ucast bus) OR push_bit 8 (ucast device) OR ucast func,
           md_physical := physical, md_virtual := v, md_size := sz\<rparr>],
       allocatedData := allocatedData s + 1, allocatedSize := allocatedSize s + sz, currVirtualAddress := v + sz\<rparr>"
    have "\<forall>i < unat sz. virtualToPhysical (v + of_nat i) (kernelPageTable s) m = physical + of_nat i"
      using range_translates [OF wf(1,2) _ wf(3) al(1) _ m(1) [unfolded up]] sz(3) al(2) m(2) n by simp
    moreover have "unat (v + sz) mod 4096 = 0"
    proof -
      have "unat (v + sz) = (unat v + unat sz) mod 2 ^ 64" by (simp only: unat_word_ariths) simp
      moreover have "(unat v + unat sz) mod 2 ^ 64 mod 4096 = (unat v + unat sz) mod 4096"
        by (rule mod_mod_cancel) simp
      ultimately show ?thesis using wf(3) sz(2) m(2) by (metis add.left_neutral mod_0 mod_add_eq)
    qed
    moreover have "unat (allocatedData s) < 64"
      using res wf(4) m(1) by (auto simp: mmioMap_def remapPhysicalToVirtualRange_def getKernelPageTable_def up Let_def
          split: if_splits)
    ultimately show ?thesis using m wf(4) by (simp add: mmio_ok_def Let_def BOBAOS_MMIO_MAX_ALLOC_def)
  qed
qed

text \<open>A start state over a heap of eight pages.\<close>

definition mmio_of :: "kheap \<Rightarrow> u64 \<Rightarrow> mmio" where
  "mmio_of h root = mmioEngineInit \<lparr>hmem = hmem h, table_size = table_size h, tableMaxSize = tableMaxSize h,
     bent = bent h, lvlTable = lvlTable h, tmeta = tmeta h, tableStartAddress = tableStartAddress h,
     lowerMemorySize = lowerMemorySize h, heapSize = heapSize h, maxLvl = maxLvl h, maxPage = maxPage h,
     minPage = minPage h, selected = selected h, memoryMap = [], memoryMapLength = 0, upperMemorySize = 0,
     totalMemorySize = 0, loadedTable = root, kernelPageTable = root, allocatedDataStructList = [],
     allocatedData = 0, allocatedSize = 0, currVirtualAddress = BOBAOS_MMIO_VIRTUAL\<rparr>"

lemma mmio_of_simps [simp]:
  "hmem (mmio_of h root) = hmem h" "table_size (mmio_of h root) = table_size h"
  "selected (mmio_of h root) = selected h" "kernelPageTable (mmio_of h root) = root"
  "currVirtualAddress (mmio_of h root) = BOBAOS_MMIO_VIRTUAL" "allocatedData (mmio_of h root) = 0"
  "length (allocatedDataStructList (mmio_of h root)) = BOBAOS_MMIO_MAX_ALLOC"
  by (simp_all add: mmio_of_def mmioEngineInit_def)

lemma mmio_start:
  obtains h root where "mmio_ok (mmio_of h root)" "room (mmio_of h root) 6"
proof (rule first_table [of 6 8])
  fix root and h :: kheap assume "kheap_wf h" "page_table h root" "room h 6"
  then have "mmio_ok (mmio_of h root)" "room (mmio_of h root) 6"
    using same_heap [of "mmio_of h root" h] page_table_same [of "mmio_of h root" h]
    by (simp_all add: mmio_ok_def room_def BOBAOS_MMIO_VIRTUAL_def)
  then show thesis by (rule that)
qed simp_all

text \<open>With room for three pages a request for at most one page is served.\<close>

lemma mmioMap_served:
  fixes s :: "'a mmio_scheme"
  assumes wf: "kheap_wf s" "page_table s (kernelPageTable s)" "length (allocatedDataStructList s) = BOBAOS_MMIO_MAX_ALLOC"
    and n: "range_pages (upToPage sz) = 1" and free: "room s 3" and slot: "unat (allocatedData s) < 64" and v: "currVirtualAddress s \<noteq> 0"
  obtains s' where "mmioMap physical sz bus device func s = Some (currVirtualAddress s, s')"
proof -
  have len: "length (allocatedDataStructList s) = 64" using wf(3) by (simp add: BOBAOS_MMIO_MAX_ALLOC_def)
  have few: "\<not> of_nat BOBAOS_MMIO_MAX_ALLOC < allocatedData s"
    using slot by (simp add: word_less_nat_alt BOBAOS_MMIO_MAX_ALLOC_def)
  show thesis
  proof (rule mapOrCreateRange_cases [OF wf(1,2), of "upToPage sz" physical "currVirtualAddress s"])
    show "range_pages (upToPage sz) * 4096 \<le> 2 ^ 31" by (simp add: n)
    show thesis if "\<not> room s (3 * range_tables (range_pages (upToPage sz)))" using that free n by simp
    fix m assume "mapOrCreateRange (kernelPageTable s) physical (currVirtualAddress s) (upToPage sz) s = Some (0, s\<lparr>hmem := m\<rparr>)"
    then show thesis
      using that len few slot
      by (simp add: mmioMap_def remapPhysicalToVirtualRange_def getKernelPageTable_def Let_def)
  qed
qed

theorem mmioMap_region_witness:
  "\<exists>h root s'. mmioMap 0xFEB00000 4096 0 3 0 (mmio_of h root) = Some (0xffffA00000000000, s') \<and>
     virtualToPhysical 0xffffA00000000024 root (hmem s') = 0xFEB00024"
proof -
  obtain h root where s: "mmio_ok (mmio_of h root)" "room (mmio_of h root) 6" by (rule mmio_start)
  let ?s = "mmio_of h root"
  have r: "room ?s 3" using s(2) by (rule room_less) simp
  have wf: "kheap_wf ?s" "page_table ?s (kernelPageTable ?s)" using s(1) by (simp_all add: mmio_ok_def)
  have "range_pages (upToPage 4096) = 1" by (simp add: upToPage_def range_pages_def SIZE_4KB_def)
  then obtain s' where s': "mmioMap 0xFEB00000 4096 0 3 0 (mmio_of h root) = Some (0xffffA00000000000, s')"
    using mmioMap_served [OF wf _ _ r, of 4096 "0xFEB00000" 0 3 0] by (auto simp: BOBAOS_MMIO_VIRTUAL_def)
  have "virtualToPhysical (0xffffA00000000000 + of_nat 0x24) root (hmem s') = 0xFEB00000 + of_nat 0x24"
    using mmioMap_region [OF s(1) _ _ _ _ _ s', THEN conjunct2, THEN conjunct2, THEN conjunct2, THEN conjunct1,
        rule_format, of "0x24"] by simp
  with s' show ?thesis by auto
qed

text \<open>
  A request for less than a page does not: the next region begins on the same page, so
  that mapping it takes the registers of the first device away. Both returned addresses then lead to
  the page of the second device.
\<close>

theorem mmioMap_shares_page:
  fixes s :: "'a mmio_scheme"
  assumes ok: "mmio_ok s" and sz: "0 < sz1" "sz1 < 4096" "0 < sz2" "sz2 < 4096"
    and r1: "mmioMap phys1 sz1 bus1 dev1 fun1 s = Some (v1, s1)" "v1 \<noteq> 0"
    and r2: "mmioMap phys2 sz2 bus2 dev2 fun2 s1 = Some (v2, s2)" "v2 \<noteq> 0"
  shows "v2 = v1 + sz1 \<and> virtualToPhysical v1 (kernelPageTable s) (hmem s2) = page_frame phys2 \<and>
    virtualToPhysical v2 (kernelPageTable s) (hmem s2) = page_frame phys2 + sz1"
proof -
  have up: "upToPage sz1 = 4096" "upToPage sz2 = 4096" using sz by (simp_all add: upToPage_small)
  have one: "range_pages 4096 = 1" by (simp add: range_pages_def)
  have wf: "kheap_wf s" "page_table s (kernelPageTable s)" "unat (currVirtualAddress s) mod 4096 = 0"
    using ok by (simp_all add: mmio_ok_def)
  have n: "range_pages (upToPage sz1) * 4096 \<le> 2 ^ 31" "range_pages (upToPage sz2) * 4096 \<le> 2 ^ 31"
    by (simp_all add: up one)
  have s1: "kheap_wf s1" "page_table s1 (kernelPageTable s)" "kernelPageTable s1 = kernelPageTable s"
    "currVirtualAddress s1 = v1 + sz1" "v1 = currVirtualAddress s"
    by (rule mmioMap_success [OF wf(1,2) n(1) r1]; simp)+
  have s2: "kheap_wf s2" "page_table s2 (kernelPageTable s)" "v2 = v1 + sz1"
    "page_map (hmem s2) (kernelPageTable s) =
       (page_map (hmem s1) (kernelPageTable s))(indices (v1 + sz1) \<mapsto> page_frame phys2)"
    by (rule mmioMap_success [OF s1(1) s1(2) [folded s1(3)] n(2) r2]; simp add: s1 up one)+
  have o: "unat sz1 < 4096" using sz(2) by (simp add: word_less_nat_alt)
  note f = frame_add_offset [OF wf(3) [folded s1(5)] o] frame_add_offset [OF wf(3) [folded s1(5)], of 0]
  have ix: "indices v1 = indices (v1 + sz1)" using f(1) by (intro frame_indices) simp
  have "virtualToPhysical v1 (kernelPageTable s) (hmem s2) = page_frame phys2"
    using f(4) by (simp add: virtualToPhysical_map [OF s2(1,2)] s2(4) ix)
  moreover have "virtualToPhysical v2 (kernelPageTable s) (hmem s2) = page_frame phys2 + sz1"
    using f(2) by (simp add: virtualToPhysical_map [OF s2(1,2)] s2(3,4))
  ultimately show ?thesis using s2(3) by blast
qed


theorem mmioMap_shares_page_witness:
  "\<exists>h root s1 s2. mmioMap 0xFEB00000 0x100 0 3 0 (mmio_of h root) = Some (0xffffA00000000000, s1) \<and>
     mmioMap 0xFEC00000 0x100 0 4 0 s1 = Some (0xffffA00000000100, s2) \<and>
     virtualToPhysical 0xffffA00000000000 root (hmem s2) = 0xFEC00000"
proof -
  obtain h root where s: "mmio_ok (mmio_of h root)" "room (mmio_of h root) 6" by (rule mmio_start)
  let ?s = "mmio_of h root"
  have up: "upToPage 0x100 = 4096" by (rule upToPage_small) simp_all
  have one: "range_pages (upToPage 0x100) = 1" unfolding up by (simp add: range_pages_def)
  then have n: "range_pages (upToPage 0x100) * 4096 \<le> 2 ^ 31" by simp
  have wf: "kheap_wf ?s" "page_table ?s (kernelPageTable ?s)" using s(1) by (simp_all add: mmio_ok_def)
  have "room ?s 3" using s(2) by (rule room_less) simp
  then obtain s1 where r1: "mmioMap 0xFEB00000 0x100 0 3 0 ?s = Some (0xffffA00000000000, s1)"
    using mmioMap_served [OF wf _ one, of "0xFEB00000" 0 3 0] by (auto simp: BOBAOS_MMIO_VIRTUAL_def)
  have s1: "kheap_wf s1" "page_table s1 (kernelPageTable s1)" "room s1 3" "allocatedData s1 = 1"
    "length (allocatedDataStructList s1) = BOBAOS_MMIO_MAX_ALLOC" "currVirtualAddress s1 = 0xffffA00000000100"
    by (rule mmioMap_success [OF wf n r1]; use s(2) in \<open>simp add: one\<close>)+
  obtain s2 where r2: "mmioMap 0xFEC00000 0x100 0 4 0 s1 = Some (0xffffA00000000100, s2)"
    using mmioMap_served [OF s1(1,2,5) one s1(3), of "0xFEC00000" 0 4 0] s1(4,6) by auto
  from mmioMap_shares_page [OF s(1) _ _ _ _ r1 _ r2] r1 r2 show ?thesis
    by (auto simp: page_frame_def)
qed

end
