(* ===== verification/Kstring.thy ===== *)
theory Kstring
  imports Kheap
begin

text \<open>
  The string routines of \<^verbatim>\<open>string/string.c\<close>. A string is the list of the bytes from its pointer
  to the end of the object that holds it; reading past that end is the fault \<open>None\<close>. A pointer
  that walks along a string is the remaining suffix. \<^verbatim>\<open>char\<close> is signed on the target, so that the
  comparisons of characters are signed. \<^verbatim>\<open>toUpperCase\<close> writes to the heap and works on its memory.
\<close>

section \<open>Reading and writing buffers\<close>

definition rd :: "'a list \<Rightarrow> nat \<Rightarrow> 'a option" where
  "rd xs i = (if i < length xs then Some (xs ! i) else None)"

definition wr :: "'a list \<Rightarrow> nat \<Rightarrow> 'a \<Rightarrow> 'a list option" where
  "wr xs i v = (if i < length xs then Some (xs[i := v]) else None)"

section \<open>Operations\<close>

fun strlen_loop :: "byte list \<Rightarrow> u64 \<Rightarrow> u64 option" where
  "strlen_loop [] len = None"
| "strlen_loop (c # str) len = (if c \<noteq> 0 then strlen_loop str (len + 1) else Some len)"

definition strlen :: "byte list \<Rightarrow> u64 option" where
  "strlen str = strlen_loop str 0"

fun strcmp :: "byte list \<Rightarrow> byte list \<Rightarrow> int option" where
  "strcmp (a # str1) (b # str2) =
     (if a = 0 \<and> b = 0 then Some 0
      else if a \<noteq> b then Some (if b <s a then 1 else - 1)
      else strcmp str1 str2)"
| "strcmp _ _ = None"

fun strncmp_loop :: "nat \<Rightarrow> byte list \<Rightarrow> byte list \<Rightarrow> int option" where
  "strncmp_loop 0 str1 str2 = Some 0"
| "strncmp_loop (Suc n) (a # str1) (b # str2) =
     (if a = 0 \<and> b = 0 then Some 0
      else if a \<noteq> b then Some (if b <s a then 1 else - 1)
      else strncmp_loop n str1 str2)"
| "strncmp_loop (Suc n) _ _ = None"

definition strncmp :: "byte list \<Rightarrow> byte list \<Rightarrow> u64 \<Rightarrow> int option" where
  "strncmp str1 str2 len = strncmp_loop (unat len) str1 str2"

text \<open>The copying loops: \<open>k\<close> rounds are left, \<open>i\<close> is the index.\<close>

primrec strncpy_loop :: "nat \<Rightarrow> nat \<Rightarrow> byte list \<Rightarrow> byte list \<Rightarrow> byte list option" where
  "strncpy_loop 0 i dest src = Some dest"
| "strncpy_loop (Suc k) i dest src = do {
     c \<leftarrow> rd src i;
     if c = 0 then Some dest
     else do { dest \<leftarrow> wr dest i c; strncpy_loop k (Suc i) dest src }
   }"

definition strncpy :: "byte list \<Rightarrow> byte list \<Rightarrow> u64 \<Rightarrow> byte list option" where
  "strncpy dest src sz = strncpy_loop (unat sz) 0 dest src"

fun strcpy_loop :: "nat \<Rightarrow> byte list \<Rightarrow> byte list \<Rightarrow> byte list option" where
  "strcpy_loop i dest [] = None"
| "strcpy_loop i dest (c # src) =
     (if c \<noteq> 0 then do { dest \<leftarrow> wr dest i c; strcpy_loop (Suc i) dest src } else wr dest i 0)"

definition strcpy :: "byte list \<Rightarrow> byte list \<Rightarrow> byte list option" where
  "strcpy dest src = strcpy_loop 0 dest src"

primrec strcpym_loop :: "nat \<Rightarrow> nat \<Rightarrow> byte list \<Rightarrow> byte list \<Rightarrow> byte list option" where
  "strcpym_loop 0 i dest src = wr dest i 0"
| "strcpym_loop (Suc k) i dest src = do {
     c \<leftarrow> rd src i;
     if c = 0 then wr dest i 0
     else do { dest \<leftarrow> wr dest i c; strcpym_loop k (Suc i) dest src }
   }"

definition strcpym :: "byte list \<Rightarrow> byte list \<Rightarrow> u64 \<Rightarrow> byte list option" where
  "strcpym dest src mx = strcpym_loop (unat mx) 0 dest src"

definition isNumber :: "byte \<Rightarrow> int" where
  "isNumber c = (if 48 \<le>s c \<and> c \<le>s 57 then 1 else 0)"

definition toNumber :: "byte \<Rightarrow> byte" where
  "toNumber c = 48 - c"

definition upper :: "byte \<Rightarrow> byte" where
  "upper c = (if 97 \<le>s c \<and> c \<le>s 122 then c - 32 else c)"

fun toUpperCase_loop :: "byte list \<Rightarrow> u64 \<Rightarrow> u64 \<Rightarrow> u64 \<Rightarrow> mem \<Rightarrow> mem option" where
  "toUpperCase_loop [] len ret counter m = None"
| "toUpperCase_loop (c # str) len ret counter m =
     (if c \<noteq> 0 \<and> len > 0
      then toUpperCase_loop str (len - 1) ret (counter + 1) (m(ret + counter := upper c))
      else Some (m(ret + counter := 0)))"

definition toUpperCase :: "byte list \<Rightarrow> u64 \<Rightarrow> 'a kheap_scheme \<Rightarrow> (u64 \<times> 'a kheap_scheme) option" where
  "toUpperCase str len s = do {
     (ret, s) \<leftarrow> kzalloc len s;
     if ret = 0 then None
     else do {
       m \<leftarrow> toUpperCase_loop str len ret 0 (hmem s);
       Some (ret, s\<lparr>hmem := m\<rparr>)
     }
   }"

text \<open>The counter of \<^verbatim>\<open>findChar\<close> is an \<^verbatim>\<open>int\<close>; incrementing its maximum is a fault.\<close>

fun findChar_loop :: "byte list \<Rightarrow> byte \<Rightarrow> int \<Rightarrow> int option" where
  "findChar_loop [] c ret = None"
| "findChar_loop (a # str) c ret =
     (if a = 0 then Some (- 1)
      else if a = c then Some ret
      else if ret = 2 ^ 31 - 1 then None
      else findChar_loop str c (ret + 1))"

definition findChar :: "byte list \<Rightarrow> byte \<Rightarrow> int option" where
  "findChar str c = findChar_loop str c 0"

fun strHash_loop :: "byte list \<Rightarrow> u64 \<Rightarrow> u64 option" where
  "strHash_loop [] hash = None"
| "strHash_loop (c # str) hash =
     (if c \<noteq> 0 then strHash_loop str ((push_bit 5 hash + hash) + scast c) else Some hash)"

definition strHash :: "byte list \<Rightarrow> u64 option" where
  "strHash str = strHash_loop str 5381"

section \<open>NUL-terminated strings\<close>

definition cstr :: "byte list \<Rightarrow> byte list" where
  "cstr xs = takeWhile (\<lambda>c. c \<noteq> 0) xs"

definition terminated :: "byte list \<Rightarrow> bool" where
  "terminated xs \<longleftrightarrow> 0 \<in> set xs"

lemma cstr_simps [simp]:
  "cstr [] = []" "cstr (c # xs) = (if c = 0 then [] else c # cstr xs)"
  by (simp_all add: cstr_def)

lemma terminated_simps [simp]:
  "\<not> terminated []" "terminated (c # xs) \<longleftrightarrow> c = 0 \<or> terminated xs"
  by (auto simp: terminated_def)

lemma terminated_length: "terminated xs \<Longrightarrow> length (cstr xs) < length xs"
  by (induction xs) auto

lemma terminated_nth:
  "terminated xs \<Longrightarrow> xs ! length (cstr xs) = 0"
  by (induction xs) auto

lemma cstr_nth: "i < length (cstr xs) \<Longrightarrow> xs ! i = cstr xs ! i \<and> cstr xs ! i \<noteq> 0 \<and> i < length xs"
  by (induction xs arbitrary: i) (auto simp: nth_Cons split: nat.splits if_splits)

lemma cstr_append: "0 \<notin> set xs \<Longrightarrow> cstr (xs @ ys) = xs @ cstr ys"
  by (induction xs) auto

lemma cstr_nonzero: "0 \<notin> set (cstr xs)"
  by (auto simp: cstr_def dest: set_takeWhileD)

lemma strlen_loop_spec: "terminated str \<Longrightarrow> strlen_loop str n = Some (n + of_nat (length (cstr str)))"
  by (induction str arbitrary: n) auto

lemma strlen_cstr: "terminated str \<Longrightarrow> strlen str = Some (of_nat (length (cstr str)))"
  by (simp add: strlen_def strlen_loop_spec)


section \<open>Comparison\<close>

definition signed_less :: "(byte \<times> byte) set" where
  "signed_less = {(a, b). a <s b}"

lemma strcmp_spec:
  "\<lbrakk> terminated xs; terminated ys \<rbrakk> \<Longrightarrow>
   \<exists>r \<in> {-1, 0, 1}. strcmp xs ys = Some r \<and> strcmp ys xs = Some (- r) \<and>
     (r = 0 \<longleftrightarrow> cstr xs = cstr ys) \<and>
     (r = - 1 \<longleftrightarrow> (cstr xs @ [0], cstr ys @ [0]) \<in> lexord signed_less)"
proof (induction xs ys rule: strcmp.induct)
  case (1 a as b bs)
  have tot: "a \<noteq> b \<Longrightarrow> a <s b \<longleftrightarrow> \<not> b <s a" by (metis signed.less_asym' signed.neqE)
  show ?case
  proof (cases "a = b \<and> a \<noteq> 0")
    case True
    then show ?thesis using 1 by (auto simp: signed_less_def)
  next
    case False
    then show ?thesis using tot by (cases "b <s a") (auto simp: signed_less_def)
  qed
qed auto

lemma strncmp_loop_spec:
  "\<lbrakk> terminated xs; terminated ys \<rbrakk> \<Longrightarrow>
   \<exists>r \<in> {-1, 0, 1}. strncmp_loop n xs ys = Some r \<and>
     (r = 0 \<longleftrightarrow> take n (cstr xs) = take n (cstr ys))"
proof (induction n xs ys rule: strncmp_loop.induct)
  case (2 n a as b bs)
  then show ?case by (cases "a = b \<and> a \<noteq> 0") auto
qed auto

text \<open>
  On terminated strings \<^verbatim>\<open>strcmp\<close> is a three-way comparison: 0 exactly on equal
  strings, antisymmetric, and negative exactly for the lexicographic order of the terminated
  strings on signed characters; \<^verbatim>\<open>strncmp\<close> is 0 exactly when the first \<^verbatim>\<open>len\<close> characters agree.
\<close>

theorem strcmp_strncmp_correct:
  assumes "terminated xs" and "terminated ys"
  shows "(\<exists>r \<in> {-1, 0, 1}. strcmp xs ys = Some r \<and> strcmp ys xs = Some (- r) \<and>
      (r = 0 \<longleftrightarrow> cstr xs = cstr ys) \<and>
      (r = - 1 \<longleftrightarrow> (cstr xs @ [0], cstr ys @ [0]) \<in> lexord signed_less)) \<and>
    (\<exists>r \<in> {-1, 0, 1}. strncmp xs ys n = Some r \<and>
      (r = 0 \<longleftrightarrow> take (unat n) (cstr xs) = take (unat n) (cstr ys)))"
  unfolding strncmp_def by (intro conjI strcmp_spec strncmp_loop_spec assms)

theorem strcmp_strncmp_correct_witness:
  "strcmp [65, 66, 0] [65, 0xC8, 0] = Some 1 \<and> strncmp [65, 66, 0] [65, 0xC8, 0] 1 = Some 0"
  using strcmp_strncmp_correct [of "[65, 66, 0]" "[65, 0xC8, 0]" 1]
  by (auto simp: signed_less_def word_sless_alt)

section \<open>Copying\<close>

lemma strcpym_loop_spec:
  assumes "terminated src" and "i \<le> length (cstr src)" and "i \<le> length dest"
  shows "strcpym_loop k i dest src =
    (if min (i + k) (length (cstr src)) < length dest
     then Some (overwrite dest i (drop i (take (min (i + k) (length (cstr src))) (cstr src)) @ [0]))
     else None)"
  using assms(2,3)
proof (induction k arbitrary: i dest)
  case 0
  then show ?case by (simp add: wr_def overwrite_def upd_conv_take_nth_drop)
next
  case (Suc k)
  show ?case
  proof (cases "i = length (cstr src)")
    case True
    then show ?thesis
      using terminated_length [OF assms(1)] terminated_nth [OF assms(1)] Suc.prems
      by (simp add: rd_def wr_def overwrite_def upd_conv_take_nth_drop)
  next
    case False
    then have i: "i < length (cstr src)" using Suc.prems by simp
    let ?n = "min (Suc i + k) (length (cstr src))"
    have rd: "rd src i = Some (cstr src ! i)" "cstr src ! i \<noteq> 0"
      using cstr_nth [OF i] by (simp_all add: rd_def)
    show ?thesis
    proof (cases "i < length dest")
      case True
      let ?d = "dest[i := cstr src ! i]"
      have IH: "strcpym_loop k (Suc i) ?d src =
        (if ?n < length dest then Some (overwrite ?d (Suc i) (drop (Suc i) (take ?n (cstr src)) @ [0])) else None)"
        using Suc.IH [of "Suc i" ?d] i True by simp
      have "overwrite ?d (Suc i) (drop (Suc i) (take ?n (cstr src)) @ [0])
        = overwrite dest i (drop i (take ?n (cstr src)) @ [0])" if "?n < length dest"
      proof -
        have "drop i (take ?n (cstr src)) = cstr src ! i # drop (Suc i) (take ?n (cstr src))"
          using i by (subst Cons_nth_drop_Suc [symmetric]) auto
        moreover have "take (Suc i) ?d = take i dest @ [cstr src ! i]"
          using True by (simp add: take_Suc_conv_app_nth)
        ultimately show ?thesis using True by (simp add: overwrite_def)
      qed
      with True rd IH show ?thesis by (simp add: wr_def)
    next
      case False
      with rd i show ?thesis by (simp add: wr_def)
    qed
  qed
qed

text \<open>
  \<^verbatim>\<open>strcpym\<close> copies at most \<^verbatim>\<open>max\<close> characters of a terminated source and ends them with
  a NUL, leaving the rest of the destination; with a source of \<^verbatim>\<open>max\<close> or more characters it
  writes \<^verbatim>\<open>max + 1\<close> bytes, so that a destination of exactly \<^verbatim>\<open>max\<close> bytes is overrun.
\<close>

theorem strcpym_correct:
  assumes "terminated src"
  shows "strcpym dest src mx =
    (let t = take (unat mx) (cstr src) @ [0]
     in if length t \<le> length dest then Some (overwrite dest 0 t) else None)"
  using strcpym_loop_spec [OF assms, of 0 dest "unat mx"]
  by (auto simp: strcpym_def Let_def min_def)

theorem strcpym_correct_witness:
  "strcpym [9, 9, 9, 9] [65, 66, 67, 0] 2 = Some [65, 66, 0, 9] \<and>
   strcpym [9, 9] [65, 66, 67, 0] 2 = None"
  using strcpym_correct [of "[65, 66, 67, 0]" "[9, 9, 9, 9]" 2] strcpym_correct [of "[65, 66, 67, 0]" "[9, 9]" 2]
  by (simp add: overwrite_def)


section \<open>Upper case\<close>

lemma unat_diff_step:
  fixes x st :: u64
  shows "unat (x - st) = (if x = st then 0 else Suc (unat (x - (st + 1))))"
proof (cases "x = st")
  case False
  then show ?thesis
    using unat_eq_zero [of "x - st"] by (simp add: diff_diff_eq [symmetric] unat_minus_one)
qed simp

lemma unat_diff_before: "unat (st - (st + 1) :: u64) = 2 ^ 64 - 1"
proof -
  have "st - (st + 1) = (- 1 :: u64)" by simp
  then show ?thesis by (simp only: unsigned_minus_1_eq_mask) (simp add: mask_eq_exp_minus_1)
qed

lemma toUpperCase_loop_spec:
  assumes "terminated str"
  shows "\<exists>m'. toUpperCase_loop str len ret k m = Some m' \<and>
    (\<forall>x. m' x = (if unat (x - (ret + k)) < min (unat len) (length (cstr str))
        then upper (cstr str ! unat (x - (ret + k)))
        else if unat (x - (ret + k)) = min (unat len) (length (cstr str)) then 0 else m x))"
  using assms
proof (induction str arbitrary: len k m)
  case (Cons c str)
  show ?case
  proof (cases "c \<noteq> 0 \<and> len > 0")
    case False
    then have "min (unat len) (length (cstr (c # str))) = 0" by (auto simp: word_gt_0)
    with False show ?thesis
      by (auto simp: Let_def unat_eq_0)
  next
    case True
    let ?a = "ret + k"
    define n where "n = min (unat (len - 1)) (length (cstr str))"
    have l: "unat len = Suc (unat (len - 1))"
      using True unat_gt_0 [of len] by (simp add: unat_minus_one word_neq_0_conv)
    have t: "terminated str" using Cons.prems True by simp
    obtain m' where m': "toUpperCase_loop str (len - 1) ret (k + 1) (m(?a := upper c)) = Some m'"
      "\<forall>x. m' x = (if unat (x - (ret + (k + 1))) < n then upper (cstr str ! unat (x - (ret + (k + 1))))
        else if unat (x - (ret + (k + 1))) = n then 0 else (m(?a := upper c)) x)"
      using Cons.IH [OF t, of "len - 1" "k + 1" "m(?a := upper c)"] unfolding n_def by blast
    have nn: "min (unat len) (length (cstr (c # str))) = Suc n" using l True by (simp add: n_def)
    have small: "n < 2 ^ 64 - 1" using l unat_less_pow64 [of len] by (simp add: n_def)
    have "m' x = (if unat (x - ?a) < Suc n then upper (cstr (c # str) ! unat (x - ?a))
        else if unat (x - ?a) = Suc n then 0 else m x)" for x
    proof (cases "x = ?a")
      case x: True
      have "unat (?a - (ret + (k + 1))) = 2 ^ 64 - 1"
        using unat_diff_before [of ?a] by (simp only: add.assoc)
      then have "\<not> unat (?a - (ret + (k + 1))) < n" "unat (?a - (ret + (k + 1))) \<noteq> n"
        using small by linarith+
      with x True show ?thesis by (simp only: m'(2)) simp
    next
      case False
      then show ?thesis
        using True unat_diff_step [of x ?a] by (simp add: m'(2) Let_def add.assoc)
    qed
    then show ?thesis using True m'(1) unfolding nn by simp
  qed
qed simp

text \<open>
  \<^verbatim>\<open>toUpperCase\<close> returns a fresh heap block that begins with the first \<^verbatim>\<open>len\<close>
  characters of the string in upper case and a NUL, and writes nothing else; it dereferences
  \<^verbatim>\<open>NULL\<close> when the heap is exhausted. With \<^verbatim>\<open>len\<close> or more characters the NUL is byte \<^verbatim>\<open>len\<close> of a
  request of \<^verbatim>\<open>len\<close> bytes.
\<close>

theorem toUpperCase_correct:
  assumes "kheap_wf s" and "size_ok len" and "terminated str"
  defines "t \<equiv> map upper (take (unat len) (cstr str)) @ [0]"
  shows "case kzalloc len s of None \<Rightarrow> False
    | Some (ret, s1) \<Rightarrow>
        if ret = 0 then toUpperCase str len s = None
        else (ret, pages_for len * 4096) \<in> live s1 \<and>
          (\<exists>m. toUpperCase str len s = Some (ret, s1\<lparr>hmem := m\<rparr>) \<and>
            bytes_at m ret (length t) = t \<and>
            (\<forall>x. length t \<le> unat (x - ret) \<longrightarrow> m x = hmem s1 x))"
  using assms(1,2)
proof (cases rule: kheap_alloc)
  case null
  then show ?thesis by (simp add: toUpperCase_def)
next
  case (block ret s1)
  let ?n = "min (unat len) (length (cstr str))"
  obtain m where m: "toUpperCase_loop str len ret 0 (hmem s1) = Some m"
    "\<forall>x. m x = (if unat (x - ret) < ?n then upper (cstr str ! unat (x - ret))
      else if unat (x - ret) = ?n then 0 else hmem s1 x)"
    using toUpperCase_loop_spec [OF assms(3), of len ret 0 "hmem s1", unfolded add_0_right] by blast
  have t: "length t = Suc ?n" by (simp add: t_def min.commute)
  have "?n < 2 ^ 64" using unat_less_pow64 [of len] by simp
  then have "m (ret + of_nat i) = t ! i" if "i \<le> ?n" for i
    using that by (auto simp: m(2) Let_def t_def nth_append unat_of_nat_small)
  then have "bytes_at m ret (length t) = t"
    by (intro nth_equalityI) (simp_all add: bytes_at_def t less_Suc_eq_le del: upt_Suc)
  moreover have "length t \<le> unat (x - ret) \<longrightarrow> m x = hmem s1 x" for x
    using t by (auto simp: m(2) Let_def)
  moreover have "toUpperCase str len s = Some (ret, s1\<lparr>hmem := m\<rparr>)"
    using block m(1) by (simp add: toUpperCase_def)
  ultimately show ?thesis using block by auto
qed

theorem toUpperCase_correct_witness:
  "\<exists>ret s'. toUpperCase [98, 111, 98, 97, 0] 10 (kheap_of small_heap) = Some (ret, s') \<and>
     bytes_at (hmem s') ret 5 = [66, 79, 66, 65, 0]"
proof -
  have wf: "kheap_wf (kheap_of small_heap)" by (simp add: small_heap_wf)
  have ok: "size_ok 10" by (simp add: size_ok_def)
  obtain a s' where a: "kzalloc 10 (kheap_of small_heap) = Some (a, s')" "a \<noteq> 0"
    by (rule small_kheap_alloc [OF ok]) (simp_all add: pages_for_def)
  have u: "map upper [98, 111, 98, 97] = [66, 79, 66, 65]" by (simp add: upper_def word_sle_eq)
  have "\<exists>m. toUpperCase [98, 111, 98, 97, 0] 10 (kheap_of small_heap) = Some (a, s'\<lparr>hmem := m\<rparr>) \<and>
    bytes_at m a (length (map upper [98, 111, 98, 97] @ [0])) = map upper [98, 111, 98, 97] @ [0]"
    using toUpperCase_correct [OF wf ok, of "[98, 111, 98, 97, 0]"] a by (auto simp del: list.map)
  moreover have "Suc (Suc (Suc (Suc (Suc 0)))) = (5 :: nat)" by simp
  ultimately show ?thesis unfolding u by auto
qed


lemma strcpy_loop_spec:
  "\<lbrakk> terminated src; i + length (cstr src) < length dest \<rbrakk> \<Longrightarrow>
   strcpy_loop i dest src = Some (overwrite dest i (cstr src @ [0]))"
proof (induction src arbitrary: i dest)
  case (Cons c src)
  show ?case
  proof (cases "c = 0")
    case True
    then show ?thesis using Cons.prems by (simp add: wr_def overwrite_def upd_conv_take_nth_drop)
  next
    case False
    let ?d = "dest[i := c]"
    have "strcpy_loop (Suc i) ?d src = Some (overwrite ?d (Suc i) (cstr src @ [0]))"
      using Cons.IH [of "Suc i" ?d] Cons.prems False by simp
    moreover have "take (Suc i) ?d = take i dest @ [c]"
      using Cons.prems False by (simp add: take_Suc_conv_app_nth)
    ultimately show ?thesis using Cons.prems False by (simp add: wr_def overwrite_def)
  qed
qed simp

lemma cstr_overwrite: "0 \<notin> set xs \<Longrightarrow> cstr (overwrite dest 0 (xs @ [0])) = xs"
  by (simp add: overwrite_def cstr_append)

lemma terminated_overwrite: "terminated (overwrite dest 0 (xs @ [0]))"
  by (simp add: overwrite_def terminated_def)

lemma strcpy_copies:
  assumes "terminated src" and "length (cstr src) < length dest"
  shows "\<exists>d. strcpy dest src = Some d \<and> cstr d = cstr src \<and> terminated d \<and> length d = length dest"
  using assms strcpy_loop_spec [of src 0 dest]
  by (simp add: strcpy_def cstr_overwrite cstr_nonzero terminated_overwrite)

lemma terminate_buffer:
  assumes "n < length buf" and "0 \<notin> set (take n buf)"
  shows "wr buf n 0 = Some (buf[n := 0])" "cstr (buf[n := 0]) = take n buf" "terminated (buf[n := 0])"
  using assms by (simp_all add: wr_def upd_conv_take_nth_drop cstr_append terminated_def)

lemma strncpy_loop_spec:
  "\<lbrakk> i + k \<le> length (cstr src); i + k \<le> length dest \<rbrakk> \<Longrightarrow>
   strncpy_loop k i dest src = Some (overwrite dest i (take k (drop i (cstr src))))"
proof (induction k arbitrary: i dest)
  case 0
  then show ?case by (simp add: overwrite_def)
next
  case (Suc k)
  let ?d = "dest[i := cstr src ! i]"
  have i: "i < length (cstr src)" "i < length dest" using Suc.prems by simp_all
  have "strncpy_loop k (Suc i) ?d src = Some (overwrite ?d (Suc i) (take k (drop (Suc i) (cstr src))))"
    using Suc.IH [of "Suc i" ?d] Suc.prems by simp
  moreover have "take (Suc i) ?d = take i dest @ [cstr src ! i]"
    using i by (simp add: take_Suc_conv_app_nth)
  moreover have "drop i (cstr src) = cstr src ! i # drop (Suc i) (cstr src)"
    using i by (simp add: Cons_nth_drop_Suc)
  ultimately show ?case
    using i cstr_nth [OF i(1)] Suc.prems by (simp add: rd_def wr_def overwrite_def)
qed

lemma strncpy_whole:
  assumes "terminated src" and "length (cstr src) \<le> length dest" and "length src < 2 ^ 64"
  shows "strncpy dest src (of_nat (length (cstr src))) = Some (overwrite dest 0 (cstr src))"
  using assms terminated_length [OF assms(1)] strncpy_loop_spec [of 0 "length (cstr src)" src dest]
  by (simp add: strncpy_def unat_of_nat_small)

end
