(* ===== verification/Page_Frame.thy ===== *)
theory Page_Frame
  imports Page_Map
begin

text \<open>
  What mapping leaves alone: the memory outside the kernel heap. The heap is its table of 25600 bytes at
  address 0 and its pages from 5 MiB to 105 MiB.
\<close>

definition kernel_heap :: "u64 set" where
  "kernel_heap = {x. unat x < 25600 \<or> 0x500000 \<le> unat x \<and> unat x < 0x6900000}"

definition outside_same :: "mem \<Rightarrow> mem \<Rightarrow> bool" where
  "outside_same m m' \<longleftrightarrow> (\<forall>x. x \<notin> kernel_heap \<longrightarrow> m' x = m x)"

lemma outside_refl [simp]: "outside_same m m"
  by (simp add: outside_same_def)

lemma outside_trans: "outside_same m1 m2 \<Longrightarrow> outside_same m2 m3 \<Longrightarrow> outside_same m1 m3"
  by (simp add: outside_same_def)

lemma sub_small:
  assumes "unat (x - a) < n" and "unat (a :: u64) + n \<le> 2 ^ 64"
  shows "unat a \<le> unat x \<and> unat x < unat a + n"
  using assms unat_less_pow64 [of x] by (auto simp: unat_sub_if' split: if_splits)

lemma kzalloc_outside:
  fixes s :: "'a kheap_scheme"
  assumes "kheap_wf s" and "size_ok sz" and "kzalloc sz s = Some (a, s')"
  shows "outside_same (hmem s) (hmem s')"
proof -
  have n: "unat (table_size s) \<le> 25600" and k: "kzallocPage sz s = (a, s')"
    using assms by (simp_all add: kheap_wf_def heap_wf_def kzalloc_def)
  let ?pc = "sizeUpToPage sz div KHEAP_BLOCK_SIZE"
  have pos: "0 < unat ?pc" using pages_for_pos [OF assms(2)] page_count_unat [OF assms(2)] by simp
  show ?thesis
  proof (rule findFreePages_cases [OF n pos])
    assume "findFreePages ?pc 0 s = (- ENMEM, 0, s)"
    with k show ?thesis by (simp add: kzallocPage_def getPageCount_up)
  next
    fix st
    assume st: "st + unat ?pc \<le> unat (table_size s)"
      "findFreePages ?pc 0 s = (0, page_address st, s\<lparr>hmem := markEntryTaken (of_nat st) ?pc (hmem s)\<rparr>)"
    have m: "hmem s' = memset (page_address st) 0 (?pc * KHEAP_BLOCK_SIZE) (markEntryTaken (of_nat st) ?pc (hmem s))"
      using k st(2) by (auto simp: kzallocPage_def getPageCount_up)
    have st25: "st + unat ?pc \<le> 25600" using st(1) n by simp
    then have u: "unat (of_nat st :: u64) = st" "unat (page_address st) = 0x500000 + st * 4096"
      "unat (?pc * KHEAP_BLOCK_SIZE) = unat ?pc * 4096"
      by (simp_all add: unat_of_nat_small unat_page_address KHEAP_BLOCK_SIZE_def unat_word_ariths)
    show ?thesis unfolding outside_same_def m
    proof (intro allI impI)
      fix x assume x: "x \<notin> kernel_heap"
      have "\<not> unat (x - page_address st) < unat ?pc * 4096"
        using sub_small [of x "page_address st" "unat ?pc * 4096"] x st25 u(2) by (auto simp: kernel_heap_def)
      moreover have "\<not> unat (x - of_nat st) < unat ?pc"
        using sub_small [of x "of_nat st" "unat ?pc"] x st25 u(1) by (auto simp: kernel_heap_def)
      ultimately show "memset (page_address st) 0 (?pc * KHEAP_BLOCK_SIZE) (markEntryTaken (of_nat st) ?pc (hmem s)) x = hmem s x"
        by (simp add: u(3) markEntryTaken_apply)
    qed
  qed
qed

lemma write_entry_outside:
  fixes s :: "'a kheap_scheme" and i :: u16
  assumes "kheap_wf s" "(t, 4096) \<in> live s" "i < 512"
  shows "outside_same m (writePointerTableEntry t x (ucast i) f m)"
proof -
  note r = live_region [OF assms(1,2)]
  have i: "unat i < 512" using assms by (simp add: word_less_nat_alt)
  have a: "unat (t + 8 * ucast i :: u64) = unat t + 8 * unat i" using r assms by (simp add: entry_offset)
  show ?thesis unfolding outside_same_def
  proof (intro allI impI)
    fix y assume y: "y \<notin> kernel_heap"
    have "\<not> unat (y - (t + 8 * ucast i)) < 8"
      using sub_small [of y "t + 8 * ucast i" 8] a r i y by (auto simp: kernel_heap_def)
    then show "writePointerTableEntry t x (ucast i) f m y = m y"
      by (simp add: writePointerTableEntry_def put_bytes_def)
  qed
qed

lemma getOrCreateEntry_outside:
  fixes s :: "'a kheap_scheme"
  assumes wf: "kheap_wf s" and t: "(t, 4096) \<in> live s" "i < 512" and g: "getOrCreateEntry t i s = Some (e, s')"
  shows "outside_same (hmem s) (hmem s')"
proof (cases "le64_at (hmem s) (t + 8 * ucast i) = 0")
  case True
  then obtain q s1 where q: "kzalloc 4096 s = Some (q, s1)"
    "q = 0 \<and> s' = s1 \<or> s' = s1\<lparr>hmem := writePointerTableEntry t q (ucast i) (PAGING_FLAG_P OR PAGING_FLAG_RW) (hmem s1)\<rparr>"
    using g by (auto simp: getOrCreateEntry_def split: if_splits)
  show ?thesis
    using q(2) outside_trans [OF kzalloc_outside [OF wf size_ok_page q(1)] write_entry_outside [OF wf t]]
      kzalloc_outside [OF wf size_ok_page q(1)] by auto
next
  case False
  with g show ?thesis by (simp add: getOrCreateEntry_def)
qed

lemma mapOrCreatePage_outside:
  fixes s :: "'a kheap_scheme"
  assumes wf: "kheap_wf s" and pt: "page_table s root" and r: "mapOrCreatePage root phys virt s = Some (ret, s')"
  shows "outside_same (hmem s) (hmem s')"
proof -
  let ?i4 = "getPml4IndexFromVirtual virt" and ?i3 = "getPdpIndexFromVirtual virt"
    and ?i2 = "getPdIndexFromVirtual virt" and ?i1 = "getPtIndexFromVirtual virt"
  have ix: "?i4 < 512" "?i3 < 512" "?i2 < 512" "?i1 < 512"
    using indices_ok_indices(1) [of virt] by (simp_all add: indices_def)
  note G = getOrCreateEntry_outside
  have live0: "(root, 4096) \<in> live s" using page_table_live [OF pt, of "[]"] by simp
  show ?thesis
  proof (rule getOrCreateEntry_cases [OF wf pt, of "[]" root ?i4])
    assume e3: "getOrCreateEntry root ?i4 s = Some (0, s)"
    then show ?thesis using r by (simp add: mapOrCreatePage_def)
  next
    fix e3 s3
    assume e3: "getOrCreateEntry root ?i4 s = Some (e3, s3)" "table_of e3 \<noteq> 0" "kheap_wf s3"
      "page_table s3 root" "descend (hmem s3) root ([] @ [?i4]) = Some (table_of e3)"
    have o3: "outside_same (hmem s) (hmem s3)" using G [OF wf live0 ix(1) e3(1)] .
    have live3: "(table_of e3, 4096) \<in> live s3" using page_table_live [OF e3(4,5)] ix by simp
    show ?thesis
    proof (rule getOrCreateEntry_cases [OF e3(3-5), of ?i3])
      assume "getOrCreateEntry (table_of e3) ?i3 s3 = Some (0, s3)"
      then show ?thesis using r e3 o3 by (auto simp: mapOrCreatePage_def table_of_def)
    next
      fix e2 s2
      assume e2: "getOrCreateEntry (table_of e3) ?i3 s3 = Some (e2, s2)" "table_of e2 \<noteq> 0" "kheap_wf s2"
        "page_table s2 root" "descend (hmem s2) root (([] @ [?i4]) @ [?i3]) = Some (table_of e2)"
      have o2: "outside_same (hmem s) (hmem s2)" using outside_trans [OF o3 G [OF e3(3) live3 ix(2) e2(1)]] .
      have live2: "(table_of e2, 4096) \<in> live s2" using page_table_live [OF e2(4,5)] ix by simp
      show ?thesis
      proof (rule getOrCreateEntry_cases [OF e2(3-5), of ?i2])
        assume "getOrCreateEntry (table_of e2) ?i2 s2 = Some (0, s2)"
        then show ?thesis using r e3 e2 o2 by (auto simp: mapOrCreatePage_def table_of_def)
      next
        fix e1 s1
        assume e1: "getOrCreateEntry (table_of e2) ?i2 s2 = Some (e1, s1)" "table_of e1 \<noteq> 0" "kheap_wf s1"
          "page_table s1 root" "descend (hmem s1) root ((([] @ [?i4]) @ [?i3]) @ [?i2]) = Some (table_of e1)"
        have o1: "outside_same (hmem s) (hmem s1)" using outside_trans [OF o2 G [OF e2(3) live2 ix(3) e1(1)]] .
        have live1: "(table_of e1, 4096) \<in> live s1" using page_table_live [OF e1(4,5)] ix by simp
        have "s' = s1\<lparr>hmem := writePointerTableEntry (table_of e1) phys (ucast ?i1)
            (PAGING_FLAG_P OR PAGING_FLAG_RW) (hmem s1)\<rparr>"
          using r e3(1,2) e2(1,2) e1(1,2) by (auto simp: mapOrCreatePage_def table_of_def)
        then show ?thesis using outside_trans [OF o1 write_entry_outside [OF e1(3) live1 ix(4)]] by simp
      qed (use ix in simp_all)
    qed (use ix in simp_all)
  qed (use ix in simp_all)
qed

lemma mapOrCreateRange_loop_outside:
  fixes s :: "'a kheap_scheme"
  assumes "kheap_wf s" "page_table s root" "mapOrCreateRange_loop root phys virt sz k mapped s = Some (ret, s')"
  shows "outside_same (hmem s) (hmem s')"
  using assms
proof (induction root phys virt sz k mapped s rule: mapOrCreateRange_loop.induct)
  case (1 root phys virt sz k mapped s)
  note r = "1.prems"(3) [unfolded mapOrCreateRange_loop.simps [of root phys virt sz k mapped s]]
  show ?case
  proof (rule mapOrCreatePage_cases [OF "1.prems"(1,2), of "phys + of_nat (k * 4096)" "virt + of_nat (k * 4096)"])
    fix s1 assume "mapOrCreatePage root (phys + of_nat (k * 4096)) (virt + of_nat (k * 4096)) s = Some (- ENMEM, s1)"
    with r mapOrCreatePage_outside [OF "1.prems"(1,2) this] show ?case by (simp split: if_splits)
  next
    fix s1 assume s1: "mapOrCreatePage root (phys + of_nat (k * 4096)) (virt + of_nat (k * 4096)) s = Some (SUCCESS, s1)"
      "kheap_wf s1" "page_table s1 root"
    have o1: "outside_same (hmem s) (hmem s1)" using mapOrCreatePage_outside [OF "1.prems"(1,2) s1(1)] .
    show ?case
    proof (cases "mapped + SIZE_4KB < sz")
      case True
      then have "mapOrCreateRange_loop root phys virt sz (Suc k) (mapped + SIZE_4KB) s1 = Some (ret, s')"
        using r s1(1) by (simp split: if_splits)
      then have "outside_same (hmem s1) (hmem s')"
        using "1.IH" [OF _ s1(1) refl _ True s1(2,3)] r s1(1) by (simp split: if_splits)
      then show ?thesis by (rule outside_trans [OF o1])
    next
      case False
      then show ?thesis using r s1(1) o1 by (simp split: if_splits)
    qed
  qed
qed

lemma mapOrCreateRange_outside:
  fixes s :: "'a kheap_scheme"
  assumes "kheap_wf s" and "page_table s root" and "mapOrCreateRange root phys virt sz s = Some (ret, s')"
  shows "outside_same (hmem s) (hmem s')"
  using mapOrCreateRange_loop_outside [OF assms(1,2)] assms(3) by (simp add: mapOrCreateRange_def)

section \<open>A first table over any memory\<close>

lemma start_table:
  assumes "\<forall>x. unat x < 25600 \<longrightarrow> m x = 0" and "Suc k \<le> unat n" "unat n \<le> 25600"
  obtains root s where "createEmptyPageTable ((empty_kheap n)\<lparr>hmem := m\<rparr>) = Some (root, s)" "root \<noteq> 0" "kheap_wf s"
    "page_table s root" "page_map (hmem s) root = Map.empty" "room s k" "outside_same m (hmem s)"
proof -
  let ?h = "(empty_kheap n)\<lparr>hmem := m\<rparr>"
  note e = empty_kheap [OF assms(3)]
  have "\<forall>x. unat x < 25600 \<longrightarrow> m x = hmem (empty_kheap n) x"
    using assms(1) by (simp add: empty_kheap_def kheap_of_def small_heap_def)
  note h = live_write [OF e(1) this]
  have lv: "live ?h = {}" using h(1) e(2) by simp
  show thesis
  proof (rule createEmptyPageTable_cases [OF h(2)])
    have "room ?h (Suc k)" unfolding room_def by (rule exI [of _ "{}"]) (use assms lv e in simp)
    then show "createEmptyPageTable ?h = Some (0, ?h) \<Longrightarrow> thesis"
      using room_serves [OF h(2)] by (auto simp: createEmptyPageTable_def SIZE_4KB_def)
    fix root s'
    assume a: "createEmptyPageTable ?h = Some (root, s')" "root \<noteq> 0" "kheap_wf s'"
      "live s' = insert (root, 4096) (live ?h)" "page_table s' root"
      "page_map (hmem s') root = Map.empty" "\<exists>m'. s' = ?h\<lparr>hmem := m'\<rparr>"
    have n: "table_size s' = n" using a(7) e by auto
    have "room s' k" unfolding room_def by (rule exI [of _ "{root}"]) (use assms a(4) lv n in simp)
    moreover have "outside_same m (hmem s')"
      using kzalloc_outside [OF h(2) size_ok_page] a(1) by (simp add: createEmptyPageTable_def SIZE_4KB_def)
    ultimately show thesis using a by (intro that [of root s']) simp_all
  qed
qed

section \<open>Whole pages\<close>

lemma downToPage_word: "downToPage a = a - a mod 4096"
  by (simp add: downToPage_def SIZE_4KB_def)

lemma downToPage_aligned: "unat (downToPage a) mod 4096 = 0"
proof -
  have m: "unat (a mod 4096) = unat a mod 4096" by (simp add: unat_mod_distrib)
  then have "a mod 4096 \<le> a" by (simp add: word_le_nat_alt)
  then have "unat (downToPage a) = unat a - unat a mod 4096"
    unfolding downToPage_word by (simp add: unat_sub m)
  then show ?thesis by (simp add: minus_mod_eq_mult_div)
qed

lemma range_pages_covers: "unat sz \<le> range_pages sz * 4096"
proof -
  have "unat sz + 4095 = (unat sz + 4095) div 4096 * 4096 + (unat sz + 4095) mod 4096" by simp
  moreover have "(unat sz + 4095) mod 4096 < 4096" by simp
  ultimately have "unat sz \<le> (unat sz + 4095) div 4096 * 4096" by linarith
  also have "\<dots> \<le> range_pages sz * 4096" by (simp add: range_pages_def)
  finally show ?thesis .
qed

end
