(* ===== verification/Acpi.thy ===== *)
theory Acpi
  imports Mmio Kstring Page_Frame
begin

text \<open>
  The tables of the firmware, \<^verbatim>\<open>powerManagement/acpi.c\<close>: the search for the root pointer in low memory and
  the list of table addresses, read through a window that is mapped for it. Offsets into the packed
  structures are written out.
\<close>

section \<open>State\<close>

record acpi = mmio +
  tablesAvailable :: byte
  tableAddressList :: "u64 list"
  systemDescriptorTableAddress :: u64

definition BOBAOS_ACPI_ADDRESS :: u64 where "BOBAOS_ACPI_ADDRESS = 0xffffB00000000000"
definition BOBAOS_MAX_ACPI_TABLES :: nat where "BOBAOS_MAX_ACPI_TABLES = 32"
definition sizeof_acpisdtHeader :: u64 where "sizeof_acpisdtHeader = 36"

text \<open>\<^verbatim>\<open>"RSD PTR "\<close> and \<^verbatim>\<open>"RSDT"\<close>.\<close>

definition signature :: "byte list" where
  "signature = [0x52, 0x53, 0x44, 0x20, 0x50, 0x54, 0x52, 0x20]"

definition rsdtSignature :: "byte list" where
  "rsdtSignature = [0x52, 0x53, 0x44, 0x54]"

lemmas acpi_const_defs =
  BOBAOS_ACPI_ADDRESS_def BOBAOS_MAX_ACPI_TABLES_def sizeof_acpisdtHeader_def signature_def rsdtSignature_def

section \<open>The root pointer\<close>

text \<open>The fields of \<^verbatim>\<open>struct xsdp\<close>: the revision at 15, the 32-bit address at 16, the 64-bit address at 24.\<close>

definition tableOfRsdp :: "u64 \<Rightarrow> mem \<Rightarrow> u64" where
  "tableOfRsdp rsdp m = (if m (rsdp + 15) = 0 then ucast (le32_at m (rsdp + 16)) else le64_at m (rsdp + 24))"

text \<open>The rounds of the inner loop that are left, from \<open>address\<close> on; the result is the structure found, if any.\<close>

primrec findRsdp_loop :: "nat \<Rightarrow> u64 \<Rightarrow> mem \<Rightarrow> u64 option option" where
  "findRsdp_loop 0 address m = Some None"
| "findRsdp_loop (Suc n) address m = do {
     r \<leftarrow> strncmp (bytes_at m address 8) signature 8;
     if r = 0 then Some (Some address) else findRsdp_loop n (address + 16) m
   }"

definition findRsdp :: "'a acpi_scheme \<Rightarrow> (int \<times> 'a acpi_scheme) option" where
  "findRsdp s = do {
     r \<leftarrow> findRsdp_loop 256 0x80000 (hmem s);
     case r of Some rsdp \<Rightarrow> Some (SUCCESS, s\<lparr>systemDescriptorTableAddress := tableOfRsdp rsdp (hmem s)\<rparr>)
     | None \<Rightarrow> do {
         r \<leftarrow> findRsdp_loop 8192 0xE0000 (hmem s);
         case r of Some rsdp \<Rightarrow> Some (SUCCESS, s\<lparr>systemDescriptorTableAddress := tableOfRsdp rsdp (hmem s)\<rparr>)
         | None \<Rightarrow> Some (- ENFOUND, s)
       }
   }"

definition acpiInit :: "'a acpi_scheme \<Rightarrow> (int \<times> 'a acpi_scheme) option" where
  "acpiInit s = findRsdp s"

section \<open>The list of tables\<close>

text \<open>Memory as it is seen through the page table \<open>root\<close>.\<close>

definition virtual_memory :: "u64 \<Rightarrow> mem \<Rightarrow> mem" where
  "virtual_memory root m = (\<lambda>a. m (virtualToPhysical a root m))"

primrec readTableAddresses :: "nat \<Rightarrow> nat \<Rightarrow> (nat \<Rightarrow> u64) \<Rightarrow> u64 list \<Rightarrow> u64 list option" where
  "readTableAddresses 0 i pointerToOtherSDTs l = Some l"
| "readTableAddresses (Suc n) i pointerToOtherSDTs l = do {
     l \<leftarrow> wr l i (pointerToOtherSDTs i);
     readTableAddresses n (Suc i) pointerToOtherSDTs l
   }"

text \<open>The part behind the mapping: \<open>vm\<close> is the memory that the window shows, \<open>header\<close> the address of the table in it.\<close>

definition saveListedTables :: "mem \<Rightarrow> u64 \<Rightarrow> 'a acpi_scheme \<Rightarrow> (int \<times> 'a acpi_scheme) option" where
  "saveListedTables vm header s = do {
     r \<leftarrow> strncmp (bytes_at vm header 4) rsdtSignature 4;
     if r \<noteq> 0 then Some (- ENFOUND, s)
     else do {
       let addressSize = (if vm (header + 8) > 1 then 8 else 4 :: u64);
       let available = (ucast ((ucast (le32_at vm (header + 4)) - sizeof_acpisdtHeader) div addressSize) :: byte);
       let pointers = header + sizeof_acpisdtHeader;
       let pointerToOtherSDTs = (if addressSize = 4 then (\<lambda>i. ucast (le32_at vm (pointers + 4 * of_nat i)))
         else (\<lambda>i. le64_at vm (pointers + 8 * of_nat i)));
       l \<leftarrow> readTableAddresses (unat available) 0 pointerToOtherSDTs (tableAddressList s);
       Some (SUCCESS, s\<lparr>tablesAvailable := available, tableAddressList := l\<rparr>)
     }
   }"

text \<open>The macro \<^verbatim>\<open>RETERROR\<close> evaluates its argument again for the result, so that a failed mapping is repeated.\<close>

definition saveAcpiTables :: "'a acpi_scheme \<Rightarrow> (int \<times> 'a acpi_scheme) option" where
  "saveAcpiTables s =
     (case getMemoryMapForAddress (systemDescriptorTableAddress s) s of
        None \<Rightarrow> Some (- ENFOUND, s)
      | Some i \<Rightarrow> do {
          let acpiAddressMap = memoryMap s ! i;
          let offset = systemDescriptorTableAddress s - mm_address acpiAddressMap;
          let offset = offset + mm_address acpiAddressMap mod SIZE_4KB;
          let map = (\<lambda>s. remapPhysicalToVirtualRange (downToPage (mm_address acpiAddressMap)) BOBAOS_ACPI_ADDRESS
            (downToPage (mm_length acpiAddressMap)) (getKernelPageTable s) s);
          (ret, s) \<leftarrow> map s;
          if ret < 0 then map s
          else saveListedTables (virtual_memory (getKernelPageTable s) (hmem s)) (BOBAOS_ACPI_ADDRESS + offset) s
        })"

section \<open>Properties\<close>

lemma find_map: "find P (map f xs) = map_option f (find (\<lambda>x. P (f x)) xs)"
  by (induction xs) auto

lemma strncmp_loop_all:
  assumes "length xs = length ys" "0 \<notin> set ys"
  shows "\<exists>r. strncmp_loop (length xs) xs ys = Some r \<and> (r = 0 \<longleftrightarrow> xs = ys)"
  using assms by (induction xs ys rule: list_induct2) auto

lemma signature_match:
  "length xs = 8 \<Longrightarrow> \<exists>r. strncmp xs signature 8 = Some r \<and> (r = 0 \<longleftrightarrow> xs = signature)"
  "length xs = 4 \<Longrightarrow> \<exists>r. strncmp xs rsdtSignature 4 = Some r \<and> (r = 0 \<longleftrightarrow> xs = rsdtSignature)"
  using strncmp_loop_all [of xs signature] strncmp_loop_all [of xs rsdtSignature]
  by (simp_all add: strncmp_def signature_def rsdtSignature_def)

lemma findRsdp_loop_spec:
  "findRsdp_loop n a m = Some (map_option (\<lambda>i. a + of_nat (16 * i)) (find (\<lambda>i. bytes_at m (a + of_nat (16 * i)) 8 = signature) [0..<n]))"
proof (induction n arbitrary: a)
  case (Suc n)
  obtain r where r: "strncmp (bytes_at m a 8) signature 8 = Some r" "r = 0 \<longleftrightarrow> bytes_at m a 8 = signature"
    using signature_match(1) [of "bytes_at m a 8"] by auto
  have up: "[0..<Suc n] = 0 # map Suc [0..<n]" by (simp add: upt_conv_Cons map_Suc_upt del: upt_Suc)
  have sh: "a + of_nat (16 * Suc i) = (a + 16) + of_nat (16 * i)" for i by (simp add: algebra_simps)
  show ?case
    by (simp add: r up find_map comp_def option.map_comp Suc.IH sh del: upt_Suc of_nat_mult mult_Suc_right)
qed simp

text \<open>The addresses where the root pointer may be, in the order of the search.\<close>

definition rsdp_candidates :: "u64 list" where
  "rsdp_candidates = map (\<lambda>i. 0x80000 + of_nat (16 * i)) [0..<256] @ map (\<lambda>i. 0xE0000 + of_nat (16 * i)) [0..<8192]"

text \<open>
  The search returns the table of the first structure with the signature, among the addresses
  on 16-byte boundaries in the 4 KiB from 512 KiB on and then in the 128 KiB below 1 MiB: its 32-bit
  address for revision 0, its 64-bit address otherwise. Without one it fails and changes nothing.
\<close>

theorem findRsdp_first:
  "findRsdp s = Some (case find (\<lambda>a. bytes_at (hmem s) a 8 = signature) rsdp_candidates of
     Some rsdp \<Rightarrow> (SUCCESS, s\<lparr>systemDescriptorTableAddress := tableOfRsdp rsdp (hmem s)\<rparr>)
   | None \<Rightarrow> (- ENFOUND, s))"
proof -
  have app: "find P (xs @ ys) = (case find P xs of None \<Rightarrow> find P ys | Some x \<Rightarrow> Some x)" for P and xs ys :: "u64 list"
    by (induction xs) auto
  show ?thesis
    unfolding findRsdp_def findRsdp_loop_spec rsdp_candidates_def app
    by (simp add: find_map comp_def split: option.splits del: of_nat_mult)
qed

section \<open>Reading the list\<close>

lemma readTableAddresses_spec:
  "i + n \<le> length l \<Longrightarrow> readTableAddresses n i f l = Some (overwrite l i (map f [i..<i + n]))"
proof (induction n arbitrary: i l)
  case (Suc n)
  have "overwrite (l[i := f i]) (Suc i) (map f [Suc i..<Suc i + n]) = overwrite l i (map f [i..<i + Suc n])"
    by (rule nth_equalityI) (use Suc.prems in \<open>auto simp: nth_overwrite nth_list_update simp del: upt_Suc\<close>)
  moreover have "wr l i (f i) = Some (l[i := f i])" using Suc.prems by (simp add: wr_def)
  ultimately show ?case using Suc.IH [of "Suc i" "l[i := f i]"] Suc.prems by simp
qed simp

text \<open>Reading through the window is reading the physical memory behind it.\<close>

lemma window:
  assumes "\<forall>i < n. virtualToPhysical (v + of_nat i) root m = p + of_nat i" and "i < n"
  shows "virtual_memory root m (v + of_nat i) = m (p + of_nat i)"
  using assms by (simp add: virtual_memory_def)

lemma downToPage_twice: "upToPage (downToPage a) = downToPage a"
  by (rule upToPage_aligned) (rule downToPage_aligned)

text \<open>
  The window onto the entry of the memory map that holds the table: below \<open>n\<close>, an offset into the table
  reads the physical memory.
\<close>

lemma acpi_window:
  fixes s :: "'a acpi_scheme"
  assumes wf: "kheap_wf s" "page_table s (kernelPageTable s)"
    and sz: "range_pages (downToPage len) * 4096 \<le> 2 ^ 31" "unat (downToPage a) + range_pages (downToPage len) * 4096 \<le> 2 ^ 48"
    and table: "unat (sdt - downToPage a) + n \<le> unat (downToPage len)" "\<forall>k < n. sdt + of_nat k \<notin> kernel_heap"
    and free: "room s (3 * range_tables (range_pages (downToPage len)))"
  obtains m where
    "remapPhysicalToVirtualRange (downToPage a) BOBAOS_ACPI_ADDRESS (downToPage len) (kernelPageTable s) s = Some (0, s\<lparr>hmem := m\<rparr>)"
    "\<And>k. k < n \<Longrightarrow> virtual_memory (kernelPageTable s) m (BOBAOS_ACPI_ADDRESS + (sdt - a + a mod SIZE_4KB) + of_nat k) =
      hmem s (sdt + of_nat k)"
proof (rule mapOrCreateRange_cases [OF wf sz(1), of "downToPage a" BOBAOS_ACPI_ADDRESS])
  assume "\<not> room s (3 * range_tables (range_pages (downToPage len)))"
  with free show thesis by simp
next
  fix m
  assume map: "mapOrCreateRange (kernelPageTable s) (downToPage a) BOBAOS_ACPI_ADDRESS (downToPage len) s = Some (0, s\<lparr>hmem := m\<rparr>)"
  let ?o = "sdt - downToPage a"
  have e: "sdt - a + a mod SIZE_4KB = ?o" by (simp add: downToPage_word SIZE_4KB_def)
  have "\<forall>i < range_pages (downToPage len) * 4096.
      virtualToPhysical (BOBAOS_ACPI_ADDRESS + of_nat i) (kernelPageTable s) m = downToPage a + of_nat i"
    using range_translates [OF wf sz(1) _ downToPage_aligned sz(2) map] by (simp add: BOBAOS_ACPI_ADDRESS_def)
  note w = window [OF this]
  have o: "outside_same (hmem s) m" using mapOrCreateRange_outside [OF wf map] by simp
  show thesis
  proof (rule that [of m])
    show "remapPhysicalToVirtualRange (downToPage a) BOBAOS_ACPI_ADDRESS (downToPage len) (kernelPageTable s) s = Some (0, s\<lparr>hmem := m\<rparr>)"
      using map by (simp add: remapPhysicalToVirtualRange_def downToPage_twice)
    fix k assume k: "k < n"
    then have "unat ?o + k < range_pages (downToPage len) * 4096"
      using table(1) range_pages_covers [of "downToPage len"] by linarith
    from w [OF this] have "virtual_memory (kernelPageTable s) m (BOBAOS_ACPI_ADDRESS + (?o + of_nat k)) = m (sdt + of_nat k)"
      by (simp add: algebra_simps)
    also have "\<dots> = hmem s (sdt + of_nat k)" using o table(2) k by (simp add: outside_same_def)
    finally show "virtual_memory (kernelPageTable s) m (BOBAOS_ACPI_ADDRESS + (sdt - a + a mod SIZE_4KB) + of_nat k) =
        hmem s (sdt + of_nat k)"
      unfolding e by (simp only: add.assoc)
  qed
qed

lemma le32_shift:
  assumes "\<And>k. j \<le> k \<Longrightarrow> k < j + 4 \<Longrightarrow> m (a + of_nat k) = m' (b + of_nat k)"
  shows "le32_at m (a + of_nat j) = le32_at m' (b + of_nat j)"
  using assms [of j] assms [of "j + 1"] assms [of "j + 2"] assms [of "j + 3"] by (simp add: le32_at_def algebra_simps)

lemma bytes_shift:
  assumes "\<And>k. j \<le> k \<Longrightarrow> k < j + n \<Longrightarrow> m (a + of_nat k) = m' (b + of_nat k)"
  shows "bytes_at m (a + of_nat j) n = bytes_at m' (b + of_nat j) n"
  using assms [of "j + i" for i] by (auto simp: bytes_at_def algebra_simps)

lemma le64_shift:
  assumes "\<And>k. j \<le> k \<Longrightarrow> k < j + 8 \<Longrightarrow> m (a + of_nat k) = m' (b + of_nat k)"
  shows "le64_at m (a + of_nat j) = le64_at m' (b + of_nat j)"
  using bytes_shift [of j 8 m a m' b] assms by (simp add: le64_at_def)

lemma readTableAddresses_fault:
  "length l < i + n \<Longrightarrow> 0 < n \<Longrightarrow> readTableAddresses n i f l = None"
proof (induction n arbitrary: i l)
  case (Suc n)
  show ?case
  proof (cases "i < length l")
    case True
    with Suc.prems have "readTableAddresses n (Suc i) f (l[i := f i]) = None"
      by (intro Suc.IH) auto
    with True show ?thesis by (simp add: wr_def)
  qed (simp add: wr_def)
qed simp

text \<open>The tables that a table lists: how many the loop reads, and their addresses.\<close>

definition sdt_entry_size :: "mem \<Rightarrow> u64 \<Rightarrow> nat" where
  "sdt_entry_size m sdt = (if m (sdt + 8) > 1 then 8 else 4)"

definition sdt_count :: "mem \<Rightarrow> u64 \<Rightarrow> nat" where
  "sdt_count m sdt = (unat (le32_at m (sdt + 4)) - 36) div sdt_entry_size m sdt mod 256"

definition sdt_pointer :: "mem \<Rightarrow> u64 \<Rightarrow> nat \<Rightarrow> u64" where
  "sdt_pointer m sdt i = (if sdt_entry_size m sdt = 4 then ucast (le32_at m (sdt + of_nat (36 + 4 * i)))
     else le64_at m (sdt + of_nat (36 + 8 * i)))"

lemma sdt_count_bound:
  assumes "i < sdt_count m sdt"
  shows "36 + sdt_entry_size m sdt * i + sdt_entry_size m sdt \<le> unat (le32_at m (sdt + 4))"
proof -
  let ?e = "sdt_entry_size m sdt" and ?n = "unat (le32_at m (sdt + 4)) - 36"
  have "Suc i \<le> ?n div ?e" using assms by (simp add: sdt_count_def)
  then have "?e * Suc i \<le> ?n" by (metis div_times_less_eq_dividend le_trans mult.commute mult_le_mono1)
  moreover have "0 < ?e" by (simp add: sdt_entry_size_def)
  ultimately show ?thesis by (cases "36 \<le> unat (le32_at m (sdt + 4))") auto
qed

lemma available_count:
  assumes "36 \<le> unat (l :: u32)" and "e = 4 \<or> e = 8"
  shows "unat (ucast ((ucast l - sizeof_acpisdtHeader) div of_nat e) :: byte) = (unat l - 36) div e mod 256"
proof -
  have u: "unat (ucast l :: u64) = unat l"
    by (simp add: unsigned_ucast_eq) (rule take_bit_nat_eq_self, rule less_le_trans [OF unsigned_less], simp)
  have "unat (ucast l - sizeof_acpisdtHeader) = unat l - 36"
    using assms(1) u by (subst unat_sub) (simp_all add: word_le_nat_alt sizeof_acpisdtHeader_def)
  then have "unat ((ucast l - sizeof_acpisdtHeader) div of_nat e) = (unat l - 36) div e"
    using assms(2) by (auto simp: unat_div_distrib)
  then show ?thesis by (simp add: unsigned_ucast_eq take_bit_nat_def)
qed

text \<open>
  Property C38. Let the table that the root pointer names lie inside the pages of one entry of the memory map
  and outside the kernel heap, and let the heap have room for the mapping. A table without the
  signature \<^verbatim>\<open>RSDT\<close> is refused with \<^verbatim>\<open>-ENFOUND\<close>, the table of ACPI 2.0 with its signature \<^verbatim>\<open>XSDT\<close> too. Of
  any other the addresses of the tables are stored in order, as many as its length says modulo 256; more than
  32 are written behind the list, which is a fault.
\<close>

theorem saveAcpiTables_reads:
  fixes s :: "'a acpi_scheme"
  assumes wf: "kheap_wf s" "page_table s (kernelPageTable s)"
    and sdt: "sdt = systemDescriptorTableAddress s" "getMemoryMapForAddress sdt s = Some e"
      "a = mm_address (memoryMap s ! e)" "len = mm_length (memoryMap s ! e)"
    and sz: "range_pages (downToPage len) * 4096 \<le> 2 ^ 31" "unat (downToPage a) + range_pages (downToPage len) * 4096 \<le> 2 ^ 48"
    and n: "n = unat (le32_at (hmem s) (sdt + 4))" "36 \<le> n"
    and table: "unat (sdt - downToPage a) + n \<le> unat (downToPage len)" "\<forall>k < n. sdt + of_nat k \<notin> kernel_heap"
    and free: "room s (3 * range_tables (range_pages (downToPage len)))"
    and l: "length (tableAddressList s) = BOBAOS_MAX_ACPI_TABLES"
  shows "if bytes_at (hmem s) sdt 4 \<noteq> rsdtSignature
    then \<exists>m. saveAcpiTables s = Some (- ENFOUND, s\<lparr>hmem := m\<rparr>)
    else if sdt_count (hmem s) sdt \<le> 32
    then \<exists>s'. saveAcpiTables s = Some (SUCCESS, s') \<and> unat (tablesAvailable s') = sdt_count (hmem s) sdt \<and>
      take (sdt_count (hmem s) sdt) (tableAddressList s') = map (sdt_pointer (hmem s) sdt) [0..<sdt_count (hmem s) sdt]
    else saveAcpiTables s = None"
proof (rule acpi_window [OF wf sz table free])
  fix m
  let ?h = "BOBAOS_ACPI_ADDRESS + (sdt - a + a mod SIZE_4KB)" and ?vm = "virtual_memory (kernelPageTable s) m"
    and ?c = "sdt_count (hmem s) sdt" and ?size = "sdt_entry_size (hmem s) sdt"
  assume map: "remapPhysicalToVirtualRange (downToPage a) BOBAOS_ACPI_ADDRESS (downToPage len) (kernelPageTable s) s = Some (0, s\<lparr>hmem := m\<rparr>)"
    and w: "\<And>k. k < n \<Longrightarrow> ?vm (?h + of_nat k) = hmem s (sdt + of_nat k)"
  have sig: "bytes_at ?vm ?h 4 = bytes_at (hmem s) sdt 4"
    using bytes_shift [of 0 4 ?vm ?h "hmem s" sdt] w n(2) by simp
  have rev: "?vm (?h + 8) = hmem s (sdt + 8)" using w [of 8] n(2) by simp
  have lg: "le32_at ?vm (?h + 4) = le32_at (hmem s) (sdt + 4)"
    using le32_shift [of 4 ?vm ?h "hmem s" sdt] w n(2) by simp
  let ?p = "\<lambda>f :: nat \<Rightarrow> u64. \<forall>i < ?c. f i = sdt_pointer (hmem s) sdt i"
  have p4: "le32_at ?vm (?h + sizeof_acpisdtHeader + 4 * of_nat i) = le32_at (hmem s) (sdt + of_nat (36 + 4 * i))"
    if "i < ?c" "?size = 4" for i
    using le32_shift [of "36 + 4 * i" ?vm ?h "hmem s" sdt] w sdt_count_bound [OF that(1)] that(2) n(1)
    by (simp add: sizeof_acpisdtHeader_def add.assoc)
  have p8: "le64_at ?vm (?h + sizeof_acpisdtHeader + 8 * of_nat i) = le64_at (hmem s) (sdt + of_nat (36 + 8 * i))"
    if "i < ?c" "?size = 8" for i
    using le64_shift [of "36 + 8 * i" ?vm ?h "hmem s" sdt] w sdt_count_bound [OF that(1)] that(2) n(1)
    by (simp add: sizeof_acpisdtHeader_def add.assoc)
  obtain r where r: "strncmp (bytes_at (hmem s) sdt 4) rsdtSignature 4 = Some r" "r = 0 \<longleftrightarrow> bytes_at (hmem s) sdt 4 = rsdtSignature"
    using signature_match(2) [of "bytes_at (hmem s) sdt 4"] by auto
  have found: "getMemoryMapForAddress (systemDescriptorTableAddress s) s = Some e" using sdt by simp
  have run: "saveAcpiTables s = saveListedTables ?vm ?h (s\<lparr>hmem := m\<rparr>)"
    using map by (simp add: saveAcpiTables_def found getKernelPageTable_def sdt Let_def)
  define f :: "nat \<Rightarrow> u64" where "f = (if ?size = 4 then \<lambda>i. ucast (le32_at ?vm (?h + sizeof_acpisdtHeader + 4 * of_nat i))
    else (\<lambda>i. le64_at ?vm (?h + sizeof_acpisdtHeader + 8 * of_nat i)))"
  have f: "map f [0..<?c] = map (sdt_pointer (hmem s) sdt) [0..<?c]"
    using p4 p8 by (auto simp: f_def sdt_pointer_def sdt_entry_size_def)
  define available :: byte where
    "available = ucast ((ucast (le32_at (hmem s) (sdt + 4)) - sizeof_acpisdtHeader) div of_nat ?size)"
  have c: "unat available = ?c"
    using available_count [of "le32_at (hmem s) (sdt + 4)" ?size] n
    by (auto simp: available_def sdt_count_def sdt_entry_size_def)
  have save: "saveListedTables ?vm ?h (s\<lparr>hmem := m\<rparr>) = (if r \<noteq> 0 then Some (- ENFOUND, s\<lparr>hmem := m\<rparr>)
      else map_option (\<lambda>l. (SUCCESS, s\<lparr>hmem := m, tablesAvailable := available, tableAddressList := l\<rparr>))
        (readTableAddresses ?c 0 f (tableAddressList s)))"
    unfolding saveListedTables_def sig rev lg Let_def
    by (cases "1 < hmem s (sdt + 8)")
      (auto simp: r(1) f_def available_def sdt_entry_size_def map_conv_bind_option comp_def simp flip: c)
  show ?thesis
  proof (cases "bytes_at (hmem s) sdt 4 = rsdtSignature")
    case True
    with run save r(2) have all: "saveAcpiTables s = map_option (\<lambda>l. (SUCCESS,
        s\<lparr>hmem := m, tablesAvailable := available, tableAddressList := l\<rparr>)) (readTableAddresses ?c 0 f (tableAddressList s))"
      by simp
    show ?thesis
    proof (cases "?c \<le> 32")
      case fits: True
      then have "readTableAddresses ?c 0 f (tableAddressList s) =
          Some (overwrite (tableAddressList s) 0 (map (sdt_pointer (hmem s) sdt) [0..<?c]))"
        using readTableAddresses_spec [of 0 ?c "tableAddressList s" f] l f by (simp add: BOBAOS_MAX_ACPI_TABLES_def)
      with all True fits c show ?thesis by (simp add: overwrite_def)
    next
      case False
      then have "readTableAddresses ?c 0 f (tableAddressList s) = None"
        using readTableAddresses_fault [of "tableAddressList s" 0 ?c f] l by (simp add: BOBAOS_MAX_ACPI_TABLES_def)
      with all True False show ?thesis by simp
    qed
  next
    case False
    with run save r(2) show ?thesis by auto
  qed
qed

section \<open>Witnesses\<close>

text \<open>A table with two entries at \<^verbatim>\<open>0x7000020\<close>, in a region of one page.\<close>

definition rsdt_example :: "byte list" where
  "rsdt_example = rsdtSignature @ bytes32 44 @ [1] @ replicate 27 0 @ bytes32 0x7100000 @ bytes32 0x7200000"

definition acpi_memory :: mem where
  "acpi_memory = put_bytes 0x7000020 rsdt_example (\<lambda>_. 0)"

definition acpi_of :: "kheap \<Rightarrow> u64 \<Rightarrow> acpi" where
  "acpi_of h root = (mmio.extend (mmio_of h root) (acpi.fields 0 (replicate 32 0) 0x7000020))
     \<lparr>memoryMap := [\<lparr>mm_address = 0x7000000, mm_length = 0x1000, mm_type = 3\<rparr>], memoryMapLength := 1\<rparr>"

lemma acpi_of_simps [simp]:
  "hmem (acpi_of h root) = hmem h" "table_size (acpi_of h root) = table_size h"
  "selected (acpi_of h root) = selected h" "kernelPageTable (acpi_of h root) = root"
  "memoryMap (acpi_of h root) = [\<lparr>mm_address = 0x7000000, mm_length = 0x1000, mm_type = 3\<rparr>]"
  "memoryMapLength (acpi_of h root) = 1" "systemDescriptorTableAddress (acpi_of h root) = 0x7000020"
  "tableAddressList (acpi_of h root) = replicate 32 0"
  by (simp_all add: acpi_of_def mmio_of_def mmioEngineInit_def mmio.defs acpi.defs)

lemma acpi_memory_at: "i < 44 \<Longrightarrow> acpi_memory (0x7000020 + of_nat i) = rsdt_example ! i"
  by (simp add: acpi_memory_def put_bytes_def unat_of_nat rsdt_example_def rsdtSignature_def bytes32_def)

theorem saveAcpiTables_reads_witness:
  "\<exists>h root s'. bytes_at (hmem h) 0x7000020 44 = rsdt_example \<and>
     saveAcpiTables (acpi_of h root) = Some (SUCCESS, s') \<and> take 2 (tableAddressList s') = [0x7100000, 0x7200000]"
proof (rule start_table [of acpi_memory 6 8])
  show "\<forall>x. unat x < 25600 \<longrightarrow> acpi_memory x = 0"
  proof (intro allI impI)
    fix x :: u64 assume "unat x < 25600"
    then have "\<not> unat (x - 0x7000020) < 44" using sub_small [of x "0x7000020" 44] by auto
    then show "acpi_memory x = 0" by (simp add: acpi_memory_def put_bytes_def rsdt_example_def rsdtSignature_def bytes32_def)
  qed
  fix root and h :: kheap
  assume h: "kheap_wf h" "page_table h root" "room h 6" "outside_same acpi_memory (hmem h)"
  let ?s = "acpi_of h root" and ?m = "hmem h"
  have out: "0x7000020 + of_nat i \<notin> kernel_heap" if "i < 44" for i
  proof -
    have "unat (0x7000020 + of_nat i :: u64) = 0x7000020 + i"
      using that by (subst unat_add_small) (simp_all add: unat_of_nat_small)
    then show ?thesis by (simp add: kernel_heap_def)
  qed
  have at: "?m (0x7000020 + of_nat i) = rsdt_example ! i" if "i < 44" for i
    using h(4) out [OF that] acpi_memory_at [OF that] by (simp add: outside_same_def)
  have ex: "rsdt_example = rsdtSignature @ [44, 0, 0, 0, 1] @ replicate 27 0 @ [0, 0, 0x10, 7, 0, 0, 0x20, 7]" "length rsdt_example = 44"
    by (simp_all add: rsdt_example_def rsdtSignature_def bytes32_def)
  have b: "bytes_at ?m 0x7000020 44 = rsdt_example"
    using at ex(2) by (intro nth_equalityI) (simp_all add: bytes_at_def)
  have sig: "bytes_at ?m 0x7000020 4 = rsdtSignature"
    using at [of 0] at [of 1] at [of 2] at [of 3]
    by (simp add: bytes_at_def upt_rec ex(1) rsdtSignature_def)
  have len: "le32_at ?m (0x7000020 + 4) = 44"
    using at [of 4] at [of 5] at [of 6] at [of 7] by (simp add: le32_at_def ex(1) rsdtSignature_def)
  have rev: "?m (0x7000020 + 8) = 1" using at [of 8] by (simp add: ex(1) rsdtSignature_def)
  have p: "le32_at ?m (0x7000020 + 36) = 0x7100000" "le32_at ?m (0x7000020 + 40) = 0x7200000"
    using at [of 36] at [of 37] at [of 38] at [of 39] at [of 40] at [of 41] at [of 42] at [of 43]
    by (simp_all add: le32_at_def ex(1) rsdtSignature_def nth_append)
  have c: "sdt_count ?m 0x7000020 = 2" "sdt_entry_size ?m 0x7000020 = 4"
    using len rev by (simp_all add: sdt_count_def sdt_entry_size_def)
  have r: "range_pages (downToPage 0x1000) = 1" by (simp add: range_pages_def downToPage_word)
  have wf: "kheap_wf ?s" "page_table ?s (kernelPageTable ?s)" "room ?s 3"
    using h same_heap [of ?s h] page_table_same [of ?s h] room_less [of h 6 3] by (simp_all add: room_def)
  have e: "getMemoryMapForAddress 0x7000020 ?s = Some 0" by (simp add: getMemoryMapForAddress_def Let_def)
  have "\<exists>s'. saveAcpiTables ?s = Some (SUCCESS, s') \<and> unat (tablesAvailable s') = sdt_count ?m 0x7000020 \<and>
      take (sdt_count ?m 0x7000020) (tableAddressList s') = map (sdt_pointer ?m 0x7000020) [0..<sdt_count ?m 0x7000020]"
  proof -
    have off: "unat (0x7000020 - downToPage 0x7000000) + 44 \<le> unat (downToPage 0x1000)" by (simp add: downToPage_word)
    have m: "0x7000020 = systemDescriptorTableAddress ?s" "0x7000000 = mm_address (memoryMap ?s ! 0)"
      "0x1000 = mm_length (memoryMap ?s ! 0)" "44 = unat (le32_at (hmem ?s) (0x7000020 + 4))" "(36 :: nat) \<le> 44"
      "length (tableAddressList ?s) = BOBAOS_MAX_ACPI_TABLES"
      using len by (simp_all add: BOBAOS_MAX_ACPI_TABLES_def)
    have sz: "range_pages (downToPage 0x1000) * 4096 \<le> 2 ^ 31"
      "unat (downToPage 0x7000000) + range_pages (downToPage 0x1000) * 4096 \<le> 2 ^ 48"
      unfolding r by (simp_all add: downToPage_word)
    have free: "room ?s (3 * range_tables (range_pages (downToPage 0x1000)))" using wf(3) by (simp add: r)
    have o: "\<forall>k < 44. 0x7000020 + of_nat k \<notin> kernel_heap" using out by blast
    note R = saveAcpiTables_reads [OF wf(1,2) m(1) e m(2,3) sz m(4,5) off o free m(6)]
    then show ?thesis by (simp only: acpi_of_simps sig c(1) not_True_eq_False if_False simp_thms)
  qed
  moreover have "map (sdt_pointer ?m 0x7000020) [0..<2] = [0x7100000, 0x7200000]"
    using p c(2) by (simp add: sdt_pointer_def upt_rec)
  ultimately show ?thesis using b c(1) by auto
qed simp_all

end
