(* ===== verification/Port_Io.thy ===== *)
theory Port_Io
  imports Prelude
begin

text \<open>
  The port instructions declared in \<^verbatim>\<open>io/io.h\<close>. They are assembly routines, and what a port does is
  up to the device behind it: the six operations are a parameter of the drivers, functions on the
  state \<open>'h\<close> of the hardware.
\<close>

record 'h port_io =
  inb :: "u16 \<Rightarrow> 'h \<Rightarrow> byte \<times> 'h"
  inw :: "u16 \<Rightarrow> 'h \<Rightarrow> u16 \<times> 'h"
  ind :: "u16 \<Rightarrow> 'h \<Rightarrow> u32 \<times> 'h"
  outb :: "u16 \<Rightarrow> byte \<Rightarrow> 'h \<Rightarrow> 'h"
  outw :: "u16 \<Rightarrow> u16 \<Rightarrow> 'h \<Rightarrow> 'h"
  outd :: "u16 \<Rightarrow> u32 \<Rightarrow> 'h \<Rightarrow> 'h"

end
