(* ===== verification/Pci.thy ===== *)
theory Pci
  imports Acpi Port_Io
begin

text \<open>
  PCI devices, \<^verbatim>\<open>hardware/pci/pci.c\<close>: the scan of the buses and the search for devices, over the
  configuration space behind two ports. The structures live in stores indexed by their address. The
  state extends the one of the kernel memory, the device mappings and the firmware tables, which the scan
  leaves alone. Text output
  is left out.
\<close>

section \<open>State\<close>

record pciHeaderDevice =
  BAR0 :: u32
  BAR1 :: u32
  BAR2 :: u32
  BAR3 :: u32
  BAR4 :: u32
  BAR5 :: u32
  CisPointer :: u32
  subSystemId :: u16
  subSystemVendorId :: u16
  expansionRomAddress :: u32
  capabilitiesPointer :: byte
  maxLatency :: byte
  minGrant :: byte
  interruptPin :: byte
  interruptLine :: byte

record pciHeader =
  hd_deviceId :: u16
  hd_vendorId :: u16
  hd_status :: u16
  hd_command :: u16
  hd_classCode :: byte
  hd_subClass :: byte
  hd_prog :: byte
  hd_revisionId :: byte
  hd_bist :: byte
  hd_headerType :: byte
  hd_latencyTimer :: byte
  hd_cacheLineSize :: byte
  hd_deviceHeader :: u64

record pciDevice =
  dev_bus :: byte
  dev_device :: byte
  dev_function :: byte
  dev_header :: u64

record pciBarInfo =
  bar_isIo :: byte
  bar_base :: u32
  bar_size :: u32

record 'h pci = acpi +
  pciStore :: "u64 \<Rightarrow> pciDevice"
  headers :: "u64 \<Rightarrow> pciHeader"
  deviceHeaders :: "u64 \<Rightarrow> pciHeaderDevice"
  barInfos :: "u64 \<Rightarrow> pciBarInfo"
  pciDevices :: "u64 list"
  nextDevicesIndex :: u16
  hw :: 'h

definition PCI_CONFIG_ADDRESS :: u16 where "PCI_CONFIG_ADDRESS = 0xCF8"
definition PCI_CONFIG_DATA :: u16 where "PCI_CONFIG_DATA = 0xCFC"
definition PCI_HEADER_TYPE_DEVICE :: byte where "PCI_HEADER_TYPE_DEVICE = 0"
definition PCI_HEADER_TYPE_MULTI_FUNCTION :: byte where "PCI_HEADER_TYPE_MULTI_FUNCTION = 0x80"
definition BOBAOS_MAX_PCI_DEVICES :: u16 where "BOBAOS_MAX_PCI_DEVICES = 0xF"
definition sizeof_pciDevice :: u64 where "sizeof_pciDevice = 16"
definition sizeof_pciHeader :: u64 where "sizeof_pciHeader = 24"
definition sizeof_pciBarInfo :: u64 where "sizeof_pciBarInfo = 12"

lemmas pci_const_defs =
  PCI_CONFIG_ADDRESS_def PCI_CONFIG_DATA_def PCI_HEADER_TYPE_DEVICE_def PCI_HEADER_TYPE_MULTI_FUNCTION_def
  BOBAOS_MAX_PCI_DEVICES_def

text \<open>Structures that have not been read yet.\<close>

definition no_device :: pciDevice where
  "no_device = \<lparr>dev_bus = 0, dev_device = 0, dev_function = 0, dev_header = 0\<rparr>"

definition no_header :: pciHeader where
  "no_header = \<lparr>hd_deviceId = 0, hd_vendorId = 0, hd_status = 0, hd_command = 0, hd_classCode = 0, hd_subClass = 0,
     hd_prog = 0, hd_revisionId = 0, hd_bist = 0, hd_headerType = 0, hd_latencyTimer = 0, hd_cacheLineSize = 0, hd_deviceHeader = 0\<rparr>"

definition no_deviceHeader :: pciHeaderDevice where
  "no_deviceHeader = \<lparr>BAR0 = 0, BAR1 = 0, BAR2 = 0, BAR3 = 0, BAR4 = 0, BAR5 = 0, CisPointer = 0, subSystemId = 0,
     subSystemVendorId = 0, expansionRomAddress = 0, capabilitiesPointer = 0, maxLatency = 0, minGrant = 0,
     interruptPin = 0, interruptLine = 0\<rparr>"

definition no_barInfo :: pciBarInfo where
  "no_barInfo = \<lparr>bar_isIo = 0, bar_base = 0, bar_size = 0\<rparr>"

section \<open>Configuration space\<close>

definition pushDevice :: "u64 \<Rightarrow> ('h, 'a) pci_scheme \<Rightarrow> (int \<times> ('h, 'a) pci_scheme) option" where
  "pushDevice device s =
     (if nextDevicesIndex s = BOBAOS_MAX_PCI_DEVICES then Some (- ENMEM, s)
      else do {
        l \<leftarrow> wr (pciDevices s) (unat (nextDevicesIndex s)) device;
        Some (0, s\<lparr>pciDevices := l, nextDevicesIndex := nextDevicesIndex s + 1\<rparr>)
      })"

definition configAddress :: "byte \<Rightarrow> byte \<Rightarrow> byte \<Rightarrow> byte \<Rightarrow> u32" where
  "configAddress bus device function' offset =
     push_bit 31 1 OR push_bit 16 (ucast bus) OR push_bit 11 (ucast device) OR push_bit 8 (ucast function') OR
     (ucast offset AND 0xFC)"

definition readConfig :: "'h port_io \<Rightarrow> byte \<Rightarrow> byte \<Rightarrow> byte \<Rightarrow> byte \<Rightarrow> 'h \<Rightarrow> u32 \<times> 'h" where
  "readConfig io bus device function' offset h =
     ind io PCI_CONFIG_DATA (outd io PCI_CONFIG_ADDRESS (configAddress bus device function' offset) h)"

definition writeConfig :: "'h port_io \<Rightarrow> byte \<Rightarrow> byte \<Rightarrow> byte \<Rightarrow> byte \<Rightarrow> u32 \<Rightarrow> 'h \<Rightarrow> 'h" where
  "writeConfig io bus device function' offset value h =
     outd io PCI_CONFIG_DATA value (outd io PCI_CONFIG_ADDRESS (configAddress bus device function' offset) h)"

definition config :: "'h port_io \<Rightarrow> byte \<Rightarrow> byte \<Rightarrow> byte \<Rightarrow> byte \<Rightarrow> ('h, 'a) pci_scheme \<Rightarrow> u32 \<times> ('h, 'a) pci_scheme" where
  "config io bus device function' offset s =
     (let (v, h) = readConfig io bus device function' offset (hw s) in (v, s\<lparr>hw := h\<rparr>))"

section \<open>Reading a device\<close>

text \<open>The request is for the size of a pointer, not of the structure.\<close>

definition readDeviceHeader ::
  "'h port_io \<Rightarrow> byte \<Rightarrow> byte \<Rightarrow> byte \<Rightarrow> ('h, 'a) pci_scheme \<Rightarrow> (u64 \<times> ('h, 'a) pci_scheme) option" where
  "readDeviceHeader io bus device function' s = do {
     (header, s) \<leftarrow> kzalloc 8 s;
     let (bar0, s) = config io bus device function' 0x10 s;
     let (bar1, s) = config io bus device function' 0x14 s;
     let (bar2, s) = config io bus device function' 0x18 s;
     let (bar3, s) = config io bus device function' 0x1C s;
     let (bar4, s) = config io bus device function' 0x20 s;
     let (bar5, s) = config io bus device function' 0x24 s;
     let (cisPointer, s) = config io bus device function' 0x28 s;
     let (subsystem, s) = config io bus device function' 0x2C s;
     let (romAddress, s) = config io bus device function' 0x30 s;
     let (reserved_pointer, s) = config io bus device function' 0x34 s;
     let (latency_line, s) = config io bus device function' 0x3C s;
     if header = 0 then None
     else Some (header, s\<lparr>deviceHeaders := (deviceHeaders s)(header :=
       \<lparr>BAR0 = bar0, BAR1 = bar1, BAR2 = bar2, BAR3 = bar3, BAR4 = bar4, BAR5 = bar5,
        CisPointer = cisPointer, subSystemId = ucast (drop_bit 16 subsystem), subSystemVendorId = ucast subsystem,
        expansionRomAddress = romAddress, capabilitiesPointer = ucast reserved_pointer,
        maxLatency = ucast (drop_bit 24 latency_line), minGrant = ucast (drop_bit 16 latency_line),
        interruptPin = ucast (drop_bit 8 latency_line), interruptLine = ucast latency_line\<rparr>)\<rparr>)
   }"

text \<open>The functions of a device, one after the other; \<open>readFunction\<close> reads one of them.\<close>

fun subFunctions ::
  "'h port_io \<Rightarrow> (byte \<Rightarrow> ('h, 'a) pci_scheme \<Rightarrow> (u64 \<times> ('h, 'a) pci_scheme) option) \<Rightarrow> byte \<Rightarrow> byte \<Rightarrow>
    byte list \<Rightarrow> ('h, 'a) pci_scheme \<Rightarrow> ('h, 'a) pci_scheme option" where
  "subFunctions io readFunction bus device [] s = Some s"
| "subFunctions io readFunction bus device (i # is) s =
     (let (v, s) = config io bus device i 0 s
      in if (ucast (v AND 0xFFFF) :: u16) = 0xFFFF then subFunctions io readFunction bus device is s
         else do {
           (subDevice, s) \<leftarrow> readFunction i s;
           s \<leftarrow> (if subDevice \<noteq> 0 then do { (_, s) \<leftarrow> pushDevice subDevice s; Some s } else Some s);
           subFunctions io readFunction bus device is s
         })"

text \<open>
  A device with several functions reads them by a call of the same function, without a bound:
  the first argument is the depth of calls that the stack allows, and deeper calls are a fault.
\<close>

primrec readPciDevice ::
  "nat \<Rightarrow> 'h port_io \<Rightarrow> byte \<Rightarrow> byte \<Rightarrow> byte \<Rightarrow> ('h, 'a) pci_scheme \<Rightarrow> (u64 \<times> ('h, 'a) pci_scheme) option" where
  "readPciDevice 0 io bus device function' s = None"
| "readPciDevice (Suc depth) io bus device function' s = do {
     (pciDevice, s) \<leftarrow> kzalloc sizeof_pciDevice s;
     (header, s) \<leftarrow> kzalloc sizeof_pciHeader s;
     let (device_vendor, s) = config io bus device function' 0 s;
     let (status_command, s) = config io bus device function' 4 s;
     let (class_revision, s) = config io bus device function' 8 s;
     let (bist_cache, s) = config io bus device function' 0xC s;
     if header = 0 then None
     else do {
       let h = \<lparr>hd_deviceId = ucast (drop_bit 16 device_vendor), hd_vendorId = ucast device_vendor,
         hd_status = ucast (drop_bit 16 status_command), hd_command = ucast status_command,
         hd_classCode = ucast (drop_bit 24 class_revision), hd_subClass = ucast (drop_bit 16 class_revision),
         hd_prog = ucast (drop_bit 8 class_revision), hd_revisionId = ucast class_revision,
         hd_bist = ucast (drop_bit 24 bist_cache), hd_headerType = ucast (drop_bit 16 bist_cache),
         hd_latencyTimer = ucast (drop_bit 8 bist_cache), hd_cacheLineSize = ucast bist_cache, hd_deviceHeader = 0\<rparr>;
       let s = s\<lparr>headers := (headers s)(header := h)\<rparr>;
       if hd_headerType h = PCI_HEADER_TYPE_DEVICE \<or> hd_headerType h = PCI_HEADER_TYPE_MULTI_FUNCTION then do {
         s \<leftarrow> (if hd_headerType h = PCI_HEADER_TYPE_DEVICE then do {
             (deviceHeader, s) \<leftarrow> readDeviceHeader io bus device function' s;
             Some (s\<lparr>headers := (headers s)(header := h\<lparr>hd_deviceHeader := deviceHeader\<rparr>)\<rparr>)
           }
           else subFunctions io (readPciDevice depth io bus device) bus device [1, 2, 3, 4, 5, 6, 7] s);
         if pciDevice = 0 then None
         else Some (pciDevice, s\<lparr>pciStore := (pciStore s)(pciDevice :=
           \<lparr>dev_bus = bus, dev_device = device, dev_function = function', dev_header = header\<rparr>)\<rparr>)
       }
       else do {
         (_, s) \<leftarrow> kzfree pciDevice s;
         (_, s) \<leftarrow> kzfree header s;
         Some (0, s)
       }
     }
   }"

section \<open>The scan\<close>

fun scanDevices ::
  "nat \<Rightarrow> 'h port_io \<Rightarrow> (byte \<times> byte) list \<Rightarrow> ('h, 'a) pci_scheme \<Rightarrow> ('h, 'a) pci_scheme option" where
  "scanDevices depth io [] s = Some s"
| "scanDevices depth io ((bus, device) # ds) s =
     (let (v, s) = config io bus device 0 0 s
      in if (ucast (v AND 0xFFFF) :: u16) \<noteq> 0xFFFF then do {
           (pciDevice, s) \<leftarrow> readPciDevice depth io bus device 0 s;
           s \<leftarrow> (if pciDevice \<noteq> 0 then do { (_, s) \<leftarrow> pushDevice pciDevice s; Some s } else Some s);
           scanDevices depth io ds s
         }
         else scanDevices depth io ds s)"

text \<open>Bus 255 is left out.\<close>

definition pciScanBus :: "nat \<Rightarrow> 'h port_io \<Rightarrow> ('h, 'a) pci_scheme \<Rightarrow> ('h, 'a) pci_scheme option" where
  "pciScanBus depth io s =
     scanDevices depth io [(of_nat bus, of_nat device). bus \<leftarrow> [0..<255], device \<leftarrow> [0..<32]] s"

definition pciInit :: "nat \<Rightarrow> 'h port_io \<Rightarrow> ('h, 'a) pci_scheme \<Rightarrow> ('h, 'a) pci_scheme option" where
  "pciInit depth io s = pciScanBus depth io s"

section \<open>Search\<close>

definition header_of :: "u64 \<Rightarrow> ('h, 'a) pci_scheme \<Rightarrow> pciHeader option" where
  "header_of device s = do { d \<leftarrow> at (pciStore s) device; at (headers s) (dev_header d) }"

definition matchesClass :: "u32 \<Rightarrow> u32 \<Rightarrow> byte \<Rightarrow> pciHeader \<Rightarrow> bool" where
  "matchesClass class' subClass progIf h \<longleftrightarrow>
     ucast (hd_classCode h) = class' \<and> ucast (hd_subClass h) = subClass AND 0xFF \<and> hd_prog h = progIf"

primrec findPciDevice :: "nat \<Rightarrow> nat \<Rightarrow> (pciHeader \<Rightarrow> bool) \<Rightarrow> ('h, 'a) pci_scheme \<Rightarrow> u64 option" where
  "findPciDevice 0 i wanted s = Some 0"
| "findPciDevice (Suc k) i wanted s = do {
     p \<leftarrow> rd (pciDevices s) i;
     h \<leftarrow> header_of p s;
     if wanted h then Some p else findPciDevice k (Suc i) wanted s
   }"

definition getPciDeviceByClass :: "u32 \<Rightarrow> u32 \<Rightarrow> byte \<Rightarrow> ('h, 'a) pci_scheme \<Rightarrow> u64 option" where
  "getPciDeviceByClass class' subClass progIf s =
     findPciDevice (unat (nextDevicesIndex s)) 0 (matchesClass class' subClass progIf) s"

definition getPciDeviceByVendor :: "u16 \<Rightarrow> u16 \<Rightarrow> ('h, 'a) pci_scheme \<Rightarrow> u64 option" where
  "getPciDeviceByVendor vendorId deviceId s =
     findPciDevice (unat (nextDevicesIndex s)) 0 (\<lambda>h. hd_vendorId h = vendorId \<and> hd_deviceId h = deviceId) s"

text \<open>The result is the new array, of 30 pointers, with the address of its block.\<close>

primrec collectDevices ::
  "nat \<Rightarrow> nat \<Rightarrow> nat \<Rightarrow> (pciHeader \<Rightarrow> bool) \<Rightarrow> ('h, 'a) pci_scheme \<Rightarrow> u64 list \<Rightarrow> u64 list option" where
  "collectDevices 0 i counter wanted s arr = Some arr"
| "collectDevices (Suc k) i counter wanted s arr = do {
     p \<leftarrow> rd (pciDevices s) i;
     h \<leftarrow> header_of p s;
     if wanted h then do {
       arr \<leftarrow> wr arr counter p;
       collectDevices k (Suc i) (Suc counter) wanted s arr
     }
     else collectDevices k (Suc i) counter wanted s arr
   }"

definition getAllPciDevicesByClass ::
  "u32 \<Rightarrow> u32 \<Rightarrow> byte \<Rightarrow> ('h, 'a) pci_scheme \<Rightarrow> ((u64 \<times> u64 list) \<times> ('h, 'a) pci_scheme) option" where
  "getAllPciDevicesByClass class' subClass progIf s = do {
     (p, s) \<leftarrow> kzalloc (ucast BOBAOS_MAX_PCI_DEVICES * sizeof_pciDevice) s;
     arr \<leftarrow> collectDevices (unat (nextDevicesIndex s)) 0 0 (matchesClass class' subClass progIf) s
       (if p = 0 then [] else replicate 30 0);
     Some ((p, arr), s)
   }"

section \<open>Base address registers and status\<close>

definition sizeMask :: "bool \<Rightarrow> u32" where
  "sizeMask isIo = (if isIo then 0xFFFFFFFC else 0xFFFFFFF0)"

definition getPciBarInfo ::
  "'h port_io \<Rightarrow> u64 \<Rightarrow> byte \<Rightarrow> ('h, 'a) pci_scheme \<Rightarrow> (u64 \<times> ('h, 'a) pci_scheme) option" where
  "getPciBarInfo io device bar s = do {
     d \<leftarrow> at (pciStore s) device;
     let offset = 0x10 + bar * 4;
     let (originalBAR, h) = readConfig io (dev_bus d) (dev_device d) (dev_function d) offset (hw s);
     let h = writeConfig io (dev_bus d) (dev_device d) (dev_function d) offset 0xFFFFFFFF h;
     let (msk, h) = readConfig io (dev_bus d) (dev_device d) (dev_function d) offset h;
     let h = writeConfig io (dev_bus d) (dev_device d) (dev_function d) offset originalBAR h;
     let isIo = originalBAR AND 1 \<noteq> 0;
     (info, s) \<leftarrow> kzalloc sizeof_pciBarInfo (s\<lparr>hw := h\<rparr>);
     if info = 0 then None
     else Some (info, s\<lparr>barInfos := (barInfos s)(info :=
       \<lparr>bar_isIo = (if isIo then 1 else 0), bar_base = originalBAR AND sizeMask isIo,
        bar_size = NOT (msk AND sizeMask isIo) + 1\<rparr>)\<rparr>)
   }"

definition updateStatusRegister :: "'h port_io \<Rightarrow> u64 \<Rightarrow> ('h, 'a) pci_scheme \<Rightarrow> ('h, 'a) pci_scheme option" where
  "updateStatusRegister io device s = do {
     d \<leftarrow> at (pciStore s) device;
     let (status_command, s) = config io (dev_bus d) (dev_device d) (dev_function d) 4 s;
     h \<leftarrow> at (headers s) (dev_header d);
     Some (s\<lparr>headers := (headers s)(dev_header d := h\<lparr>hd_status := ucast (drop_bit 16 status_command)\<rparr>)\<rparr>)
   }"

end
