(* ===== verification/Disk.thy ===== *)
theory Disk
  imports Pci
begin

text \<open>
  Disks, their drivers and their partitions: \<^verbatim>\<open>disk/diskDriver.c\<close> and the tables of
  \<^verbatim>\<open>disk/disk.c\<close>. Structures live in stores indexed by their address; \<open>0\<close> is \<^verbatim>\<open>NULL\<close>. A driver's
  callbacks, with their private data applied, are functions on the hardware state \<open>'h\<close>. A pointer
  to a partition is the address of its disk with an index. Console output is left out.
\<close>

section \<open>State\<close>

datatype diskDriverType = DISK_DRIVER_TYPE_ATA_LEGACY | DISK_DRIVER_TYPE_AHCI

text \<open>
  \<open>drv_read lba total out h\<close> fills the buffer \<open>out\<close>; the results are the status, the buffer and the
  hardware state. A driver that waits for its device forever has no result.
\<close>

record 'h diskDriver =
  drv_type :: diskDriverType
  drv_getInfo :: "kheap \<Rightarrow> 'h \<Rightarrow> ((byte list \<times> u64) \<times> kheap \<times> 'h) option"
  drv_read :: "u64 \<Rightarrow> u64 \<Rightarrow> byte list \<Rightarrow> 'h \<Rightarrow> (int \<times> byte list \<times> 'h) option"
  drv_write :: "u64 \<Rightarrow> u64 \<Rightarrow> byte list \<Rightarrow> 'h \<Rightarrow> (int \<times> 'h) option"

record diskPartition =
  part_id :: byte
  part_label :: byte
  part_offsetBytes :: u64
  part_sizeBytes :: u64
  part_disk :: u64
  part_fileSystem :: u64

record disk =
  disk_id :: byte
  disk_name :: "byte list"
  disk_sizeBytes :: u64
  disk_partitionCount :: byte
  disk_partition :: "diskPartition list"
  disk_driver :: u64

type_synonym partition_ptr = "u64 \<times> nat"

record diskStream =
  stream_disk :: u64
  stream_position :: u64

record 'h disk_state = "'h pci" +
  drivers :: "u64 \<Rightarrow> 'h diskDriver"
  driverList :: "u64 list"
  nextDriver :: u16
  disks :: "u64 \<Rightarrow> disk"
  diskList :: "u64 list"
  partitionList :: "partition_ptr option list"
  currentDisk :: u16
  currentPartition :: u16
  currentPartitionLabel :: byte
  streams :: "u64 \<Rightarrow> diskStream"

definition BOBAOS_MAX_DISK_DRIVER :: u16 where "BOBAOS_MAX_DISK_DRIVER = 12"
definition BOBAOS_MAX_DISKS :: nat where "BOBAOS_MAX_DISKS = 255"
definition BOBAOS_MAX_PARTITIONS_PER_DISK :: nat where "BOBAOS_MAX_PARTITIONS_PER_DISK = 4"
definition BOBAOS_DEFAULT_VOLUME_LABEL :: byte where "BOBAOS_DEFAULT_VOLUME_LABEL = 67"
definition LABEL_ASCII_OFFSET :: int where "LABEL_ASCII_OFFSET = 67"
definition MBR_ACTIVE_FLAG :: byte where "MBR_ACTIVE_FLAG = 0x80"
definition MBR_PARITION_TABLES_OFFSET :: nat where "MBR_PARITION_TABLES_OFFSET = 0x1BE"
definition sizeof_mbrPartitionTable :: nat where "sizeof_mbrPartitionTable = 16"

lemmas disk_const_defs =
  BOBAOS_MAX_DISKS_def BOBAOS_MAX_PARTITIONS_PER_DISK_def BOBAOS_DEFAULT_VOLUME_LABEL_def
  LABEL_ASCII_OFFSET_def MBR_ACTIVE_FLAG_def MBR_PARITION_TABLES_OFFSET_def sizeof_mbrPartitionTable_def

section \<open>The list of drivers\<close>

definition insertDriver :: "u64 \<Rightarrow> ('h, 'a) disk_state_scheme \<Rightarrow> (int \<times> ('h, 'a) disk_state_scheme) option" where
  "insertDriver driver s =
     (if nextDriver s = BOBAOS_MAX_DISK_DRIVER then Some (- ENMEM, s)
      else do {
        l \<leftarrow> wr (driverList s) (unat (nextDriver s)) driver;
        Some (0, s\<lparr>driverList := l, nextDriver := nextDriver s + 1\<rparr>)
      })"

text \<open>The two drivers are what \<^verbatim>\<open>registerAtaPioDriver\<close> and \<^verbatim>\<open>registerAHCI\<close> return.\<close>

definition loadStaticDriver ::
  "u64 \<Rightarrow> u64 \<Rightarrow> ('h, 'a) disk_state_scheme \<Rightarrow> (int \<times> ('h, 'a) disk_state_scheme) option" where
  "loadStaticDriver ataPio ahci s = do {
     (ret, s) \<leftarrow> insertDriver ataPio s;
     if ret = 0 then insertDriver ahci s else Some (ret, s)
   }"

primrec getDriver_loop :: "nat \<Rightarrow> nat \<Rightarrow> diskDriverType \<Rightarrow> ('h, 'a) disk_state_scheme \<Rightarrow> u64 option" where
  "getDriver_loop 0 i driverType s = Some 0"
| "getDriver_loop (Suc k) i driverType s = do {
     p \<leftarrow> rd (driverList s) i;
     d \<leftarrow> at (drivers s) p;
     if drv_type d = driverType then Some p else getDriver_loop k (Suc i) driverType s
   }"

definition getDriver :: "diskDriverType \<Rightarrow> ('h, 'a) disk_state_scheme \<Rightarrow> u64 option" where
  "getDriver driverType s = getDriver_loop (unat (nextDriver s)) 0 driverType s"

definition sizeof_diskDriver :: u64 where "sizeof_diskDriver = 48"

definition copyDriver :: "u64 \<Rightarrow> ('h, 'a) disk_state_scheme \<Rightarrow> (u64 \<times> ('h, 'a) disk_state_scheme) option" where
  "copyDriver drv s = do {
     (ret, s) \<leftarrow> kzalloc sizeof_diskDriver s;
     if ret = 0 then Some (0, s)
     else do {
       d \<leftarrow> at (drivers s) drv;
       Some (ret, s\<lparr>drivers := (drivers s)(ret := d)\<rparr>)
     }
   }"

definition diskDriverInit ::
  "u64 \<Rightarrow> u64 \<Rightarrow> ('h, 'a) disk_state_scheme \<Rightarrow> (int \<times> ('h, 'a) disk_state_scheme) option" where
  "diskDriverInit ataPio ahci s = loadStaticDriver ataPio ahci s"

section \<open>Disks and partitions\<close>

definition insertDisk :: "u64 \<Rightarrow> ('h, 'a) disk_state_scheme \<Rightarrow> (int \<times> ('h, 'a) disk_state_scheme) option" where
  "insertDisk d s =
     (if unat (currentDisk s) = BOBAOS_MAX_DISKS then Some (- ENMEM, s)
      else do {
        l \<leftarrow> wr (diskList s) (unat (currentDisk s)) d;
        Some (0, s\<lparr>diskList := l, currentDisk := currentDisk s + 1\<rparr>)
      })"

definition le32 :: "byte list \<Rightarrow> nat \<Rightarrow> u32 option" where
  "le32 xs i = do {
     a \<leftarrow> rd xs i; b \<leftarrow> rd xs (i + 1); c \<leftarrow> rd xs (i + 2); d \<leftarrow> rd xs (i + 3);
     Some (ucast a OR push_bit 8 (ucast b) OR push_bit 16 (ucast c) OR push_bit 24 (ucast d))
   }"

text \<open>
  The loop of \<^verbatim>\<open>checkMbrPartition\<close>: \<open>k\<close> rounds are left, \<open>i\<close> is the loop variable, \<open>base\<close> the
  advancing pointer \<^verbatim>\<open>sectorBuffer\<close> and \<open>n\<close> the number of partitions found. The byte list is what
  can be read from the start of the sector buffer on.
\<close>

primrec checkMbrPartition_loop ::
  "nat \<Rightarrow> nat \<Rightarrow> nat \<Rightarrow> nat \<Rightarrow> u64 \<Rightarrow> byte list \<Rightarrow> ('h, 'a) disk_state_scheme \<Rightarrow>
    (nat \<times> ('h, 'a) disk_state_scheme) option" where
  "checkMbrPartition_loop 0 i base n d buf s = Some (n, s)"
| "checkMbrPartition_loop (Suc k) i base n d buf s = do {
     let t = base + i * sizeof_mbrPartitionTable;
     bootable \<leftarrow> rd buf t;
     if bootable = MBR_ACTIVE_FLAG then
       (if unat (currentPartition s) \<ge> BOBAOS_MAX_DISKS * BOBAOS_MAX_PARTITIONS_PER_DISK then Some (n, s)
        else do {
          start \<leftarrow> le32 buf (t + 8);
          total \<leftarrow> le32 buf (t + 12);
          dk \<leftarrow> at (disks s) d;
          ps \<leftarrow> wr (disk_partition dk) n
            \<lparr>part_id = of_nat n, part_label = currentPartitionLabel s,
             part_offsetBytes = ucast (start * 512), part_sizeBytes = ucast (total * 512),
             part_disk = d, part_fileSystem = 0\<rparr>;
          pl \<leftarrow> wr (partitionList s) (unat (currentPartition s)) (Some (d, 0));
          checkMbrPartition_loop k (Suc i) (base + sizeof_mbrPartitionTable) (Suc n) d buf
            (s\<lparr>disks := (disks s)(d := dk\<lparr>disk_partition := ps\<rparr>),
               currentPartitionLabel := currentPartitionLabel s + 1,
               partitionList := pl, currentPartition := currentPartition s + 1\<rparr>)
        })
     else checkMbrPartition_loop k (Suc i) (base + sizeof_mbrPartitionTable) n d buf s
   }"

definition checkMbrPartition ::
  "u64 \<Rightarrow> byte list \<Rightarrow> ('h, 'a) disk_state_scheme \<Rightarrow> (nat \<times> ('h, 'a) disk_state_scheme) option" where
  "checkMbrPartition d buf s = checkMbrPartition_loop 4 0 MBR_PARITION_TABLES_OFFSET 0 d buf s"

definition diskGet :: "byte \<Rightarrow> ('h, 'a) disk_state_scheme \<Rightarrow> u64 option" where
  "diskGet i s = (if unat i \<ge> unat (currentDisk s) then Some 0 else rd (diskList s) (unat i))"

definition diskGetAll :: "('h, 'a) disk_state_scheme \<Rightarrow> u64 list" where
  "diskGetAll s = diskList s"

text \<open>A pointer to a partition is returned as \<open>Some (Some p)\<close>, \<^verbatim>\<open>NULL\<close> as \<open>Some None\<close>.\<close>

definition partitionGet :: "byte \<Rightarrow> byte \<Rightarrow> ('h, 'a) disk_state_scheme \<Rightarrow> partition_ptr option option" where
  "partitionGet diskId partitionId s =
     (if unat diskId \<ge> unat (currentDisk s) \<or> unat partitionId \<ge> BOBAOS_MAX_PARTITIONS_PER_DISK
      then Some None
      else do {
        d \<leftarrow> rd (diskList s) (unat diskId);
        if d = 0 then None else Some (Some (d, unat partitionId))
      })"

definition partitionGetByVolumeLabel ::
  "byte \<Rightarrow> ('h, 'a) disk_state_scheme \<Rightarrow> partition_ptr option option" where
  "partitionGetByVolumeLabel label s =
     (if sint label - LABEL_ASCII_OFFSET \<ge> int (unat (currentPartition s)) then Some None
      else let i = LABEL_ASCII_OFFSET - sint label
           in if i < 0 then None else rd (partitionList s) (nat i))"

definition partitionGetAll :: "('h, 'a) disk_state_scheme \<Rightarrow> partition_ptr option list" where
  "partitionGetAll s = partitionList s"

text \<open>The structure behind a pointer to a partition.\<close>

definition partition_at :: "partition_ptr \<Rightarrow> ('h, 'a) disk_state_scheme \<Rightarrow> diskPartition option" where
  "partition_at p s = do { dk \<leftarrow> at (disks s) (fst p); rd (disk_partition dk) (snd p) }"

definition set_partition_label ::
  "partition_ptr \<Rightarrow> byte \<Rightarrow> ('h, 'a) disk_state_scheme \<Rightarrow> ('h, 'a) disk_state_scheme option" where
  "set_partition_label p l s = do {
     dk \<leftarrow> at (disks s) (fst p);
     q \<leftarrow> rd (disk_partition dk) (snd p);
     ps \<leftarrow> wr (disk_partition dk) (snd p) (q\<lparr>part_label := l\<rparr>);
     Some (s\<lparr>disks := (disks s)(fst p := dk\<lparr>disk_partition := ps\<rparr>)\<rparr>)
   }"

end
