(* ===== verification/Stream.thy ===== *)
theory Stream
  imports Disk
begin

text \<open>
  Byte streams on disks, \<^verbatim>\<open>disk/stream.c\<close>: reading and writing at any byte position through whole
  512-byte sectors. The sector buffer comes from \<^verbatim>\<open>kzalloc\<close>; its contents are a byte list. The
  second part states what a driver has to do and proves the streams correct for such drivers.
\<close>

section \<open>Operations\<close>

definition checkDiskStream :: "u64 \<Rightarrow> ('h, 'a) disk_state_scheme \<Rightarrow> int option" where
  "checkDiskStream stream s =
     (if stream = 0 then Some (- EIARG)
      else do {
        dk \<leftarrow> at (disks s) (stream_disk (streams s stream));
        Some (if stream_position (streams s stream) \<ge> disk_sizeBytes dk then - ENMEM else 0)
      })"

definition sizeof_diskStream :: u64 where "sizeof_diskStream = 16"

definition diskStreamCreate ::
  "byte \<Rightarrow> u64 \<Rightarrow> ('h, 'a) disk_state_scheme \<Rightarrow> (u64 \<times> ('h, 'a) disk_state_scheme) option" where
  "diskStreamCreate driveId position s = do {
     d \<leftarrow> diskGet driveId s;
     if d = 0 then Some (0, s)
     else do {
       (stream, s) \<leftarrow> kzalloc sizeof_diskStream s;
       if stream = 0 then None
       else Some (stream, s\<lparr>streams := (streams s)(stream := \<lparr>stream_disk = d, stream_position = position\<rparr>)\<rparr>)
     }
   }"

definition set_position :: "u64 \<Rightarrow> u64 \<Rightarrow> ('h, 'a) disk_state_scheme \<Rightarrow> ('h, 'a) disk_state_scheme" where
  "set_position stream p s =
     s\<lparr>streams := (streams s)(stream := (streams s stream)\<lparr>stream_position := p\<rparr>)\<rparr>"

definition diskStreamSeek ::
  "u64 \<Rightarrow> u64 \<Rightarrow> ('h, 'a) disk_state_scheme \<Rightarrow> (int \<times> ('h, 'a) disk_state_scheme) option" where
  "diskStreamSeek stream position s = do {
     ret \<leftarrow> checkDiskStream stream s;
     if ret < 0 then Some (ret, s)
     else do {
       dk \<leftarrow> at (disks s) (stream_disk (streams s stream));
       if position > disk_sizeBytes dk * 512 then Some (- EDISKSPACE, s)
       else Some (ret, set_position stream position s)
     }
   }"

text \<open>The number of sectors that \<open>length\<close> bytes from offset \<open>currLbaPos\<close> of a sector on touch.\<close>

definition totalLba :: "u64 \<Rightarrow> u64 \<Rightarrow> u64" where
  "totalLba currLbaPos length' =
     (let t = (currLbaPos + length') div 512
      in if (currLbaPos + length') mod 512 > 0 then t + 1 else t)"

text \<open>\<^verbatim>\<open>memcpy\<close> between two different buffers, at offsets, with a fault outside either.\<close>

definition memcpy_between :: "'b list \<Rightarrow> nat \<Rightarrow> 'b list \<Rightarrow> nat \<Rightarrow> nat \<Rightarrow> 'b list option" where
  "memcpy_between dest doff src soff n =
     (if n = 0 then Some dest
      else if doff + n \<le> length dest \<and> soff + n \<le> length src
      then Some (overwrite dest doff (take n (drop soff src))) else None)"

text \<open>The callbacks of the driver of the stream's disk, on the state's hardware.\<close>

definition stream_driver :: "u64 \<Rightarrow> ('h, 'a) disk_state_scheme \<Rightarrow> 'h diskDriver option" where
  "stream_driver stream s = do {
     dk \<leftarrow> at (disks s) (stream_disk (streams s stream));
     at (drivers s) (disk_driver dk)
   }"

definition driver_read ::
  "u64 \<Rightarrow> u64 \<Rightarrow> u64 \<Rightarrow> byte list \<Rightarrow> ('h, 'a) disk_state_scheme \<Rightarrow>
    (int \<times> byte list \<times> ('h, 'a) disk_state_scheme) option" where
  "driver_read stream lba tot buffer s = do {
     d \<leftarrow> stream_driver stream s;
     (ret, buffer, h) \<leftarrow> drv_read d lba tot buffer (hw s);
     Some (ret, buffer, s\<lparr>hw := h\<rparr>)
   }"

definition driver_write ::
  "u64 \<Rightarrow> u64 \<Rightarrow> u64 \<Rightarrow> byte list \<Rightarrow> ('h, 'a) disk_state_scheme \<Rightarrow>
    (int \<times> ('h, 'a) disk_state_scheme) option" where
  "driver_write stream lba tot buffer s = do {
     d \<leftarrow> stream_driver stream s;
     (ret, h) \<leftarrow> drv_write d lba tot buffer (hw s);
     Some (ret, s\<lparr>hw := h\<rparr>)
   }"

text \<open>The results are the status and the caller's buffer \<open>out\<close>.\<close>

definition diskStreamRead ::
  "u64 \<Rightarrow> byte list \<Rightarrow> u64 \<Rightarrow> ('h, 'a) disk_state_scheme \<Rightarrow>
    (int \<times> byte list \<times> ('h, 'a) disk_state_scheme) option" where
  "diskStreamRead stream out length' s = do {
     ret \<leftarrow> checkDiskStream stream s;
     if ret < 0 then Some (ret, out, s)
     else do {
       dk \<leftarrow> at (disks s) (stream_disk (streams s stream));
       let position = stream_position (streams s stream);
       if position + length' > disk_sizeBytes dk then Some (- ENMEM, out, s)
       else do {
         let currLba = position div 512;
         let currLbaPos = position mod 512;
         let tot = totalLba currLbaPos length';
         (p, s) \<leftarrow> kzalloc (tot * 512) s;
         if p = 0 then Some (- ENMEM, out, s)
         else do {
           (ret, buffer, s) \<leftarrow> driver_read stream currLba tot (replicate (unat (tot * 512)) 0) s;
           (out, s) \<leftarrow> (if ret < 0 then Some (out, s)
             else do {
               out \<leftarrow> memcpy_between out 0 buffer (unat currLbaPos) (unat length');
               Some (out, set_position stream (position + length') s)
             });
           (_, s) \<leftarrow> kzfree p s;
           Some (ret, out, s)
         }
       }
     }
   }"

text \<open>
  The steps of \<^verbatim>\<open>diskStreamWrite\<close> between the allocation and the label \<^verbatim>\<open>out\<close>, each of which
  goes to \<^verbatim>\<open>out\<close> on an error. The local sector \<^verbatim>\<open>buff\<close> is filled by the driver before it is used.
\<close>

definition diskStreamWrite_body ::
  "u64 \<Rightarrow> byte list \<Rightarrow> u64 \<Rightarrow> u64 \<Rightarrow> u64 \<Rightarrow> u64 \<Rightarrow> ('h, 'a) disk_state_scheme \<Rightarrow>
    (int \<times> ('h, 'a) disk_state_scheme) option" where
  "diskStreamWrite_body stream inp length' currLba currLbaPos tot s = do {
     let position = stream_position (streams s stream);
     (ret, buffer, s) \<leftarrow> (if currLbaPos > 0
        then driver_read stream currLba 1 (replicate (unat (tot * 512)) 0) s
        else Some (0, replicate (unat (tot * 512)) 0, s));
     if ret < 0 then Some (ret, s)
     else do {
       buffer \<leftarrow> memcpy_between buffer (unat currLbaPos) inp 0 (unat length');
       (ret, buffer, s) \<leftarrow> (if (currLbaPos + length') mod 512 \<noteq> 0
          then do {
            (ret, buff, s) \<leftarrow> driver_read stream (currLba + tot - 1) 1 (replicate 512 0) s;
            if ret < 0 then Some (ret, buffer, s)
            else do {
              let lastBlockOffset = (currLbaPos + length') mod 512;
              buffer \<leftarrow> memcpy_between buffer (unat ((tot - 1) * 512 + lastBlockOffset))
                          buff (unat lastBlockOffset) (unat (512 - lastBlockOffset));
              Some (ret, buffer, s)
            }
          }
          else Some (ret, buffer, s));
       if ret < 0 then Some (ret, s)
       else do {
         (ret, s) \<leftarrow> driver_write stream currLba tot buffer s;
         if ret < 0 then Some (ret, s)
         else Some (ret, set_position stream (position + length') s)
       }
     }
   }"

definition diskStreamWrite ::
  "u64 \<Rightarrow> byte list \<Rightarrow> u64 \<Rightarrow> ('h, 'a) disk_state_scheme \<Rightarrow> (int \<times> ('h, 'a) disk_state_scheme) option" where
  "diskStreamWrite stream inp length' s = do {
     ret \<leftarrow> checkDiskStream stream s;
     if ret < 0 then Some (ret, s)
     else do {
       dk \<leftarrow> at (disks s) (stream_disk (streams s stream));
       let position = stream_position (streams s stream);
       if position + length' > disk_sizeBytes dk then Some (- ENMEM, s)
       else do {
         let currLba = position div 512;
         let currLbaPos = position mod 512;
         let tot = totalLba currLbaPos length';
         (p, s) \<leftarrow> kzalloc (tot * 512) s;
         if p = 0 then Some (- ENMEM, s)
         else do {
           (ret, s) \<leftarrow> diskStreamWrite_body stream inp length' currLba currLbaPos tot s;
           (_, s) \<leftarrow> kzfree p s;
           Some (ret, s)
         }
       }
     }
   }"

section \<open>Drivers that do what they promise\<close>

text \<open>
  \<open>content\<close> reads the sectors of the disk off the hardware state. A driver that is lawful for some
  \<open>sizes\<close> transfers such numbers of sectors inside the disk and succeeds when the device is \<open>ready\<close>,
  and reading leaves the contents alone. A lawful driver does so always.
\<close>

definition lawful ::
  "(nat \<Rightarrow> bool) \<Rightarrow> ('h \<Rightarrow> bool) \<Rightarrow> 'h diskDriver \<Rightarrow> ('h \<Rightarrow> byte list) \<Rightarrow> bool" where
  "lawful sizes ready d content \<longleftrightarrow>
     (\<forall>h lba tot buf. ready h \<and> sizes (unat tot) \<and>
          (unat lba + unat tot) * 512 \<le> length (content h) \<and> unat tot * 512 \<le> length buf \<longrightarrow>
        (\<exists>h'. drv_read d lba tot buf h =
             Some (0, overwrite buf 0 (take (unat tot * 512) (drop (unat lba * 512) (content h))), h') \<and>
           ready h' \<and> content h' = content h) \<and>
        (\<exists>h'. drv_write d lba tot buf h = Some (0, h') \<and> ready h' \<and>
           content h' = overwrite (content h) (unat lba * 512) (take (unat tot * 512) buf)))"

abbreviation "lawful_driver \<equiv> lawful (\<lambda>_. True) (\<lambda>_. True)"

text \<open>A stream on a disk of whole sectors behind a lawful driver.\<close>

definition stream_on ::
  "(nat \<Rightarrow> bool) \<Rightarrow> ('h \<Rightarrow> bool) \<Rightarrow> ('h \<Rightarrow> byte list) \<Rightarrow> u64 \<Rightarrow> ('h, 'a) disk_state_scheme \<Rightarrow> bool" where
  "stream_on sizes ready content stream s \<longleftrightarrow> ready (hw s) \<and> stream \<noteq> 0 \<and> stream_disk (streams s stream) \<noteq> 0 \<and>
     (let dk = disks s (stream_disk (streams s stream))
      in disk_driver dk \<noteq> 0 \<and> lawful sizes ready (drivers s (disk_driver dk)) content \<and>
         unat (disk_sizeBytes dk) = length (content (hw s)) \<and> length (content (hw s)) mod 512 = 0 \<and>
         length (content (hw s)) + 8192 < 2 ^ 64)"

abbreviation "stream_ok \<equiv> stream_on (\<lambda>_. True) (\<lambda>_. True)"

definition position_of :: "u64 \<Rightarrow> ('h, 'a) disk_state_scheme \<Rightarrow> nat" where
  "position_of stream s = unat (stream_position (streams s stream))"


lemma heap_updates [simp]:
  fixes s :: "('h, 'a) disk_state_scheme"
  shows "live (s\<lparr>hw := h\<rparr>) = live s" "kheap_wf (s\<lparr>hw := h\<rparr>) = kheap_wf s"
    "live (s\<lparr>streams := st\<rparr>) = live s" "kheap_wf (s\<lparr>streams := st\<rparr>) = kheap_wf s"
    "live (set_position p n s) = live s" "kheap_wf (set_position p n s) = kheap_wf s"
proof -
  show "live (s\<lparr>hw := h\<rparr>) = live s" "kheap_wf (s\<lparr>hw := h\<rparr>) = kheap_wf s"
    by (rule same_heap; simp)+
  show "live (s\<lparr>streams := st\<rparr>) = live s" "kheap_wf (s\<lparr>streams := st\<rparr>) = kheap_wf s"
    by (rule same_heap; simp)+
  show "live (set_position p n s) = live s" "kheap_wf (set_position p n s) = kheap_wf s"
    by (rule same_heap; simp add: set_position_def)+
qed

section \<open>Sectors\<close>

lemma sectors_up: "(x + 511) div 512 = (if 0 < x mod 512 then x div 512 + 1 else x div 512)" for x :: nat
proof -
  obtain a b where x: "x = 512 * a + b" "b < 512" by (metis mult_div_mod_eq mod_less_divisor zero_less_numeral)
  have "(512 * a + b + 511) div 512 = (if 0 < b then a + 1 else a)"
    using x(2) by (intro div_nat_eqI) (auto split: if_splits)
  with x show ?thesis by simp
qed

lemma totalLba_spec:
  assumes "0 < unat n" and "unat r < 512" and "unat r + unat n + 8192 < 2 ^ 64"
  shows "unat (totalLba r n) = (unat r + unat n + 511) div 512"
    and "unat (totalLba r n * 512) = (unat r + unat n + 511) div 512 * 512"
    and "size_ok (totalLba r n * 512)"
proof -
  have a: "unat (r + n) = unat r + unat n" using assms(3) by (subst unat_add_small) auto
  let ?t = "(r + n) div 512"
  have d: "unat ?t = (unat r + unat n) div 512" by (simp add: unat_div_distrib a)
  have m: "unat ((r + n) mod 512) = (unat r + unat n) mod 512" by (simp add: unat_mod_distrib a)
  have z: "(r + n) mod 512 > 0 \<longleftrightarrow> (unat r + unat n) mod 512 > 0"
    by (simp add: word_less_nat_alt m)
  have small: "unat ?t + 1 < 2 ^ 64" using assms(3) d by simp
  show T: "unat (totalLba r n) = (unat r + unat n + 511) div 512"
    using small z d by (simp add: totalLba_def Let_def sectors_up unat_add_small)
  have le: "(unat r + unat n + 511) div 512 * 512 + 4095 < 2 ^ 64"
    using assms(3) div_times_less_eq_dividend [of "unat r + unat n + 511" 512] by linarith
  then show W: "unat (totalLba r n * 512) = (unat r + unat n + 511) div 512 * 512"
    by (subst unat_mult_small) (simp_all add: T)
  show "size_ok (totalLba r n * 512)"
    unfolding size_ok_def using le W assms(1) by (simp add: word_less_nat_alt)
qed

lemma sector_end:
  fixes pos n sz :: nat
  assumes "pos + n \<le> sz" and "sz mod 512 = 0"
  shows "(pos div 512 + (pos mod 512 + n + 511) div 512) * 512 \<le> sz"
    and "pos mod 512 + n \<le> (pos mod 512 + n + 511) div 512 * 512"
proof -
  obtain k where k: "sz = 512 * k" using assms(2) by (auto elim: dvdE simp flip: dvd_eq_mod_eq_0)
  let ?q = "pos div 512" and ?x = "pos mod 512 + n"
  have pos: "pos = ?q * 512 + pos mod 512" by simp
  then have "?q * 512 + ?x \<le> 512 * k" using assms(1) k by linarith
  then have x: "?q \<le> k" "?x \<le> 512 * (k - ?q)" unfolding diff_mult_distrib2 by linarith+
  have "(?x + 511) div 512 < Suc (k - ?q)"
    using x(2) by (intro less_mult_imp_div_less) simp
  then have "?q + (?x + 511) div 512 \<le> k" using x(1) by linarith
  then show "(pos div 512 + (pos mod 512 + n + 511) div 512) * 512 \<le> sz" using k by simp
  have "?x + 511 = (?x + 511) div 512 * 512 + (?x + 511) mod 512" "(?x + 511) mod 512 < 512" by simp_all
  then show "pos mod 512 + n \<le> (pos mod 512 + n + 511) div 512 * 512" by linarith
qed


section \<open>Reading\<close>

lemma stream_ok_hmem [simp]: "stream_on sizes ready content p (s\<lparr>hmem := m\<rparr>) = stream_on sizes ready content p s"
  by (simp add: stream_on_def)

lemma stream_ok_hw:
  "\<lbrakk> length (content h) = length (content (hw s)); ready h; stream_on sizes ready content p s \<rbrakk> \<Longrightarrow>
   stream_on sizes ready content p (s\<lparr>hw := h\<rparr>)"
  by (simp add: stream_on_def)

lemma stream_ok_position [simp]: "stream_on sizes ready content p (set_position q n s) = stream_on sizes ready content p s"
  by (simp add: stream_on_def set_position_def)

lemma stream_driver_ok:
  assumes "stream_on sizes ready content stream s"
  shows "\<exists>d. stream_driver stream s = Some d \<and> lawful sizes ready d content"
  using assms by (auto simp: stream_on_def stream_driver_def at_def Let_def)

lemma driver_read_lawful:
  assumes "stream_on sizes ready content stream s" and "sizes (unat tot)"
    and "(unat lba + unat tot) * 512 \<le> length (content (hw s))" and "unat tot * 512 \<le> length buf"
  shows "\<exists>h. driver_read stream lba tot buf s =
      Some (0, overwrite buf 0 (take (unat tot * 512) (drop (unat lba * 512) (content (hw s)))), s\<lparr>hw := h\<rparr>) \<and>
    ready h \<and> content h = content (hw s)"
proof -
  obtain d where d: "stream_driver stream s = Some d" "lawful sizes ready d content"
    using stream_driver_ok [OF assms(1)] by blast
  have "ready (hw s)" using assms(1) by (simp add: stream_on_def)
  with d(2) assms(2-4) obtain h' where "drv_read d lba tot buf (hw s) =
      Some (0, overwrite buf 0 (take (unat tot * 512) (drop (unat lba * 512) (content (hw s)))), h')"
    "ready h'" "content h' = content (hw s)"
    unfolding lawful_def by blast
  with d(1) show ?thesis by (auto simp: driver_read_def)
qed

lemma driver_write_lawful:
  assumes "stream_on sizes ready content stream s" and "sizes (unat tot)"
    and "(unat lba + unat tot) * 512 \<le> length (content (hw s))" and "unat tot * 512 \<le> length buf"
  shows "\<exists>h. driver_write stream lba tot buf s = Some (0, s\<lparr>hw := h\<rparr>) \<and> ready h \<and>
    content h = overwrite (content (hw s)) (unat lba * 512) (take (unat tot * 512) buf)"
proof -
  obtain d where d: "stream_driver stream s = Some d" "lawful sizes ready d content"
    using stream_driver_ok [OF assms(1)] by blast
  have "ready (hw s)" using assms(1) by (simp add: stream_on_def)
  with d(2) assms(2-4) obtain h' where "drv_write d lba tot buf (hw s) = Some (0, h')"
    "ready h'" "content h' = overwrite (content (hw s)) (unat lba * 512) (take (unat tot * 512) buf)"
    unfolding lawful_def by blast
  with d(1) show ?thesis by (auto simp: driver_write_def)
qed

text \<open>What the arithmetic of both operations comes to for a transfer inside the disk.\<close>

lemma transfer_bounds:
  assumes ok: "stream_on sizes ready content stream s"
    and n: "0 < unat n" "position_of stream s + unat n \<le> length (content (hw s))"
  defines "pos \<equiv> stream_position (streams s stream)"
  defines "T \<equiv> totalLba (pos mod 512) n"
  shows "checkDiskStream stream s = Some 0"
    and "at (disks s) (stream_disk (streams s stream)) = Some (disks s (stream_disk (streams s stream)))"
    and "\<not> pos + n > disk_sizeBytes (disks s (stream_disk (streams s stream)))"
    and "unat (pos + n) = unat pos + unat n"
    and "unat (pos div 512) = unat pos div 512" and "unat (pos mod 512) = unat pos mod 512"
    and "unat T = (unat pos mod 512 + unat n + 511) div 512" and "unat (T * 512) = unat T * 512"
    and "size_ok (T * 512)"
    and "(unat pos div 512 + unat T) * 512 \<le> length (content (hw s))"
    and "unat pos mod 512 + unat n \<le> unat T * 512"
proof -
  let ?dk = "disks s (stream_disk (streams s stream))"
  have sz: "unat (disk_sizeBytes ?dk) = length (content (hw s))" "length (content (hw s)) mod 512 = 0"
    "length (content (hw s)) + 8192 < 2 ^ 64" "stream \<noteq> 0" "stream_disk (streams s stream) \<noteq> 0"
    using ok by (simp_all add: stream_on_def Let_def)
  have p: "unat pos + unat n \<le> length (content (hw s))" using n(2) by (simp add: position_of_def pos_def)
  show at: "at (disks s) (stream_disk (streams s stream)) = Some ?dk" using sz by (simp add: at_def)
  show "checkDiskStream stream s = Some 0"
    using sz at p n(1) by (simp add: checkDiskStream_def word_le_nat_alt pos_def)
  show sum: "unat (pos + n) = unat pos + unat n" using p sz(3) by (subst unat_add_small) auto
  show "\<not> pos + n > disk_sizeBytes ?dk" using sum p sz(1) by (simp add: word_less_nat_alt)
  show "unat (pos div 512) = unat pos div 512" by (simp add: unat_div_distrib)
  show r: "unat (pos mod 512) = unat pos mod 512" by (simp add: unat_mod_distrib)
  have b: "unat (pos mod 512) < 512" "unat (pos mod 512) + unat n + 8192 < 2 ^ 64"
    using p sz(3) mod_less_eq_dividend [of "unat pos" 512] unfolding r by (simp, linarith)
  show T: "unat T = (unat pos mod 512 + unat n + 511) div 512" and "unat (T * 512) = unat T * 512"
    and "size_ok (T * 512)"
    using totalLba_spec [OF n(1) b] by (simp_all add: T_def r)
  show "(unat pos div 512 + unat T) * 512 \<le> length (content (hw s))"
    and "unat pos mod 512 + unat n \<le> unat T * 512"
    unfolding T using sector_end [OF p sz(2)] by auto
qed


lemma position_simps [simp]:
  "position_of p (s\<lparr>hmem := m\<rparr>) = position_of p s" "position_of p (s\<lparr>hw := h\<rparr>) = position_of p s"
  "position_of p (set_position p n s) = unat n"
  by (simp_all add: position_of_def set_position_def)

lemma hw_set_position [simp]: "hw (set_position p n s) = hw s" "selected (set_position p n s) = selected s"
  by (simp_all add: set_position_def)

text \<open>Releasing the sector buffer at the end: only the heap is affected, and it is as it was.\<close>

lemma release_buffer:
  fixes s t :: "'a kheap_scheme"
  assumes "kheap_wf s" "size_ok n" "kzalloc n s = Some (p, s1)" "p \<noteq> 0"
    and "kheap_wf t" "live t = live s1"
  shows "\<exists>m. kzfree p t = Some (0, t\<lparr>hmem := m\<rparr>) \<and> kheap_wf (t\<lparr>hmem := m\<rparr>) \<and> live (t\<lparr>hmem := m\<rparr>) = live s"
proof -
  obtain t' where t': "kzfree p t = Some (0, t')" "kheap_wf t'" "live t' = live s"
    using kh.alloc_free [OF assms] by blast
  with kzfree_frame [OF _ t'(1)] assms(5) show ?thesis by (auto simp: kheap_wf_def)
qed

lemma diskStreamRead_on:
  assumes wf: "kheap_wf s" and ok: "stream_on sizes ready content stream s"
    and n: "0 < unat n" "position_of stream s + unat n \<le> length (content (hw s))"
    and out: "unat n \<le> length out"
    and sz: "sizes (unat (totalLba (stream_position (streams s stream) mod 512) n))"
  obtains (full) "kzalloc (totalLba (stream_position (streams s stream) mod 512) n * 512) s = Some (0, s)"
      "diskStreamRead stream out n s = Some (- ENMEM, out, s)"
  | (success) s' where "diskStreamRead stream out n s =
        Some (0, overwrite out 0 (take (unat n) (drop (position_of stream s) (content (hw s)))), s')"
      "position_of stream s' = position_of stream s + unat n" "content (hw s') = content (hw s)"
      "kheap_wf s'" "live s' = live s" "stream_on sizes ready content stream s'"
      "\<exists>m h. s' = set_position stream (stream_position (streams s stream) + n) (s\<lparr>hmem := m, hw := h\<rparr>)"
proof -
  let ?pos = "stream_position (streams s stream)"
  let ?C = "content (hw s)"
  let ?T = "totalLba (?pos mod 512) n"
  note b = transfer_bounds [OF ok n]
  show thesis
    using wf b(9)
  proof (cases rule: kheap_alloc)
    case null
    then show thesis using b(1-3) full by (simp add: diskStreamRead_def Let_def)
  next
    case (block p s1)
    obtain m where s1: "s1 = s\<lparr>hmem := m\<rparr>"
      using kzalloc_frame [OF _ block(1)] wf by (auto simp: kheap_wf_def)
    have ok1: "stream_on sizes ready content stream s1" using ok s1 by simp
    let ?buf = "replicate (unat (?T * 512)) (0 :: byte)"
    let ?sec = "take (unat ?T * 512) (drop (unat (?pos div 512) * 512) ?C)"
    obtain h where h: "driver_read stream (?pos div 512) ?T ?buf s1 = Some (0, overwrite ?buf 0 ?sec, s1\<lparr>hw := h\<rparr>)"
      "content h = ?C" "ready h"
      using driver_read_lawful [OF ok1, of ?T "?pos div 512" ?buf] b(5,8,10) s1 sz by auto
    have sec: "overwrite ?buf 0 ?sec = ?sec" "length ?sec = unat ?T * 512"
      using b(5,8,10) by (simp_all add: overwrite_def)
    let ?out = "overwrite out 0 (take (unat n) (drop (unat (?pos mod 512)) ?sec))"
    have mc: "memcpy_between out 0 ?sec (unat (?pos mod 512)) (unat n) = Some ?out"
      using n(1) out sec(2) b(6,11) by (simp add: memcpy_between_def)
    let ?t = "set_position stream (?pos + n) (s1\<lparr>hw := h\<rparr>)"
    obtain m' where m': "kzfree p ?t = Some (0, ?t\<lparr>hmem := m'\<rparr>)" "kheap_wf (?t\<lparr>hmem := m'\<rparr>)"
      "live (?t\<lparr>hmem := m'\<rparr>) = live s"
      using release_buffer [OF wf b(9) block(1,2), of ?t] block(3) by auto
    have res: "diskStreamRead stream out n s = Some (0, ?out, ?t\<lparr>hmem := m'\<rparr>)"
      using b(1-3) block(1,2) h(1) mc m'(1) by (simp add: diskStreamRead_def Let_def sec(1))
    have "unat ?pos div 512 * 512 + unat ?pos mod 512 = unat ?pos" by simp
    then have "drop (unat (?pos mod 512)) ?sec = take (unat ?T * 512 - unat ?pos mod 512) (drop (unat ?pos) ?C)"
      by (simp add: b(5,6) drop_take add.commute)
    then have "?out = overwrite out 0 (take (unat n) (drop (position_of stream s) ?C))"
      using b(11) by (simp add: position_of_def min_absorb1)
    moreover have "position_of stream (?t\<lparr>hmem := m'\<rparr>) = position_of stream s + unat n"
      using b(4) unfolding position_simps by (simp add: position_of_def)
    moreover have "stream_on sizes ready content stream (?t\<lparr>hmem := m'\<rparr>)" "content (hw (?t\<lparr>hmem := m'\<rparr>)) = ?C"
      using ok1 h(2,3) s1 by (simp_all add: stream_ok_hw)
    moreover have "\<exists>m h. ?t\<lparr>hmem := m'\<rparr> = set_position stream (?pos + n) (s\<lparr>hmem := m, hw := h\<rparr>)"
      by (rule exI [of _ m'], rule exI [of _ h]) (simp add: s1 set_position_def)
    ultimately show thesis using success res m'(2,3) by simp
  qed
qed


section \<open>Writing\<close>

lemma overwrite_slice:
  assumes "a + m \<le> length C" and "r + length D \<le> m"
  shows "overwrite C a (overwrite (take m (drop a C)) r D) = overwrite C (a + r) D"
proof (rule nth_equalityI)
  show "length (overwrite C a (overwrite (take m (drop a C)) r D)) = length (overwrite C (a + r) D)"
    using assms by simp
  fix i assume "i < length (overwrite C a (overwrite (take m (drop a C)) r D))"
  then show "overwrite C a (overwrite (take m (drop a C)) r D) ! i = overwrite C (a + r) D ! i"
    using assms by (auto simp: nth_overwrite)
qed

text \<open>The three pieces of the sector buffer before it is written.\<close>

lemma assemble_sectors:
  fixes S B1 D :: "byte list"
  assumes "length S = m" "length B1 = m" "take r B1 = take r S" "r + length D \<le> m"
  shows "take (r + length D) (overwrite B1 r D) @ drop (r + length D) S = overwrite S r D"
  using assms by (simp add: overwrite_def)

lemma overwrite_tail:
  "length ys = length xs - k \<Longrightarrow> k \<le> length xs \<Longrightarrow> overwrite xs k ys = take k xs @ ys"
  by (simp add: overwrite_def)

lemma last_sector:
  fixes T r n :: nat
  assumes "(r + n) mod 512 \<noteq> 0" and "T = (r + n + 511) div 512"
  shows "(T - 1) * 512 + (r + n) mod 512 = r + n" "0 < T" "T * 512 - (r + n) = 512 - (r + n) mod 512"
proof -
  have T: "T = Suc ((r + n) div 512)" using assms by (simp add: sectors_up)
  have e: "(r + n) div 512 * 512 + (r + n) mod 512 = r + n" "(r + n) mod 512 < 512" by simp_all
  have T512: "T * 512 = (r + n) div 512 * 512 + 512" unfolding T by simp
  show "(T - 1) * 512 + (r + n) mod 512 = r + n" "0 < T" using e unfolding T by simp_all
  show "T * 512 - (r + n) = 512 - (r + n) mod 512" using e unfolding T512 by linarith
qed

lemma memcpy_between_ok:
  assumes "0 < n" "doff + n \<le> length dest" "soff + n \<le> length src"
  shows "memcpy_between dest doff src soff n = Some (overwrite dest doff (take n (drop soff src)))"
  using assms by (simp add: memcpy_between_def)

text \<open>The tail of the last sector, after the copy of what was there.\<close>

lemma keep_tail:
  fixes B2 X S :: "byte list"
  assumes "length B2 = k + (512 - off)" and "length X = 512" and "off < 512"
    and "drop off X = drop k S"
  shows "memcpy_between B2 k X off (512 - off) = Some (take k B2 @ drop k S)"
proof -
  have "overwrite B2 k (drop off X) = take k B2 @ drop off X"
    by (rule overwrite_tail) (use assms(1-3) in auto)
  moreover have "take (512 - off) (drop off X) = drop off X" using assms(2) by simp
  ultimately show ?thesis
    using memcpy_between_ok [of "512 - off" k B2 off X] assms by simp
qed

lemma write_body:
  assumes ok: "stream_on sizes ready content stream s"
    and n: "0 < unat n" "position_of stream s + unat n \<le> length (content (hw s))"
    and inp: "unat n \<le> length inp"
    and sz: "sizes 1" "sizes (unat (totalLba (stream_position (streams s stream) mod 512) n))"
  defines "pos \<equiv> stream_position (streams s stream)"
  shows "\<exists>h. diskStreamWrite_body stream inp n (pos div 512) (pos mod 512) (totalLba (pos mod 512) n) s =
      Some (0, set_position stream (pos + n) (s\<lparr>hw := h\<rparr>)) \<and>
    ready h \<and> content h = overwrite (content (hw s)) (position_of stream s) (take (unat n) inp)"
proof -
  let ?C = "content (hw s)" and ?T = "totalLba (pos mod 512) n"
  let ?q = "unat pos div 512" and ?r = "unat pos mod 512" and ?t = "unat ?T"
  let ?D = "take (unat n) inp" and ?B0 = "replicate (unat (?T * 512)) (0 :: byte)"
  let ?S = "take (?t * 512) (drop (?q * 512) ?C)"
  note b = transfer_bounds [OF ok n, folded pos_def]
  have S: "length ?S = ?t * 512" using b(10) by simp
  have r512: "?r < 512" by simp
  have t1: "0 < ?t" using b(11) n(1) by (cases ?t) auto
  have r0: "pos mod 512 > 0 \<longleftrightarrow> 0 < ?r" by (simp add: word_less_nat_alt b(6))
  obtain B1 h1 where B1: "(if pos mod 512 > 0 then driver_read stream (pos div 512) 1 ?B0 s else Some (0, ?B0, s))
      = Some (0, B1, s\<lparr>hw := h1\<rparr>)" "content h1 = ?C \<and> ready h1" "length B1 = ?t * 512" "take ?r B1 = take ?r ?S"
  proof (cases "0 < ?r")
    case False
    show thesis by (rule that [of ?B0 "hw s"]) (use False r0 b(8) ok in \<open>simp_all add: stream_on_def\<close>)
  next
    case True
    obtain h where h: "driver_read stream (pos div 512) 1 ?B0 s =
        Some (0, overwrite ?B0 0 (take 512 (drop (?q * 512) ?C)), s\<lparr>hw := h\<rparr>)" "content h = ?C \<and> ready h"
      using driver_read_lawful [OF ok, of 1 "pos div 512" ?B0] b(5,8,10) t1 sz by auto
    let ?sec = "take 512 (drop (?q * 512) ?C)"
    have len: "512 \<le> length (drop (?q * 512) ?C)" "512 \<le> ?t * 512" using b(10) t1 by simp_all
    then have "?r \<le> ?t * 512" using r512 by linarith
    with len have sec: "length ?sec = 512" "take ?r ?sec = take ?r ?S"
      using r512 by (simp_all add: min_absorb1)
    have ov: "overwrite ?B0 0 ?sec = ?sec @ drop 512 ?B0"
      unfolding overwrite_def sec by simp
    show thesis
    proof (rule that [OF _ h(2)])
      show "(if pos mod 512 > 0 then driver_read stream (pos div 512) 1 ?B0 s else Some (0, ?B0, s))
          = Some (0, overwrite ?B0 0 ?sec, s\<lparr>hw := h\<rparr>)" using True r0 h(1) by simp
      show "length (overwrite ?B0 0 ?sec) = ?t * 512" unfolding ov using len sec b(8) by simp
      have "?r \<le> length ?sec" using sec(1) r512 by linarith
      then have "take ?r (?sec @ drop 512 ?B0) = take ?r ?sec" by (simp only: take_append) simp
      then show "take ?r (overwrite ?B0 0 ?sec) = take ?r ?S" unfolding ov using sec(2) by simp
    qed
  qed
  let ?s1 = "s\<lparr>hw := h1\<rparr>"
  have ok1: "stream_on sizes ready content stream ?s1" using ok B1(2) by (simp add: stream_ok_hw)
  let ?B2 = "overwrite B1 ?r ?D"
  have rn: "?r + unat n \<le> ?t * 512" using b(11) .
  have mc: "memcpy_between B1 (unat (pos mod 512)) inp 0 (unat n) = Some ?B2"
    using n(1) inp rn B1(3) by (simp add: memcpy_between_def b(6))
  have lenD: "length ?D = unat n" using inp by simp
  have small: "?r + unat n < 2 ^ 64" using rn b(8) unat_less_pow64 [of "?T * 512"] by simp
  have w: "unat (pos mod 512 + n) = ?r + unat n" using small b(6) by (subst unat_add_small) auto
  have o: "unat ((pos mod 512 + n) mod 512) = (?r + unat n) mod 512" by (simp add: unat_mod_distrib w)
  have o0: "(pos mod 512 + n) mod 512 \<noteq> 0 \<longleftrightarrow> (?r + unat n) mod 512 \<noteq> 0"
    by (simp flip: unat_eq_0 add: o)
  let ?B3 = "overwrite ?S ?r ?D"
  obtain h2 where tail: "(if (pos mod 512 + n) mod 512 \<noteq> 0
      then do {
        (ret, buff, s) \<leftarrow> driver_read stream (pos div 512 + ?T - 1) 1 (replicate 512 0) ?s1;
        if ret < 0 then Some (ret, ?B2, s)
        else do {
          let lastBlockOffset = (pos mod 512 + n) mod 512;
          buffer \<leftarrow> memcpy_between ?B2 (unat ((?T - 1) * 512 + lastBlockOffset))
                      buff (unat lastBlockOffset) (unat (512 - lastBlockOffset));
          Some (ret, buffer, s)
        }
      }
      else Some (0, ?B2, ?s1)) = Some (0, ?B3, s\<lparr>hw := h2\<rparr>)" "content h2 = ?C \<and> ready h2"
  proof (cases "(?r + unat n) mod 512 = 0")
    case True
    then have "?t * 512 = ?r + unat n" using b(7) by (auto simp: sectors_up elim!: dvdE simp flip: dvd_eq_mod_eq_0)
    then have "?B2 = ?B3"
      using assemble_sectors [OF S B1(3,4), of ?D] lenD B1(3) S by (simp add: overwrite_def)
    then show thesis using that [of h1] True o0 B1(2) by simp
  next
    case False
    let ?o = "(?r + unat n) mod 512"
    note l = last_sector [OF False b(7)]
    have C64: "length ?C + 8192 < 2 ^ 64" using ok by (simp add: stream_on_def Let_def)
    have qt: "(?q + ?t) * 512 \<le> length ?C" using b(10) .
    have qs: "unat (pos div 512 + ?T) = ?q + ?t"
      using qt C64 b(5) by (subst unat_add_small) auto
    then have q1: "unat (pos div 512 + ?T - 1) = ?q + ?t - 1"
      using t1 by (subst unat_minus_one) (auto simp flip: unat_eq_0)
    define X where "X = take 512 (drop ((?q + ?t - 1) * 512) ?C)"
    have qt1: "(?q + ?t - 1 + 1) * 512 = (?q + ?t) * 512" using t1 by simp
    have "(?q + ?t - 1) * 512 + 512 = (?q + ?t) * 512" using t1 by (cases ?t) auto
    then have X: "length X = 512" "overwrite (replicate 512 0) 0 X = X"
      using qt by (simp_all add: overwrite_def X_def)
    obtain h2 where h2: "driver_read stream (pos div 512 + ?T - 1) 1 (replicate 512 0) ?s1
        = Some (0, X, s\<lparr>hw := h2\<rparr>)" "content h2 = ?C \<and> ready h2"
      using driver_read_lawful [OF ok1, of 1 "pos div 512 + ?T - 1" "replicate 512 0"] q1 qt1 qt B1(2) X(2) sz
      by (auto simp: X_def)
    have "unat (?T - 1) = ?t - 1" using t1 by (subst unat_minus_one) (auto simp flip: unat_eq_0)
    then have "unat ((?T - 1) * 512) = (?t - 1) * 512"
      using qt C64 by (subst unat_mult_small) auto
    then have k: "unat ((?T - 1) * 512 + (pos mod 512 + n) mod 512) = ?r + unat n"
      using l(1) o small by (subst unat_add_small) auto
    have o512: "unat (512 - (pos mod 512 + n) mod 512) = 512 - ?o"
      using o by (subst unat_sub) (auto simp: word_le_nat_alt)
    have "X = drop ((?t - 1) * 512) ?S"
    proof -
      have "?t * 512 - (?t - 1) * 512 = 512" "(?t - 1) * 512 + ?q * 512 = (?q + ?t - 1) * 512"
        using t1 by (cases ?t; simp)+
      then show ?thesis by (simp only: X_def drop_take drop_drop)
    qed
    then have S2: "drop ?o X = drop (?r + unat n) ?S"
      by (simp only: drop_drop add.commute [of ?o] l(1))
    have "length ?B2 = ?t * 512" using B1(3) rn lenD by simp
    moreover have "?t * 512 = (?r + unat n) + (512 - ?o)" unfolding l(3) [symmetric] using rn by linarith
    ultimately have "memcpy_between ?B2 (?r + unat n) X ?o (512 - ?o)
      = Some (take (?r + unat n) ?B2 @ drop (?r + unat n) ?S)"
      by (intro keep_tail X(1) S2) simp_all
    also have "take (?r + unat n) ?B2 @ drop (?r + unat n) ?S = ?B3"
      using assemble_sectors [OF S B1(3,4), of ?D] rn unfolding lenD by blast
    finally have mc2: "memcpy_between ?B2 (?r + unat n) X ?o (512 - ?o) = Some ?B3" .
    show thesis
    proof (rule that [OF _ h2(2)])
      show "(if (pos mod 512 + n) mod 512 \<noteq> 0
        then do {
          (ret, buff, s) \<leftarrow> driver_read stream (pos div 512 + ?T - 1) 1 (replicate 512 0) ?s1;
          if ret < 0 then Some (ret, ?B2, s)
          else do {
            let lastBlockOffset = (pos mod 512 + n) mod 512;
            buffer \<leftarrow> memcpy_between ?B2 (unat ((?T - 1) * 512 + lastBlockOffset))
                        buff (unat lastBlockOffset) (unat (512 - lastBlockOffset));
            Some (ret, buffer, s)
          }
        }
        else Some (0, ?B2, ?s1)) = Some (0, ?B3, s\<lparr>hw := h2\<rparr>)"
        unfolding Let_def h2(1) using False o0 k by (simp add: o512 o mc2)
    qed
  qed
  have lenB3: "length ?B3 = ?t * 512" using S rn lenD by simp
  have ok2: "stream_on sizes ready content stream (s\<lparr>hw := h2\<rparr>)" using ok tail(2) by (simp add: stream_ok_hw)
  obtain h3 where h3: "driver_write stream (pos div 512) ?T ?B3 (s\<lparr>hw := h2\<rparr>) = Some (0, s\<lparr>hw := h3\<rparr>)"
    "content h3 = overwrite ?C (?q * 512) ?B3" "ready h3"
    using driver_write_lawful [OF ok2, of ?T "pos div 512" ?B3] b(5,10) lenB3 tail(2) sz by (auto simp: pos_def)
  have "content h3 = overwrite ?C (position_of stream s) ?D"
    using overwrite_slice [of "?q * 512" "?t * 512" ?C ?r ?D] h3(2) b(10) rn lenD
    by (simp add: position_of_def pos_def)
  moreover have "diskStreamWrite_body stream inp n (pos div 512) (pos mod 512) ?T s =
      Some (0, set_position stream (pos + n) (s\<lparr>hw := h3\<rparr>))"
    unfolding diskStreamWrite_body_def pos_def [symmetric] Let_def B1(1)
    using tail(1) [unfolded Let_def] mc h3(1) by simp
  ultimately show ?thesis using h3(3) by blast
qed

lemma diskStreamWrite_on:
  assumes wf: "kheap_wf s" and ok: "stream_on sizes ready content stream s"
    and n: "0 < unat n" "position_of stream s + unat n \<le> length (content (hw s))"
    and inp: "unat n \<le> length inp"
    and sz: "sizes 1" "sizes (unat (totalLba (stream_position (streams s stream) mod 512) n))"
  obtains (full) "kzalloc (totalLba (stream_position (streams s stream) mod 512) n * 512) s = Some (0, s)"
      "diskStreamWrite stream inp n s = Some (- ENMEM, s)"
  | (success) s' where "diskStreamWrite stream inp n s = Some (0, s')"
      "position_of stream s' = position_of stream s + unat n"
      "content (hw s') = overwrite (content (hw s)) (position_of stream s) (take (unat n) inp)"
      "kheap_wf s'" "live s' = live s" "stream_on sizes ready content stream s'"
      "\<exists>m h. s' = set_position stream (stream_position (streams s stream) + n) (s\<lparr>hmem := m, hw := h\<rparr>)"
proof -
  let ?pos = "stream_position (streams s stream)"
  let ?T = "totalLba (?pos mod 512) n"
  note b = transfer_bounds [OF ok n]
  show thesis
    using wf b(9)
  proof (cases rule: kheap_alloc)
    case null
    then show thesis using b(1-3) full by (simp add: diskStreamWrite_def Let_def)
  next
    case (block p s1)
    obtain m where s1: "s1 = s\<lparr>hmem := m\<rparr>"
      using kzalloc_frame [OF _ block(1)] wf by (auto simp: kheap_wf_def)
    obtain h where h: "diskStreamWrite_body stream inp n (?pos div 512) (?pos mod 512) ?T s1 =
        Some (0, set_position stream (?pos + n) (s1\<lparr>hw := h\<rparr>))"
      "content h = overwrite (content (hw s)) (position_of stream s) (take (unat n) inp)" "ready h"
      using write_body [of sizes ready content stream s1 n inp] ok n inp sz by (auto simp: s1)
    let ?t = "set_position stream (?pos + n) (s1\<lparr>hw := h\<rparr>)"
    obtain m' where m': "kzfree p ?t = Some (0, ?t\<lparr>hmem := m'\<rparr>)" "kheap_wf (?t\<lparr>hmem := m'\<rparr>)"
      "live (?t\<lparr>hmem := m'\<rparr>) = live s"
      using release_buffer [OF wf b(9) block(1,2), of ?t] block(3) by auto
    have "diskStreamWrite stream inp n s = Some (0, ?t\<lparr>hmem := m'\<rparr>)"
      using b(1-3) block(1,2) h(1) m'(1) by (simp add: diskStreamWrite_def Let_def)
    moreover have "position_of stream (?t\<lparr>hmem := m'\<rparr>) = position_of stream s + unat n"
      using b(4) unfolding position_simps by (simp add: position_of_def)
    moreover have "length (content h) = length (content (hw s))"
      using h(2) n(2) inp by simp
    then have "stream_on sizes ready content stream (?t\<lparr>hmem := m'\<rparr>)"
      using ok s1 h(3) by (simp add: stream_ok_hw)
    moreover have "content (hw (?t\<lparr>hmem := m'\<rparr>)) = overwrite (content (hw s)) (position_of stream s) (take (unat n) inp)"
      using h(2) by simp
    moreover have "\<exists>m h. ?t\<lparr>hmem := m'\<rparr> = set_position stream (?pos + n) (s\<lparr>hmem := m, hw := h\<rparr>)"
      by (rule exI [of _ m'], rule exI [of _ h]) (simp add: s1 set_position_def)
    ultimately show thesis using success m'(2,3) by blast
  qed
qed


section \<open>The outcome of a transfer\<close>

text \<open>
  A transfer of \<open>n\<close> bytes at the byte \<open>pos\<close> of the disk needs a buffer for the sectors it touches;
  \<open>no_buffer\<close> tells that the heap has none.
\<close>

definition sector_bytes :: "nat \<Rightarrow> nat \<Rightarrow> nat" where
  "sector_bytes pos n = (pos mod 512 + n + 511) div 512 * 512"

definition no_buffer :: "nat \<Rightarrow> nat \<Rightarrow> 'a kheap_scheme \<Rightarrow> bool" where
  "no_buffer pos n s \<longleftrightarrow> kzalloc (of_nat (sector_bytes pos n)) s = Some (0, s)"

lemma transfer_buffer:
  assumes "stream_on sizes ready content stream s" "0 < unat n" "position_of stream s + unat n \<le> length (content (hw s))"
  shows "of_nat (sector_bytes (position_of stream s) (unat n)) = totalLba (stream_position (streams s stream) mod 512) n * 512"
    "sector_bytes (position_of stream s) (unat n) + 4095 < 2 ^ 64" "0 < sector_bytes (position_of stream s) (unat n)"
proof -
  let ?w = "totalLba (stream_position (streams s stream) mod 512) n * 512"
  note b = transfer_bounds [OF assms]
  have w: "sector_bytes (position_of stream s) (unat n) = unat ?w"
    using b(7,8) by (simp add: sector_bytes_def position_of_def)
  then show "of_nat (sector_bytes (position_of stream s) (unat n)) = ?w"
    "sector_bytes (position_of stream s) (unat n) + 4095 < 2 ^ 64" "0 < sector_bytes (position_of stream s) (unat n)"
    using b(9) by (simp_all add: size_ok_def word_less_nat_alt)
qed

lemma no_buffer_iff:
  assumes "kheap_wf s" "0 < sector_bytes pos n" "sector_bytes pos n + 4095 < 2 ^ 64"
  shows "no_buffer pos n s \<longleftrightarrow> no_run ((sector_bytes pos n + 4095) div 4096) (live s) (unat (table_size s))"
proof -
  have u: "unat (of_nat (sector_bytes pos n) :: u64) = sector_bytes pos n"
    using assms(3) by (simp add: unsigned_of_nat take_bit_nat_eq_self)
  have "size_ok (of_nat (sector_bytes pos n))" using assms(2,3) by (simp add: size_ok_def word_less_nat_alt u)
  then show ?thesis
    using kzalloc_null_iff [OF assms(1)] by (simp add: no_buffer_def pages_for_def u)
qed

lemma diskStream_full:
  assumes "stream_on sizes ready content stream s" "0 < unat n" "position_of stream s + unat n \<le> length (content (hw s))"
    and "no_buffer (position_of stream s) (unat n) s"
  shows "diskStreamRead stream out n s = Some (- ENMEM, out, s)" "diskStreamWrite stream inp n s = Some (- ENMEM, s)"
  using transfer_bounds(1-3) [OF assms(1-3)] assms(4)
  by (simp_all add: diskStreamRead_def diskStreamWrite_def Let_def no_buffer_def transfer_buffer(1) [OF assms(1-3)])

lemma diskStreamRead_outcome:
  assumes wf: "kheap_wf s" and ok: "stream_on sizes ready content stream s"
    and n: "0 < unat n" "position_of stream s + unat n \<le> length (content (hw s))"
    and out: "unat n \<le> length out"
    and sz: "sizes (unat (totalLba (stream_position (streams s stream) mod 512) n))"
  obtains (full) "no_buffer (position_of stream s) (unat n) s" "diskStreamRead stream out n s = Some (- ENMEM, out, s)"
  | (success) s' where "\<not> no_buffer (position_of stream s) (unat n) s"
      "diskStreamRead stream out n s =
        Some (0, overwrite out 0 (take (unat n) (drop (position_of stream s) (content (hw s)))), s')"
      "position_of stream s' = position_of stream s + unat n" "content (hw s') = content (hw s)"
      "kheap_wf s'" "live s' = live s" "stream_on sizes ready content stream s'"
      "\<exists>m h. s' = set_position stream (stream_position (streams s stream) + n) (s\<lparr>hmem := m, hw := h\<rparr>)"
proof (cases "no_buffer (position_of stream s) (unat n) s")
  case True
  then show thesis using full diskStream_full [OF ok n] by blast
next
  case False
  then have nn: "kzalloc (totalLba (stream_position (streams s stream) mod 512) n * 512) s \<noteq> Some (0, s)"
    by (simp add: no_buffer_def transfer_buffer(1) [OF ok n])
  show thesis by (rule diskStreamRead_on [OF assms]) (use nn success [OF False] in blast)+
qed

lemma diskStreamWrite_outcome:
  assumes wf: "kheap_wf s" and ok: "stream_on sizes ready content stream s"
    and n: "0 < unat n" "position_of stream s + unat n \<le> length (content (hw s))"
    and inp: "unat n \<le> length inp"
    and sz: "sizes 1" "sizes (unat (totalLba (stream_position (streams s stream) mod 512) n))"
  obtains (full) "no_buffer (position_of stream s) (unat n) s" "diskStreamWrite stream inp n s = Some (- ENMEM, s)"
  | (success) s' where "\<not> no_buffer (position_of stream s) (unat n) s"
      "diskStreamWrite stream inp n s = Some (0, s')"
      "position_of stream s' = position_of stream s + unat n"
      "content (hw s') = overwrite (content (hw s)) (position_of stream s) (take (unat n) inp)"
      "kheap_wf s'" "live s' = live s" "stream_on sizes ready content stream s'"
      "\<exists>m h. s' = set_position stream (stream_position (streams s stream) + n) (s\<lparr>hmem := m, hw := h\<rparr>)"
proof (cases "no_buffer (position_of stream s) (unat n) s")
  case True
  then show thesis using full diskStream_full [OF ok n] by blast
next
  case False
  then have nn: "kzalloc (totalLba (stream_position (streams s stream) mod 512) n * 512) s \<noteq> Some (0, s)"
    by (simp add: no_buffer_def transfer_buffer(1) [OF ok n])
  show thesis by (rule diskStreamWrite_on [OF assms]) (use nn success [OF False] in blast)+
qed

text \<open>For a driver without restrictions.\<close>

lemmas diskStreamRead_cases = diskStreamRead_on [where sizes = "\<lambda>_. True" and ready = "\<lambda>_. True", OF _ _ _ _ _ TrueI]
lemmas diskStreamWrite_cases =
  diskStreamWrite_on [where sizes = "\<lambda>_. True" and ready = "\<lambda>_. True", OF _ _ _ _ _ TrueI TrueI]
lemmas diskStreamRead_outcomes =
  diskStreamRead_outcome [where sizes = "\<lambda>_. True" and ready = "\<lambda>_. True", OF _ _ _ _ _ TrueI]
lemmas diskStreamWrite_outcomes =
  diskStreamWrite_outcome [where sizes = "\<lambda>_. True" and ready = "\<lambda>_. True", OF _ _ _ _ _ TrueI TrueI]

section \<open>Properties\<close>

text \<open>
  Property C15. On a disk of whole sectors behind a lawful driver, reading a positive number of bytes
  inside the disk, at any byte position, puts exactly the bytes of the disk at that position into
  the caller's buffer and advances the stream by them. The disk is unchanged and the sector buffer
  is released. The only failure is an exhausted heap, which changes nothing.
\<close>

theorem diskStreamRead_correct:
  assumes "kheap_wf s" and "stream_ok content stream s"
    and "0 < unat n" and "position_of stream s + unat n \<le> length (content (hw s))"
    and "unat n \<le> length out"
  shows "(kzalloc (totalLba (stream_position (streams s stream) mod 512) n * 512) s = Some (0, s) \<and>
      diskStreamRead stream out n s = Some (- ENMEM, out, s)) \<or>
    (\<exists>s'. diskStreamRead stream out n s =
        Some (0, overwrite out 0 (take (unat n) (drop (position_of stream s) (content (hw s)))), s') \<and>
      position_of stream s' = position_of stream s + unat n \<and> content (hw s') = content (hw s) \<and>
      kheap_wf s' \<and> live s' = live s)"
  by (rule diskStreamRead_cases [OF assms]) blast+

text \<open>
  Property C16. Under the same conditions a write replaces exactly the bytes of the disk at the stream's
  position by those of the caller, keeping the rest of the first and the last sector, and advances
  the stream; the sector buffer is released.
\<close>

theorem diskStreamWrite_correct:
  assumes "kheap_wf s" and "stream_ok content stream s"
    and "0 < unat n" and "position_of stream s + unat n \<le> length (content (hw s))"
    and "unat n \<le> length inp"
  shows "(kzalloc (totalLba (stream_position (streams s stream) mod 512) n * 512) s = Some (0, s) \<and>
      diskStreamWrite stream inp n s = Some (- ENMEM, s)) \<or>
    (\<exists>s'. diskStreamWrite stream inp n s = Some (0, s') \<and>
      content (hw s') = overwrite (content (hw s)) (position_of stream s) (take (unat n) inp) \<and>
      position_of stream s' = position_of stream s + unat n \<and>
      kheap_wf s' \<and> live s' = live s)"
  by (rule diskStreamWrite_cases [OF assms]) blast+

text \<open>
  A stream whose position has reached the end of its disk, for instance by reading the last
  byte, is stuck: every later seek, read and write returns \<^verbatim>\<open>-ENMEM\<close> and changes nothing, so that it
  cannot be moved back.
\<close>

theorem diskStream_stuck_at_end:
  assumes "stream \<noteq> 0" and "stream_disk (streams s stream) \<noteq> 0"
    and "disk_sizeBytes (disks s (stream_disk (streams s stream))) \<le> stream_position (streams s stream)"
  shows "diskStreamSeek stream p s = Some (- ENMEM, s) \<and>
    diskStreamRead stream out n s = Some (- ENMEM, out, s) \<and> diskStreamWrite stream inp n s = Some (- ENMEM, s)"
proof -
  have "checkDiskStream stream s = Some (- ENMEM)" using assms by (simp add: checkDiskStream_def at_def)
  then show ?thesis by (simp add: diskStreamSeek_def diskStreamRead_def diskStreamWrite_def)
qed

text \<open>
  A read of zero bytes at a sector boundary requests a buffer of zero bytes. When page 0 of
  the heap is taken, the allocator answers with page 1 without reserving it, and the release at
  the end of the read frees the block that another owner has there.
\<close>

theorem diskStreamRead_zero_frees:
  assumes wf: "kheap_wf s" and ok: "stream_ok content stream s"
    and pos: "position_of stream s mod 512 = 0" "position_of stream s < length (content (hw s))"
    and heap: "0 < table_size s" "locked (ent s 0)" "(page_address 1, l) \<in> live s"
  shows "\<exists>s'. diskStreamRead stream out 0 s = Some (0, out, s') \<and>
    live s' = live s - {(page_address 1, l)}"
proof -
  let ?pos = "stream_position (streams s stream)"
  let ?dk = "disks s (stream_disk (streams s stream))"
  have sz: "unat (disk_sizeBytes ?dk) = length (content (hw s))" "stream \<noteq> 0" "stream_disk (streams s stream) \<noteq> 0"
    using ok by (simp_all add: stream_on_def Let_def)
  then have c: "checkDiskStream stream s = Some 0" "at (disks s) (stream_disk (streams s stream)) = Some ?dk"
    "\<not> ?pos > disk_sizeBytes ?dk"
    using pos(2) by (simp_all add: checkDiskStream_def at_def word_le_nat_alt word_less_nat_alt position_of_def)
  have "unat (?pos mod 512) = 0" using pos(1) by (simp add: unat_mod_distrib position_of_def)
  then have m: "?pos mod 512 = 0" by (simp only: unat_eq_0)
  have T: "totalLba 0 0 = 0" by (simp add: totalLba_def)
  have alloc: "kzalloc 0 s = Some (page_address 1, s)"
    using wf kzallocPage_zero [OF heap(1,2)] by (simp add: kzalloc_def kheap_wf_def)
  have "unat ?pos div 512 * 512 \<le> length (content (hw s))"
    using pos(2) div_times_less_eq_dividend [of "unat ?pos" 512] unfolding position_of_def by linarith
  then obtain h where h: "driver_read stream (?pos div 512) 0 [] s = Some (0, [], s\<lparr>hw := h\<rparr>)"
    using driver_read_lawful [OF ok, of "?pos div 512" 0 "[]"] pos(2)
    by (auto simp: unat_div_distrib position_of_def)
  let ?t = "set_position stream ?pos (s\<lparr>hw := h\<rparr>)"
  obtain t' where t': "kzfree (page_address 1) ?t = Some (0, t')" "live t' = live s - {(page_address 1, l)}"
    using kheap_free [of ?t "page_address 1" l] wf heap(3) by auto
  have "page_address 1 \<noteq> 0" by (rule page_address_nonzero) simp
  then have "diskStreamRead stream out 0 s = Some (0, out, t')"
    using c alloc h t'(1) m T by (simp add: diskStreamRead_def Let_def memcpy_between_def)
  with t'(2) show ?thesis by blast
qed

text \<open>A disk in memory behind a driver that copies sectors, for the witnesses.\<close>

definition ram_driver :: "byte list diskDriver" where
  "ram_driver = \<lparr>drv_type = DISK_DRIVER_TYPE_AHCI, drv_getInfo = (\<lambda>hp h. Some (([82, 65, 77, 0], of_nat (length h)), hp, h)),
     drv_read = (\<lambda>lba tot buf h. Some (0, overwrite buf 0 (take (unat tot * 512) (drop (unat lba * 512) h)), h)),
     drv_write = (\<lambda>lba tot buf h. Some (0, overwrite h (unat lba * 512) (take (unat tot * 512) buf)))\<rparr>"

lemma ram_driver_lawful: "lawful_driver ram_driver (\<lambda>h. h)"
  by (simp add: lawful_def ram_driver_def)

definition ram_disk :: disk where
  "ram_disk = \<lparr>disk_id = 0, disk_name = [82, 65, 77, 0], disk_sizeBytes = 1024, disk_partitionCount = 0,
     disk_partition = replicate 4 \<lparr>part_id = 0, part_label = 0, part_offsetBytes = 0, part_sizeBytes = 0,
       part_disk = 0, part_fileSystem = 0\<rparr>, disk_driver = 8\<rparr>"

text \<open>One disk of two sectors; a stream at address 8 stands at byte \<open>pos\<close>.\<close>

definition ram_state :: "heap_page \<Rightarrow> u64 \<Rightarrow> byte list disk_state" where
  "ram_state hp pos = \<lparr>hmem = hmem hp, table_size = table_size hp, tableMaxSize = tableMaxSize hp,
     bent = (\<lambda>_. zero_entry), lvlTable = (\<lambda>_. 0), tmeta = tmeta blank_buddy,
     tableStartAddress = 0, lowerMemorySize = 0, heapSize = 0, maxLvl = 0, maxPage = 0, minPage = 0,
     selected = KERNEL_HEAP_TYPE_PAGE, memoryMap = [], memoryMapLength = 0, upperMemorySize = 0, totalMemorySize = 0, loadedTable = 0,
     kernelPageTable = 0, allocatedDataStructList = [], allocatedData = 0, allocatedSize = 0, currVirtualAddress = 0,
     tablesAvailable = 0, tableAddressList = [], systemDescriptorTableAddress = 0,
     pciStore = (\<lambda>_. no_device), headers = (\<lambda>_. no_header), deviceHeaders = (\<lambda>_. no_deviceHeader),
     barInfos = (\<lambda>_. no_barInfo), pciDevices = replicate 15 0, nextDevicesIndex = 0, hw = replicate 600 65 @ replicate 424 66,
     drivers = (\<lambda>_. ram_driver), driverList = 8 # replicate 11 0, nextDriver = 1, disks = (\<lambda>_. ram_disk),
     diskList = 8 # replicate 254 0, partitionList = replicate 1020 None, currentDisk = 1,
     currentPartition = 0, currentPartitionLabel = 67,
     streams = (\<lambda>_. \<lparr>stream_disk = 8, stream_position = pos\<rparr>)\<rparr>"

lemma ram_state_heap:
  "live (ram_state hp pos) = live hp" "kheap_wf (ram_state hp pos) \<longleftrightarrow> heap_wf hp" "ent (ram_state hp pos) = ent hp"
proof -
  have "live (ram_state hp pos) = live (kheap_of hp)" "kheap_wf (ram_state hp pos) \<longleftrightarrow> kheap_wf (kheap_of hp)"
    by (rule same_heap; simp add: ram_state_def kheap_of_def)+
  then show "live (ram_state hp pos) = live hp" "kheap_wf (ram_state hp pos) \<longleftrightarrow> heap_wf hp" by simp_all
  show "ent (ram_state hp pos) = ent hp" by (simp add: ram_state_def ent_def fun_eq_iff)
qed

lemma ram_state_ok: "stream_ok (\<lambda>h. h) 8 (ram_state hp pos)"
  using ram_driver_lawful by (simp add: stream_on_def ram_state_def ram_disk_def)

lemma ram_state_serves:
  "size_ok n \<Longrightarrow> pages_for n \<le> 4 \<Longrightarrow> kzalloc n (ram_state small_heap pos) \<noteq> Some (0, s')"
  by (rule small_heap_serves) (simp_all add: ram_state_heap small_heap_wf, simp_all add: ram_state_def)

lemma ram_state_pos: "position_of 8 (ram_state hp pos) = unat pos"
  "hw (ram_state hp pos) = replicate 600 65 @ replicate 424 66"
  by (simp_all add: ram_state_def position_of_def)

lemma ram_transfer: "kzalloc (totalLba (stream_position (streams (ram_state small_heap 500) 8) mod 512) 200 * 512)
    (ram_state small_heap 500) \<noteq> Some (0, s')"
proof -
  have "totalLba (stream_position (streams (ram_state small_heap 500) 8) mod 512) 200 * 512 = 1024"
    by (simp add: ram_state_def totalLba_def)
  then show ?thesis using ram_state_serves [of 1024] by (simp add: size_ok_def pages_for_def)
qed

theorem diskStreamRead_correct_witness:
  "\<exists>s'. diskStreamRead 8 (replicate 200 0) 200 (ram_state small_heap 500) =
    Some (0, replicate 100 65 @ replicate 100 66, s') \<and> position_of 8 s' = 700"
proof -
  have wf: "kheap_wf (ram_state small_heap 500)" by (simp add: ram_state_heap small_heap_wf)
  show ?thesis
    using diskStreamRead_correct [OF wf ram_state_ok, of 200 "replicate 200 0"] ram_transfer
    by (auto simp: ram_state_pos overwrite_def)
qed

theorem diskStreamWrite_correct_witness:
  "\<exists>s'. diskStreamWrite 8 (replicate 200 67) 200 (ram_state small_heap 500) = Some (0, s') \<and>
    hw s' = replicate 500 65 @ replicate 200 67 @ replicate 324 66"
proof -
  have wf: "kheap_wf (ram_state small_heap 500)" by (simp add: ram_state_heap small_heap_wf)
  show ?thesis
    using diskStreamWrite_correct [OF wf ram_state_ok, of 200 "replicate 200 67"] ram_transfer
    by (auto simp: ram_state_pos overwrite_def)
qed

theorem diskStream_stuck_at_end_witness:
  "diskStreamSeek 8 0 (ram_state small_heap 1024) = Some (- ENMEM, ram_state small_heap 1024)"
  using diskStream_stuck_at_end [of 8 "ram_state small_heap 1024"] by (simp add: ram_state_def ram_disk_def)

theorem diskStreamRead_zero_frees_witness:
  "\<exists>s'. diskStreamRead 8 [] 0 (ram_state two_blocks 512) = Some (0, [], s') \<and>
    live s' = live two_blocks - {(0x501000, 4096)}"
proof -
  have wf: "kheap_wf (ram_state two_blocks 512)" by (simp add: ram_state_heap two_blocks_wf)
  have a: "page_address (Suc 0) = 0x501000" by (simp add: page_address_def heap_const_defs)
  have "(page_address 1, 4096) \<in> live two_blocks"
    using two_blocks_block [of 1] by (force simp: live_def two_blocks_size)
  then show ?thesis
    using diskStreamRead_zero_frees [OF wf ram_state_ok, of 4096 "[]"]
    by (simp add: ram_state_heap two_blocks_ent ram_state_pos flag_bit bit_numeral_rec a)
      (simp add: ram_state_def two_blocks_size)
qed

end
