(* ===== verification/Ata_Pio.thy ===== *)
theory Ata_Pio
  imports Stream Port_Io
begin

text \<open>
  The ATA driver in PIO mode, \<^verbatim>\<open>disk/driver/ataPio.c\<close>. The functions that only talk to the device work
  on the state of the hardware. Waiting for the device is a loop without a bound: a wait that never
  ends has no result. Buffers are byte lists; words are stored with the lower byte first. The flag
  \<^verbatim>\<open>lba48Enabled\<close> is written by the identification and read nowhere. Text output is left out, apart
  from the read of the error register that it contains.
\<close>

section \<open>State and constants\<close>

record ataPioPrivate =
  pr_port :: u16
  pr_select :: u16
  pr_deviceCon :: u16
  pr_lba48Enabled :: byte

definition ATAPIO_REG_ERROR :: u16 where "ATAPIO_REG_ERROR = 1"
definition ATAPIO_REG_SECTOR :: u16 where "ATAPIO_REG_SECTOR = 2"
definition ATAPIO_REG_LBA0 :: u16 where "ATAPIO_REG_LBA0 = 3"
definition ATAPIO_REG_LBA1 :: u16 where "ATAPIO_REG_LBA1 = 4"
definition ATAPIO_REG_LBA2 :: u16 where "ATAPIO_REG_LBA2 = 5"
definition ATAPIO_REG_DRIVESELECT :: u16 where "ATAPIO_REG_DRIVESELECT = 6"
definition ATAPIO_REG_STATUS :: u16 where "ATAPIO_REG_STATUS = 7"
definition ATAPIO_REG_COMMAND :: u16 where "ATAPIO_REG_COMMAND = 7"
definition ATAPIO_COMMAND_IDENTIFY :: byte where "ATAPIO_COMMAND_IDENTIFY = 0xEC"
definition ATAPIO_COMMAND_READ_SECTORS :: byte where "ATAPIO_COMMAND_READ_SECTORS = 0x20"
definition ATAPIO_COMMAND_WRITE_SECTORS :: byte where "ATAPIO_COMMAND_WRITE_SECTORS = 0x30"
definition ATAPIO_STATUS_ERR :: byte where "ATAPIO_STATUS_ERR = 0x1"
definition ATAPIO_STATUS_DRQ :: byte where "ATAPIO_STATUS_DRQ = 0x8"
definition ATAPIO_STATUS_BSY :: byte where "ATAPIO_STATUS_BSY = 0x80"
definition ATAPIO_DEVICECON_SRST :: byte where "ATAPIO_DEVICECON_SRST = 4"

lemmas ata_const_defs =
  ATAPIO_REG_ERROR_def ATAPIO_REG_SECTOR_def ATAPIO_REG_LBA0_def ATAPIO_REG_LBA1_def ATAPIO_REG_LBA2_def
  ATAPIO_REG_DRIVESELECT_def ATAPIO_REG_STATUS_def ATAPIO_REG_COMMAND_def ATAPIO_COMMAND_IDENTIFY_def
  ATAPIO_COMMAND_READ_SECTORS_def ATAPIO_COMMAND_WRITE_SECTORS_def ATAPIO_STATUS_ERR_def
  ATAPIO_STATUS_DRQ_def ATAPIO_STATUS_BSY_def ATAPIO_DEVICECON_SRST_def

section \<open>Talking to the device\<close>

definition wait :: "'h port_io \<Rightarrow> u16 \<Rightarrow> 'h \<Rightarrow> 'h" where
  "wait io base h =
     (let h = snd (inb io (base + ATAPIO_REG_STATUS) h);
          h = snd (inb io (base + ATAPIO_REG_STATUS) h);
          h = snd (inb io (base + ATAPIO_REG_STATUS) h)
      in snd (inb io (base + ATAPIO_REG_STATUS) h))"

definition resetDrive :: "'h port_io \<Rightarrow> u16 \<Rightarrow> u16 \<Rightarrow> 'h \<Rightarrow> 'h" where
  "resetDrive io base deviceCon h =
     (let h = outb io (base + deviceCon) ATAPIO_DEVICECON_SRST h;
          h = wait io base h
      in outb io (base + deviceCon) 0 h)"

definition selectDrive :: "'h port_io \<Rightarrow> u16 \<Rightarrow> u16 \<Rightarrow> u16 \<Rightarrow> 'h \<Rightarrow> 'h" where
  "selectDrive io base select deviceCon h = outb io (base + deviceCon) (ucast select) h"

definition disableInterruptSend :: "'h port_io \<Rightarrow> u16 \<Rightarrow> u16 \<Rightarrow> u16 \<Rightarrow> 'h \<Rightarrow> 'h" where
  "disableInterruptSend io base select deviceCon h =
     (let h = selectDrive io base select deviceCon h;
          h = wait io base h
      in outb io (base + deviceCon) 0x02 h)"

partial_function (option) ataPioWaitBsy :: "'h port_io \<Rightarrow> u16 \<Rightarrow> 'h \<Rightarrow> 'h option" where
  "ataPioWaitBsy io base h =
     (case inb io (base + ATAPIO_REG_STATUS) h of (v, h) \<Rightarrow>
        if v AND ATAPIO_STATUS_BSY \<noteq> 0 then ataPioWaitBsy io base h else Some h)"

partial_function (option) ataPioWaitDrq :: "'h port_io \<Rightarrow> u16 \<Rightarrow> 'h \<Rightarrow> 'h option" where
  "ataPioWaitDrq io base h =
     (case inb io (base + ATAPIO_REG_STATUS) h of (v, h) \<Rightarrow>
        if v AND ATAPIO_STATUS_DRQ = 0 then ataPioWaitDrq io base h else Some h)"

definition checkStatusError :: "'h port_io \<Rightarrow> u16 \<Rightarrow> 'h \<Rightarrow> byte \<times> 'h" where
  "checkStatusError io base h =
     (let (v, h) = inb io (base + ATAPIO_REG_STATUS) h
      in (if v AND ATAPIO_STATUS_ERR \<noteq> 0 then 1 else 0, h))"

definition getErrorCode :: "'h port_io \<Rightarrow> u16 \<Rightarrow> 'h \<Rightarrow> byte \<times> 'h" where
  "getErrorCode io base h = inb io (base + ATAPIO_REG_ERROR) h"

definition cacheFlush :: "'h port_io \<Rightarrow> u16 \<Rightarrow> 'h \<Rightarrow> 'h option" where
  "cacheFlush io port h = ataPioWaitBsy io port (outb io (port + ATAPIO_REG_COMMAND) 0xE7 h)"

section \<open>Reading and writing sectors\<close>

text \<open>The start of both transfers: the drive, the registers and the command.\<close>

definition ataPioCommand :: "'h port_io \<Rightarrow> ataPioPrivate \<Rightarrow> u64 \<Rightarrow> u64 \<Rightarrow> byte \<Rightarrow> 'h \<Rightarrow> 'h option" where
  "ataPioCommand io pr lba tot command h = do {
     let port = pr_port pr;
     let h = selectDrive io port (pr_select pr) (pr_deviceCon pr) h;
     h \<leftarrow> ataPioWaitBsy io port h;
     let h = outb io (port + ATAPIO_REG_ERROR) 0 h;
     let h = outb io (port + ATAPIO_REG_SECTOR) (ucast tot) h;
     let h = outb io (port + ATAPIO_REG_LBA0) (ucast (lba AND 0xFF)) h;
     let h = outb io (port + ATAPIO_REG_LBA1) (ucast (drop_bit 8 lba) AND 0xFF) h;
     let h = outb io (port + ATAPIO_REG_LBA2) (ucast (drop_bit 16 lba) AND 0xFF) h;
     let h = outb io (port + ATAPIO_REG_DRIVESELECT) (ucast (0xE0 OR (drop_bit 24 lba AND 0x0F))) h;
     Some (outb io (port + ATAPIO_REG_COMMAND) command h)
   }"

text \<open>A word at the pointer \<^verbatim>\<open>ptr\<close>, \<open>i\<close> words behind the start of the buffer.\<close>

definition put_word :: "byte list \<Rightarrow> nat \<Rightarrow> u16 \<Rightarrow> byte list option" where
  "put_word out i w = do { out \<leftarrow> wr out (2 * i) (ucast w); wr out (2 * i + 1) (ucast (drop_bit 8 w)) }"

definition get_word :: "byte list \<Rightarrow> nat \<Rightarrow> u16 option" where
  "get_word inp i = do { a \<leftarrow> rd inp (2 * i); b \<leftarrow> rd inp (2 * i + 1); Some (ucast a OR push_bit 8 (ucast b)) }"

primrec readWords :: "'h port_io \<Rightarrow> u16 \<Rightarrow> nat \<Rightarrow> nat \<Rightarrow> byte list \<Rightarrow> 'h \<Rightarrow> (byte list \<times> 'h) option" where
  "readWords io port 0 ptr out h = Some (out, h)"
| "readWords io port (Suc n) ptr out h = do {
     let (w, h) = inw io port h;
     out \<leftarrow> put_word out ptr w;
     readWords io port n (Suc ptr) out h
   }"

primrec readSectors :: "'h port_io \<Rightarrow> u16 \<Rightarrow> nat \<Rightarrow> nat \<Rightarrow> byte list \<Rightarrow> 'h \<Rightarrow> (int \<times> byte list \<times> 'h) option" where
  "readSectors io port 0 ptr out h = Some (0, out, h)"
| "readSectors io port (Suc n) ptr out h = do {
     h \<leftarrow> ataPioWaitDrq io port h;
     let (err, h) = checkStatusError io port h;
     if err \<noteq> 0 then Some (- EHARDWARE, out, snd (getErrorCode io port h))
     else do {
       (out, h) \<leftarrow> readWords io port 256 ptr out h;
       readSectors io port n (ptr + 256) out h
     }
   }"

definition ataPioRead ::
  "'h port_io \<Rightarrow> ataPioPrivate \<Rightarrow> u64 \<Rightarrow> u64 \<Rightarrow> byte list \<Rightarrow> 'h \<Rightarrow> (int \<times> byte list \<times> 'h) option" where
  "ataPioRead io pr lba tot out h = do {
     h \<leftarrow> ataPioCommand io pr lba tot ATAPIO_COMMAND_READ_SECTORS h;
     readSectors io (pr_port pr) (unat tot) 0 out h
   }"

primrec writeWords :: "'h port_io \<Rightarrow> u16 \<Rightarrow> nat \<Rightarrow> nat \<Rightarrow> byte list \<Rightarrow> 'h \<Rightarrow> 'h option" where
  "writeWords io port 0 ptr inp h = Some h"
| "writeWords io port (Suc n) ptr inp h = do {
     w \<leftarrow> get_word inp ptr;
     writeWords io port n (Suc ptr) inp (outw io port w h)
   }"

primrec writeSectors :: "'h port_io \<Rightarrow> u16 \<Rightarrow> nat \<Rightarrow> nat \<Rightarrow> byte list \<Rightarrow> 'h \<Rightarrow> (int \<times> 'h) option" where
  "writeSectors io port 0 ptr inp h = do { h \<leftarrow> cacheFlush io port h; Some (0, h) }"
| "writeSectors io port (Suc n) ptr inp h = do {
     h \<leftarrow> ataPioWaitDrq io port h;
     let (err, h) = checkStatusError io port h;
     if err \<noteq> 0 then Some (- EHARDWARE, snd (getErrorCode io port h))
     else do {
       h \<leftarrow> writeWords io port 256 ptr inp h;
       writeSectors io port n (ptr + 256) inp h
     }
   }"

definition ataPioWrite ::
  "'h port_io \<Rightarrow> ataPioPrivate \<Rightarrow> u64 \<Rightarrow> u64 \<Rightarrow> byte list \<Rightarrow> 'h \<Rightarrow> (int \<times> 'h) option" where
  "ataPioWrite io pr lba tot inp h = do {
     h \<leftarrow> ataPioCommand io pr lba tot ATAPIO_COMMAND_WRITE_SECTORS h;
     writeSectors io (pr_port pr) (unat tot) 0 inp h
   }"

section \<open>Identification\<close>

primrec identifyWords :: "'h port_io \<Rightarrow> u16 \<Rightarrow> nat \<Rightarrow> 'h \<Rightarrow> u16 list \<times> 'h" where
  "identifyWords io port 0 h = ([], h)"
| "identifyWords io port (Suc n) h =
     (let (w, h) = inw io port h; (ws, h) = identifyWords io port n h in (w # ws, h))"

text \<open>The forty characters of the model, from word 27 on, the upper byte of each word first.\<close>

primrec modelChars :: "nat \<Rightarrow> nat \<Rightarrow> u16 list \<Rightarrow> byte list \<Rightarrow> byte list option" where
  "modelChars 0 i db model = Some model"
| "modelChars (Suc n) i db model = do {
     w \<leftarrow> rd db (27 + i);
     model \<leftarrow> wr model (i * 2) (ucast (drop_bit 8 w));
     model \<leftarrow> wr model (i * 2 + 1) (ucast (w AND 0xFF));
     modelChars n (Suc i) db model
   }"

definition totalLBA_of :: "u16 list \<Rightarrow> u32 option" where
  "totalLBA_of db = do { lo \<leftarrow> rd db 60; hi \<leftarrow> rd db 61; Some (ucast lo OR push_bit 16 (ucast hi)) }"

text \<open>
  \<open>junk\<close> is the uninitialised \<^verbatim>\<open>info.name\<close>. The block for the model is not checked, nor released. The
  size is a product of 32-bit numbers.
\<close>

definition ataPioIdentify ::
  "byte list \<Rightarrow> 'h port_io \<Rightarrow> ataPioPrivate \<Rightarrow> kheap \<Rightarrow> 'h \<Rightarrow>
    (((byte list \<times> u64) \<times> ataPioPrivate) \<times> kheap \<times> 'h) option" where
  "ataPioIdentify junk io pr hp h = do {
     let port = pr_port pr;
     let h = selectDrive io port (pr_select pr) (pr_deviceCon pr) h;
     let h = outb io (port + ATAPIO_REG_SECTOR) 0 h;
     let h = outb io (port + ATAPIO_REG_LBA0) 0 h;
     let h = outb io (port + ATAPIO_REG_LBA1) 0 h;
     let h = outb io (port + ATAPIO_REG_LBA2) 0 h;
     let h = outb io (port + ATAPIO_REG_COMMAND) ATAPIO_COMMAND_IDENTIFY h;
     h \<leftarrow> ataPioWaitBsy io port h;
     h \<leftarrow> ataPioWaitDrq io port h;
     let (db, h) = identifyWords io port 256 h;
     w83 \<leftarrow> rd db 83;
     let pr = pr\<lparr>pr_lba48Enabled := ucast (drop_bit 10 (w83 AND 0x400))\<rparr>;
     (model, hp) \<leftarrow> kzalloc 42 hp;
     if model = 0 then None
     else do {
       str \<leftarrow> modelChars 20 0 db (bytes_at (hmem hp) model 42);
       str \<leftarrow> wr str 41 0;
       let hp = hp\<lparr>hmem := put_bytes model str (hmem hp)\<rparr>;
       totalLBA \<leftarrow> totalLBA_of db;
       name \<leftarrow> strcpym junk str 42;
       Some (((name, ucast (totalLBA * 512)), pr), hp, h)
     }
   }"

section \<open>The driver and its disks\<close>

text \<open>The static structure \<^verbatim>\<open>driver\<close>, its callbacks applied to the private data.\<close>

definition ataPio_driver :: "byte list \<Rightarrow> 'h port_io \<Rightarrow> ataPioPrivate \<Rightarrow> 'h diskDriver" where
  "ataPio_driver junk io pr =
     \<lparr>drv_type = DISK_DRIVER_TYPE_ATA_LEGACY,
      drv_getInfo = (\<lambda>hp h. do { ((info, pr), hp, h) \<leftarrow> ataPioIdentify junk io pr hp h; Some (info, hp, h) }),
      drv_read = ataPioRead io pr,
      drv_write = ataPioWrite io pr\<rparr>"

definition ataPioProbePort :: "'h port_io \<Rightarrow> u16 \<Rightarrow> u16 \<Rightarrow> 'h \<Rightarrow> int \<times> 'h" where
  "ataPioProbePort io base deviceCon h =
     (let h = resetDrive io base deviceCon h;
          (status, h) = inb io (base + ATAPIO_REG_STATUS) h
      in (if status = 0xFF \<or> status = 0 then 0 else 1, h))"

record 'h ata_state = "'h disk_state" +
  ataPrivates :: "u64 \<Rightarrow> ataPioPrivate"

definition sizeof_disk :: u64 where "sizeof_disk = 264"
definition sizeof_ataPioPrivate :: u64 where "sizeof_ataPioPrivate = 8"

definition no_partition :: diskPartition where
  "no_partition = \<lparr>part_id = 0, part_label = 0, part_offsetBytes = 0, part_sizeBytes = 0, part_disk = 0, part_fileSystem = 0\<rparr>"

definition createAndAttachDisk ::
  "byte list \<Rightarrow> 'h port_io \<Rightarrow> u64 \<Rightarrow> u16 \<Rightarrow> u16 \<Rightarrow> u16 \<Rightarrow> u16 \<Rightarrow> ('h, 'a) ata_state_scheme \<Rightarrow>
    (u64 \<times> ('h, 'a) ata_state_scheme) option" where
  "createAndAttachDisk junk io driver id' base select deviceCon s = do {
     (disk, s) \<leftarrow> kzalloc sizeof_disk s;
     (private, s) \<leftarrow> kzalloc sizeof_ataPioPrivate s;
     if disk = 0 \<or> private = 0 then Some (0, s)
     else do {
       let pr = \<lparr>pr_port = base, pr_select = select, pr_deviceCon = deviceCon, pr_lba48Enabled = 0\<rparr>;
       let s = s\<lparr>ataPrivates := (ataPrivates s)(private := pr)\<rparr>;
       (drv, s) \<leftarrow> copyDriver driver s;
       let s = s\<lparr>disks := (disks s)(disk := \<lparr>disk_id = ucast id', disk_name = replicate 64 0, disk_sizeBytes = 0,
         disk_partitionCount = 0, disk_partition = replicate 4 no_partition, disk_driver = drv\<rparr>)\<rparr>;
       if drv = 0 then Some (0, s)
       else Some (disk, s\<lparr>drivers := (drivers s)(drv := ataPio_driver junk io pr)\<rparr>)
     }
   }"

definition ataPioAttach ::
  "byte list \<Rightarrow> 'h port_io \<Rightarrow> u64 \<Rightarrow> u16 \<Rightarrow> u16 \<Rightarrow> u16 \<Rightarrow> ('h, 'a) ata_state_scheme \<Rightarrow>
    (int \<times> ('h, 'a) ata_state_scheme) option" where
  "ataPioAttach junk io disk base select deviceCon s = do {
     (private, s) \<leftarrow> kzalloc sizeof_ataPioPrivate s;
     if private = 0 then Some (- ENMEM, s)
     else do {
       let pr = \<lparr>pr_port = base, pr_select = select, pr_deviceCon = deviceCon, pr_lba48Enabled = 0\<rparr>;
       dk \<leftarrow> at (disks s) disk;
       if disk_driver dk = 0 then None
       else Some (0, s\<lparr>ataPrivates := (ataPrivates s)(private := pr),
         drivers := (drivers s)(disk_driver dk := ataPio_driver junk io pr),
         hw := disableInterruptSend io base select deviceCon (hw s)\<rparr>)
     }
   }"

text \<open>The results are the status and the disks that were found.\<close>

definition ata_scanForDisk ::
  "byte list \<Rightarrow> 'h port_io \<Rightarrow> u64 \<Rightarrow> u16 \<Rightarrow> ('h, 'a) ata_state_scheme \<Rightarrow>
    (int \<times> u64 list \<times> ('h, 'a) ata_state_scheme) option" where
  "ata_scanForDisk junk io driver nextId s = do {
     let (diskAvailable, h) = ataPioProbePort io 0x1F0 0x206 (hw s);
     let s = s\<lparr>hw := h\<rparr>;
     (ret, found, nextId, s) \<leftarrow> (if diskAvailable > 0 then do {
         (disk, s) \<leftarrow> createAndAttachDisk junk io driver nextId 0x1F0 0xA 0x206 s;
         if disk = 0 then Some (- ENMEM, [], nextId, s)
         else Some (0, [disk], nextId + 1, s\<lparr>hw := disableInterruptSend io 0x1F0 0xA 0x206 (hw s)\<rparr>)
       }
       else Some (0, [], nextId, s));
     if ret < 0 then Some (ret, found, s)
     else do {
       let (diskAvailable, h) = ataPioProbePort io 0x170 0x206 (hw s);
       let s = s\<lparr>hw := h\<rparr>;
       if diskAvailable > 0 then do {
         (disk, s) \<leftarrow> createAndAttachDisk junk io driver nextId 0x1F0 0xA 0x206 s;
         if disk = 0 then Some (- ENMEM, found, s)
         else Some (SUCCESS, found @ [disk], s\<lparr>hw := disableInterruptSend io 0x170 0xB 0x206 (hw s)\<rparr>)
       }
       else Some (SUCCESS, found, s)
     }
   }"

end
