(* ===== verification/Ata_Device.thy ===== *)
theory Ata_Device
  imports Ata_Pio
begin

text \<open>
  The ATA driver on a drive that behaves as the ATA standard says. The record \<open>ata_dev\<close> is the drive as
  the standard describes it for 28-bit transfers: the registers, the phase of a transfer and the
  sectors. \<open>ata_behaviour\<close> says of the port operations that they act like this drive; it is the
  hypothesis of the theorems. On such a drive the driver transfers up to 256 sectors
  correctly, and a disk stream on it is correct.
\<close>

section \<open>The drive\<close>

datatype ata_phase = Ready | Reading nat nat | Writing nat nat | Failed

record ata_dev =
  at_sectors :: "byte list"
  at_count :: byte
  at_lba0 :: byte
  at_lba1 :: byte
  at_lba2 :: byte
  at_head :: byte
  at_latency :: nat
  at_busy :: nat
  at_phase :: ata_phase

text \<open>
  \<open>at_busy\<close> is the number of times that the status will still be read as busy. A phase of a transfer
  holds the position in the sectors and the number of words to go.
\<close>

definition ata_status :: "ata_dev \<Rightarrow> byte" where
  "ata_status d =
     (if 0 < at_busy d then 0x80
      else case at_phase d of Ready \<Rightarrow> 0x40 | Reading _ _ \<Rightarrow> 0x48 | Writing _ _ \<Rightarrow> 0x48 | Failed \<Rightarrow> 0x41)"

definition ata_poll :: "ata_dev \<Rightarrow> ata_dev" where
  "ata_poll d = d\<lparr>at_busy := at_busy d - 1\<rparr>"

definition ata_lba :: "ata_dev \<Rightarrow> nat" where
  "ata_lba d = unat (at_lba0 d) + 2 ^ 8 * unat (at_lba1 d) + 2 ^ 16 * unat (at_lba2 d) + 2 ^ 24 * unat (at_head d AND 0xF)"

text \<open>A count of 0 stands for 256 sectors.\<close>

definition ata_sector_count :: "ata_dev \<Rightarrow> nat" where
  "ata_sector_count d = (if at_count d = 0 then 256 else unat (at_count d))"

definition ata_command :: "byte \<Rightarrow> ata_dev \<Rightarrow> ata_dev" where
  "ata_command c d =
     (let p = ata_lba d * 512; n = ata_sector_count d * 256
      in if c = 0x20 \<or> c = 0x30 then
           if p + 2 * n \<le> length (at_sectors d)
           then d\<lparr>at_busy := at_latency d, at_phase := if c = 0x20 then Reading p n else Writing p n\<rparr>
           else d\<lparr>at_busy := at_latency d, at_phase := Failed\<rparr>
         else if c = 0xE7 then d\<lparr>at_busy := at_latency d\<rparr>
         else d\<lparr>at_phase := Failed\<rparr>)"

text \<open>The drive is busy again after each sector but the last.\<close>

definition ata_progress :: "nat \<Rightarrow> ata_phase \<Rightarrow> ata_dev \<Rightarrow> ata_dev" where
  "ata_progress n ph d =
     (if n = 0 then d\<lparr>at_phase := Ready\<rparr>
      else if n mod 256 = 0 then d\<lparr>at_busy := at_latency d, at_phase := ph\<rparr>
      else d\<lparr>at_phase := ph\<rparr>)"

definition ata_in :: "ata_dev \<Rightarrow> u16 \<times> ata_dev" where
  "ata_in d =
     (case at_phase d of
        Reading p n \<Rightarrow> (ucast (at_sectors d ! p) OR push_bit 8 (ucast (at_sectors d ! (p + 1))),
          ata_progress (n - 1) (Reading (p + 2) (n - 1)) d)
      | _ \<Rightarrow> (0, d))"

definition ata_out :: "u16 \<Rightarrow> ata_dev \<Rightarrow> ata_dev" where
  "ata_out w d =
     (case at_phase d of
        Writing p n \<Rightarrow> ata_progress (n - 1) (Writing (p + 2) (n - 1))
          (d\<lparr>at_sectors := overwrite (at_sectors d) p [ucast w, ucast (drop_bit 8 w)]\<rparr>)
      | _ \<Rightarrow> d)"

text \<open>The ports of a channel at \<open>base\<close>, with the device control register at offset \<^verbatim>\<open>0x206\<close>.\<close>

definition ata_behaviour :: "'h port_io \<Rightarrow> u16 \<Rightarrow> ('h \<Rightarrow> ata_dev) \<Rightarrow> bool" where
  "ata_behaviour io base dev \<longleftrightarrow>
     (\<forall>h. fst (inb io (base + 7) h) = ata_status (dev h) \<and> dev (snd (inb io (base + 7) h)) = ata_poll (dev h)) \<and>
     (\<forall>h. fst (inw io base h) = fst (ata_in (dev h)) \<and> dev (snd (inw io base h)) = snd (ata_in (dev h))) \<and>
     (\<forall>h w. dev (outw io base w h) = ata_out w (dev h)) \<and>
     (\<forall>h v. dev (outb io (base + 1) v h) = dev h) \<and>
     (\<forall>h v. dev (outb io (base + 2) v h) = (dev h)\<lparr>at_count := v\<rparr>) \<and>
     (\<forall>h v. dev (outb io (base + 3) v h) = (dev h)\<lparr>at_lba0 := v\<rparr>) \<and>
     (\<forall>h v. dev (outb io (base + 4) v h) = (dev h)\<lparr>at_lba1 := v\<rparr>) \<and>
     (\<forall>h v. dev (outb io (base + 5) v h) = (dev h)\<lparr>at_lba2 := v\<rparr>) \<and>
     (\<forall>h v. dev (outb io (base + 6) v h) = (dev h)\<lparr>at_head := v\<rparr>) \<and>
     (\<forall>h v. dev (outb io (base + 7) v h) = ata_command v (dev h)) \<and>
     (\<forall>h v. v AND 4 = 0 \<longrightarrow> dev (outb io (base + 0x206) v h) = dev h)"

text \<open>A drive that sits on a channel alone: the port operations of the model itself.\<close>

definition ata_ports :: "u16 \<Rightarrow> ata_dev port_io" where
  "ata_ports base =
     \<lparr>inb = (\<lambda>p d. if p = base + 7 then (ata_status d, ata_poll d) else (0, d)),
      inw = (\<lambda>p d. if p = base then ata_in d else (0, d)),
      ind = (\<lambda>p d. (0, d)),
      outb = (\<lambda>p v d. if p = base + 2 then d\<lparr>at_count := v\<rparr> else if p = base + 3 then d\<lparr>at_lba0 := v\<rparr>
        else if p = base + 4 then d\<lparr>at_lba1 := v\<rparr> else if p = base + 5 then d\<lparr>at_lba2 := v\<rparr>
        else if p = base + 6 then d\<lparr>at_head := v\<rparr> else if p = base + 7 then ata_command v d else d),
      outw = (\<lambda>p w d. if p = base then ata_out w d else d),
      outd = (\<lambda>p v d. d)\<rparr>"

lemma ata_ports_behaviour: "ata_behaviour (ata_ports base) base (\<lambda>d. d)"
  by (simp add: ata_behaviour_def ata_ports_def)

lemma behaviour_simps:
  assumes "ata_behaviour io base dev"
  shows "fst (inb io (base + 7) h) = ata_status (dev h)" "dev (snd (inb io (base + 7) h)) = ata_poll (dev h)"
    "fst (inw io base h) = fst (ata_in (dev h))" "dev (snd (inw io base h)) = snd (ata_in (dev h))"
    "dev (outw io base w h) = ata_out w (dev h)" "dev (outb io (base + 1) v h) = dev h"
    "dev (outb io (base + 2) v h) = (dev h)\<lparr>at_count := v\<rparr>" "dev (outb io (base + 3) v h) = (dev h)\<lparr>at_lba0 := v\<rparr>"
    "dev (outb io (base + 4) v h) = (dev h)\<lparr>at_lba1 := v\<rparr>" "dev (outb io (base + 5) v h) = (dev h)\<lparr>at_lba2 := v\<rparr>"
    "dev (outb io (base + 6) v h) = (dev h)\<lparr>at_head := v\<rparr>" "dev (outb io (base + 7) v h) = ata_command v (dev h)"
    "v AND 4 = 0 \<Longrightarrow> dev (outb io (base + 0x206) v h) = dev h"
  using assms by (simp_all add: ata_behaviour_def)

section \<open>Waiting\<close>

lemma wait_bsy_ends:
  assumes b: "ata_behaviour io base dev"
  shows "\<exists>h'. ataPioWaitBsy io base h = Some h' \<and> dev h' = (dev h)\<lparr>at_busy := 0\<rparr>"
proof (induction "at_busy (dev h)" arbitrary: h)
  case 0
  note s = behaviour_simps [OF b]
  show ?case using 0 s(1,2) [of h]
    by (subst ataPioWaitBsy.simps) (auto simp: ata_const_defs ata_status_def ata_poll_def split: prod.splits ata_phase.splits)
next
  case (Suc n)
  note s = behaviour_simps [OF b]
  have busy: "at_busy (dev h) = Suc n" using Suc.hyps(2) by simp
  obtain v h1 where io: "inb io (base + 7) h = (v, h1)" by (cases "inb io (base + 7) h")
  then have v: "v = 0x80" "dev h1 = (dev h)\<lparr>at_busy := n\<rparr>"
    using s(1,2) [of h] busy by (simp_all add: ata_status_def ata_poll_def)
  obtain h' where h': "ataPioWaitBsy io base h1 = Some h'" "dev h' = (dev h1)\<lparr>at_busy := 0\<rparr>"
    using Suc.hyps(1) [of h1] v(2) by auto
  have "ataPioWaitBsy io base h = ataPioWaitBsy io base h1"
    by (subst ataPioWaitBsy.simps) (simp add: ata_const_defs io v)
  with h' v(2) show ?case by simp
qed

definition transferring :: "ata_dev \<Rightarrow> bool" where
  "transferring d \<longleftrightarrow> (case at_phase d of Reading _ _ \<Rightarrow> True | Writing _ _ \<Rightarrow> True | _ \<Rightarrow> False)"

lemma wait_drq_ends:
  assumes b: "ata_behaviour io base dev" and t: "transferring (dev h)"
  shows "\<exists>h'. ataPioWaitDrq io base h = Some h' \<and> dev h' = (dev h)\<lparr>at_busy := 0\<rparr>"
  using t
proof (induction "at_busy (dev h)" arbitrary: h)
  case 0
  note s = behaviour_simps [OF b]
  show ?case using 0 s(1,2) [of h]
    by (subst ataPioWaitDrq.simps)
      (auto simp: ata_const_defs ata_status_def ata_poll_def transferring_def split: prod.splits ata_phase.splits)
next
  case (Suc n)
  note s = behaviour_simps [OF b]
  have busy: "at_busy (dev h) = Suc n" using Suc.hyps(2) by simp
  obtain v h1 where io: "inb io (base + 7) h = (v, h1)" by (cases "inb io (base + 7) h")
  then have v: "v = 0x80" "dev h1 = (dev h)\<lparr>at_busy := n\<rparr>"
    using s(1,2) [of h] busy by (simp_all add: ata_status_def ata_poll_def)
  then have "transferring (dev h1)" using Suc.prems by (simp add: transferring_def)
  then obtain h' where h': "ataPioWaitDrq io base h1 = Some h'" "dev h' = (dev h1)\<lparr>at_busy := 0\<rparr>"
    using Suc.hyps(1) [of h1] v(2) by auto
  have "ataPioWaitDrq io base h = ataPioWaitDrq io base h1"
    by (subst ataPioWaitDrq.simps) (simp add: ata_const_defs io v)
  with h' v(2) show ?case by simp
qed

text \<open>Without a transfer the drive never requests data.\<close>

lemma wait_drq_hangs:
  assumes b: "ata_behaviour io base dev" and t: "\<not> transferring (dev h)"
  shows "ataPioWaitDrq io base h = None"
proof (rule ccontr)
  assume "ataPioWaitDrq io base h \<noteq> None"
  then obtain h' where some: "ataPioWaitDrq io base h = Some h'" by blast
  have "\<not> (ata_behaviour io base dev \<and> \<not> transferring (dev h))"
  proof (rule ataPioWaitDrq.raw_induct [OF _ some, of "\<lambda>io base h _. \<not> (ata_behaviour io base dev \<and> \<not> transferring (dev h))"], rule notI)
    fix w :: "'a port_io \<Rightarrow> u16 \<Rightarrow> 'a \<Rightarrow> 'a option" and io base h r
    assume IH: "\<And>io base h r. w io base h = Some r \<Longrightarrow> \<not> (ata_behaviour io base dev \<and> \<not> transferring (dev h))"
      and body: "(case inb io (base + ATAPIO_REG_STATUS) h of
        (v, h) \<Rightarrow> if v AND ATAPIO_STATUS_DRQ = 0 then w io base h else Some h) = Some r"
      and a: "ata_behaviour io base dev \<and> \<not> transferring (dev h)"
    obtain v h1 where io: "inb io (base + 7) h = (v, h1)" by (cases "inb io (base + 7) h")
    then have v: "v AND 8 = 0" "\<not> transferring (dev h1)"
      using a behaviour_simps(1,2) [of io base dev h]
      by (auto simp: ata_status_def ata_poll_def transferring_def split: ata_phase.splits if_splits)
    with body io have "w io base h1 = Some r" by (simp add: ata_const_defs)
    with IH a v(2) show False by blast
  qed
  with b t show False by blast
qed

section \<open>One sector\<close>

lemma overwrite_append:
  assumes "a + length xs + length ys \<le> length zs"
  shows "overwrite (overwrite zs a xs) (a + length xs) ys = overwrite zs a (xs @ ys)"
  by (rule nth_equalityI) (use assms in \<open>auto simp: nth_overwrite nth_append\<close>)

lemma progress_simps [simp]:
  "ata_progress n ph (d\<lparr>at_phase := x\<rparr>) = ata_progress n ph d"
  "at_sectors (ata_progress n ph d) = at_sectors d"
  "at_latency (ata_progress n ph d) = at_latency d"
  by (auto simp: ata_progress_def)

lemma progress_phase: "at_phase (ata_progress n ph d) = (if n = 0 then Ready else ph)"
  by (simp add: ata_progress_def)

lemma word_bytes:
  fixes a b :: byte
  shows "ucast (ucast a OR push_bit 8 (ucast b) :: u16) = a"
    "ucast (drop_bit 8 (ucast a OR push_bit 8 (ucast b) :: u16)) = b"
  by (rule bit_word_eqI; auto simp: bit_simps dest: bit_imp_le_length)+

lemma put_word_eq:
  assumes "2 * i + 2 \<le> length out"
  shows "put_word out i w = Some (overwrite out (2 * i) [ucast w, ucast (drop_bit 8 w)])"
proof -
  have "out[2 * i := ucast w, 2 * i + 1 := ucast (drop_bit 8 w)] = overwrite out (2 * i) [ucast w, ucast (drop_bit 8 w)]"
    by (rule nth_equalityI) (use assms in \<open>auto simp: nth_overwrite nth_list_update nth_Cons'\<close>)
  then show ?thesis using assms by (simp add: put_word_def wr_def)
qed

lemma get_word_eq:
  assumes "2 * i + 2 \<le> length inp"
  shows "\<exists>w. get_word inp i = Some w \<and> [ucast w, ucast (drop_bit 8 w)] = take 2 (drop (2 * i) inp)"
proof -
  have "take 2 (drop (2 * i) inp) = [inp ! (2 * i), inp ! (2 * i + 1)]"
    using assms by (intro nth_equalityI) (auto simp: less_Suc_eq numeral_2_eq_2)
  then show ?thesis using assms by (simp add: get_word_def rd_def word_bytes del: drop_bit_or)
qed

lemma take_two_more: "take (2 + n) xs = take 2 xs @ take n (drop 2 xs)"
  by (rule take_add)

lemma less_by_one:
  fixes k m :: nat
  assumes "k \<noteq> 0" "Suc k \<le> m" "Suc k \<le> 256" "m mod 256 = Suc k mod 256"
  shows "(m - 1) mod 256 = k mod 256" "k mod 256 \<noteq> 0" "m - 1 \<noteq> 0" "k \<le> m - 1"
proof -
  obtain j where j: "m = Suc j" using assms(2) by (cases m) auto
  have "Suc j mod 256 = Suc k mod 256" using assms(4) j by simp
  then show "(m - 1) mod 256 = k mod 256"
    unfolding j by (auto simp: mod_Suc split: if_splits)
  show "k mod 256 \<noteq> 0" using assms(1,3) by simp
  show "m - 1 \<noteq> 0" "k \<le> m - 1" using assms(1,2) by auto
qed

lemma readWords_device:
  assumes b: "ata_behaviour io base dev"
    and "at_phase (dev h) = Reading p m" "0 < k" "k \<le> m" "k \<le> 256" "m mod 256 = k mod 256"
    and "2 * ptr + 2 * k \<le> length out" "p + 2 * k \<le> length (at_sectors (dev h))"
  shows "\<exists>h'. readWords io base k ptr out h = Some (overwrite out (2 * ptr) (take (2 * k) (drop p (at_sectors (dev h)))), h') \<and>
    dev h' = ata_progress (m - k) (Reading (p + 2 * k) (m - k)) (dev h)"
  using assms(2-)
proof (induction k arbitrary: p m ptr out h)
  case (Suc k)
  let ?S = "at_sectors (dev h)"
  obtain w h1 where io: "inw io base h = (w, h1)" by (cases "inw io base h")
  with behaviour_simps(3,4) [OF b, of h] Suc.prems(1)
  have w: "w = ucast (?S ! p) OR push_bit 8 (ucast (?S ! (p + 1)))"
    "dev h1 = ata_progress (m - 1) (Reading (p + 2) (m - 1)) (dev h)"
    by (simp_all add: ata_in_def)
  have two: "take 2 (drop p ?S) = [?S ! p, ?S ! (p + 1)]"
    using Suc.prems(7) by (intro nth_equalityI) (auto simp: less_Suc_eq numeral_2_eq_2)
  let ?out = "overwrite out (2 * ptr) (take 2 (drop p ?S))"
  have pw: "put_word out ptr w = Some ?out" using Suc.prems(6) by (subst put_word_eq) (simp_all add: w(1) word_bytes two del: drop_bit_or)
  have step: "readWords io base (Suc k) ptr out h = readWords io base k (Suc ptr) ?out h1"
    using io pw by simp
  show ?case
  proof (cases "k = 0")
    case True
    with step w(2) show ?thesis by simp
  next
    case False
    note r = less_by_one [OF False Suc.prems(3-5)]
    then have d1: "dev h1 = (dev h)\<lparr>at_phase := Reading (p + 2) (m - 1)\<rparr>"
      using w(2) by (auto simp: ata_progress_def)
    have len: "length (take 2 (drop p ?S)) = 2" using two by simp
    have "2 * Suc ptr + 2 * k \<le> length ?out" "p + 2 + 2 * k \<le> length (at_sectors (dev h1))"
      using Suc.prems(6,7) d1 len by simp_all
    with Suc.IH [of h1 "p + 2" "m - 1" "Suc ptr" ?out] Suc.prems d1 False r
    obtain h' where h': "readWords io base k (Suc ptr) ?out h1 =
        Some (overwrite ?out (2 * Suc ptr) (take (2 * k) (drop (p + 2) ?S)), h')"
      "dev h' = ata_progress (m - 1 - k) (Reading (p + 2 + 2 * k) (m - 1 - k)) (dev h)"
      by auto
    have "overwrite ?out (2 * Suc ptr) (take (2 * k) (drop (p + 2) ?S)) = overwrite out (2 * ptr) (take (2 * Suc k) (drop p ?S))"
      using overwrite_append [of "2 * ptr" "take 2 (drop p ?S)" "take (2 * k) (drop (p + 2) ?S)" out] Suc.prems(6,7) len
        take_two_more [of "2 * k" "drop p ?S"]
      by (simp add: add.commute)
    with step h' show ?thesis by (simp add: add.assoc)
  qed
qed simp

lemma writeWords_device:
  assumes b: "ata_behaviour io base dev"
    and "at_phase (dev h) = Writing p m" "0 < k" "k \<le> m" "k \<le> 256" "m mod 256 = k mod 256"
    and "2 * ptr + 2 * k \<le> length inp" "p + 2 * k \<le> length (at_sectors (dev h))"
  shows "\<exists>h'. writeWords io base k ptr inp h = Some h' \<and>
    dev h' = ata_progress (m - k) (Writing (p + 2 * k) (m - k))
      (dev h\<lparr>at_sectors := overwrite (at_sectors (dev h)) p (take (2 * k) (drop (2 * ptr) inp))\<rparr>)"
  using assms(2-)
proof (induction k arbitrary: p m ptr h)
  case (Suc k)
  let ?S = "at_sectors (dev h)" and ?two = "take 2 (drop (2 * ptr) inp)"
  obtain w where w: "get_word inp ptr = Some w" "[ucast w, ucast (drop_bit 8 w)] = ?two"
    using get_word_eq [of ptr inp] Suc.prems(6) by auto
  let ?h1 = "outw io base w h"
  have d1: "dev ?h1 = ata_progress (m - 1) (Writing (p + 2) (m - 1)) (dev h\<lparr>at_sectors := overwrite ?S p ?two\<rparr>)"
    using behaviour_simps(5) [OF b, of w h] Suc.prems(1) w(2) by (simp add: ata_out_def)
  have step: "writeWords io base (Suc k) ptr inp h = writeWords io base k (Suc ptr) inp ?h1"
    using w(1) by simp
  show ?case
  proof (cases "k = 0")
    case True
    with d1 show ?thesis unfolding step by (intro exI [of _ ?h1]) simp
  next
    case False
    note r = less_by_one [OF False Suc.prems(3-5)]
    let ?d = "dev h\<lparr>at_sectors := overwrite ?S p ?two, at_phase := Writing (p + 2) (m - 1)\<rparr>"
    have d1: "dev ?h1 = ?d" using d1 r by (auto simp: ata_progress_def)
    have len: "length ?two = 2" using w(2) by (metis length_Cons list.size(3) One_nat_def Suc_1)
    let ?rest = "take (2 * k) (drop (2 * Suc ptr) inp)"
    have "2 * Suc ptr + 2 * k \<le> length inp" "p + 2 + 2 * k \<le> length (at_sectors (dev ?h1))"
      using Suc.prems(6,7) d1 len by simp_all
    with Suc.IH [of ?h1 "p + 2" "m - 1" "Suc ptr"] Suc.prems d1 False r
    obtain h' where h': "writeWords io base k (Suc ptr) inp ?h1 = Some h'"
      "dev h' = ata_progress (m - 1 - k) (Writing (p + 2 + 2 * k) (m - 1 - k))
        (?d\<lparr>at_sectors := overwrite (overwrite ?S p ?two) (p + 2) ?rest\<rparr>)"
      by auto
    have two: "take (2 * Suc k) (drop (2 * ptr) inp) = ?two @ ?rest"
      using take_two_more [of "2 * k" "drop (2 * ptr) inp"] by (simp add: add.commute)
    have "overwrite (overwrite ?S p ?two) (p + 2) ?rest = overwrite ?S p (take (2 * Suc k) (drop (2 * ptr) inp))"
      using overwrite_append [of p ?two ?rest ?S] Suc.prems(7) len two by simp
    then have "?d\<lparr>at_sectors := overwrite (overwrite ?S p ?two) (p + 2) ?rest\<rparr> =
        (dev h\<lparr>at_sectors := overwrite ?S p (take (2 * Suc k) (drop (2 * ptr) inp))\<rparr>)\<lparr>at_phase := Writing (p + 2) (m - 1)\<rparr>"
      by simp
    with step h' show ?thesis by (simp only: progress_simps) (simp add: add.assoc)
  qed
qed simp

section \<open>All sectors\<close>

lemma status_ok:
  assumes b: "ata_behaviour io base dev" and t: "transferring (dev h)" "at_busy (dev h) = 0"
  shows "\<exists>h'. checkStatusError io base h = (0, h') \<and> dev h' = dev h"
proof -
  have "ata_status (dev h) AND 1 = 0"
    using t by (auto simp: ata_status_def transferring_def split: ata_phase.splits)
  with behaviour_simps(1,2) [OF b, of h] t(2) show ?thesis
    by (cases "inb io (base + 7) h") (simp add: checkStatusError_def ata_const_defs ata_poll_def)
qed

lemma drq_and_status:
  assumes b: "ata_behaviour io base dev" and t: "transferring (dev h)"
  obtains h1 h2 where "ataPioWaitDrq io base h = Some h1" "checkStatusError io base h1 = (0, h2)"
    "dev h2 = (dev h)\<lparr>at_busy := 0\<rparr>"
proof -
  obtain h1 where h1: "ataPioWaitDrq io base h = Some h1" "dev h1 = (dev h)\<lparr>at_busy := 0\<rparr>"
    using wait_drq_ends [OF assms] by blast
  with t have "transferring (dev h1)" "at_busy (dev h1) = 0" by (simp_all add: transferring_def)
  with status_ok [OF b] h1 that show thesis by metis
qed

text \<open>The state between two sectors, with \<open>q\<close> sectors to go.\<close>

definition at_sector :: "(nat \<Rightarrow> nat \<Rightarrow> ata_phase) \<Rightarrow> nat \<Rightarrow> nat \<Rightarrow> ata_dev \<Rightarrow> bool" where
  "at_sector ph p q d \<longleftrightarrow> at_phase d = (if q = 0 then Ready else ph p (q * 256)) \<and> p + q * 512 \<le> length (at_sectors d)"

lemma read_sector:
  assumes b: "ata_behaviour io base dev" and a: "at_sector Reading p (Suc q) (dev h)"
    and out: "2 * ptr + 512 \<le> length out"
  obtains h' where "\<And>n. readSectors io base (Suc n) ptr out h =
      readSectors io base n (ptr + 256) (overwrite out (2 * ptr) (take 512 (drop p (at_sectors (dev h))))) h'"
    "at_sector Reading (p + 512) q (dev h')" "at_sectors (dev h') = at_sectors (dev h)"
proof -
  have ph: "at_phase (dev h) = Reading p (Suc q * 256)" "p + Suc q * 512 \<le> length (at_sectors (dev h))"
    using a by (simp_all add: at_sector_def)
  then have "transferring (dev h)" by (simp add: transferring_def)
  from drq_and_status [OF b this] obtain h1 h2 where h: "ataPioWaitDrq io base h = Some h1"
    "checkStatusError io base h1 = (0, h2)" "dev h2 = (dev h)\<lparr>at_busy := 0\<rparr>" by blast
  have "\<exists>h'. readWords io base 256 ptr out h2 =
      Some (overwrite out (2 * ptr) (take (2 * 256) (drop p (at_sectors (dev h2)))), h') \<and>
      dev h' = ata_progress (Suc q * 256 - 256) (Reading (p + 2 * 256) (Suc q * 256 - 256)) (dev h2)"
    by (rule readWords_device [OF b]) (use ph out h(3) in simp_all)
  then obtain h' where "readWords io base 256 ptr out h2 =
      Some (overwrite out (2 * ptr) (take 512 (drop p (at_sectors (dev h)))), h')"
    "dev h' = ata_progress (q * 256) (Reading (p + 512) (q * 256)) ((dev h)\<lparr>at_busy := 0\<rparr>)"
    using h(3) by auto
  with h(1,2) ph that show thesis by (simp add: at_sector_def progress_phase)
qed


lemma write_sector:
  assumes b: "ata_behaviour io base dev" and a: "at_sector Writing p (Suc q) (dev h)"
    and inp: "2 * ptr + 512 \<le> length inp"
  obtains h' where "\<And>n. writeSectors io base (Suc n) ptr inp h = writeSectors io base n (ptr + 256) inp h'"
    "at_sector Writing (p + 512) q (dev h')"
    "at_sectors (dev h') = overwrite (at_sectors (dev h)) p (take 512 (drop (2 * ptr) inp))"
proof -
  have ph: "at_phase (dev h) = Writing p (Suc q * 256)" "p + Suc q * 512 \<le> length (at_sectors (dev h))"
    using a by (simp_all add: at_sector_def)
  then have "transferring (dev h)" by (simp add: transferring_def)
  from drq_and_status [OF b this] obtain h1 h2 where h: "ataPioWaitDrq io base h = Some h1"
    "checkStatusError io base h1 = (0, h2)" "dev h2 = (dev h)\<lparr>at_busy := 0\<rparr>" by blast
  let ?S = "overwrite (at_sectors (dev h)) p (take 512 (drop (2 * ptr) inp))"
  have "\<exists>h'. writeWords io base 256 ptr inp h2 = Some h' \<and>
      dev h' = ata_progress (Suc q * 256 - 256) (Writing (p + 2 * 256) (Suc q * 256 - 256))
        (dev h2\<lparr>at_sectors := overwrite (at_sectors (dev h2)) p (take (2 * 256) (drop (2 * ptr) inp))\<rparr>)"
    by (rule writeWords_device [OF b]) (use ph inp h(3) in simp_all)
  then obtain h' where h': "writeWords io base 256 ptr inp h2 = Some h'"
    "dev h' = ata_progress (q * 256) (Writing (p + 512) (q * 256)) ((dev h)\<lparr>at_busy := 0, at_sectors := ?S\<rparr>)"
    using h(3) by auto
  have "length ?S = length (at_sectors (dev h))" using ph(2) inp by simp
  with h h' ph that show thesis by (simp add: at_sector_def progress_phase)
qed

lemma readSectors_device:
  assumes b: "ata_behaviour io base dev" and "at_sector Reading p n (dev h)" "2 * ptr + n * 512 \<le> length out"
  shows "\<exists>h'. readSectors io base n ptr out h =
      Some (0, overwrite out (2 * ptr) (take (n * 512) (drop p (at_sectors (dev h)))), h') \<and>
    at_phase (dev h') = Ready \<and> at_sectors (dev h') = at_sectors (dev h)"
  using assms(2-)
proof (induction n arbitrary: p ptr out h)
  case 0
  then show ?case by (simp add: at_sector_def)
next
  case (Suc n)
  let ?S = "at_sectors (dev h)"
  let ?out = "overwrite out (2 * ptr) (take 512 (drop p ?S))"
  have len: "2 * ptr + 512 \<le> length out" "length (take 512 (drop p ?S)) = 512"
    using Suc.prems by (auto simp: at_sector_def)
  obtain h1 where h1: "readSectors io base (Suc n) ptr out h = readSectors io base n (ptr + 256) ?out h1"
    "at_sector Reading (p + 512) n (dev h1)" "at_sectors (dev h1) = ?S"
    using read_sector [OF b Suc.prems(1) len(1)] by metis
  have "2 * (ptr + 256) + n * 512 \<le> length ?out" using Suc.prems(2) len by simp
  from Suc.IH [OF h1(2) this] obtain h' where h': "readSectors io base n (ptr + 256) ?out h1 =
      Some (0, overwrite ?out (2 * ptr + 512) (take (n * 512) (drop (p + 512) ?S)), h')"
    "at_phase (dev h') = Ready" "at_sectors (dev h') = ?S"
    using h1(3) by auto
  have "take (Suc n * 512) (drop p ?S) = take 512 (drop p ?S) @ take (n * 512) (drop (p + 512) ?S)"
    using take_add [of 512 "n * 512" "drop p ?S"] by (simp add: add.commute)
  then have "overwrite ?out (2 * ptr + 512) (take (n * 512) (drop (p + 512) ?S)) =
      overwrite out (2 * ptr) (take (Suc n * 512) (drop p ?S))"
    using overwrite_append [of "2 * ptr" "take 512 (drop p ?S)" "take (n * 512) (drop (p + 512) ?S)" out] Suc.prems(2) len
    by simp
  with h' show ?case unfolding h1(1) by simp
qed

lemma cache_flush_device:
  assumes b: "ata_behaviour io base dev"
  shows "\<exists>h'. cacheFlush io base h = Some h' \<and> at_phase (dev h') = at_phase (dev h) \<and> at_sectors (dev h') = at_sectors (dev h)"
proof -
  obtain h' where "ataPioWaitBsy io base (outb io (base + 7) 0xE7 h) = Some h'"
    "dev h' = (dev (outb io (base + 7) 0xE7 h))\<lparr>at_busy := 0\<rparr>"
    using wait_bsy_ends [OF b] by blast
  then show ?thesis
    using behaviour_simps(12) [OF b, of "0xE7" h] by (simp add: cacheFlush_def ata_const_defs ata_command_def)
qed

lemma writeSectors_device:
  assumes b: "ata_behaviour io base dev" and "at_sector Writing p n (dev h)" "2 * ptr + n * 512 \<le> length inp"
  shows "\<exists>h'. writeSectors io base n ptr inp h = Some (0, h') \<and> at_phase (dev h') = Ready \<and>
    at_sectors (dev h') = overwrite (at_sectors (dev h)) p (take (n * 512) (drop (2 * ptr) inp))"
  using assms(2-)
proof (induction n arbitrary: p ptr h)
  case 0
  then show ?case using cache_flush_device [OF b, of h] by (auto simp: at_sector_def)
next
  case (Suc n)
  let ?S = "at_sectors (dev h)" and ?one = "take 512 (drop (2 * ptr) inp)"
  have len: "2 * ptr + 512 \<le> length inp" "length ?one = 512" using Suc.prems by simp_all
  obtain h1 where h1: "writeSectors io base (Suc n) ptr inp h = writeSectors io base n (ptr + 256) inp h1"
    "at_sector Writing (p + 512) n (dev h1)" "at_sectors (dev h1) = overwrite ?S p ?one"
    using write_sector [OF b Suc.prems(1) len(1)] by metis
  have "2 * (ptr + 256) + n * 512 \<le> length inp" using Suc.prems(2) by simp
  from Suc.IH [OF h1(2) this] obtain h' where h': "writeSectors io base n (ptr + 256) inp h1 = Some (0, h')"
    "at_phase (dev h') = Ready"
    "at_sectors (dev h') = overwrite (overwrite ?S p ?one) (p + 512) (take (n * 512) (drop (2 * ptr + 512) inp))"
    using h1(3) by auto
  have "take (Suc n * 512) (drop (2 * ptr) inp) = ?one @ take (n * 512) (drop (2 * ptr + 512) inp)"
    using take_add [of 512 "n * 512" "drop (2 * ptr) inp"] by (simp add: add.commute)
  then have "overwrite (overwrite ?S p ?one) (p + 512) (take (n * 512) (drop (2 * ptr + 512) inp)) =
      overwrite ?S p (take (Suc n * 512) (drop (2 * ptr) inp))"
    using overwrite_append [of p ?one "take (n * 512) (drop (2 * ptr + 512) inp)" ?S] Suc.prems len
    by (simp add: at_sector_def)
  with h' show ?case unfolding h1(1) by simp
qed

section \<open>Requests that the drive does not answer\<close>

lemma readSectors_hangs:
  assumes b: "ata_behaviour io base dev" and "at_sector Reading p q (dev h)" "q < n" "2 * ptr + q * 512 \<le> length out"
  shows "readSectors io base n ptr out h = None"
  using assms(2-)
proof (induction q arbitrary: p n ptr out h)
  case 0
  then obtain n' where "n = Suc n'" by (cases n) auto
  moreover have "ataPioWaitDrq io base h = None"
    by (rule wait_drq_hangs [OF b]) (use "0.prems"(1) in \<open>simp add: at_sector_def transferring_def\<close>)
  ultimately show ?case by simp
next
  case (Suc q)
  then obtain n' where n': "n = Suc n'" by (cases n) auto
  let ?S = "at_sectors (dev h)"
  let ?out = "overwrite out (2 * ptr) (take 512 (drop p ?S))"
  have len: "2 * ptr + 512 \<le> length out" "length (take 512 (drop p ?S)) = 512"
    using Suc.prems by (auto simp: at_sector_def)
  obtain h1 where h1: "readSectors io base n ptr out h = readSectors io base n' (ptr + 256) ?out h1"
    "at_sector Reading (p + 512) q (dev h1)"
    using read_sector [OF b Suc.prems(1) len(1)] unfolding n' by metis
  have "2 * (ptr + 256) + q * 512 \<le> length ?out" using Suc.prems(3) len by simp
  with Suc.IH [OF h1(2)] Suc.prems(2) n' h1(1) show ?case by simp
qed

lemma writeSectors_hangs:
  assumes b: "ata_behaviour io base dev" and "at_sector Writing p q (dev h)" "q < n" "2 * ptr + q * 512 \<le> length inp"
  shows "writeSectors io base n ptr inp h = None"
  using assms(2-)
proof (induction q arbitrary: p n ptr h)
  case 0
  then obtain n' where "n = Suc n'" by (cases n) auto
  moreover have "ataPioWaitDrq io base h = None"
    by (rule wait_drq_hangs [OF b]) (use "0.prems"(1) in \<open>simp add: at_sector_def transferring_def\<close>)
  ultimately show ?case by simp
next
  case (Suc q)
  then obtain n' where n': "n = Suc n'" by (cases n) auto
  have len: "2 * ptr + 512 \<le> length inp" using Suc.prems by simp
  obtain h1 where h1: "writeSectors io base n ptr inp h = writeSectors io base n' (ptr + 256) inp h1"
    "at_sector Writing (p + 512) q (dev h1)"
    using write_sector [OF b Suc.prems(1) len] unfolding n' by metis
  have "2 * (ptr + 256) + q * 512 \<le> length inp" using Suc.prems(3) by simp
  with Suc.IH [OF h1(2)] Suc.prems(2) n' h1(1) show ?case by simp
qed


section \<open>The registers\<close>

lemma ata_command_device:
  assumes b: "ata_behaviour io (pr_port pr) dev" and pr: "pr_deviceCon pr = 0x206" "pr_select pr AND 4 = 0"
  shows "\<exists>h'. ataPioCommand io pr lba tot c h = Some h' \<and>
    dev h' = ata_command c ((dev h)\<lparr>at_busy := 0, at_count := ucast tot, at_lba0 := ucast (lba AND 0xFF),
      at_lba1 := ucast (drop_bit 8 lba) AND 0xFF, at_lba2 := ucast (drop_bit 16 lba) AND 0xFF,
      at_head := ucast (0xE0 OR (drop_bit 24 lba AND 0x0F))\<rparr>)"
proof -
  note s = behaviour_simps [OF b]
  let ?h0 = "outb io (pr_port pr + 0x206) (ucast (pr_select pr)) h"
  have "(ucast (pr_select pr) :: byte) AND 4 = ucast (pr_select pr AND 4)"
    by (rule bit_word_eqI) (auto simp: bit_simps)
  then have d0: "dev ?h0 = dev h" using s(13) pr(2) by simp
  obtain h1 where h1: "ataPioWaitBsy io (pr_port pr) ?h0 = Some h1" "dev h1 = (dev h)\<lparr>at_busy := 0\<rparr>"
    using wait_bsy_ends [OF b, of ?h0] d0 by auto
  show ?thesis
    using h1 s by (simp add: ataPioCommand_def selectDrive_def pr ata_const_defs Let_def)
qed

lemma lba_digits:
  fixes n :: nat
  assumes "n < 2 ^ 28"
  shows "n mod 2 ^ 8 + 2 ^ 8 * (n div 2 ^ 8 mod 2 ^ 8) + 2 ^ 16 * (n div 2 ^ 16 mod 2 ^ 8) + 2 ^ 24 * (n div 2 ^ 24 mod 2 ^ 4) = n"
proof -
  define q r t where "q = n div 2 ^ 8" and "r = q div 2 ^ 8" and "t = r div 2 ^ 8"
  have d: "n div 2 ^ 16 = r" "n div 2 ^ 24 = t" by (simp_all add: q_def r_def t_def flip: div_mult2_eq)
  have "t < 16" unfolding d(2) [symmetric] using assms by (intro less_mult_imp_div_less) simp
  moreover have "n = 256 * q + n mod 256" "q = 256 * r + q mod 256" "r = 256 * t + r mod 256"
    by (simp_all add: q_def r_def t_def)
  ultimately have "n mod 256 + 256 * (q mod 256) + 65536 * (r mod 256) + 16777216 * t = n" "t mod 16 = t"
    by linarith (use \<open>t < 16\<close> in simp)
  then show ?thesis unfolding d q_def [symmetric] by simp
qed

lemma lba_registers:
  fixes lba :: u64
  assumes "unat lba < 2 ^ 28"
  shows "ata_lba (d\<lparr>at_lba0 := ucast (lba AND 0xFF), at_lba1 := ucast (drop_bit 8 lba) AND 0xFF,
    at_lba2 := ucast (drop_bit 16 lba) AND 0xFF, at_head := ucast (0xE0 OR (drop_bit 24 lba AND 0x0F))\<rparr>) = unat lba"
proof -
  have registers: "ata_lba (d\<lparr>at_lba0 := l0, at_lba1 := l1, at_lba2 := l2, at_head := l3\<rparr>) =
      unat l0 + 2 ^ 8 * unat l1 + 2 ^ 16 * unat l2 + 2 ^ 24 * unat (l3 AND 0xF)" for d l0 l1 l2 l3
    by (simp add: ata_lba_def)
  let ?n = "unat lba"
  have "(0xFF :: u64) = mask 8" "(0xFF :: byte) = mask 8" "(0xF :: byte) = mask 4" "(0xF :: u64) = mask 4"
    by (simp_all add: mask_eq_exp_minus_1)
  note m = this
  have a: "unat (ucast (lba AND 0xFF) :: byte) = ?n mod 2 ^ 8"
    unfolding m by (simp add: unsigned_ucast_eq take_bit_eq_mod unat_mod_distrib flip: take_bit_eq_mask)
  have c: "unat (ucast (drop_bit k lba) AND 0xFF :: byte) = ?n div 2 ^ k mod 2 ^ 8" for k
  proof -
    have "(0xFF :: byte) = - 1" by simp
    then have "unat (ucast (drop_bit k lba) AND 0xFF :: byte) = unat (ucast (drop_bit k lba) :: byte)" by (simp only: and.right_neutral)
    also have "\<dots> = ?n div 2 ^ k mod 2 ^ 8"
      by (simp only: unsigned_ucast_eq unsigned_drop_bit_eq take_bit_eq_mod)
        (simp add: drop_bit_eq_div mod_less [OF unat_less_pow64, simplified])
    finally show ?thesis .
  qed
  have "(ucast (0xE0 OR (drop_bit 24 lba AND 0x0F)) :: byte) AND 0xF = ucast (take_bit 4 (drop_bit 24 lba))"
  proof -
    have e: "(0xE0 :: u64) = push_bit 5 (mask 3)" by (simp add: mask_eq_exp_minus_1)
    show ?thesis unfolding m e by (intro bit_word_eqI) (auto simp: bit_simps)
  qed
  then have e: "unat ((ucast (0xE0 OR (drop_bit 24 lba AND 0x0F)) :: byte) AND 0xF) = ?n div 2 ^ 24 mod 2 ^ 4"
    by (simp add: unsigned_ucast_eq take_bit_eq_mod drop_bit_eq_div unat_mod_distrib unat_div_distrib)
  show ?thesis
    unfolding registers using lba_digits [OF assms] by (simp only: a c e)
qed


text \<open>The number of sectors that the count register asks for.\<close>

definition request_count :: "nat \<Rightarrow> nat" where
  "request_count n = (if n mod 256 = 0 then 256 else n mod 256)"

lemma count_register:
  fixes tot :: u64
  assumes "at_count d = ucast tot"
  shows "ata_sector_count d = request_count (unat tot)"
proof -
  have u: "unat (ucast tot :: byte) = unat tot mod 256" by (simp add: unsigned_ucast_eq take_bit_eq_mod)
  then have "ucast tot = (0 :: byte) \<longleftrightarrow> unat tot mod 256 = 0" by (simp add: word_unat_eq_iff)
  with u assms show ?thesis by (simp add: ata_sector_count_def request_count_def)
qed

text \<open>What the two transfers find after the command.\<close>

lemma ata_command_transfer:
  assumes "c = 0x20 \<and> ph = Reading \<or> c = 0x30 \<and> ph = Writing"
  shows "ata_command c d = (if (ata_lba d + ata_sector_count d) * 512 \<le> length (at_sectors d)
    then d\<lparr>at_busy := at_latency d, at_phase := ph (ata_lba d * 512) (ata_sector_count d * 256)\<rparr>
    else d\<lparr>at_busy := at_latency d, at_phase := Failed\<rparr>)"
  using assms by (auto simp: ata_command_def Let_def distrib_right)

lemma transfer_start:
  assumes b: "ata_behaviour io (pr_port pr) dev" and pr: "pr_deviceCon pr = 0x206" "pr_select pr AND 4 = 0"
    and r: "0 < unat tot" "unat lba < 2 ^ 28" and c: "c = 0x20 \<and> ph = Reading \<or> c = 0x30 \<and> ph = Writing"
  obtains h' q where "ataPioCommand io pr lba tot c h = Some h'" "at_sectors (dev h') = at_sectors (dev h)"
    "at_sector ph (unat lba * 512) q (dev h') \<or> q = 0 \<and> at_phase (dev h') = Failed"
    "q = (if (unat lba + request_count (unat tot)) * 512 \<le> length (at_sectors (dev h)) then request_count (unat tot) else 0)"
proof -
  define d where "d = (dev h)\<lparr>at_busy := 0, at_count := ucast tot, at_lba0 := ucast (lba AND 0xFF),
      at_lba1 := ucast (drop_bit 8 lba) AND 0xFF, at_lba2 := ucast (drop_bit 16 lba) AND 0xFF,
      at_head := ucast (0xE0 OR (drop_bit 24 lba AND 0x0F))\<rparr>"
  have d: "ata_lba d = unat lba" "ata_sector_count d = request_count (unat tot)" "at_sectors d = at_sectors (dev h)"
    unfolding d_def by (rule lba_registers [OF r(2)], rule count_register) simp_all
  obtain h' where h': "ataPioCommand io pr lba tot c h = Some h'" "dev h' = ata_command c d"
    using ata_command_device [OF b pr, of lba tot c h] unfolding d_def by blast
  note cmd = h'(2) [unfolded ata_command_transfer [OF c] d]
  have pos: "0 < request_count (unat tot)" by (simp add: request_count_def)
  show thesis
  proof (cases "(unat lba + request_count (unat tot)) * 512 \<le> length (at_sectors (dev h))")
    case True
    with cmd d(3) pos that [OF h'(1), of "request_count (unat tot)"] show thesis
      by (simp add: at_sector_def distrib_right)
  next
    case False
    with cmd d(3) that [OF h'(1), of 0] show thesis by simp
  qed
qed

section \<open>Correct transfers\<close>

lemma request_count_small [simp]: "0 < n \<Longrightarrow> n \<le> 256 \<Longrightarrow> request_count n = n"
  by (auto simp: request_count_def le_less)

lemma request_count_le: "request_count n \<le> 256" "256 < n \<Longrightarrow> request_count n < n"
  by (auto simp: request_count_def intro: less_imp_le)

definition ata_private :: "ataPioPrivate \<Rightarrow> bool" where
  "ata_private pr \<longleftrightarrow> pr_deviceCon pr = 0x206 \<and> pr_select pr AND 4 = 0"

lemma read_transfer:
  assumes b: "ata_behaviour io (pr_port pr) dev" "ata_private pr"
    and r: "0 < unat tot" "unat tot \<le> 256" "unat lba + unat tot \<le> 2 ^ 28"
    and l: "(unat lba + unat tot) * 512 \<le> length (at_sectors (dev h))" "unat tot * 512 \<le> length out"
  shows "\<exists>h'. ataPioRead io pr lba tot out h =
      Some (0, overwrite out 0 (take (unat tot * 512) (drop (unat lba * 512) (at_sectors (dev h)))), h') \<and>
    at_phase (dev h') = Ready \<and> at_sectors (dev h') = at_sectors (dev h)"
proof -
  have lt: "unat lba < 2 ^ 28" using r by linarith
  have pr: "pr_deviceCon pr = 0x206" "pr_select pr AND 4 = 0" using b(2) by (simp_all add: ata_private_def)
  obtain h1 q where h1: "ataPioCommand io pr lba tot 0x20 h = Some h1" "at_sectors (dev h1) = at_sectors (dev h)"
    "at_sector Reading (unat lba * 512) q (dev h1) \<or> q = 0 \<and> at_phase (dev h1) = Failed"
    "q = (if (unat lba + request_count (unat tot)) * 512 \<le> length (at_sectors (dev h)) then request_count (unat tot) else 0)"
    by (rule transfer_start [OF b(1) pr r(1) lt, of "0x20" Reading]) simp
  then have "at_sector Reading (unat lba * 512) (unat tot) (dev h1)" using r l by simp
  from readSectors_device [OF b(1) this, of 0 out] l(2) h1(1,2) show ?thesis
    by (auto simp: ataPioRead_def ata_const_defs)
qed

lemma write_transfer:
  assumes b: "ata_behaviour io (pr_port pr) dev" "ata_private pr"
    and r: "0 < unat tot" "unat tot \<le> 256" "unat lba + unat tot \<le> 2 ^ 28"
    and l: "(unat lba + unat tot) * 512 \<le> length (at_sectors (dev h))" "unat tot * 512 \<le> length inp"
  shows "\<exists>h'. ataPioWrite io pr lba tot inp h = Some (0, h') \<and> at_phase (dev h') = Ready \<and>
    at_sectors (dev h') = overwrite (at_sectors (dev h)) (unat lba * 512) (take (unat tot * 512) inp)"
proof -
  have lt: "unat lba < 2 ^ 28" using r by linarith
  have pr: "pr_deviceCon pr = 0x206" "pr_select pr AND 4 = 0" using b(2) by (simp_all add: ata_private_def)
  obtain h1 q where h1: "ataPioCommand io pr lba tot 0x30 h = Some h1" "at_sectors (dev h1) = at_sectors (dev h)"
    "at_sector Writing (unat lba * 512) q (dev h1) \<or> q = 0 \<and> at_phase (dev h1) = Failed"
    "q = (if (unat lba + request_count (unat tot)) * 512 \<le> length (at_sectors (dev h)) then request_count (unat tot) else 0)"
    by (rule transfer_start [OF b(1) pr r(1) lt, of "0x30" Writing]) simp
  then have "at_sector Writing (unat lba * 512) (unat tot) (dev h1)" using r l by simp
  from writeSectors_device [OF b(1) this, of 0 inp] l(2) h1(1,2) show ?thesis
    by (auto simp: ataPioWrite_def ata_const_defs)
qed

text \<open>A request that is too long or that ends behind the disk.\<close>

lemma failed_hangs:
  assumes b: "ata_behaviour io base dev" and "at_phase (dev h) = Failed" "0 < n"
  shows "readSectors io base n ptr out h = None" "writeSectors io base n ptr inp h = None"
proof -
  obtain n' where "n = Suc n'" using assms(3) by (cases n) auto
  moreover have "ataPioWaitDrq io base h = None"
    by (rule wait_drq_hangs [OF b]) (use assms(2) in \<open>simp add: transferring_def\<close>)
  ultimately show "readSectors io base n ptr out h = None" "writeSectors io base n ptr inp h = None" by simp_all
qed

lemma request_hangs:
  assumes b: "ata_behaviour io (pr_port pr) dev" "ata_private pr"
    and r: "0 < unat tot" "unat lba < 2 ^ 28" "unat tot * 512 \<le> length buf"
    and bad: "256 < unat tot \<or> length (at_sectors (dev h)) < (unat lba + unat tot) * 512"
  shows "ataPioRead io pr lba tot buf h = None" "ataPioWrite io pr lba tot buf h = None"
proof -
  have pr: "pr_deviceCon pr = 0x206" "pr_select pr AND 4 = 0" using b(2) by (simp_all add: ata_private_def)
  let ?q = "if (unat lba + request_count (unat tot)) * 512 \<le> length (at_sectors (dev h)) then request_count (unat tot) else 0"
  have q: "?q < unat tot"
    using bad r(1) request_count_le(2) [of "unat tot"] by (cases "256 < unat tot") auto
  then have len: "2 * 0 + ?q * 512 \<le> length buf" using r(3) by linarith
  obtain h1 where "ataPioCommand io pr lba tot 0x20 h = Some h1"
    "at_sector Reading (unat lba * 512) ?q (dev h1) \<or> at_phase (dev h1) = Failed"
    by (rule transfer_start [OF b(1) pr r(1,2), of "0x20" Reading h]) blast+
  then show "ataPioRead io pr lba tot buf h = None"
    using readSectors_hangs [OF b(1) _ q len] failed_hangs(1) [OF b(1) _ r(1)]
    by (auto simp: ataPioRead_def ata_const_defs)
  obtain h1 where "ataPioCommand io pr lba tot 0x30 h = Some h1"
    "at_sector Writing (unat lba * 512) ?q (dev h1) \<or> at_phase (dev h1) = Failed"
    by (rule transfer_start [OF b(1) pr r(1,2), of "0x30" Writing h]) blast+
  then show "ataPioWrite io pr lba tot buf h = None"
    using writeSectors_hangs [OF b(1) _ q len] failed_hangs(2) [OF b(1) _ r(1)]
    by (auto simp: ataPioWrite_def ata_const_defs)
qed

text \<open>
  The driver is lawful for the streams, for requests of 1 to 256 sectors to a drive of at most \<open>2 ^ 28\<close>
  sectors.
\<close>

definition ata_ready :: "('h \<Rightarrow> ata_dev) \<Rightarrow> 'h \<Rightarrow> bool" where
  "ata_ready dev h \<longleftrightarrow> at_phase (dev h) = Ready \<and> length (at_sectors (dev h)) \<le> 2 ^ 37"

lemma ata_driver_lawful:
  assumes b: "ata_behaviour io (pr_port pr) dev" "ata_private pr"
  shows "lawful (\<lambda>n. 0 < n \<and> n \<le> 256) (ata_ready dev) (ataPio_driver junk io pr) (\<lambda>h. at_sectors (dev h))"
  unfolding lawful_def
proof (intro conjI allI impI)
  fix lba tot :: u64 and buf :: "byte list" and h
  assume "ata_ready dev h \<and> (0 < unat tot \<and> unat tot \<le> 256) \<and>
    (unat lba + unat tot) * 512 \<le> length (at_sectors (dev h)) \<and> unat tot * 512 \<le> length buf"
  then have a: "ata_ready dev h" "0 < unat tot \<and> unat tot \<le> 256"
    "(unat lba + unat tot) * 512 \<le> length (at_sectors (dev h))" "unat tot * 512 \<le> length buf" by simp_all
  then have "unat lba + unat tot \<le> 2 ^ 28" by (simp add: ata_ready_def)
  with read_transfer [OF b _ _ _ a(3,4)] a
  show "\<exists>h'. drv_read (ataPio_driver junk io pr) lba tot buf h =
      Some (0, overwrite buf 0 (take (unat tot * 512) (drop (unat lba * 512) (at_sectors (dev h)))), h') \<and>
    ata_ready dev h' \<and> at_sectors (dev h') = at_sectors (dev h)"
    by (auto simp: ataPio_driver_def ata_ready_def)
next
  fix lba tot :: u64 and buf :: "byte list" and h
  assume "ata_ready dev h \<and> (0 < unat tot \<and> unat tot \<le> 256) \<and>
    (unat lba + unat tot) * 512 \<le> length (at_sectors (dev h)) \<and> unat tot * 512 \<le> length buf"
  then have a: "ata_ready dev h" "0 < unat tot \<and> unat tot \<le> 256"
    "(unat lba + unat tot) * 512 \<le> length (at_sectors (dev h))" "unat tot * 512 \<le> length buf" by simp_all
  then have l: "unat lba + unat tot \<le> 2 ^ 28" by (simp add: ata_ready_def)
  have "length (overwrite (at_sectors (dev h)) (unat lba * 512) (take (unat tot * 512) buf)) = length (at_sectors (dev h))"
    using a by (simp add: distrib_right)
  with write_transfer [OF b _ _ l a(3,4)] a
  show "\<exists>h'. drv_write (ataPio_driver junk io pr) lba tot buf h = Some (0, h') \<and> ata_ready dev h' \<and>
      at_sectors (dev h') = overwrite (at_sectors (dev h)) (unat lba * 512) (take (unat tot * 512) buf)"
    by (auto simp: ataPio_driver_def ata_ready_def)
qed

section \<open>Properties\<close>

text \<open>
  Property C17. With a drive that behaves as the ATA standard says, a request of 1 to 256 sectors inside the
  disk, below sector \<open>2 ^ 28\<close>, transfers exactly these sectors: a read copies them to the start of the
  buffer and leaves the disk alone, a write replaces them by the start of the buffer and changes no
  other sector. Both report success.
\<close>

theorem ataPio_transfers:
  assumes "ata_behaviour io (pr_port pr) dev" and "ata_private pr"
    and "0 < unat tot" "unat tot \<le> 256" "unat lba + unat tot \<le> 2 ^ 28"
    and "(unat lba + unat tot) * 512 \<le> length (at_sectors (dev h))" and "unat tot * 512 \<le> length buf"
  shows "(\<exists>h'. ataPioRead io pr lba tot buf h =
        Some (0, overwrite buf 0 (take (unat tot * 512) (drop (unat lba * 512) (at_sectors (dev h)))), h') \<and>
      at_sectors (dev h') = at_sectors (dev h)) \<and>
    (\<exists>h'. ataPioWrite io pr lba tot buf h = Some (0, h') \<and>
      at_sectors (dev h') = overwrite (at_sectors (dev h)) (unat lba * 512) (take (unat tot * 512) buf))"
  using read_transfer [OF assms] write_transfer [OF assms] by blast


text \<open>
  Property C19. The stream layer on an ATA disk: a stream whose disk is served by the driver reads and
  writes exactly the bytes at its position, for transfers that touch at most 256 sectors.
\<close>

theorem diskStream_on_ata:
  assumes wf: "kheap_wf s" and b: "ata_behaviour io (pr_port pr) dev" "ata_private pr"
    and st: "stream \<noteq> 0" "stream_disk (streams s stream) \<noteq> 0"
    and dk: "dk = disks s (stream_disk (streams s stream))" "disk_driver dk \<noteq> 0"
      "drivers s (disk_driver dk) = ataPio_driver junk io pr"
      "unat (disk_sizeBytes dk) = length (at_sectors (dev (hw s)))" "length (at_sectors (dev (hw s))) mod 512 = 0"
    and r: "ata_ready dev (hw s)"
    and n: "0 < unat n" "position_of stream s + unat n \<le> length (at_sectors (dev (hw s)))" "unat n \<le> length buf"
    and t: "unat (totalLba (stream_position (streams s stream) mod 512) n) \<le> 256"
    and heap: "kzalloc (totalLba (stream_position (streams s stream) mod 512) n * 512) s \<noteq> Some (0, s)"
  shows "(\<exists>s'. diskStreamRead stream buf n s =
        Some (0, overwrite buf 0 (take (unat n) (drop (position_of stream s) (at_sectors (dev (hw s))))), s') \<and>
      at_sectors (dev (hw s')) = at_sectors (dev (hw s)) \<and> live s' = live s) \<and>
    (\<exists>s'. diskStreamWrite stream buf n s = Some (0, s') \<and> live s' = live s \<and>
      at_sectors (dev (hw s')) = overwrite (at_sectors (dev (hw s))) (position_of stream s) (take (unat n) buf))"
proof -
  let ?T = "totalLba (stream_position (streams s stream) mod 512) n"
  have on: "stream_on (\<lambda>n. 0 < n \<and> n \<le> 256) (ata_ready dev) (\<lambda>h. at_sectors (dev h)) stream s"
    using ata_driver_lawful [OF b] st dk r by (simp add: stream_on_def ata_ready_def)
  have "0 < unat ?T" using transfer_bounds(7) [OF on n(1,2)] n(1) by (simp add: div_greater_zero_iff)
  with t have T: "0 < unat ?T \<and> unat ?T \<le> 256" by simp
  show ?thesis
  proof
    show "\<exists>s'. diskStreamRead stream buf n s =
        Some (0, overwrite buf 0 (take (unat n) (drop (position_of stream s) (at_sectors (dev (hw s))))), s') \<and>
      at_sectors (dev (hw s')) = at_sectors (dev (hw s)) \<and> live s' = live s"
      by (rule diskStreamRead_on [OF wf on n T]) (use heap in auto)
    show "\<exists>s'. diskStreamWrite stream buf n s = Some (0, s') \<and> live s' = live s \<and>
      at_sectors (dev (hw s')) = overwrite (at_sectors (dev (hw s))) (position_of stream s) (take (unat n) buf)"
      by (rule diskStreamWrite_on [OF wf on n _ T]) (use heap in auto)
  qed
qed

section \<open>Witnesses\<close>

definition small_drive :: ata_dev where
  "small_drive = \<lparr>at_sectors = replicate 512 1 @ replicate 512 2 @ replicate 512 3 @ replicate 512 4, at_count = 0, at_lba0 = 0,
     at_lba1 = 0, at_lba2 = 0, at_head = 0, at_latency = 2, at_busy = 0, at_phase = Ready\<rparr>"

definition master :: ataPioPrivate where
  "master = \<lparr>pr_port = 0x1F0, pr_select = 0xA, pr_deviceCon = 0x206, pr_lba48Enabled = 0\<rparr>"

lemma master_ok: "ata_behaviour (ata_ports 0x1F0) (pr_port master) (\<lambda>d. d)" "ata_private master"
  using ata_ports_behaviour [of "0x1F0"] by (simp_all add: master_def ata_private_def)

lemma small_drive_length: "length (at_sectors small_drive) = 2048" by (simp add: small_drive_def)

theorem ataPio_transfers_witness:
  "\<exists>h'. ataPioRead (ata_ports 0x1F0) master 1 2 (replicate 1024 0) small_drive =
    Some (0, replicate 512 2 @ replicate 512 3, h')"
  using ataPio_transfers [OF master_ok, of 2 1 small_drive "replicate 1024 0"]
  by (auto simp: small_drive_def overwrite_def)


text \<open>A disk of four sectors on this drive; a stream at address 8 stands at byte \<open>pos\<close>.\<close>

definition ata_disk_state :: "heap_page \<Rightarrow> u64 \<Rightarrow> ata_dev disk_state" where
  "ata_disk_state hp pos = \<lparr>hmem = hmem hp, table_size = table_size hp, tableMaxSize = tableMaxSize hp,
     bent = (\<lambda>_. zero_entry), lvlTable = (\<lambda>_. 0), tmeta = tmeta blank_buddy,
     tableStartAddress = 0, lowerMemorySize = 0, heapSize = 0, maxLvl = 0, maxPage = 0, minPage = 0,
     selected = KERNEL_HEAP_TYPE_PAGE, memoryMap = [], memoryMapLength = 0, upperMemorySize = 0, totalMemorySize = 0, loadedTable = 0,
     kernelPageTable = 0, allocatedDataStructList = [], allocatedData = 0, allocatedSize = 0, currVirtualAddress = 0,
     tablesAvailable = 0, tableAddressList = [], systemDescriptorTableAddress = 0,
     pciStore = (\<lambda>_. no_device), headers = (\<lambda>_. no_header), deviceHeaders = (\<lambda>_. no_deviceHeader),
     barInfos = (\<lambda>_. no_barInfo), pciDevices = replicate 15 0, nextDevicesIndex = 0, hw = small_drive,
     drivers = (\<lambda>_. ataPio_driver [] (ata_ports 0x1F0) master), driverList = 8 # replicate 11 0, nextDriver = 1,
     disks = (\<lambda>_. ram_disk\<lparr>disk_sizeBytes := 2048\<rparr>),
     diskList = 8 # replicate 254 0, partitionList = replicate 1020 None, currentDisk = 1,
     currentPartition = 0, currentPartitionLabel = 67,
     streams = (\<lambda>_. \<lparr>stream_disk = 8, stream_position = pos\<rparr>)\<rparr>"

lemma ata_disk_state_heap: "live (ata_disk_state hp pos) = live hp" "kheap_wf (ata_disk_state hp pos) \<longleftrightarrow> heap_wf hp"
proof -
  have "live (ata_disk_state hp pos) = live (kheap_of hp)" "kheap_wf (ata_disk_state hp pos) \<longleftrightarrow> kheap_wf (kheap_of hp)"
    by (rule same_heap; simp add: ata_disk_state_def kheap_of_def)+
  then show "live (ata_disk_state hp pos) = live hp" "kheap_wf (ata_disk_state hp pos) \<longleftrightarrow> heap_wf hp" by simp_all
qed

lemma ata_disk_state_fields:
  "streams (ata_disk_state hp pos) p = \<lparr>stream_disk = 8, stream_position = pos\<rparr>" "hw (ata_disk_state hp pos) = small_drive"
  "disks (ata_disk_state hp pos) p = ram_disk\<lparr>disk_sizeBytes := 2048\<rparr>"
  "drivers (ata_disk_state hp pos) p = ataPio_driver [] (ata_ports 0x1F0) master"
  by (simp_all add: ata_disk_state_def)

lemma ata_disk_state_serves: "size_ok n \<Longrightarrow> pages_for n \<le> 4 \<Longrightarrow> kzalloc n (ata_disk_state small_heap pos) \<noteq> Some (0, s')"
  by (rule small_heap_serves) (simp_all add: ata_disk_state_heap small_heap_wf, simp_all add: ata_disk_state_def)

theorem diskStream_on_ata_witness:
  "\<exists>s'. diskStreamRead 8 (replicate 3 0) 3 (ata_disk_state small_heap 511) = Some (0, [1, 2, 2], s')"
proof -
  have wf: "kheap_wf (ata_disk_state small_heap 511)" by (simp add: ata_disk_state_heap small_heap_wf)
  have T: "totalLba 511 3 = 2" by (simp add: totalLba_def)
  have heap: "kzalloc 1024 (ata_disk_state small_heap 511) \<noteq> Some (0, ata_disk_state small_heap 511)"
    by (rule ata_disk_state_serves) (simp_all add: size_ok_def pages_for_def)
  show ?thesis
    using diskStream_on_ata [OF wf master_ok, of 8 "ram_disk\<lparr>disk_sizeBytes := 2048\<rparr>" "[]" 3 "replicate 3 0"]
    by (simp add: ata_disk_state_fields heap T small_drive_length ata_ready_def position_of_def)
      (auto simp: ram_disk_def small_drive_def overwrite_def numeral_3_eq_3)
qed

end
