(* ===== verification/Partition_Stream.thy ===== *)
theory Partition_Stream
  imports Stream
begin

text \<open>
  Byte streams on partitions, \<^verbatim>\<open>disk/partitionStream.c\<close>, on top of the streams on disks. Their main
  promise is isolation: through the stream of a partition only the bytes of that partition can be
  read or written.
\<close>

section \<open>Operations\<close>

record partitionStream =
  ps_label :: byte
  ps_position :: u64
  ps_volumeOffset :: u64
  ps_volumeSize :: u64
  ps_diskStream :: u64

record 'h pstream_state = "'h disk_state" +
  pstreams :: "u64 \<Rightarrow> partitionStream"

definition sizeof_partitionStream :: u64 where "sizeof_partitionStream = 40"

definition partitionStreamCreate ::
  "byte \<Rightarrow> u64 \<Rightarrow> ('h, 'a) pstream_state_scheme \<Rightarrow> (u64 \<times> ('h, 'a) pstream_state_scheme) option" where
  "partitionStreamCreate label position s = do {
     pp \<leftarrow> partitionGetByVolumeLabel label s;
     (case pp of None \<Rightarrow> Some (0, s)
      | Some pp \<Rightarrow> do {
          partition \<leftarrow> partition_at pp s;
          dk \<leftarrow> at (disks s) (part_disk partition);
          (ds, s) \<leftarrow> diskStreamCreate (disk_id dk) (part_offsetBytes partition + position) s;
          if ds = 0 then Some (0, s)
          else do {
            (stream, s) \<leftarrow> kzalloc sizeof_partitionStream s;
            if stream = 0 then Some (0, s)
            else Some (stream, s\<lparr>pstreams := (pstreams s)(stream :=
              \<lparr>ps_label = label, ps_position = position, ps_volumeOffset = part_offsetBytes partition,
               ps_volumeSize = part_sizeBytes partition, ps_diskStream = ds\<rparr>)\<rparr>)
          }
        })
   }"

definition set_ps_position ::
  "u64 \<Rightarrow> u64 \<Rightarrow> ('h, 'a) pstream_state_scheme \<Rightarrow> ('h, 'a) pstream_state_scheme" where
  "set_ps_position stream p s =
     s\<lparr>pstreams := (pstreams s)(stream := (pstreams s stream)\<lparr>ps_position := p\<rparr>)\<rparr>"

definition partitionStreamSeek ::
  "u64 \<Rightarrow> u64 \<Rightarrow> ('h, 'a) pstream_state_scheme \<Rightarrow> (int \<times> ('h, 'a) pstream_state_scheme) option" where
  "partitionStreamSeek stream position s = do {
     st \<leftarrow> at (pstreams s) stream;
     if position < ps_volumeSize st then do {
       (_, s) \<leftarrow> diskStreamSeek (ps_diskStream st) (ps_volumeOffset st + position) s;
       Some (SUCCESS, set_ps_position stream position s)
     }
     else Some (- EDISKSPACE, s)
   }"

definition partitionStreamRead ::
  "u64 \<Rightarrow> byte list \<Rightarrow> u64 \<Rightarrow> ('h, 'a) pstream_state_scheme \<Rightarrow>
    (int \<times> byte list \<times> ('h, 'a) pstream_state_scheme) option" where
  "partitionStreamRead stream out length' s = do {
     st \<leftarrow> at (pstreams s) stream;
     if ps_position st + length' > ps_volumeSize st then Some (- EDISKSPACE, out, s)
     else do {
       (ret, out, s) \<leftarrow> diskStreamRead (ps_diskStream st) out length' s;
       Some (ret, out, if ret = SUCCESS then set_ps_position stream (ps_position st + length') s else s)
     }
   }"

definition partitionStreamWrite ::
  "u64 \<Rightarrow> byte list \<Rightarrow> u64 \<Rightarrow> ('h, 'a) pstream_state_scheme \<Rightarrow>
    (int \<times> ('h, 'a) pstream_state_scheme) option" where
  "partitionStreamWrite stream inp length' s = do {
     st \<leftarrow> at (pstreams s) stream;
     if ps_position st + length' > ps_volumeSize st then Some (- EDISKSPACE, s)
     else do {
       (ret, s) \<leftarrow> diskStreamWrite (ps_diskStream st) inp length' s;
       Some (ret, if ret = SUCCESS then set_ps_position stream (ps_position st + length') s else s)
     }
   }"

definition partitionStreamDestroy ::
  "u64 \<Rightarrow> ('h, 'a) pstream_state_scheme \<Rightarrow> ('h, 'a) pstream_state_scheme option" where
  "partitionStreamDestroy stream s = do {
     st \<leftarrow> at (pstreams s) stream;
     (_, s) \<leftarrow> kzfree (ps_diskStream st) s;
     (_, s) \<leftarrow> kzfree stream s;
     Some s
   }"

section \<open>Isolation\<close>

text \<open>
  A stream in step with its disk stream, on a partition inside the disk. \<open>part_pos\<close> is its position
  and \<open>part_bytes\<close> the contents of the partition.
\<close>

definition part_pos :: "u64 \<Rightarrow> ('h, 'a) pstream_state_scheme \<Rightarrow> nat" where
  "part_pos stream s = unat (ps_position (pstreams s stream))"

definition part_base :: "u64 \<Rightarrow> ('h, 'a) pstream_state_scheme \<Rightarrow> nat" where
  "part_base stream s = unat (ps_volumeOffset (pstreams s stream))"

definition part_size :: "u64 \<Rightarrow> ('h, 'a) pstream_state_scheme \<Rightarrow> nat" where
  "part_size stream s = unat (ps_volumeSize (pstreams s stream))"

definition part_bytes :: "('h \<Rightarrow> byte list) \<Rightarrow> u64 \<Rightarrow> ('h, 'a) pstream_state_scheme \<Rightarrow> byte list" where
  "part_bytes content stream s = take (part_size stream s) (drop (part_base stream s) (content (hw s)))"

definition pstream_ok :: "('h \<Rightarrow> byte list) \<Rightarrow> u64 \<Rightarrow> ('h, 'a) pstream_state_scheme \<Rightarrow> bool" where
  "pstream_ok content stream s \<longleftrightarrow> stream \<noteq> 0 \<and>
     stream_ok content (ps_diskStream (pstreams s stream)) s \<and>
     position_of (ps_diskStream (pstreams s stream)) s = part_base stream s + part_pos stream s \<and>
     part_base stream s + part_size stream s \<le> length (content (hw s)) \<and>
     part_pos stream s \<le> part_size stream s"

lemma ps_updates [simp]:
  "pstreams (set_position p n s) = pstreams s"
  "hw (set_ps_position p n t) = hw t" "streams (set_ps_position p n t) = streams t"
  "live (set_ps_position p n t) = live t" "kheap_wf (set_ps_position p n t) = kheap_wf t"
  "stream_ok content q (set_ps_position p n t) = stream_ok content q t"
  "position_of q (set_ps_position p n t) = position_of q t"
proof -
  show "live (set_ps_position p n t) = live t" "kheap_wf (set_ps_position p n t) = kheap_wf t"
    by (rule same_heap; simp add: set_ps_position_def)+
qed (simp_all add: set_position_def set_ps_position_def stream_on_def position_of_def)

lemma set_ps_position_fields [simp]:
  "pstreams (set_ps_position p n t) p = (pstreams t p)\<lparr>ps_position := n\<rparr>"
  by (simp add: set_ps_position_def)

lemma in_partition:
  assumes "pstream_ok content stream s"
  shows "\<not> ps_position (pstreams s stream) + n > ps_volumeSize (pstreams s stream) \<Longrightarrow>
      unat (ps_position (pstreams s stream)) + unat n < 2 ^ 64 \<Longrightarrow>
      part_pos stream s + unat n \<le> part_size stream s"
    and "part_pos stream s + unat n \<le> part_size stream s \<Longrightarrow>
      \<not> ps_position (pstreams s stream) + n > ps_volumeSize (pstreams s stream) \<and>
      unat (ps_position (pstreams s stream) + n) = part_pos stream s + unat n"
proof -
  let ?p = "ps_position (pstreams s stream)"
  show "part_pos stream s + unat n \<le> part_size stream s"
    if "\<not> ?p + n > ps_volumeSize (pstreams s stream)" "unat ?p + unat n < 2 ^ 64"
    using that unat_add_small [of ?p n] by (simp add: part_pos_def part_size_def word_less_nat_alt)
  assume a: "part_pos stream s + unat n \<le> part_size stream s"
  then have "unat (?p + n) = unat ?p + unat n"
    using unat_less_pow64 [of "ps_volumeSize (pstreams s stream)"]
    by (subst unat_add_small) (simp_all add: part_pos_def part_size_def)
  with a show "\<not> ?p + n > ps_volumeSize (pstreams s stream) \<and> unat (?p + n) = part_pos stream s + unat n"
    by (simp add: part_pos_def part_size_def word_less_nat_alt)
qed

lemma partitionStreamRead_cases:
  fixes s :: "('h, 'a) pstream_state_scheme"
  assumes "kheap_wf s" and ok: "pstream_ok content stream s"
    and n: "0 < unat n" "part_pos stream s + unat n < 2 ^ 64" and "unat n \<le> length out"
  shows "if part_size stream s < part_pos stream s + unat n
    then partitionStreamRead stream out n s = Some (- EDISKSPACE, out, s)
    else if no_buffer (part_base stream s + part_pos stream s) (unat n) s
    then partitionStreamRead stream out n s = Some (- ENMEM, out, s)
    else (\<exists>s'. partitionStreamRead stream out n s =
          Some (0, overwrite out 0 (take (unat n) (drop (part_pos stream s) (part_bytes content stream s))), s') \<and>
        part_pos stream s' = part_pos stream s + unat n \<and> content (hw s') = content (hw s) \<and>
        pstream_ok content stream s' \<and> kheap_wf s' \<and> live s' = live s \<and>
        (\<exists>m h p q. s' = set_ps_position stream p (set_position (ps_diskStream (pstreams s stream)) q (s\<lparr>hmem := m, hw := h\<rparr>))))"
proof (cases "part_size stream s < part_pos stream s + unat n")
  case True
  then have "ps_position (pstreams s stream) + n > ps_volumeSize (pstreams s stream)"
    using in_partition(1) [OF ok] n(2) by (fastforce simp: part_pos_def)
  with True ok show ?thesis by (simp add: partitionStreamRead_def at_def pstream_ok_def)
next
  case False
  let ?st = "pstreams s stream"
  let ?ds = "ps_diskStream ?st"
  have i: "\<not> ps_position ?st + n > ps_volumeSize ?st" "unat (ps_position ?st + n) = part_pos stream s + unat n"
    using in_partition(2) [OF ok] False by auto
  have o: "stream \<noteq> 0" "stream_ok content ?ds s" "position_of ?ds s = part_base stream s + part_pos stream s"
    "part_base stream s + part_size stream s \<le> length (content (hw s))"
    using ok by (simp_all add: pstream_ok_def)
  have range: "position_of ?ds s + unat n \<le> length (content (hw s))" using o False by simp
  show ?thesis
  proof (rule diskStreamRead_outcomes [OF assms(1) o(2) n(1) range assms(5)])
    assume "no_buffer (position_of ?ds s) (unat n) s" and "diskStreamRead ?ds out n s = Some (- ENMEM, out, s)"
    then have "no_buffer (part_base stream s + part_pos stream s) (unat n) s"
      "partitionStreamRead stream out n s = Some (- ENMEM, out, s)"
      using i(1) o(1,3) by (simp_all add: partitionStreamRead_def at_def)
    with False show ?thesis by simp
  next
    fix s' :: "('h, 'a) pstream_state_scheme"
    let ?data = "take (unat n) (drop (position_of ?ds s) (content (hw s)))"
    let ?s' = "set_ps_position stream (ps_position ?st + n) s'"
    assume nb: "\<not> no_buffer (position_of ?ds s) (unat n) s" and s': "diskStreamRead ?ds out n s = Some (0, overwrite out 0 ?data, s')"
      "position_of ?ds s' = position_of ?ds s + unat n" "content (hw s') = content (hw s)"
      "kheap_wf s'" "live s' = live s" "stream_ok content ?ds s'"
      and fr: "\<exists>m h. s' = set_position ?ds (stream_position (streams s ?ds) + n) (s\<lparr>hmem := m, hw := h\<rparr>)"
    have ps: "pstreams s' = pstreams s" using fr by auto
    have data: "?data = take (unat n) (drop (part_pos stream s) (part_bytes content stream s))"
      using False o(3) by (simp add: part_bytes_def drop_take add.commute min_absorb1)
    have "partitionStreamRead stream out n s = Some (0, overwrite out 0 ?data, ?s')"
      using i(1) o(1) s'(1) by (simp add: partitionStreamRead_def at_def)
    moreover have "part_pos stream ?s' = part_pos stream s + unat n"
      using i(2) by (simp add: part_pos_def)
    moreover have "pstream_ok content stream ?s'"
      using o s'(2,3,6) i(2) False
      by (simp add: pstream_ok_def ps part_base_def part_size_def part_pos_def)
    ultimately show ?thesis using False nb o(3) s'(3-5) fr unfolding data by auto
  qed
qed

lemma partitionStreamWrite_cases:
  fixes s :: "('h, 'a) pstream_state_scheme"
  assumes "kheap_wf s" and ok: "pstream_ok content stream s"
    and n: "0 < unat n" "part_pos stream s + unat n < 2 ^ 64" and "unat n \<le> length inp"
  shows "\<exists>r s'. r = (if part_size stream s < part_pos stream s + unat n then - EDISKSPACE
      else if no_buffer (part_base stream s + part_pos stream s) (unat n) s then - ENMEM else 0) \<and>
    partitionStreamWrite stream inp n s = Some (r, s') \<and> kheap_wf s' \<and> live s' = live s \<and>
    pstream_ok content stream s' \<and> length (content (hw s')) = length (content (hw s)) \<and>
    (\<forall>i < length (content (hw s)). i < part_base stream s \<or> part_base stream s + part_size stream s \<le> i \<longrightarrow>
      content (hw s') ! i = content (hw s) ! i) \<and>
    (if r = 0 then part_bytes content stream s' =
        overwrite (part_bytes content stream s) (part_pos stream s) (take (unat n) inp) \<and>
        part_pos stream s' = part_pos stream s + unat n \<and>
        (\<exists>m h p q. s' = set_ps_position stream p (set_position (ps_diskStream (pstreams s stream)) q (s\<lparr>hmem := m, hw := h\<rparr>)))
     else s' = s)"
proof (cases "part_size stream s < part_pos stream s + unat n")
  case True
  then have "ps_position (pstreams s stream) + n > ps_volumeSize (pstreams s stream)"
    using in_partition(1) [OF ok] n(2) by (fastforce simp: part_pos_def)
  with True ok have "partitionStreamWrite stream inp n s = Some (- EDISKSPACE, s)"
    by (simp add: partitionStreamWrite_def at_def pstream_ok_def)
  with True ok assms(1) show ?thesis by simp
next
  case False
  let ?st = "pstreams s stream"
  let ?ds = "ps_diskStream ?st"
  let ?C = "content (hw s)" and ?D = "take (unat n) inp"
  have i: "\<not> ps_position ?st + n > ps_volumeSize ?st" "unat (ps_position ?st + n) = part_pos stream s + unat n"
    using in_partition(2) [OF ok] False by auto
  have o: "stream \<noteq> 0" "stream_ok content ?ds s" "position_of ?ds s = part_base stream s + part_pos stream s"
    "part_base stream s + part_size stream s \<le> length ?C"
    using ok by (simp_all add: pstream_ok_def)
  have range: "position_of ?ds s + unat n \<le> length ?C" using o False by simp
  have D: "length ?D = unat n" using assms(5) by simp
  show ?thesis
  proof (rule diskStreamWrite_outcomes [OF assms(1) o(2) n(1) range assms(5)])
    assume "no_buffer (position_of ?ds s) (unat n) s" and "diskStreamWrite ?ds inp n s = Some (- ENMEM, s)"
    then have "no_buffer (part_base stream s + part_pos stream s) (unat n) s"
      "partitionStreamWrite stream inp n s = Some (- ENMEM, s)"
      using i(1) o(1,3) by (simp_all add: partitionStreamWrite_def at_def)
    with False ok assms(1) show ?thesis by simp
  next
    fix s' :: "('h, 'a) pstream_state_scheme"
    let ?s' = "set_ps_position stream (ps_position ?st + n) s'"
    assume nb: "\<not> no_buffer (position_of ?ds s) (unat n) s" and s': "diskStreamWrite ?ds inp n s = Some (0, s')"
      "position_of ?ds s' = position_of ?ds s + unat n"
      "content (hw s') = overwrite ?C (position_of ?ds s) ?D"
      "kheap_wf s'" "live s' = live s" "stream_ok content ?ds s'"
      and fr: "\<exists>m h. s' = set_position ?ds (stream_position (streams s ?ds) + n) (s\<lparr>hmem := m, hw := h\<rparr>)"
    have ps: "pstreams s' = pstreams s" using fr by auto
    have len: "length (content (hw s')) = length ?C" using s'(3) range D by simp
    have out: "content (hw s') ! i = ?C ! i"
      if "i < length ?C" "i < part_base stream s \<or> part_base stream s + part_size stream s \<le> i" for i
      using that s'(3) range D o(3) False by (auto simp: nth_overwrite)
    have ok': "pstream_ok content stream ?s'"
      using o s'(2,6) i(2) False len
      by (simp add: pstream_ok_def ps part_base_def part_size_def part_pos_def)
    have bytes: "part_bytes content stream ?s' = overwrite (part_bytes content stream s) (part_pos stream s) ?D"
    proof (rule nth_equalityI)
      have base: "part_base stream ?s' = part_base stream s" "part_size stream ?s' = part_size stream s"
        by (simp_all add: part_base_def part_size_def ps)
      show "length (part_bytes content stream ?s') = length (overwrite (part_bytes content stream s) (part_pos stream s) ?D)"
        using len o(4) False D by (simp add: part_bytes_def base)
      fix i assume "i < length (part_bytes content stream ?s')"
      then show "part_bytes content stream ?s' ! i = overwrite (part_bytes content stream s) (part_pos stream s) ?D ! i"
        using s'(3) len o(3,4) False D range by (auto simp: part_bytes_def base nth_overwrite)
    qed
    have "partitionStreamWrite stream inp n s = Some (0, ?s')"
      using i(1) o(1) s'(1) by (simp add: partitionStreamWrite_def at_def)
    moreover have "part_pos stream ?s' = part_pos stream s + unat n" using i(2) by (simp add: part_pos_def)
    moreover have "\<not> no_buffer (part_base stream s + part_pos stream s) (unat n) s" using nb o(3) by simp
    ultimately show ?thesis using False s'(4,5) len out ok' bytes fr by auto
  qed
qed


text \<open>
  Property C20. The outcome of reading a positive number of bytes through the stream of a partition. A request beyond the end of
  the partition is refused with \<^verbatim>\<open>-EDISKSPACE\<close>; inside it the read returns \<^verbatim>\<open>-ENMEM\<close> exactly when
  \<^verbatim>\<open>kzalloc\<close> has no buffer for the sectors (\<open>no_buffer\<close>); both change nothing. Otherwise it yields exactly the
  partition's bytes at the stream's position, the stream advances by them and stays in step with its disk stream,
  and the buffer is released.
\<close>

theorem partitionStreamRead_correct:
  fixes s :: "('h, 'a) pstream_state_scheme"
  assumes "kheap_wf s" and ok: "pstream_ok content stream s"
    and n: "0 < unat n" "part_pos stream s + unat n < 2 ^ 64" and "unat n \<le> length out"
  shows "if part_size stream s < part_pos stream s + unat n
    then partitionStreamRead stream out n s = Some (- EDISKSPACE, out, s)
    else if no_buffer (part_base stream s + part_pos stream s) (unat n) s
    then partitionStreamRead stream out n s = Some (- ENMEM, out, s)
    else (\<exists>s'. partitionStreamRead stream out n s =
          Some (0, overwrite out 0 (take (unat n) (drop (part_pos stream s) (part_bytes content stream s))), s') \<and>
        part_pos stream s' = part_pos stream s + unat n \<and> content (hw s') = content (hw s) \<and>
        pstream_ok content stream s' \<and> kheap_wf s' \<and> live s' = live s)"
  using partitionStreamRead_cases [OF assms] by (auto split: if_splits)

text \<open>
  Property C21. Writing through the stream of a partition changes the disk exactly at the stream's position
  in that partition: every byte of the disk outside the partition keeps its value, whatever the
  result. The write fails exactly when the bytes do not end in the partition or the heap has no buffer for their sectors,
  and then changes nothing.
\<close>

theorem partitionStreamWrite_isolated:
  fixes s :: "('h, 'a) pstream_state_scheme"
  assumes "kheap_wf s" and ok: "pstream_ok content stream s"
    and n: "0 < unat n" "part_pos stream s + unat n < 2 ^ 64" and "unat n \<le> length inp"
  shows "\<exists>r s'. partitionStreamWrite stream inp n s = Some (r, s') \<and> kheap_wf s' \<and> live s' = live s \<and>
    pstream_ok content stream s' \<and> length (content (hw s')) = length (content (hw s)) \<and>
    (\<forall>i < length (content (hw s)). i < part_base stream s \<or> part_base stream s + part_size stream s \<le> i \<longrightarrow>
      content (hw s') ! i = content (hw s) ! i) \<and>
    (if r = 0 then part_bytes content stream s' =
        overwrite (part_bytes content stream s) (part_pos stream s) (take (unat n) inp)
     else s' = s) \<and>
    r = (if part_size stream s < part_pos stream s + unat n then - EDISKSPACE
      else if no_buffer (part_base stream s + part_pos stream s) (unat n) s then - ENMEM else 0)"
proof -
  obtain r s' where "partitionStreamWrite stream inp n s = Some (r, s')" "kheap_wf s'" "live s' = live s"
    "pstream_ok content stream s'" "length (content (hw s')) = length (content (hw s))"
    "\<forall>i < length (content (hw s)). i < part_base stream s \<or> part_base stream s + part_size stream s \<le> i \<longrightarrow>
      content (hw s') ! i = content (hw s) ! i"
    "r = 0 \<longrightarrow> part_bytes content stream s' =
        overwrite (part_bytes content stream s) (part_pos stream s) (take (unat n) inp)"
    "r \<noteq> 0 \<longrightarrow> s' = s"
    "r = (if part_size stream s < part_pos stream s + unat n then - EDISKSPACE
      else if no_buffer (part_base stream s + part_pos stream s) (unat n) s then - ENMEM else 0)"
    using partitionStreamWrite_cases [OF assms]
    by (elim exE conjE) (rule that, assumption+, simp, simp, assumption)
  then show ?thesis by (intro exI [of _ r] exI [of _ s'] conjI) (assumption | simp)+
qed

text \<open>
  \<^verbatim>\<open>partitionStreamSeek\<close> does not look at the result of the seek on the disk: when the disk
  stream stands at the end of the disk, seeking inside the partition reports success and moves the
  partition's position, but the disk stream stays, and every read and write of a positive number
  of bytes in the partition fails from then on.
\<close>

theorem partitionStreamSeek_ignores_failure:
  assumes "stream \<noteq> 0" and "p < ps_volumeSize (pstreams s stream)"
    and "ps_diskStream (pstreams s stream) \<noteq> 0"
    and "stream_disk (streams s (ps_diskStream (pstreams s stream))) \<noteq> 0"
    and "disk_sizeBytes (disks s (stream_disk (streams s (ps_diskStream (pstreams s stream)))))
      \<le> stream_position (streams s (ps_diskStream (pstreams s stream)))"
  shows "partitionStreamSeek stream p s = Some (SUCCESS, set_ps_position stream p s) \<and>
    (p + n \<le> ps_volumeSize (pstreams s stream) \<longrightarrow>
      partitionStreamRead stream out n (set_ps_position stream p s) = Some (- ENMEM, out, set_ps_position stream p s) \<and>
      partitionStreamWrite stream inp n (set_ps_position stream p s) = Some (- ENMEM, set_ps_position stream p s))"
proof -
  let ?ds = "ps_diskStream (pstreams s stream)"
  have c: "checkDiskStream ?ds s = Some (- ENMEM)" "checkDiskStream ?ds (set_ps_position stream p s) = Some (- ENMEM)"
    using assms by (simp_all add: checkDiskStream_def at_def set_ps_position_def)
  then show ?thesis
    using assms(1,2)
    by (simp add: partitionStreamSeek_def partitionStreamRead_def partitionStreamWrite_def
        diskStreamSeek_def diskStreamRead_def diskStreamWrite_def at_def flip: not_le)
qed

text \<open>A partition of one sector, the second of a disk of two, for the witnesses.\<close>

definition ram_part :: "heap_page \<Rightarrow> u64 \<Rightarrow> byte list pstream_state" where
  "ram_part hp pos = \<lparr>hmem = hmem hp, table_size = table_size hp, tableMaxSize = tableMaxSize hp,
     bent = (\<lambda>_. zero_entry), lvlTable = (\<lambda>_. 0), tmeta = tmeta blank_buddy,
     tableStartAddress = 0, lowerMemorySize = 0, heapSize = 0, maxLvl = 0, maxPage = 0, minPage = 0,
     selected = KERNEL_HEAP_TYPE_PAGE, memoryMap = [], memoryMapLength = 0, upperMemorySize = 0, totalMemorySize = 0, loadedTable = 0,
     kernelPageTable = 0, allocatedDataStructList = [], allocatedData = 0, allocatedSize = 0, currVirtualAddress = 0,
     tablesAvailable = 0, tableAddressList = [], systemDescriptorTableAddress = 0,
     pciStore = (\<lambda>_. no_device), headers = (\<lambda>_. no_header), deviceHeaders = (\<lambda>_. no_deviceHeader),
     barInfos = (\<lambda>_. no_barInfo), pciDevices = replicate 15 0, nextDevicesIndex = 0, hw = replicate 600 65 @ replicate 424 66,
     drivers = (\<lambda>_. ram_driver), driverList = 8 # replicate 11 0, nextDriver = 1, disks = (\<lambda>_. ram_disk),
     diskList = 8 # replicate 254 0, partitionList = replicate 1020 None, currentDisk = 1,
     currentPartition = 0, currentPartitionLabel = 67,
     streams = (\<lambda>_. \<lparr>stream_disk = 8, stream_position = 512 + pos\<rparr>),
     pstreams = (\<lambda>_. \<lparr>ps_label = 67, ps_position = pos, ps_volumeOffset = 512, ps_volumeSize = 512, ps_diskStream = 8\<rparr>)\<rparr>"

lemma ram_part_heap: "kheap_wf (ram_part small_heap pos)" "live (ram_part small_heap pos) = {}"
proof -
  have "live (ram_part small_heap pos) = live (kheap_of small_heap)"
    "kheap_wf (ram_part small_heap pos) \<longleftrightarrow> kheap_wf (kheap_of small_heap)"
    by (rule same_heap; simp add: ram_part_def kheap_of_def)+
  then show "kheap_wf (ram_part small_heap pos)" "live (ram_part small_heap pos) = {}"
    by (simp_all add: small_heap_wf small_heap_live)
qed

lemma ram_part_ok: "unat pos \<le> 512 \<Longrightarrow> pstream_ok (\<lambda>h. h) 8 (ram_part hp pos)"
  using ram_driver_lawful unat_add_small [of "512 :: u64" pos]
  by (simp add: pstream_ok_def stream_on_def ram_part_def ram_disk_def part_base_def part_pos_def
      part_size_def position_of_def)

lemma ram_part_simps:
  "part_pos 8 (ram_part hp pos) = unat pos" "part_size 8 (ram_part hp pos) = 512" "part_base 8 (ram_part hp pos) = 512"
  "hw (ram_part hp pos) = replicate 600 65 @ replicate 424 66"
  by (simp_all add: part_pos_def part_size_def part_base_def ram_part_def)

lemma ram_part_buffer: "\<not> no_buffer (512 + pos) n (ram_part small_heap p)" if "pos + n \<le> 512" "0 < n"
proof -
  have "sector_bytes (512 + pos) n \<le> 1024" "0 < sector_bytes (512 + pos) n"
    using that by (auto simp: sector_bytes_def div_le_mono less_mult_imp_div_less div_greater_zero_iff)
  moreover from this have "unat (of_nat (sector_bytes (512 + pos) n) :: u64) = sector_bytes (512 + pos) n"
    by (simp add: unsigned_of_nat take_bit_nat_eq_self)
  ultimately have "size_ok (of_nat (sector_bytes (512 + pos) n))" "pages_for (of_nat (sector_bytes (512 + pos) n)) \<le> 4"
    by (simp_all add: size_ok_def pages_for_def word_less_nat_alt)
  then show ?thesis
    unfolding no_buffer_def by (intro small_heap_serves ram_part_heap) (simp_all add: ram_part_def)
qed

theorem partitionStreamRead_correct_witness:
  "partitionStreamRead 8 (replicate 100 0) 100 (ram_part small_heap 450) =
     Some (- EDISKSPACE, replicate 100 0, ram_part small_heap 450) \<and>
   (\<exists>s'. partitionStreamRead 8 (replicate 100 0) 100 (ram_part small_heap 0) =
      Some (0, replicate 88 65 @ replicate 12 66, s') \<and> part_pos 8 s' = 100)"
proof -
  have d: "take 100 (drop 0 (part_bytes (\<lambda>h. h) 8 (ram_part small_heap 0))) = replicate 88 65 @ replicate 12 66"
    by (simp add: part_bytes_def ram_part_simps)
  show ?thesis
    using partitionStreamRead_correct [OF ram_part_heap(1) ram_part_ok, of 450 100 "replicate 100 0"]
      partitionStreamRead_correct [OF ram_part_heap(1) ram_part_ok, of 0 100 "replicate 100 0"]
      ram_part_buffer [of 0 100 0] d
    by (auto simp: ram_part_simps overwrite_def)
qed

theorem partitionStreamWrite_isolated_witness:
  "\<exists>s'. partitionStreamWrite 8 (replicate 100 67) 100 (ram_part small_heap 0) = Some (0, s') \<and>
     (\<forall>i < 512. hw s' ! i = 65)"
  using partitionStreamWrite_isolated [OF ram_part_heap(1) ram_part_ok, of 0 100 "replicate 100 67"]
    ram_part_buffer [of 0 100 0]
  by (fastforce simp: ram_part_simps nth_append)

theorem partitionStreamSeek_ignores_failure_witness:
  "partitionStreamSeek 8 0 (ram_part small_heap 512) = Some (0, set_ps_position 8 0 (ram_part small_heap 512)) \<and>
   partitionStreamRead 8 [0] 1 (set_ps_position 8 0 (ram_part small_heap 512)) =
     Some (- ENMEM, [0], set_ps_position 8 0 (ram_part small_heap 512))"
  using partitionStreamSeek_ignores_failure [of 8 0 "ram_part small_heap 512" 1 "[0]" "[]"]
  by (simp add: ram_part_def ram_disk_def)

end
