(* ===== verification/Byte_Stream.thy ===== *)
theory Byte_Stream
  imports Partition_Stream
begin

text \<open>
  What disk streams and partition streams have in common: the locale \<open>byte_stream\<close> is the contract of seek, read
  and write on a sequence of bytes with a position. What follows from it is proved once; both
  kinds of streams meet it.
\<close>

section \<open>The contract\<close>

text \<open>
  \<open>bytes\<close> are the contents and \<open>position\<close> is the place of the next transfer. A request that \<open>fits\<close> finds no buffer when the
  heap is \<open>full\<close> for it, and changes nothing; otherwise it transfers the bytes. How full the heap is does not change. A
  stream at the end of its bytes cannot be moved.
\<close>

locale byte_stream =
  fixes inv :: "'s \<Rightarrow> bool"
    and fits :: "u64 \<Rightarrow> nat \<Rightarrow> bool"
    and full :: "nat \<Rightarrow> u64 \<Rightarrow> 's \<Rightarrow> bool"
    and reads :: "byte list \<Rightarrow> u64 \<Rightarrow> 's \<Rightarrow> (int \<times> byte list \<times> 's) option"
    and writes :: "byte list \<Rightarrow> u64 \<Rightarrow> 's \<Rightarrow> (int \<times> 's) option"
    and seeks :: "u64 \<Rightarrow> 's \<Rightarrow> (int \<times> 's) option"
    and position :: "'s \<Rightarrow> nat"
    and bytes :: "'s \<Rightarrow> byte list"
  assumes read_law: "\<lbrakk> inv s; fits n (position s); 0 < unat n; position s + unat n \<le> length (bytes s); unat n \<le> length out \<rbrakk> \<Longrightarrow>
      if full (position s) n s then reads out n s = Some (- ENMEM, out, s)
      else (\<exists>s'. reads out n s = Some (0, overwrite out 0 (take (unat n) (drop (position s) (bytes s))), s') \<and>
        inv s' \<and> position s' = position s + unat n \<and> bytes s' = bytes s \<and> (\<forall>p m. full p m s' = full p m s))"
    and write_law: "\<lbrakk> inv s; fits n (position s); 0 < unat n; position s + unat n \<le> length (bytes s); unat n \<le> length inp \<rbrakk> \<Longrightarrow>
      if full (position s) n s then writes inp n s = Some (- ENMEM, s)
      else (\<exists>s'. writes inp n s = Some (0, s') \<and> inv s' \<and> position s' = position s + unat n \<and>
        bytes s' = overwrite (bytes s) (position s) (take (unat n) inp) \<and> (\<forall>p m. full p m s' = full p m s))"
    and seek_law: "\<lbrakk> inv s; position s < length (bytes s); unat p < length (bytes s) \<rbrakk> \<Longrightarrow>
      \<exists>s'. seeks p s = Some (0, s') \<and> inv s' \<and> position s' = unat p \<and> bytes s' = bytes s \<and>
        (\<forall>p m. full p m s' = full p m s)"
begin

lemma read_done:
  assumes "inv s" "fits n (position s)" "0 < unat n" "position s + unat n \<le> length (bytes s)" "unat n \<le> length out"
    and "\<not> full (position s) n s"
  obtains out' s' where "reads out n s = Some (0, out', s')" "inv s'" "position s' = position s + unat n" "bytes s' = bytes s"
    "take (unat n) out' = take (unat n) (drop (position s) (bytes s))" "\<forall>p m. full p m s' = full p m s"
proof -
  obtain s' where "reads out n s = Some (0, overwrite out 0 (take (unat n) (drop (position s) (bytes s))), s')"
    "inv s'" "position s' = position s + unat n" "bytes s' = bytes s" "\<forall>p m. full p m s' = full p m s"
    using read_law [OF assms(1-5)] assms(6) by auto
  moreover have "take (unat n) (overwrite out 0 (take (unat n) (drop (position s) (bytes s)))) =
      take (unat n) (drop (position s) (bytes s))"
    using assms(4) by (simp add: overwrite_def)
  ultimately show thesis using that by blast
qed

text \<open>What was written is read back, and the other bytes are as they were. If there was a buffer for the write, there is one for the read.\<close>

lemma write_read:
  assumes s: "inv s" "fits n (position s)" "0 < unat n" "position s + unat n < length (bytes s)"
    and buf: "unat n \<le> length inp" "unat n \<le> length out" and p: "unat p = position s"
  shows "if full (position s) n s then writes inp n s = Some (- ENMEM, s)
    else (\<exists>s1 s2 s3. writes inp n s = Some (0, s1) \<and> seeks p s1 = Some (0, s2) \<and>
      reads out n s2 = Some (0, overwrite out 0 (take (unat n) inp), s3) \<and> position s3 = position s + unat n \<and> inv s3 \<and>
      bytes s3 = overwrite (bytes s) (position s) (take (unat n) inp))"
proof (cases "full (position s) n s")
  case True
  then show ?thesis using write_law [OF s(1-3) _ buf(1)] s(4) by auto
next
  case room: False
  have le: "position s + unat n \<le> length (bytes s)" using s(4) by simp
  obtain s1 where w: "writes inp n s = Some (0, s1)" "inv s1" "position s1 = position s + unat n"
    "bytes s1 = overwrite (bytes s) (position s) (take (unat n) inp)" "\<And>p m. full p m s1 = full p m s"
    using write_law [OF s(1-3) le buf(1)] room by auto
  have len: "length (bytes s1) = length (bytes s)" using w(4) le buf(1) by simp
  obtain s2 where k: "seeks p s1 = Some (0, s2)" "inv s2" "position s2 = position s" "bytes s2 = bytes s1"
    "\<And>p m. full p m s2 = full p m s1"
    using seek_law [OF w(2), of p] w(3) len s(4) p by auto
  have r: "fits n (position s2)" "position s2 + unat n \<le> length (bytes s2)" "\<not> full (position s2) n s2"
    using s(2) le k(3-5) w(5) room len by auto
  have "\<exists>s3. reads out n s2 = Some (0, overwrite out 0 (take (unat n) (drop (position s2) (bytes s2))), s3) \<and> inv s3 \<and>
      position s3 = position s2 + unat n \<and> bytes s3 = bytes s2"
    using read_law [OF k(2) r(1) s(3) r(2) buf(2)] r(3) by auto
  moreover have "take (unat n) (drop (position s) (bytes s1)) = take (unat n) inp"
    using read_overwrite [of "position s" "take (unat n) inp" "bytes s"] w(4) le buf(1) by simp
  ultimately show ?thesis using room w(1,4) k(1,3,4) by (metis (no_types, lifting))
qed

text \<open>Reading in two portions yields the bytes of one longer read.\<close>

lemma read_portions:
  assumes s: "inv s" "fits n (position s)" "fits m (position s + unat n)" "0 < unat n" "0 < unat m"
      "position s + unat n + unat m \<le> length (bytes s)"
    and buf: "unat n \<le> length out1" "unat m \<le> length out2"
    and room: "\<not> full (position s) n s" "\<not> full (position s + unat n) m s"
  shows "\<exists>b1 s1 b2 s2. reads out1 n s = Some (0, b1, s1) \<and> reads out2 m s1 = Some (0, b2, s2) \<and>
    take (unat n) b1 @ take (unat m) b2 = take (unat n + unat m) (drop (position s) (bytes s)) \<and>
    position s2 = position s + unat n + unat m \<and> bytes s2 = bytes s"
proof -
  have le: "position s + unat n \<le> length (bytes s)" using s(6) by simp
  obtain b1 s1 where a: "reads out1 n s = Some (0, b1, s1)" "inv s1" "position s1 = position s + unat n" "bytes s1 = bytes s"
    "take (unat n) b1 = take (unat n) (drop (position s) (bytes s))" "\<forall>p m. full p m s1 = full p m s"
    using read_done [OF s(1,2,4) le buf(1) room(1)] by blast
  obtain b2 s2 where b: "reads out2 m s1 = Some (0, b2, s2)" "position s2 = position s1 + unat m" "bytes s2 = bytes s1"
    "take (unat m) b2 = take (unat m) (drop (position s1) (bytes s1))"
    by (rule read_done [OF a(2) _ s(5) _ buf(2)]) (use s(3,6) a(3,4,6) room(2) in auto)
  have "take (unat n + unat m) (drop (position s) (bytes s)) =
      take (unat n) (drop (position s) (bytes s)) @ take (unat m) (drop (position s + unat n) (bytes s))"
    unfolding take_add drop_drop by (simp add: add.commute)
  then have "take (unat n) b1 @ take (unat m) b2 = take (unat n + unat m) (drop (position s) (bytes s))"
    using a(3-5) b(4) by simp
  then show ?thesis using a(1,3,4) b(1-3) by auto
qed

end

section \<open>A full heap\<close>

text \<open>The heap is full for a transfer when the live blocks leave no run of pages for the sectors that it touches.\<close>

definition heap_full :: "nat \<Rightarrow> nat \<Rightarrow> 'a kheap_scheme \<Rightarrow> bool" where
  "heap_full pos n s \<longleftrightarrow> no_run ((sector_bytes pos n + 4095) div 4096) (live s) (unat (table_size s))"

lemma heap_full_cong: "live t = live s \<Longrightarrow> table_size t = table_size s \<Longrightarrow> heap_full pos n t = heap_full pos n s"
  for s :: "'a kheap_scheme" and t :: "'b kheap_scheme"
  by (simp add: heap_full_def)

lemma heap_full_updates [simp]:
  "heap_full pos n (set_position p q s) = heap_full pos n s"
  "heap_full pos n (set_ps_position p q t) = heap_full pos n t"
  by (rule heap_full_cong, simp, simp add: set_position_def set_ps_position_def)+

lemma heap_full_stream:
  fixes s :: "('h, 'a) disk_state_scheme"
  assumes "live s' = live s" "\<exists>m h. s' = set_position stream p (s\<lparr>hmem := m, hw := h\<rparr>)"
  shows "heap_full pos n s' = heap_full pos n s"
  using assms by (intro heap_full_cong) (auto simp: set_position_def)

lemma heap_full_buffer:
  fixes n :: u64
  assumes "kheap_wf s" "stream_on sizes ready content stream s" "0 < unat n"
    "position_of stream s + unat n \<le> length (content (hw s))"
  shows "heap_full (position_of stream s) (unat n) s \<longleftrightarrow> no_buffer (position_of stream s) (unat n) s"
  using no_buffer_iff [OF assms(1)] transfer_buffer(2,3) [OF assms(2-4)] by (simp add: heap_full_def)

section \<open>Disk streams\<close>

text \<open>The size in bytes times 512 must be a number of 64 bits, for the bound of the seek.\<close>

definition disk_inv :: "(nat \<Rightarrow> bool) \<Rightarrow> ('h \<Rightarrow> bool) \<Rightarrow> ('h \<Rightarrow> byte list) \<Rightarrow> u64 \<Rightarrow> ('h, 'a) disk_state_scheme \<Rightarrow> bool" where
  "disk_inv sizes ready content stream s \<longleftrightarrow> kheap_wf s \<and> stream_on sizes ready content stream s \<and> length (content (hw s)) < 2 ^ 55"

definition disk_fits :: "(nat \<Rightarrow> bool) \<Rightarrow> u64 \<Rightarrow> nat \<Rightarrow> bool" where
  "disk_fits sizes n pos \<longleftrightarrow> sizes 1 \<and> sizes ((pos mod 512 + unat n + 511) div 512)"

lemma diskStreamSeek_on:
  fixes s :: "('h, 'a) disk_state_scheme"
  assumes ok: "stream_on sizes ready content stream s" "length (content (hw s)) < 2 ^ 55"
    and p: "position_of stream s < length (content (hw s))" "unat p < length (content (hw s))"
  shows "diskStreamSeek stream p s = Some (0, set_position stream p s)"
proof -
  let ?dk = "disks s (stream_disk (streams s stream))"
  have d: "stream \<noteq> 0" "at (disks s) (stream_disk (streams s stream)) = Some ?dk"
    "unat (disk_sizeBytes ?dk) = length (content (hw s))"
    using ok(1) by (simp_all add: stream_on_def Let_def at_def)
  have "unat (disk_sizeBytes ?dk * 512) = length (content (hw s)) * 512"
    using d(3) ok(2) by (subst unat_mult_small) simp_all
  then have "\<not> p > disk_sizeBytes ?dk * 512" using p(2) by (simp add: word_less_nat_alt)
  moreover have "\<not> stream_position (streams s stream) \<ge> disk_sizeBytes ?dk"
    using p(1) d(3) by (simp add: position_of_def word_le_nat_alt)
  ultimately show ?thesis using d(1,2) by (simp add: diskStreamSeek_def checkDiskStream_def)
qed

interpretation dsk: byte_stream "disk_inv sizes ready content stream" "disk_fits sizes" "\<lambda>p n. heap_full p (unat n)"
  "diskStreamRead stream" "diskStreamWrite stream" "diskStreamSeek stream" "position_of stream" "\<lambda>s. content (hw s)"
  for sizes ready content stream
proof
  fix s :: "('a, 'b) disk_state_scheme" and n :: u64 and out :: "byte list"
  assume a: "disk_inv sizes ready content stream s" "disk_fits sizes n (position_of stream s)" "0 < unat n"
    "position_of stream s + unat n \<le> length (content (hw s))" "unat n \<le> length out"
  then have i: "kheap_wf s" "stream_on sizes ready content stream s" "length (content (hw s)) < 2 ^ 55"
    by (simp_all add: disk_inv_def)
  have sz: "sizes 1" "sizes (unat (totalLba (stream_position (streams s stream) mod 512) n))"
    using a(2) transfer_bounds(7) [OF i(2) a(3,4)] by (simp_all add: disk_fits_def position_of_def)
  note full = heap_full_buffer [OF i(1,2) a(3,4)]
  show "if heap_full (position_of stream s) (unat n) s then diskStreamRead stream out n s = Some (- ENMEM, out, s)
    else (\<exists>s'. diskStreamRead stream out n s = Some (0, overwrite out 0 (take (unat n) (drop (position_of stream s) (content (hw s)))), s') \<and>
      disk_inv sizes ready content stream s' \<and> position_of stream s' = position_of stream s + unat n \<and>
      content (hw s') = content (hw s) \<and> (\<forall>p m. heap_full p (unat m) s' = heap_full p (unat m) s))"
  proof (rule diskStreamRead_outcome [OF i(1,2) a(3-5) sz(2)])
    assume "no_buffer (position_of stream s) (unat n) s" "diskStreamRead stream out n s = Some (- ENMEM, out, s)"
    with full show ?thesis by simp
  next
    fix s'
    assume r: "\<not> no_buffer (position_of stream s) (unat n) s"
      "diskStreamRead stream out n s = Some (0, overwrite out 0 (take (unat n) (drop (position_of stream s) (content (hw s)))), s')"
      "position_of stream s' = position_of stream s + unat n"
      "content (hw s') = content (hw s)"
      "kheap_wf s'" "live s' = live s" "stream_on sizes ready content stream s'"
      "\<exists>m h. s' = set_position stream (stream_position (streams s stream) + n) (s\<lparr>hmem := m, hw := h\<rparr>)"
    have "\<forall>p m. heap_full p (unat m) s' = heap_full p (unat m) s" using heap_full_stream [OF r(6,8)] by blast
    with r(1-7) show ?thesis using i(3) full by (simp add: disk_inv_def)
  qed
  show "if heap_full (position_of stream s) (unat n) s then diskStreamWrite stream out n s = Some (- ENMEM, s)
    else (\<exists>s'. diskStreamWrite stream out n s = Some (0, s') \<and> disk_inv sizes ready content stream s' \<and>
      position_of stream s' = position_of stream s + unat n \<and>
      content (hw s') = overwrite (content (hw s)) (position_of stream s) (take (unat n) out) \<and>
      (\<forall>p m. heap_full p (unat m) s' = heap_full p (unat m) s))"
  proof (rule diskStreamWrite_outcome [OF i(1,2) a(3-5) sz])
    assume "no_buffer (position_of stream s) (unat n) s" "diskStreamWrite stream out n s = Some (- ENMEM, s)"
    with full show ?thesis by simp
  next
    fix s'
    assume r: "\<not> no_buffer (position_of stream s) (unat n) s"
      "diskStreamWrite stream out n s = Some (0, s')"
      "position_of stream s' = position_of stream s + unat n"
      "content (hw s') = overwrite (content (hw s)) (position_of stream s) (take (unat n) out)"
      "kheap_wf s'" "live s' = live s" "stream_on sizes ready content stream s'"
      "\<exists>m h. s' = set_position stream (stream_position (streams s stream) + n) (s\<lparr>hmem := m, hw := h\<rparr>)"
    have "\<forall>p m. heap_full p (unat m) s' = heap_full p (unat m) s" using heap_full_stream [OF r(6,8)] by blast
    with r(1-7) show ?thesis using i(3) a(4,5) full by (simp add: disk_inv_def)
  qed
next
  fix s :: "('a, 'b) disk_state_scheme" and p :: u64
  assume a: "disk_inv sizes ready content stream s" "position_of stream s < length (content (hw s))" "unat p < length (content (hw s))"
  then have "diskStreamSeek stream p s = Some (0, set_position stream p s)"
    by (intro diskStreamSeek_on [of sizes ready content]) (simp_all add: disk_inv_def)
  with a(1) show "\<exists>s'. diskStreamSeek stream p s = Some (0, s') \<and> disk_inv sizes ready content stream s' \<and>
      position_of stream s' = unat p \<and> content (hw s') = content (hw s) \<and>
      (\<forall>p m. heap_full p (unat m) s' = heap_full p (unat m) s)"
    by (simp add: disk_inv_def heap_full_updates)
qed

section \<open>Partition streams\<close>

definition part_inv :: "('h \<Rightarrow> byte list) \<Rightarrow> u64 \<Rightarrow> ('h, 'a) pstream_state_scheme \<Rightarrow> bool" where
  "part_inv content stream s \<longleftrightarrow> kheap_wf s \<and> pstream_ok content stream s \<and> length (content (hw s)) < 2 ^ 55"

lemma length_part_bytes: "pstream_ok content stream s \<Longrightarrow> length (part_bytes content stream s) = part_size stream s"
  by (auto simp: pstream_ok_def part_bytes_def min_def)

lemma part_bytes_same:
  assumes "content (hw t) = content (hw s)"
    and "\<exists>m h p q. t = set_ps_position stream p (set_position d q (s\<lparr>hmem := m, hw := h\<rparr>))"
  shows "part_bytes content stream t = part_bytes content stream s"
  using assms by (auto simp: part_bytes_def part_size_def part_base_def)

lemma part_frame:
  assumes "live t = live s"
    and "\<exists>m h p q. t = set_ps_position stream p (set_position (ps_diskStream (pstreams s stream)) q (s\<lparr>hmem := m, hw := h\<rparr>))"
  shows "part_base stream t = part_base stream s" "heap_full pos n t = heap_full pos n s"
proof -
  show "part_base stream t = part_base stream s" using assms(2) by (auto simp: part_base_def)
  show "heap_full pos n t = heap_full pos n s"
    using assms by (intro heap_full_cong) (auto simp: set_position_def set_ps_position_def)
qed

lemma part_full_buffer:
  fixes n :: u64
  assumes "kheap_wf s" "pstream_ok content stream s" "0 < unat n" "part_pos stream s + unat n \<le> part_size stream s"
  shows "heap_full (part_base stream s + part_pos stream s) (unat n) s \<longleftrightarrow>
    no_buffer (part_base stream s + part_pos stream s) (unat n) s"
proof -
  have o: "stream_ok content (ps_diskStream (pstreams s stream)) s"
    "position_of (ps_diskStream (pstreams s stream)) s = part_base stream s + part_pos stream s"
    "part_base stream s + part_size stream s \<le> length (content (hw s))"
    using assms(2) by (simp_all add: pstream_ok_def)
  show ?thesis using heap_full_buffer [OF assms(1) o(1) assms(3)] o(2,3) assms(4) by simp
qed

lemma partitionStreamSeek_ok:
  fixes s :: "('h, 'a) pstream_state_scheme"
  assumes inv: "part_inv content stream s" and pos: "part_pos stream s < part_size stream s" and p: "unat p < part_size stream s"
  shows "\<exists>s'. partitionStreamSeek stream p s = Some (0, s') \<and> part_inv content stream s' \<and> part_pos stream s' = unat p \<and>
    part_bytes content stream s' = part_bytes content stream s \<and>
    (\<forall>p m. heap_full (part_base stream s' + p) (unat m) s' = heap_full (part_base stream s + p) (unat m) s)"
proof -
  let ?st = "pstreams s stream"
  let ?ds = "ps_diskStream ?st" and ?q = "ps_volumeOffset ?st + p"
  have o: "stream \<noteq> 0" "stream_ok content ?ds s" "position_of ?ds s = part_base stream s + part_pos stream s"
    "part_base stream s + part_size stream s \<le> length (content (hw s))" "length (content (hw s)) < 2 ^ 55" "kheap_wf s"
    using inv by (simp_all add: part_inv_def pstream_ok_def)
  have q: "unat ?q = part_base stream s + unat p"
    using o(4,5) p by (subst unat_add_small) (simp_all add: part_base_def)
  have "diskStreamSeek ?ds ?q s = Some (0, set_position ?ds ?q s)"
    by (rule diskStreamSeek_on [OF o(2,5)]) (use o(3,4) pos p q in simp_all)
  moreover have "p < ps_volumeSize ?st" using p by (simp add: part_size_def word_less_nat_alt)
  ultimately have run: "partitionStreamSeek stream p s = Some (0, set_ps_position stream p (set_position ?ds ?q s))"
    using o(1) by (simp add: partitionStreamSeek_def at_def)
  let ?s = "set_ps_position stream p (set_position ?ds ?q s)"
  have f: "part_base stream ?s = part_base stream s" "part_size stream ?s = part_size stream s" "part_pos stream ?s = unat p"
    by (simp_all add: part_base_def part_size_def part_pos_def)
  have "part_inv content stream ?s"
    using o p q f by (simp add: part_inv_def pstream_ok_def)
  moreover have "part_bytes content stream ?s = part_bytes content stream s" by (simp add: part_bytes_def f)
  ultimately show ?thesis using run f(1,3) by auto
qed

interpretation prt: byte_stream "part_inv content stream" "\<lambda>_ _. True"
  "\<lambda>p n s. heap_full (part_base stream s + p) (unat n) s"
  "partitionStreamRead stream" "partitionStreamWrite stream" "partitionStreamSeek stream" "part_pos stream" "part_bytes content stream"
  for content stream
proof
  fix s :: "('a, 'b) pstream_state_scheme" and n :: u64 and out :: "byte list"
  assume a: "part_inv content stream s" "0 < unat n" "part_pos stream s + unat n \<le> length (part_bytes content stream s)" "unat n \<le> length out"
  then have i: "kheap_wf s" "pstream_ok content stream s" "length (content (hw s)) < 2 ^ 55" by (simp_all add: part_inv_def)
  have n: "\<not> part_size stream s < part_pos stream s + unat n" "part_pos stream s + unat n < 2 ^ 64"
    using a(3) length_part_bytes [OF i(2)] unat_less_pow64 [of "ps_volumeSize (pstreams s stream)"]
    by (simp_all add: part_size_def)
  have full: "heap_full (part_base stream s + part_pos stream s) (unat n) s =
      no_buffer (part_base stream s + part_pos stream s) (unat n) s"
    using part_full_buffer [OF i(1,2) a(2)] n(1) by simp
  show "if heap_full (part_base stream s + part_pos stream s) (unat n) s then partitionStreamRead stream out n s = Some (- ENMEM, out, s)
    else (\<exists>s'. partitionStreamRead stream out n s = Some (0, overwrite out 0 (take (unat n) (drop (part_pos stream s) (part_bytes content stream s))), s') \<and>
      part_inv content stream s' \<and> part_pos stream s' = part_pos stream s + unat n \<and>
      part_bytes content stream s' = part_bytes content stream s \<and>
      (\<forall>p m. heap_full (part_base stream s' + p) (unat m) s' = heap_full (part_base stream s + p) (unat m) s))"
  proof (cases "heap_full (part_base stream s + part_pos stream s) (unat n) s")
    case True
    then show ?thesis using partitionStreamRead_cases [OF i(1,2) a(2) n(2) a(4)] full n(1) by simp
  next
    case False
    then obtain s' where r: "partitionStreamRead stream out n s =
        Some (0, overwrite out 0 (take (unat n) (drop (part_pos stream s) (part_bytes content stream s))), s')"
      "part_pos stream s' = part_pos stream s + unat n" "content (hw s') = content (hw s)"
      "pstream_ok content stream s'" "kheap_wf s'" "live s' = live s"
      "\<exists>m h p q. s' = set_ps_position stream p (set_position (ps_diskStream (pstreams s stream)) q (s\<lparr>hmem := m, hw := h\<rparr>))"
      using partitionStreamRead_cases [OF i(1,2) a(2) n(2) a(4)] full n(1) by (simp only: if_False simp_thms) blast
    then show ?thesis
      using False i(3) part_bytes_same [OF r(3,7)] part_frame [OF r(6,7)] by (simp add: part_inv_def)
  qed
  show "if heap_full (part_base stream s + part_pos stream s) (unat n) s then partitionStreamWrite stream out n s = Some (- ENMEM, s)
    else (\<exists>s'. partitionStreamWrite stream out n s = Some (0, s') \<and> part_inv content stream s' \<and> part_pos stream s' = part_pos stream s + unat n \<and>
      part_bytes content stream s' = overwrite (part_bytes content stream s) (part_pos stream s) (take (unat n) out) \<and>
      (\<forall>p m. heap_full (part_base stream s' + p) (unat m) s' = heap_full (part_base stream s + p) (unat m) s))"
  proof (cases "heap_full (part_base stream s + part_pos stream s) (unat n) s")
    case True
    then show ?thesis using partitionStreamWrite_cases [OF i(1,2) a(2) n(2) a(4)] full n(1) by auto
  next
    case False
    obtain r s' where w: "r = (if part_size stream s < part_pos stream s + unat n then - EDISKSPACE
          else if no_buffer (part_base stream s + part_pos stream s) (unat n) s then - ENMEM else 0)"
      "partitionStreamWrite stream out n s = Some (r, s')" "kheap_wf s'" "live s' = live s"
      "pstream_ok content stream s'" "length (content (hw s')) = length (content (hw s))"
      "if r = 0 then part_bytes content stream s' = overwrite (part_bytes content stream s) (part_pos stream s) (take (unat n) out) \<and>
        part_pos stream s' = part_pos stream s + unat n \<and>
        (\<exists>m h p q. s' = set_ps_position stream p (set_position (ps_diskStream (pstreams s stream)) q (s\<lparr>hmem := m, hw := h\<rparr>)))
       else s' = s"
      using partitionStreamWrite_cases [OF i(1,2) a(2) n(2) a(4)] by (elim exE conjE) (rule that)
    moreover have r: "r = 0" using w(1) False full n(1) by simp
    ultimately have r: "partitionStreamWrite stream out n s = Some (0, s')" "kheap_wf s'" "live s' = live s"
      "pstream_ok content stream s'" "length (content (hw s')) = length (content (hw s))"
      "part_bytes content stream s' = overwrite (part_bytes content stream s) (part_pos stream s) (take (unat n) out)"
      "part_pos stream s' = part_pos stream s + unat n"
      "\<exists>m h p q. s' = set_ps_position stream p (set_position (ps_diskStream (pstreams s stream)) q (s\<lparr>hmem := m, hw := h\<rparr>))"
      by (simp_all only: if_True simp_thms)
    then show ?thesis using False i(3) part_frame [OF r(3,8)] by (simp add: part_inv_def)
  qed
next
  fix s :: "('a, 'b) pstream_state_scheme" and p :: u64
  assume a: "part_inv content stream s" "part_pos stream s < length (part_bytes content stream s)" "unat p < length (part_bytes content stream s)"
  then have "length (part_bytes content stream s) = part_size stream s" by (intro length_part_bytes) (simp add: part_inv_def)
  with a show "\<exists>s'. partitionStreamSeek stream p s = Some (0, s') \<and> part_inv content stream s' \<and>
      part_pos stream s' = unat p \<and> part_bytes content stream s' = part_bytes content stream s \<and>
      (\<forall>p m. heap_full (part_base stream s' + p) (unat m) s' = heap_full (part_base stream s + p) (unat m) s)"
    by (intro partitionStreamSeek_ok) simp_all
qed

section \<open>Properties\<close>

text \<open>
  Property C22. Bytes survive on a partition of a disk below \<open>2 ^ 55\<close> bytes. A write that ends before the end of the partition returns \<^verbatim>\<open>-ENMEM\<close> and
  changes nothing exactly when \<^verbatim>\<open>kzalloc\<close> has no buffer for the sectors. Otherwise it succeeds, the seek back to where it
  began succeeds, and a read of the same length succeeds: it returns the bytes that were written and leaves the stream behind them, and
  all other bytes of the partition are as they were before the write. The bytes must end before the end of the
  partition, since a stream that has reached the end of its disk cannot be moved back.
\<close>

theorem partition_write_read:
  fixes s :: "('h, 'a) pstream_state_scheme"
  assumes "part_inv content stream s" and "0 < unat n" and "part_pos stream s + unat n < part_size stream s"
    and "unat n \<le> length inp" and "unat n \<le> length out" and "unat p = part_pos stream s"
  shows "if no_buffer (part_base stream s + part_pos stream s) (unat n) s
    then partitionStreamWrite stream inp n s = Some (- ENMEM, s)
    else (\<exists>s1 s2 s3. partitionStreamWrite stream inp n s = Some (0, s1) \<and> partitionStreamSeek stream p s1 = Some (0, s2) \<and>
      partitionStreamRead stream out n s2 = Some (0, overwrite out 0 (take (unat n) inp), s3) \<and>
      part_pos stream s3 = part_pos stream s + unat n \<and> part_inv content stream s3 \<and>
      part_bytes content stream s3 = overwrite (part_bytes content stream s) (part_pos stream s) (take (unat n) inp))"
proof -
  have i: "kheap_wf s" "pstream_ok content stream s" using assms(1) by (simp_all add: part_inv_def)
  have "part_pos stream s + unat n < length (part_bytes content stream s)" using assms(3) length_part_bytes [OF i(2)] by simp
  note prt.write_read [OF assms(1) TrueI assms(2) this assms(4-6)]
  then show ?thesis using part_full_buffer [OF i assms(2)] assms(3) by simp
qed

theorem partition_write_read_witness:
  "\<exists>s1 s2 s3. partitionStreamWrite 8 (replicate 100 67) 100 (ram_part small_heap 0) = Some (0, s1) \<and>
     partitionStreamSeek 8 0 s1 = Some (0, s2) \<and>
     partitionStreamRead 8 (replicate 100 0) 100 s2 = Some (0, replicate 100 67, s3) \<and>
     take 200 (part_bytes (\<lambda>h. h) 8 s3) = replicate 100 67 @ take 100 (drop 100 (part_bytes (\<lambda>h. h) 8 (ram_part small_heap 0)))"
proof -
  have inv: "part_inv (\<lambda>h. h) 8 (ram_part small_heap 0)"
    by (simp add: part_inv_def ram_part_heap ram_part_ok ram_part_simps)
  have b: "\<not> no_buffer 512 100 (ram_part small_heap 0)" using ram_part_buffer [of 0 100 0] by simp
  have o: "overwrite (replicate 100 0) 0 (take 100 (replicate 100 67)) = (replicate 100 67 :: byte list)"
    by (simp add: overwrite_def)
  have t: "take 200 (overwrite xs 0 (replicate 100 67)) = replicate 100 67 @ take 100 (drop 100 xs)" for xs :: "byte list"
    by (simp add: overwrite_def)
  show ?thesis
    using partition_write_read [OF inv, of 100 "replicate 100 67" "replicate 100 0" 0] b o t
    by (auto simp: ram_part_simps)
qed

end
