(* ===== verification/Pci_Config.thy ===== *)
theory Pci_Config
  imports Pci
begin

text \<open>
  The PCI driver on a configuration space. \<open>pci_bus\<close> says of the port operations that they select a
  register and access it, where each register has a mask of writable bits; it is the hypothesis of
  the theorems.
\<close>

section \<open>The configuration space\<close>

definition pci_bus :: "'h port_io \<Rightarrow> ('h \<Rightarrow> u32) \<Rightarrow> ('h \<Rightarrow> u32 \<Rightarrow> u32) \<Rightarrow> (u32 \<Rightarrow> u32) \<Rightarrow> bool" where
  "pci_bus io addr regs writable \<longleftrightarrow>
     (\<forall>h v. addr (outd io 0xCF8 v h) = v \<and> regs (outd io 0xCF8 v h) = regs h) \<and>
     (\<forall>h. fst (ind io 0xCFC h) = regs h (addr h) \<and> addr (snd (ind io 0xCFC h)) = addr h \<and>
       regs (snd (ind io 0xCFC h)) = regs h) \<and>
     (\<forall>h v. addr (outd io 0xCFC v h) = addr h \<and> regs (outd io 0xCFC v h) =
       (regs h)(addr h := (regs h (addr h) AND NOT (writable (addr h))) OR (v AND writable (addr h))))"

text \<open>The space of the model itself: the selected address and the registers.\<close>

definition pci_ports :: "(u32 \<Rightarrow> u32) \<Rightarrow> (u32 \<times> (u32 \<Rightarrow> u32)) port_io" where
  "pci_ports writable =
     \<lparr>inb = (\<lambda>p h. (0, h)), inw = (\<lambda>p h. (0, h)),
      ind = (\<lambda>p h. if p = 0xCFC then (snd h (fst h), h) else (0, h)),
      outb = (\<lambda>p v h. h), outw = (\<lambda>p v h. h),
      outd = (\<lambda>p v h. if p = 0xCF8 then (v, snd h)
        else if p = 0xCFC then (fst h, (snd h)(fst h := (snd h (fst h) AND NOT (writable (fst h))) OR (v AND writable (fst h))))
        else h)\<rparr>"

lemma pci_ports_bus: "pci_bus (pci_ports writable) fst snd writable"
  by (simp add: pci_bus_def pci_ports_def)

lemma readConfig_bus:
  assumes "pci_bus io addr regs writable"
  obtains h' where "readConfig io b d f off h = (regs h (configAddress b d f off), h')" "regs h' = regs h"
proof -
  let ?h = "outd io 0xCF8 (configAddress b d f off) h"
  have "fst (ind io 0xCFC ?h) = regs h (configAddress b d f off)" "regs (snd (ind io 0xCFC ?h)) = regs h"
    using assms by (simp_all add: pci_bus_def)
  then show thesis
    by (cases "ind io 0xCFC ?h") (auto intro!: that simp: readConfig_def pci_const_defs)
qed

lemma writeConfig_bus:
  assumes "pci_bus io addr regs writable"
  shows "regs (writeConfig io b d f off v h) =
    (let a = configAddress b d f off in (regs h)(a := (regs h a AND NOT (writable a)) OR (v AND writable a)))"
  using assms by (simp add: pci_bus_def writeConfig_def pci_const_defs Let_def)

lemma config_bus:
  assumes "pci_bus io addr regs writable"
  obtains h' where "config io b d f off s = (regs (hw s) (configAddress b d f off), s\<lparr>hw := h'\<rparr>)"
    "regs h' = regs (hw s)"
  by (rule readConfig_bus [OF assms, of b d f off "hw s"]) (auto simp: config_def intro: that)

section \<open>Addresses\<close>

text \<open>
  The address that selects a register determines the bus, the device, the function and the
  32-bit register, for devices below 32 and functions below 8, and has the enable bit set: two
  different registers are never confused.
\<close>

theorem configAddress_decode:
  assumes "device < 32" and "function' < 8"
  shows "bit (configAddress bus device function' offset) 31 \<and>
    ucast (drop_bit 16 (configAddress bus device function' offset)) = bus \<and>
    ucast (drop_bit 11 (configAddress bus device function' offset)) AND 0x1F = device \<and>
    ucast (drop_bit 8 (configAddress bus device function' offset)) AND 7 = function' \<and>
    ucast (configAddress bus device function' offset) = offset AND 0xFC"
proof -
  have m: "(0x1F :: byte) = mask 5" "(7 :: byte) = mask 3" "(0xFC :: byte) = push_bit 2 (mask 6)"
    "(0xFC :: u32) = push_bit 2 (mask 6)"
    by (simp_all add: mask_eq_exp_minus_1)
  have d: "n < 5" if "bit device n" for n
  proof -
    have "device = take_bit 5 device" using assms(1) by (simp add: word_unat_eq_iff unsigned_take_bit_eq take_bit_nat_eq_self word_less_nat_alt)
    then show ?thesis using that by (metis bit_take_bit_iff)
  qed
  have f: "n < 3" if "bit function' n" for n
  proof -
    have "function' = take_bit 3 function'" using assms(2) by (simp add: word_unat_eq_iff unsigned_take_bit_eq take_bit_nat_eq_self word_less_nat_alt)
    then show ?thesis using that by (metis bit_take_bit_iff)
  qed
  have one: "push_bit 31 (1 :: u32) = mask 32 AND NOT (mask 31)" by (simp add: mask_eq_exp_minus_1)
  show ?thesis
    unfolding configAddress_def m one
    by (intro conjI bit_word_eqI; auto simp: bit_simps dest: bit_imp_le_length d f)
qed

theorem configAddress_decode_witness:
  "configAddress 1 31 7 0x26 = 0x8001FF24 \<and> bit (configAddress 1 31 7 0x26) 31"
  using configAddress_decode [of 31 7 1 "0x26"] by (simp add: configAddress_def)

section \<open>Sizes of base address registers\<close>

lemma size_of_mask:
  fixes v :: u32
  assumes "t \<le> k" "k < 32" and "v AND mask k AND NOT (mask t) = 0"
  shows "NOT (((v AND mask k) OR NOT (mask k)) AND NOT (mask t)) + 1 = 2 ^ k"
    and "v AND NOT (mask t) = v AND NOT (mask k)"
proof -
  have z: "i < t" if "bit v i" "i < k" for i
    using arg_cong [OF assms(3), of "\<lambda>x. bit x i"] that assms(2) by (auto simp: bit_simps)
  have "((v AND mask k) OR NOT (mask k)) AND NOT (mask t) = NOT (mask k)"
    using assms(1,2) by (intro bit_word_eqI) (auto simp: bit_simps dest: z)
  then show "NOT (((v AND mask k) OR NOT (mask k)) AND NOT (mask t)) + 1 = 2 ^ k"
    by (simp add: mask_eq_exp_minus_1)
  show "v AND NOT (mask t) = v AND NOT (mask k)"
    using assms(1) by (intro bit_word_eqI) (auto simp: bit_simps dest: z)
qed

lemma sizeMask_eq: "sizeMask isIo = NOT (mask (if isIo then 2 else 4))"
  by (simp add: sizeMask_def mask_eq_exp_minus_1)

text \<open>
  Property C32. Let a base address register belong to a region of \<open>2 ^ k\<close> bytes: its lower \<open>k\<close> bits are
  fixed, and zero apart from the type bits. Then \<^verbatim>\<open>getPciBarInfo\<close> finds out the kind, the base and the size
  of the region by writing ones to the register, and leaves the whole configuration space as it was.
\<close>

theorem getPciBarInfo_correct:
  assumes bus: "pci_bus io addr regs writable" and sel: "selected s = KERNEL_HEAP_TYPE_PAGE"
    and dev: "device \<noteq> 0" "pciStore s device = d"
    and a: "a = configAddress (dev_bus d) (dev_device d) (dev_function d) (0x10 + bar * 4)"
    and v: "v = regs (hw s) a" and isIo: "isIo = (v AND 1 \<noteq> 0)"
    and k: "writable a = NOT (mask k)" "(if isIo then 2 else 4) \<le> k" "k < 32"
      "v AND mask k AND NOT (mask (if isIo then 2 else 4)) = 0"
    and r: "getPciBarInfo io device bar s = Some (info, s')"
  shows "barInfos s' info = \<lparr>bar_isIo = (if isIo then 1 else 0), bar_base = v AND NOT (mask k), bar_size = 2 ^ k\<rparr> \<and>
    regs (hw s') = regs (hw s)"
proof -
  let ?rd = "readConfig io (dev_bus d) (dev_device d) (dev_function d) (0x10 + bar * 4)"
  let ?wr = "writeConfig io (dev_bus d) (dev_device d) (dev_function d) (0x10 + bar * 4)"
  obtain h1 where h1: "?rd (hw s) = (v, h1)" "regs h1 = regs (hw s)"
    using readConfig_bus [OF bus] a v by metis
  let ?h2 = "?wr 0xFFFFFFFF h1"
  have ones: "(0xFFFFFFFF :: u32) = - 1" by simp
  let ?m = "(v AND mask k) OR NOT (mask k)"
  have h2: "regs ?h2 = (regs (hw s))(a := ?m)"
    using writeConfig_bus [OF bus, of "dev_bus d" "dev_device d" "dev_function d" "0x10 + bar * 4" "- 1" h1]
    by (simp add: Let_def h1(2) k(1) v ones flip: a)
  obtain h3 where h3: "?rd ?h2 = (?m, h3)" "regs h3 = regs ?h2"
    using readConfig_bus [OF bus, of "dev_bus d" "dev_device d" "dev_function d" "0x10 + bar * 4" ?h2] h2
    by (metis a fun_upd_same)
  let ?h4 = "?wr v h3"
  have "((?m AND NOT (NOT (mask k))) OR (v AND NOT (mask k))) = v"
    by (intro bit_word_eqI) (auto simp: bit_simps)
  then have h4: "regs ?h4 = regs (hw s)"
    using writeConfig_bus [OF bus, of "dev_bus d" "dev_device d" "dev_function d" "0x10 + bar * 4" v h3]
    by (simp add: Let_def h3(2) h2 k(1) fun_upd_idem_iff flip: a v)
  let ?isIo = "v AND 1 \<noteq> 0"
  obtain s1 where s1: "kzalloc sizeof_pciBarInfo (s\<lparr>hw := ?h4\<rparr>) = Some (info, s1)" "info \<noteq> 0"
    "s' = s1\<lparr>barInfos := (barInfos s1)(info := \<lparr>bar_isIo = (if ?isIo then 1 else 0), bar_base = v AND sizeMask ?isIo,
        bar_size = NOT (?m AND sizeMask ?isIo) + 1\<rparr>)\<rparr>"
    using r dev h1(1) h3(1) by (auto simp: getPciBarInfo_def at_def Let_def split: if_splits)
  obtain m where "s1 = (s\<lparr>hw := ?h4\<rparr>)\<lparr>hmem := m\<rparr>"
    using kzalloc_frame [OF _ s1(1)] sel by auto
  then have "regs (hw s') = regs (hw s)" using s1(3) h4 by simp
  moreover have "v AND sizeMask ?isIo = v AND NOT (mask k)" "NOT (?m AND sizeMask ?isIo) + 1 = 2 ^ k"
    unfolding sizeMask_eq isIo [symmetric] using size_of_mask [OF k(2-4)] by simp_all
  ultimately show ?thesis using s1(3) isIo by simp
qed

section \<open>Devices with several functions\<close>

lemma kzalloc_hw:
  fixes s :: "('h, 'a) pci_scheme"
  assumes "selected s = KERNEL_HEAP_TYPE_PAGE" "kzalloc n s = Some (p, s')"
  shows "selected s' = KERNEL_HEAP_TYPE_PAGE" "hw s' = hw s"
  using kzalloc_frame [OF assms] assms(1) by auto

text \<open>
  Where function 1 of a device is present and says, as a function of a device with several
  functions may, that its header has the multi-function type, reading it never ends: it reads the
  functions from 1 on by calls of itself, so that no depth of calls is enough.
\<close>

theorem readPciDevice_endless:
  fixes s :: "('h, 'a) pci_scheme"
  assumes bus: "pci_bus io addr regs writable" and sel: "selected s = KERNEL_HEAP_TYPE_PAGE"
    and present: "(ucast (regs (hw s) (configAddress bus device 1 0) AND 0xFFFF) :: u16) \<noteq> 0xFFFF"
    and multi: "(ucast (drop_bit 16 (regs (hw s) (configAddress bus device 1 0xC))) :: byte) = 0x80"
  shows "readPciDevice depth io bus device 1 s = None"
  using sel present multi
proof (induction depth arbitrary: s)
  case (Suc depth)
  let ?R = "regs (hw s)"
  show ?case
  proof (cases "\<exists>p s1 hd s2. kzalloc sizeof_pciDevice s = Some (p, s1) \<and> kzalloc sizeof_pciHeader s1 = Some (hd, s2)")
    case False
    then have "kzalloc sizeof_pciDevice s = None \<or>
        (\<exists>p s1. kzalloc sizeof_pciDevice s = Some (p, s1) \<and> kzalloc sizeof_pciHeader s1 = None)"
      by (metis option.exhaust prod.exhaust)
    then show ?thesis by (elim disjE exE conjE) simp_all
  next
    case True
    then obtain p s1 hd s2 where k: "kzalloc sizeof_pciDevice s = Some (p, s1)" "kzalloc sizeof_pciHeader s1 = Some (hd, s2)"
      by blast
    have s2: "selected s2 = KERNEL_HEAP_TYPE_PAGE" "hw s2 = hw s"
      using kzalloc_hw [OF Suc.prems(1) k(1)] kzalloc_hw [OF _ k(2)] by simp_all
    obtain g0 where c0: "config io bus device 1 0 s2 = (?R (configAddress bus device 1 0), s2\<lparr>hw := g0\<rparr>)" "regs g0 = ?R"
      using config_bus [OF bus, of bus device 1 0 s2] s2(2) by metis
    obtain g1 where c1: "config io bus device 1 4 (s2\<lparr>hw := g0\<rparr>) = (?R (configAddress bus device 1 4), s2\<lparr>hw := g1\<rparr>)" "regs g1 = ?R"
      by (rule config_bus [OF bus, of bus device 1 4 "s2\<lparr>hw := g0\<rparr>"]) (simp add: c0(2) that)
    obtain g2 where c2: "config io bus device 1 8 (s2\<lparr>hw := g1\<rparr>) = (?R (configAddress bus device 1 8), s2\<lparr>hw := g2\<rparr>)" "regs g2 = ?R"
      by (rule config_bus [OF bus, of bus device 1 8 "s2\<lparr>hw := g1\<rparr>"]) (simp add: c1(2) that)
    obtain g3 where c3: "config io bus device 1 0xC (s2\<lparr>hw := g2\<rparr>) = (?R (configAddress bus device 1 0xC), s2\<lparr>hw := g3\<rparr>)" "regs g3 = ?R"
      by (rule config_bus [OF bus, of bus device 1 "0xC" "s2\<lparr>hw := g2\<rparr>"]) (simp add: c2(2) that)
    have sub: "subFunctions io (readPciDevice depth io bus device) bus device [1, 2, 3, 4, 5, 6, 7] t = None"
      if t: "selected t = KERNEL_HEAP_TYPE_PAGE" "regs (hw t) = ?R" for t :: "('h, 'a) pci_scheme"
    proof -
      obtain g where c: "config io bus device 1 0 t = (?R (configAddress bus device 1 0), t\<lparr>hw := g\<rparr>)" "regs g = ?R"
        using config_bus [OF bus, of bus device 1 0 t] t(2) by metis
      have "readPciDevice depth io bus device 1 (t\<lparr>hw := g\<rparr>) = None"
        using Suc.IH [of "t\<lparr>hw := g\<rparr>"] t c(2) Suc.prems by simp
      with c Suc.prems(2) show ?thesis by simp
    qed
    show ?thesis
      by (simp add: k c0(1) c1(1) c2(1) c3(1) Suc.prems(3) pci_const_defs sub s2(1) c3(2) del: subFunctions.simps)
  qed
qed simp

section \<open>Witnesses\<close>

text \<open>A device at bus 0: a memory region of 4096 bytes, and a second function of the multi-function type.\<close>

definition example_space :: "u32 \<Rightarrow> u32" where
  "example_space = (\<lambda>a. 0)(0x80000024 := 0xFEBD5000, 0x80000100 := 0x12378086, 0x8000010C := 0x00800000)"

definition pci_of :: "heap_page \<Rightarrow> (u32 \<times> (u32 \<Rightarrow> u32)) pci" where
  "pci_of hp = \<lparr>hmem = hmem hp, table_size = table_size hp, tableMaxSize = tableMaxSize hp,
     bent = (\<lambda>_. zero_entry), lvlTable = (\<lambda>_. 0), tmeta = tmeta blank_buddy,
     tableStartAddress = 0, lowerMemorySize = 0, heapSize = 0, maxLvl = 0, maxPage = 0, minPage = 0,
     selected = KERNEL_HEAP_TYPE_PAGE, memoryMap = [], memoryMapLength = 0, upperMemorySize = 0,
     totalMemorySize = 0, loadedTable = 0, kernelPageTable = 0, allocatedDataStructList = [], allocatedData = 0,
     allocatedSize = 0, currVirtualAddress = 0, tablesAvailable = 0, tableAddressList = [], systemDescriptorTableAddress = 0, pciStore = (\<lambda>_. no_device),
     headers = (\<lambda>_. no_header), deviceHeaders = (\<lambda>_. no_deviceHeader), barInfos = (\<lambda>_. no_barInfo),
     pciDevices = replicate 15 0, nextDevicesIndex = 0,
     hw = (0, example_space)\<rparr>"

lemma pci_of_fields [simp]:
  "selected (pci_of hp) = KERNEL_HEAP_TYPE_PAGE" "hw (pci_of hp) = (0, example_space)"
  "pciStore (pci_of hp) p = \<lparr>dev_bus = 0, dev_device = 0, dev_function = 0, dev_header = 0\<rparr>"
  by (simp_all add: pci_of_def no_device_def)

lemma pci_of_heap: "kheap_wf (pci_of hp) \<longleftrightarrow> heap_wf hp"
proof -
  have "kheap_wf (pci_of hp) \<longleftrightarrow> kheap_wf (kheap_of hp)"
    by (rule same_heap; simp add: pci_of_def kheap_of_def)
  then show ?thesis by simp
qed

theorem readPciDevice_endless_witness:
  "readPciDevice 1000 (pci_ports (\<lambda>a. 0)) 0 0 1 (pci_of small_heap) = None"
  by (rule readPciDevice_endless [OF pci_ports_bus]) (simp_all add: configAddress_def example_space_def)

lemma size_ok_12: "size_ok 12" by (simp add: size_ok_def)

lemma pci_of_serves: "\<exists>p s'. kzalloc 12 ((pci_of small_heap)\<lparr>hw := h\<rparr>) = Some (p, s') \<and> p \<noteq> 0"
proof -
  let ?s = "(pci_of small_heap)\<lparr>hw := h\<rparr>"
  have wf: "kheap_wf ?s"
    using pci_of_heap [of small_heap] small_heap_wf same_heap(2) [of ?s "pci_of small_heap"] by simp
  have "kzalloc 12 ?s \<noteq> Some (0, ?s)"
    by (rule small_heap_serves [OF _ _ wf]) (simp_all add: pci_of_def size_ok_def pages_for_def)
  then show ?thesis by (cases rule: kheap_alloc [OF wf size_ok_12]) auto
qed

theorem getPciBarInfo_correct_witness:
  "\<exists>info s'. getPciBarInfo (pci_ports (\<lambda>a. NOT (mask 12))) 8 5 (pci_of small_heap) = Some (info, s') \<and>
    barInfos s' info = \<lparr>bar_isIo = 0, bar_base = 0xFEBD5000, bar_size = 4096\<rparr>"
proof -
  obtain info s' where r: "getPciBarInfo (pci_ports (\<lambda>a. NOT (mask 12))) 8 5 (pci_of small_heap) = Some (info, s')"
  proof -
    let ?d = "pciStore (pci_of small_heap) 8" and ?io = "pci_ports (\<lambda>a. NOT (mask 12))"
    let ?rd = "readConfig ?io (dev_bus ?d) (dev_device ?d) (dev_function ?d) (0x10 + 5 * 4)"
    let ?wr = "writeConfig ?io (dev_bus ?d) (dev_device ?d) (dev_function ?d) (0x10 + 5 * 4)"
    obtain v h1 where h1: "?rd (hw (pci_of small_heap)) = (v, h1)" by (rule prod.exhaust)
    obtain m h2 where h2: "?rd (?wr 0xFFFFFFFF h1) = (m, h2)" by (rule prod.exhaust)
    obtain p s1 where "kzalloc 12 ((pci_of small_heap)\<lparr>hw := ?wr v h2\<rparr>) = Some (p, s1)" "p \<noteq> 0"
      using pci_of_serves by blast
    then show ?thesis
      using that h1 h2 by (simp add: getPciBarInfo_def at_def sizeof_pciBarInfo_def Let_def)
  qed
  have "barInfos s' info = \<lparr>bar_isIo = (if False then 1 else 0), bar_base = 0xFEBD5000 AND NOT (mask 12), bar_size = 2 ^ 12\<rparr> \<and>
      snd (hw s') = snd (hw (pci_of small_heap))"
    by (rule getPciBarInfo_correct [OF pci_ports_bus _ _ refl refl _ _ _ _ _ _ r])
      (simp_all add: configAddress_def example_space_def mask_eq_exp_minus_1)
  with r show ?thesis by (simp add: mask_eq_exp_minus_1)
qed

end
