(* ===== verification/Ahci.thy ===== *)
theory Ahci
  imports Pci Ata_Pio
begin

text \<open>
  The AHCI driver, \<^verbatim>\<open>disk/driver/ahci.c\<close>. The registers of a controller are mapped into memory, and the
  controller reads and writes memory by itself: an access to a register is an operation of the
  parameter \<open>hba\<close> on the memory and the state \<open>'g\<close> of the controllers. Command headers, command tables
  and frames are bytes in memory, laid out as in \<^verbatim>\<open>ahci.h\<close>. Text output is left out.
\<close>

section \<open>Registers\<close>

type_synonym 'g bus = "mem \<times> 'g"

record 'g hba =
  reg_rd :: "u64 \<Rightarrow> 'g bus \<Rightarrow> u32 \<times> 'g bus"
  reg_wr :: "u64 \<Rightarrow> u32 \<Rightarrow> 'g bus \<Rightarrow> 'g bus"

text \<open>Offsets of the structures \<^verbatim>\<open>hba_mem\<close> and \<^verbatim>\<open>hba_port\<close>.\<close>

definition HBA_GHC :: u64 where "HBA_GHC = 4"
definition HBA_PI :: u64 where "HBA_PI = 12"
definition HBA_PORT_OFFSET :: u64 where "HBA_PORT_OFFSET = 0x100"
definition sizeof_hba_port :: u64 where "sizeof_hba_port = 0x80"
definition PORT_CLB :: u64 where "PORT_CLB = 0"
definition PORT_CLBU :: u64 where "PORT_CLBU = 4"
definition PORT_FB :: u64 where "PORT_FB = 8"
definition PORT_FBU :: u64 where "PORT_FBU = 12"
definition PORT_IS :: u64 where "PORT_IS = 16"
definition PORT_IE :: u64 where "PORT_IE = 20"
definition PORT_CMD :: u64 where "PORT_CMD = 24"
definition PORT_TFD :: u64 where "PORT_TFD = 32"
definition PORT_SIG :: u64 where "PORT_SIG = 36"
definition PORT_SSTS :: u64 where "PORT_SSTS = 40"
definition PORT_SACT :: u64 where "PORT_SACT = 52"
definition PORT_CI :: u64 where "PORT_CI = 56"

lemmas hba_offset_defs =
  HBA_GHC_def HBA_PI_def HBA_PORT_OFFSET_def sizeof_hba_port_def PORT_CLB_def PORT_CLBU_def PORT_FB_def
  PORT_FBU_def PORT_IS_def PORT_IE_def PORT_CMD_def PORT_TFD_def PORT_SIG_def PORT_SSTS_def PORT_SACT_def PORT_CI_def

definition SATA_DRIVE_SIGNATURE :: u32 where "SATA_DRIVE_SIGNATURE = 0x101"
definition PORT_CMD_COMMAND_LIST_RUNNING :: u32 where "PORT_CMD_COMMAND_LIST_RUNNING = 0x8000"
definition PORT_CMD_FIS_RECEIVE_RUNNING :: u32 where "PORT_CMD_FIS_RECEIVE_RUNNING = 0x4000"
definition PORT_CMD_FIS_RECEIVE_ENABLE :: u32 where "PORT_CMD_FIS_RECEIVE_ENABLE = 0x10"
definition PORT_CMD_START_PORT :: u32 where "PORT_CMD_START_PORT = 1"
definition AHCI_INTERFACE_POWER_MANAGEMENT_ACTIVE :: byte where "AHCI_INTERFACE_POWER_MANAGEMENT_ACTIVE = 1"
definition AHCI_DEVICE_DETECTION_PRESENT :: byte where "AHCI_DEVICE_DETECTION_PRESENT = 3"
definition ATA_DEV_BUSY :: u32 where "ATA_DEV_BUSY = 0x80"
definition ATA_DEV_DRQ :: u32 where "ATA_DEV_DRQ = 8"
definition ATA_CMD_IDENTIFY :: byte where "ATA_CMD_IDENTIFY = 0xEC"
definition ATA_CMD_READ_DMA_EX :: byte where "ATA_CMD_READ_DMA_EX = 0x25"
definition ATA_CMD_WRITE_DMA_EX :: byte where "ATA_CMD_WRITE_DMA_EX = 0x35"
definition FIS_TYPE_REG_H2D :: byte where "FIS_TYPE_REG_H2D = 0x27"
definition BOBAOS_MAX_AHCI_PRDT_ENTRIES :: u16 where "BOBAOS_MAX_AHCI_PRDT_ENTRIES = 8"
definition sizeof_commandHeader :: u64 where "sizeof_commandHeader = 32"
definition sizeof_commandTable :: u64 where "sizeof_commandTable = 256"
definition sizeof_fisHost2Device :: nat where "sizeof_fisHost2Device = 20"
definition PCI_CLASS_MASS_STORAGE_CONTROLLER :: u32 where "PCI_CLASS_MASS_STORAGE_CONTROLLER = 1"
definition PCI_SUBCLASS_MA_SATA_CONTROLLER :: u32 where "PCI_SUBCLASS_MA_SATA_CONTROLLER = 0x106"

lemmas ahci_const_defs =
  SATA_DRIVE_SIGNATURE_def PORT_CMD_COMMAND_LIST_RUNNING_def PORT_CMD_FIS_RECEIVE_RUNNING_def
  PORT_CMD_FIS_RECEIVE_ENABLE_def PORT_CMD_START_PORT_def ATA_DEV_BUSY_def ATA_DEV_DRQ_def ATA_CMD_IDENTIFY_def
  ATA_CMD_READ_DMA_EX_def ATA_CMD_WRITE_DMA_EX_def FIS_TYPE_REG_H2D_def BOBAOS_MAX_AHCI_PRDT_ENTRIES_def
  sizeof_commandHeader_def sizeof_commandTable_def sizeof_fisHost2Device_def

record ahciPrivate =
  ap_port :: u64
  ap_availableEntries :: byte

text \<open>A disk of this driver: its number and its private data. The other fields are zero.\<close>

record ahciDisk =
  ad_id :: byte
  ad_private :: u64

record ('h, 'g) ahci = "'h pci" +
  ahciPrivates :: "u64 \<Rightarrow> ahciPrivate"
  ahciDisks :: "u64 \<Rightarrow> ahciDisk"
  hba_hw :: 'g

definition bus :: "('h, 'g, 'a) ahci_scheme \<Rightarrow> 'g bus" where
  "bus s = (hmem s, hba_hw s)"

definition put_bus :: "'g bus \<Rightarrow> ('h, 'g, 'a) ahci_scheme \<Rightarrow> ('h, 'g, 'a) ahci_scheme" where
  "put_bus b s = s\<lparr>hmem := fst b, hba_hw := snd b\<rparr>"

section \<open>Slots and the state of a port\<close>

text \<open>The registers have 32 bits, the local variable \<^verbatim>\<open>slots\<close> has 8.\<close>

primrec getFreeSlot_loop :: "nat \<Rightarrow> nat \<Rightarrow> byte \<Rightarrow> int" where
  "getFreeSlot_loop 0 i slots = - ENFOUND"
| "getFreeSlot_loop (Suc k) i slots =
     (if slots AND 1 = 0 then int i else getFreeSlot_loop k (Suc i) (drop_bit 1 slots))"

definition getFreeSlot :: "'g hba \<Rightarrow> u64 \<Rightarrow> 'g bus \<Rightarrow> int \<times> 'g bus" where
  "getFreeSlot hba port b =
     (let (active, b) = reg_rd hba (port + PORT_SACT) b;
          (issue, b) = reg_rd hba (port + PORT_CI) b
      in (getFreeSlot_loop 32 0 (ucast (active OR issue)), b))"

partial_function (option) waitStopped :: "'g hba \<Rightarrow> u64 \<Rightarrow> 'g bus \<Rightarrow> 'g bus option" where
  "waitStopped hba port b =
     (case reg_rd hba (port + PORT_CMD) b of (v, b) \<Rightarrow>
        if v AND PORT_CMD_FIS_RECEIVE_RUNNING \<noteq> 0 then waitStopped hba port b
        else case reg_rd hba (port + PORT_CMD) b of (v, b) \<Rightarrow>
          if v AND PORT_CMD_COMMAND_LIST_RUNNING \<noteq> 0 then waitStopped hba port b else Some b)"

definition changeCommand :: "(u32 \<Rightarrow> u32) \<Rightarrow> 'g hba \<Rightarrow> u64 \<Rightarrow> 'g bus \<Rightarrow> 'g bus" where
  "changeCommand f hba port b =
     (let (v, b) = reg_rd hba (port + PORT_CMD) b in reg_wr hba (port + PORT_CMD) (f v) b)"

definition stopCommandSending :: "'g hba \<Rightarrow> u64 \<Rightarrow> 'g bus \<Rightarrow> 'g bus option" where
  "stopCommandSending hba port b =
     (let b = changeCommand (\<lambda>v. v AND NOT PORT_CMD_START_PORT) hba port b;
          b = changeCommand (\<lambda>v. v AND NOT PORT_CMD_FIS_RECEIVE_ENABLE) hba port b
      in waitStopped hba port b)"

partial_function (option) waitListStopped :: "'g hba \<Rightarrow> u64 \<Rightarrow> 'g bus \<Rightarrow> 'g bus option" where
  "waitListStopped hba port b =
     (case reg_rd hba (port + PORT_CMD) b of (v, b) \<Rightarrow>
        if v AND PORT_CMD_COMMAND_LIST_RUNNING \<noteq> 0 then waitListStopped hba port b else Some b)"

definition startCommandSending :: "'g hba \<Rightarrow> u64 \<Rightarrow> 'g bus \<Rightarrow> 'g bus option" where
  "startCommandSending hba port b = do {
     b \<leftarrow> waitListStopped hba port b;
     let b = changeCommand (\<lambda>v. v OR PORT_CMD_FIS_RECEIVE_ENABLE) hba port b;
     Some (changeCommand (\<lambda>v. v OR PORT_CMD_START_PORT) hba port b)
   }"

section \<open>Setting up a port\<close>

definition put32 :: "u64 \<Rightarrow> u32 \<Rightarrow> mem \<Rightarrow> mem" where
  "put32 a v m = put_bytes a (bytes32 v) m"

text \<open>The command headers; the tables are 32 bytes apart, although a table has 256 bytes.\<close>

primrec setupHeaders :: "nat \<Rightarrow> nat \<Rightarrow> u64 \<Rightarrow> u64 \<Rightarrow> mem \<Rightarrow> mem" where
  "setupHeaders 0 i cmdHeader baseAddr m = m"
| "setupHeaders (Suc k) i cmdHeader baseAddr m =
     (let header = cmdHeader + of_nat i * sizeof_commandHeader;
          m = put_bytes (header + 2) (bytes16 BOBAOS_MAX_AHCI_PRDT_ENTRIES) m;
          m = put32 (header + 8) (ucast (baseAddr AND 0xFFFFFFFF)) m;
          m = put32 (header + 12) (ucast (drop_bit 32 baseAddr AND 0xFFFFFFFF)) m
      in setupHeaders k (Suc i) cmdHeader (baseAddr + sizeof_commandHeader) m)"

definition remapPort :: "'g hba \<Rightarrow> u64 \<Rightarrow> ('h, 'g, 'a) ahci_scheme \<Rightarrow> (int \<times> ('h, 'g, 'a) ahci_scheme) option" where
  "remapPort hba port s = do {
     b \<leftarrow> stopCommandSending hba port (bus s);
     (baseAddr, s) \<leftarrow> kzalloc (32 * sizeof_commandHeader + 256 + 32 * sizeof_commandTable) (put_bus b s);
     if baseAddr = 0 then Some (- ENMEM, s)
     else do {
       let b = reg_wr hba (port + PORT_IE) 0xFFFFFFFF (bus s);
       let b = reg_wr hba (port + PORT_CLB) (ucast (baseAddr AND 0xFFFFFFFF)) b;
       let b = reg_wr hba (port + PORT_CLBU) (ucast (drop_bit 32 baseAddr AND 0xFFFFFFFF)) b;
       let baseAddr = baseAddr + 1024;
       let b = reg_wr hba (port + PORT_FB) (ucast (baseAddr AND 0xFFFFFFFF)) b;
       let b = reg_wr hba (port + PORT_FBU) (ucast (drop_bit 32 baseAddr AND 0xFFFFFFFF)) b;
       let baseAddr = baseAddr + 256;
       let (upper, b) = reg_rd hba (port + PORT_CLBU) b;
       let (lower, b) = reg_rd hba (port + PORT_CLB) b;
       let cmdHeader = push_bit 32 (ucast upper) OR ucast lower;
       let b = (setupHeaders 32 0 cmdHeader baseAddr (fst b), snd b);
       b \<leftarrow> startCommandSending hba port b;
       Some (SUCCESS, put_bus b s)
     }
   }"

section \<open>Commands\<close>

text \<open>The pointer to the command headers: the upper half is shifted to the right and so lost.\<close>

definition commandHeaders :: "'g hba \<Rightarrow> u64 \<Rightarrow> 'g bus \<Rightarrow> u64 \<times> 'g bus" where
  "commandHeaders hba port b =
     (let (upper, b) = reg_rd hba (port + PORT_CLBU) b;
          (lower, b) = reg_rd hba (port + PORT_CLB) b
      in (drop_bit 32 (ucast upper) OR ucast lower, b))"

definition commandTable :: "u64 \<Rightarrow> mem \<Rightarrow> u64" where
  "commandTable header m = drop_bit 32 (ucast (le32_at m (header + 12))) OR ucast (le32_at m (header + 8))"

text \<open>
  A header begins with bit fields: the length of the frame (5 bits), \<^verbatim>\<open>atapi\<close>, \<^verbatim>\<open>write\<close> and \<^verbatim>\<open>prefetchable\<close>, and in
  the second byte \<^verbatim>\<open>reset\<close>, \<^verbatim>\<open>bist\<close>, \<^verbatim>\<open>clearBusy\<close>, a reserved bit and the port multiplier (4 bits).
\<close>

definition zeroCommandHeaderFlags :: "u64 \<Rightarrow> mem \<Rightarrow> mem" where
  "zeroCommandHeaderFlags header m =
     put_bytes header ([0, m (header + 1) AND 0x08] @ bytes16 0 @ bytes32 0) m"

definition setupHeader :: "bool \<Rightarrow> u64 \<Rightarrow> mem \<Rightarrow> mem" where
  "setupHeader write header m =
     (let m = zeroCommandHeaderFlags header m;
          m = put_bytes header [(m header AND 0xE0) OR of_nat (sizeof_fisHost2Device div 4)] m;
          m = (if write then put_bytes header [m header OR 0x40] m else m)
      in put_bytes (header + 2) (bytes16 1) m)"

definition setupEntry :: "u64 \<Rightarrow> u64 \<Rightarrow> u64 \<Rightarrow> mem \<Rightarrow> mem" where
  "setupEntry cmdTable address count m =
     (let entry = cmdTable + 128;
          m = put32 entry (ucast address) m;
          m = put32 (entry + 4) (ucast (drop_bit 32 address)) m;
          m = put32 (entry + 12) ((le32_at m (entry + 12) AND NOT (mask 22)) OR (ucast count AND mask 22)) m
      in put32 (entry + 12) ((le32_at m (entry + 12) AND NOT (push_bit 31 1)) OR push_bit 31 1) m)"

text \<open>The frame is cleared, then its fields are set.\<close>

definition setupFis :: "u64 \<Rightarrow> byte list \<Rightarrow> mem \<Rightarrow> mem" where
  "setupFis cmdTable fis m = put_bytes cmdTable fis (memset cmdTable 0 64 m)"

definition identifyFis :: "byte list" where
  "identifyFis = [FIS_TYPE_REG_H2D, 0x80, ATA_CMD_IDENTIFY]"

definition transferFis :: "byte \<Rightarrow> u64 \<Rightarrow> u64 \<Rightarrow> byte list" where
  "transferFis command lba tot =
     [FIS_TYPE_REG_H2D, 0x80, command, 0,
      ucast lba, ucast (drop_bit 8 lba), ucast (drop_bit 16 lba), push_bit 6 1,
      ucast (drop_bit 16 lba), ucast (drop_bit 32 lba), ucast (drop_bit 48 lba), 0,
      ucast (tot AND 0xFF), ucast (drop_bit 8 tot AND 0xFF)]"

partial_function (option) waitFreeSlot :: "'g hba \<Rightarrow> u64 \<Rightarrow> 'g bus \<Rightarrow> (int \<times> 'g bus) option" where
  "waitFreeSlot hba port b =
     (case getFreeSlot hba port b of (slot, b) \<Rightarrow> if slot \<ge> 0 then Some (slot, b) else waitFreeSlot hba port b)"

partial_function (option) waitDevice :: "'g hba \<Rightarrow> u64 \<Rightarrow> 'g bus \<Rightarrow> 'g bus option" where
  "waitDevice hba port b =
     (case reg_rd hba (port + PORT_TFD) b of (v, b) \<Rightarrow>
        if v AND (ATA_DEV_BUSY OR ATA_DEV_DRQ) \<noteq> 0 then waitDevice hba port b else Some b)"

partial_function (option) waitIdentified :: "'g hba \<Rightarrow> u64 \<Rightarrow> u32 \<Rightarrow> 'g bus \<Rightarrow> 'g bus option" where
  "waitIdentified hba port slotBit b =
     (case reg_rd hba (port + PORT_CI) b of (v, b) \<Rightarrow>
        if v AND slotBit \<noteq> 0 then waitIdentified hba port slotBit b else Some b)"

partial_function (option) waitTransferred :: "'g hba \<Rightarrow> u64 \<Rightarrow> u32 \<Rightarrow> 'g bus \<Rightarrow> (int \<times> 'g bus) option" where
  "waitTransferred hba port slotBit b =
     (case reg_rd hba (port + PORT_CI) b of (v, b) \<Rightarrow>
        if v AND slotBit = 0 then Some (SUCCESS, b)
        else case reg_rd hba (port + PORT_IS) b of (v, b) \<Rightarrow>
          if v AND push_bit 30 1 \<noteq> 0 then Some (- EHARDWARE, b) else waitTransferred hba port slotBit b)"

definition issueCommand :: "'g hba \<Rightarrow> u64 \<Rightarrow> u32 \<Rightarrow> 'g bus \<Rightarrow> 'g bus" where
  "issueCommand hba port slotBit b =
     (let (v, b) = reg_rd hba (port + PORT_CI) b in reg_wr hba (port + PORT_CI) (v OR slotBit) b)"

text \<open>
  \<^verbatim>\<open>ahciRead\<close> and \<^verbatim>\<open>ahciWrite\<close> are the same code but for the bit \<^verbatim>\<open>write\<close> of the header and the command.
  \<open>root\<close> is the page table of the kernel.
\<close>

definition ahciTransfer ::
  "bool \<Rightarrow> byte \<Rightarrow> 'g hba \<Rightarrow> u64 \<Rightarrow> u64 \<Rightarrow> u64 \<Rightarrow> u64 \<Rightarrow> ahciPrivate \<Rightarrow> 'g bus \<Rightarrow> (int \<times> 'g bus) option" where
  "ahciTransfer write command hba root lba tot buf pr b = do {
     let port = ap_port pr;
     let totalData = tot * 512;
     if totalData > 0x3FFFFF then Some (- ELONG, b)
     else do {
       let (oldInterruptStatus, b) = reg_rd hba (port + PORT_IS) b;
       let b = reg_wr hba (port + PORT_IS) 0 b;
       (slot, b) \<leftarrow> waitFreeSlot hba port b;
       let (cmdHeader, b) = commandHeaders hba port b;
       let header = cmdHeader + of_int slot * sizeof_commandHeader;
       let m = setupHeader write header (fst b);
       let cmdTable = commandTable header m;
       let dataBufferAddress = virtualToPhysical buf root m;
       let m = setupEntry cmdTable dataBufferAddress (totalData - 1) m;
       let m = setupFis cmdTable (transferFis command lba tot) m;
       b \<leftarrow> waitDevice hba port (m, snd b);
       let slotBit = push_bit (nat slot) 1;
       waitTransferred hba port slotBit (issueCommand hba port slotBit b)
     }
   }"

definition ahciRead ::
  "'g hba \<Rightarrow> u64 \<Rightarrow> u64 \<Rightarrow> u64 \<Rightarrow> u64 \<Rightarrow> ahciPrivate \<Rightarrow> 'g bus \<Rightarrow> (int \<times> 'g bus) option" where
  "ahciRead hba root lba tot out pr b = ahciTransfer False ATA_CMD_READ_DMA_EX hba root lba tot out pr b"

definition ahciWrite ::
  "'g hba \<Rightarrow> u64 \<Rightarrow> u64 \<Rightarrow> u64 \<Rightarrow> u64 \<Rightarrow> ahciPrivate \<Rightarrow> 'g bus \<Rightarrow> (int \<times> 'g bus) option" where
  "ahciWrite hba root lba tot inp pr b = ahciTransfer True ATA_CMD_WRITE_DMA_EX hba root lba tot inp pr b"

text \<open>
  \<open>junk\<close> is the uninitialised array \<^verbatim>\<open>model\<close>. The buffer is not released. The result is the name and the
  size, a product of 32-bit numbers.
\<close>

definition ahciIdentifyCommand ::
  "byte list \<Rightarrow> 'g hba \<Rightarrow> ahciPrivate \<Rightarrow> ('h, 'g, 'a) ahci_scheme \<Rightarrow>
    ((byte list \<times> u64) \<times> ('h, 'g, 'a) ahci_scheme) option" where
  "ahciIdentifyCommand junk hba pr s = do {
     let port = ap_port pr;
     let (oldInterruptStatus, b) = reg_rd hba (port + PORT_IS) (bus s);
     (slot, b) \<leftarrow> waitFreeSlot hba port b;
     let (cmdHeader, b) = commandHeaders hba port b;
     let header = cmdHeader + of_int slot * sizeof_commandHeader;
     let b = (setupHeader False header (fst b), snd b);
     let cmdTable = commandTable header (fst b);
     (dataBuffer, s) \<leftarrow> kzalloc 512 (put_bus b s);
     if dataBuffer = 0 then Some ((replicate 64 0, 0), s)
     else do {
       let (m, g) = bus s;
       let dataBufferAddress = virtualToPhysical dataBuffer (getKernelPageTable s) m;
       let m = setupEntry cmdTable dataBufferAddress 511 m;
       let m = setupFis cmdTable identifyFis m;
       b \<leftarrow> waitDevice hba port (m, g);
       let slotBit = push_bit (nat slot) 1;
       b \<leftarrow> waitIdentified hba port slotBit (issueCommand hba port slotBit b);
       let b = reg_wr hba (port + PORT_IS) oldInterruptStatus b;
       let db = map (\<lambda>i. le16_at (fst b) (dataBuffer + 2 * of_nat i)) [0..<256];
       model \<leftarrow> modelChars 20 0 db junk;
       model \<leftarrow> wr model 41 0;
       totalLBA \<leftarrow> totalLBA_of db;
       name \<leftarrow> strcpym (replicate 64 0) model 42;
       Some ((name, ucast (totalLBA * 512)), put_bus b s)
     }
   }"

section \<open>Finding disks\<close>

definition sizeof_ahciPrivate :: u64 where "sizeof_ahciPrivate = 16"

definition createDisk :: "u64 \<Rightarrow> u16 \<Rightarrow> ('h, 'g, 'a) ahci_scheme \<Rightarrow> (u64 \<times> ('h, 'g, 'a) ahci_scheme) option" where
  "createDisk port id' s = do {
     (disk, s) \<leftarrow> kzalloc sizeof_disk s;
     if disk = 0 then Some (0, s)
     else do {
       (private, s) \<leftarrow> kzalloc sizeof_ahciPrivate s;
       if private = 0 then Some (0, s)
       else do {
         let s = s\<lparr>ahciPrivates := (ahciPrivates s)(private :=
           \<lparr>ap_port = port, ap_availableEntries = ucast BOBAOS_MAX_AHCI_PRDT_ENTRIES\<rparr>),
           ahciDisks := (ahciDisks s)(disk := \<lparr>ad_id = ucast id', ad_private = 0\<rparr>)\<rparr>;
         (driver, s) \<leftarrow> kzalloc sizeof_diskDriver s;
         if driver = 0 then Some (0, s)
         else Some (disk, s\<lparr>ahciDisks := (ahciDisks s)(disk := \<lparr>ad_id = ucast id', ad_private = private\<rparr>)\<rparr>)
       }
     }
   }"

text \<open>The ports of one controller from \<open>i\<close> on, with the disks found before.\<close>

primrec scanPorts ::
  "nat \<Rightarrow> nat \<Rightarrow> 'g hba \<Rightarrow> u64 \<Rightarrow> u16 \<Rightarrow> u64 list \<Rightarrow> ('h, 'g, 'a) ahci_scheme \<Rightarrow>
    (int \<times> u16 \<times> u64 list \<times> ('h, 'g, 'a) ahci_scheme) option" where
  "scanPorts 0 i hba hbaMem nextId found s = Some (SUCCESS, nextId, found, s)"
| "scanPorts (Suc k) i hba hbaMem nextId found s = do {
     let port = hbaMem + HBA_PORT_OFFSET + of_nat i * sizeof_hba_port;
     let (implemented, b) = reg_rd hba (hbaMem + HBA_PI) (bus s);
     if drop_bit i implemented AND 1 \<noteq> 1 then scanPorts k (Suc i) hba hbaMem nextId found (put_bus b s)
     else do {
       let (detection, b) = reg_rd hba (port + PORT_SSTS) b;
       let (power, b) = reg_rd hba (port + PORT_SSTS) b;
       if ucast (detection AND 0xF) \<noteq> AHCI_DEVICE_DETECTION_PRESENT \<or>
          ucast (drop_bit 8 power AND 0xF) \<noteq> AHCI_INTERFACE_POWER_MANAGEMENT_ACTIVE
       then scanPorts k (Suc i) hba hbaMem nextId found (put_bus b s)
       else do {
         let (signature, b) = reg_rd hba (port + PORT_SIG) b;
         if signature \<noteq> SATA_DRIVE_SIGNATURE then scanPorts k (Suc i) hba hbaMem nextId found (put_bus b s)
         else do {
           (ret, s) \<leftarrow> remapPort hba port (put_bus b s);
           if ret < 0 then Some (ret, nextId, found, s)
           else do {
             (disk, s) \<leftarrow> createDisk port nextId s;
             if disk = 0 then Some (- ENMEM, nextId, found, s)
             else scanPorts k (Suc i) hba hbaMem (nextId + 1) (found @ [disk]) s
           }
         }
       }
     }
   }"

text \<open>The loop ends at the first null pointer of the array, which has 30 elements.\<close>

fun scanControllers ::
  "'h port_io \<Rightarrow> 'g hba \<Rightarrow> u64 list \<Rightarrow> u16 \<Rightarrow> u64 list \<Rightarrow> ('h, 'g, 'a) ahci_scheme \<Rightarrow>
    (int \<times> u64 list \<times> ('h, 'g, 'a) ahci_scheme) option" where
  "scanControllers io hba [] nextId found s = None"
| "scanControllers io hba (device # devices) nextId found s =
     (if device = 0 then Some (SUCCESS, found, s)
      else do {
        (barInfo, s) \<leftarrow> getPciBarInfo io device 5 s;
        let info = barInfos s barInfo;
        if barInfo = 0 \<or> bar_isIo info \<noteq> 0 then scanControllers io hba devices nextId found s
        else do {
          let d = pciStore s device;
          (hbaMem, s) \<leftarrow> mmioMap (ucast (bar_base info)) (ucast (bar_size info)) (dev_bus d) (dev_device d) (dev_function d) s;
          if hbaMem = 0 then Some (- ENMEM, found, s)
          else do {
            let (ghc, b) = reg_rd hba (hbaMem + HBA_GHC) (bus s);
            let s = put_bus b s;
            if drop_bit 31 ghc \<noteq> 1 then scanControllers io hba devices nextId found s
            else do {
              (ret, nextId, found, s) \<leftarrow> scanPorts 32 0 hba hbaMem nextId found s;
              if ret < 0 then Some (ret, found, s) else scanControllers io hba devices nextId found s
            }
          }
        }
      })"

definition ahci_scanForDisk ::
  "'h port_io \<Rightarrow> 'g hba \<Rightarrow> u16 \<Rightarrow> ('h, 'g, 'a) ahci_scheme \<Rightarrow>
    (int \<times> u64 list \<times> ('h, 'g, 'a) ahci_scheme) option" where
  "ahci_scanForDisk io hba nextId s = do {
     ((_, devices), s) \<leftarrow> getAllPciDevicesByClass PCI_CLASS_MASS_STORAGE_CONTROLLER PCI_SUBCLASS_MA_SATA_CONTROLLER 1 s;
     scanControllers io hba devices nextId [] s
   }"

end
