(* ===== verification/Ahci_Device.thy ===== *)
theory Ahci_Device
  imports Ahci
begin

text \<open>
  The AHCI driver with a port and a drive that behave as the AHCI and ATA standards say. A command is
  executed when its bit in the command issue register is set: the port follows the command header
  and the command table in memory and moves the data. \<open>hba_behaviour\<close> is the hypothesis of the theorems.
\<close>

section \<open>The port and its drive\<close>

record hba_dev =
  hd_sectors :: "byte list"
  hd_clb :: u32
  hd_ci :: u32
  hd_latency :: nat
  hd_busy :: nat
  hd_failed :: bool

text \<open>What the port reads from a command: sector, number of sectors, data address and length.\<close>

definition frame_lba :: "mem \<Rightarrow> u64 \<Rightarrow> nat" where
  "frame_lba m t = unat (m (t + 4)) + 2 ^ 8 * unat (m (t + 5)) + 2 ^ 16 * unat (m (t + 6)) +
     2 ^ 24 * unat (m (t + 8)) + 2 ^ 32 * unat (m (t + 9)) + 2 ^ 40 * unat (m (t + 10))"

definition frame_count :: "mem \<Rightarrow> u64 \<Rightarrow> nat" where
  "frame_count m t =
     (let c = unat (m (t + 12)) + 2 ^ 8 * unat (m (t + 13)) in if c = 0 then 65536 else c)"

definition region_address :: "mem \<Rightarrow> u64 \<Rightarrow> u64" where
  "region_address m t = ucast (le32_at m (t + 128)) OR push_bit 32 (ucast (le32_at m (t + 132)))"

definition region_length :: "mem \<Rightarrow> u64 \<Rightarrow> nat" where
  "region_length m t = unat (le32_at m (t + 140) AND mask 22) + 1"

definition table_address :: "mem \<Rightarrow> u64 \<Rightarrow> u64" where
  "table_address m h = ucast (le32_at m (h + 8)) OR push_bit 32 (ucast (le32_at m (h + 12)))"

text \<open>The command is well formed: a register frame with one data region of the right length.\<close>

definition well_formed :: "mem \<Rightarrow> u64 \<Rightarrow> hba_dev \<Rightarrow> bool" where
  "well_formed m h d \<longleftrightarrow>
     (let t = table_address m h
      in take_bit 5 (m h) = 5 \<and> le16_at m (h + 2) = 1 \<and> m t = 0x27 \<and> bit (m (t + 1)) 7 \<and> bit (m (t + 7)) 6 \<and>
         m (t + 2) = (if bit (m h) 6 then 0x35 else 0x25) \<and>
         frame_count m t * 512 = region_length m t \<and>
         (frame_lba m t + frame_count m t) * 512 \<le> length (hd_sectors d))"

definition hba_execute :: "nat \<Rightarrow> mem \<times> hba_dev \<Rightarrow> mem \<times> hba_dev" where
  "hba_execute slot md =
     (let m = fst md; d = snd md; h = ucast (hd_clb d) + of_nat (32 * slot); t = table_address m h;
          p = frame_lba m t * 512; n = frame_count m t * 512; a = region_address m t
      in if \<not> well_formed m h d then (m, d\<lparr>hd_failed := True\<rparr>)
         else if bit (m h) 6 then (m, d\<lparr>hd_sectors := overwrite (hd_sectors d) p (bytes_at m a n)\<rparr>)
         else (put_bytes a (take n (drop p (hd_sectors d))) m, d))"

definition hba_issue :: "u32 \<Rightarrow> mem \<times> hba_dev \<Rightarrow> mem \<times> hba_dev" where
  "hba_issue v md =
     (let new = filter (\<lambda>i. bit v i \<and> \<not> bit (hd_ci (snd md)) i) [0..<32];
          (m, d) = fold hba_execute new md
      in (m, d\<lparr>hd_ci := v, hd_busy := hd_latency d\<rparr>))"

definition hba_ci :: "hba_dev \<Rightarrow> u32" where
  "hba_ci d = (if hd_failed d \<or> 0 < hd_busy d then hd_ci d else 0)"

definition hba_poll :: "hba_dev \<Rightarrow> hba_dev" where
  "hba_poll d = (if hd_failed d then d else if 0 < hd_busy d then d\<lparr>hd_busy := hd_busy d - 1\<rparr> else d\<lparr>hd_ci := 0\<rparr>)"

text \<open>The command list is below 4 GiB; the interrupt status has bit 30 set after an error.\<close>

definition hba_register :: "u64 \<Rightarrow> hba_dev \<Rightarrow> u32 \<times> hba_dev" where
  "hba_register r d =
     (if r = PORT_CLB then (hd_clb d, d) else if r = PORT_CLBU then (0, d) else if r = PORT_SACT then (0, d)
      else if r = PORT_TFD then (0x50, d) else if r = PORT_IS then (if hd_failed d then push_bit 30 1 else 0, d)
      else if r = PORT_CI then (hba_ci d, hba_poll d) else (0, d))"

definition hba_behaviour :: "'g hba \<Rightarrow> u64 \<Rightarrow> ('g \<Rightarrow> hba_dev) \<Rightarrow> bool" where
  "hba_behaviour hba port dev \<longleftrightarrow>
     (\<forall>m g. \<forall>r \<in> {PORT_CLB, PORT_CLBU, PORT_SACT, PORT_TFD, PORT_IS, PORT_CI}. \<exists>g'.
        reg_rd hba (port + r) (m, g) = (fst (hba_register r (dev g)), (m, g')) \<and> dev g' = snd (hba_register r (dev g))) \<and>
     (\<forall>m g. \<exists>g'. reg_wr hba (port + PORT_IS) 0 (m, g) = (m, g') \<and> dev g' = dev g) \<and>
     (\<forall>v m g. \<exists>g'. reg_wr hba (port + PORT_CI) v (m, g) = (fst (hba_issue v (m, dev g)), g') \<and>
        dev g' = snd (hba_issue v (m, dev g)))"

text \<open>A controller with one port: the operations of the model itself.\<close>

definition hba_port_io :: "u64 \<Rightarrow> hba_dev hba" where
  "hba_port_io port =
     \<lparr>reg_rd = (\<lambda>a (m, d). let (v, d) = hba_register (a - port) d in (v, (m, d))),
      reg_wr = (\<lambda>a v (m, d). if a = port + PORT_CI then hba_issue v (m, d) else (m, d))\<rparr>"

lemma hba_port_io_behaviour: "hba_behaviour (hba_port_io port) port (\<lambda>d. d)"
  by (auto simp: hba_behaviour_def hba_port_io_def Let_def split_beta hba_offset_defs)

lemma register_read:
  assumes "hba_behaviour hba port dev" "r \<in> {PORT_CLB, PORT_CLBU, PORT_SACT, PORT_TFD, PORT_IS, PORT_CI}"
  obtains g' where "reg_rd hba (port + r) (m, g) = (fst (hba_register r (dev g)), (m, g'))"
    "dev g' = snd (hba_register r (dev g))"
  using assms unfolding hba_behaviour_def by blast

section \<open>Bytes\<close>

lemma put_bytes_other: "length bs \<le> unat (x - a) \<Longrightarrow> put_bytes a bs m x = m x"
  by (simp add: put_bytes_def)

lemma le32_at_cong: "m a = m' a \<Longrightarrow> m (a + 1) = m' (a + 1) \<Longrightarrow> m (a + 2) = m' (a + 2) \<Longrightarrow> m (a + 3) = m' (a + 3) \<Longrightarrow>
    le32_at m a = le32_at m' a"
  by (simp add: le32_at_def)

lemma bytes32_join: "(ucast (ucast v :: byte) OR push_bit 8 (ucast (ucast (drop_bit 8 v) :: byte)) OR
    push_bit 16 (ucast (ucast (drop_bit 16 v) :: byte)) OR push_bit 24 (ucast (ucast (drop_bit 24 v) :: byte))) = v"
  for v :: u32
proof (rule bit_word_eqI, goal_cases)
  case (1 n)
  then show ?case by (cases "n < 8"; cases "n < 16"; cases "n < 24") (auto simp: bit_simps)
qed

lemma le32_at_put32 [simp]: "le32_at (put32 a v m) a = v"
  using bytes32_join [of v] by (simp add: le32_at_def put32_def put_bytes_def bytes32_def)

lemma put32_other: "4 \<le> unat (x - a) \<Longrightarrow> put32 a v m x = m x"
  by (simp add: put32_def put_bytes_other bytes32_def)

section \<open>The prepared command\<close>

definition prepare :: "bool \<Rightarrow> byte \<Rightarrow> u64 \<Rightarrow> u64 \<Rightarrow> u64 \<Rightarrow> u64 \<Rightarrow> u64 \<Rightarrow> mem \<Rightarrow> mem" where
  "prepare w c H T pa lba tot m =
     setupFis T (transferFis c lba tot) (setupEntry T pa (tot * 512 - 1) (setupHeader w H m))"

text \<open>The bytes that the preparation writes.\<close>

definition command_memory :: "u64 \<Rightarrow> u64 \<Rightarrow> u64 set" where
  "command_memory H T = {x. unat (x - H) < 8 \<or> unat (x - T) < 144}"

text \<open>A write at an offset, seen from the start of the structure.\<close>

lemma put_bytes_offset:
  assumes "k + length bs < 2 ^ 64"
  shows "put_bytes (a + of_nat k) bs m x =
    (if k \<le> unat (x - a) \<and> unat (x - a) < k + length bs then bs ! (unat (x - a) - k) else m x)"
proof -
  have k: "unat (of_nat k :: u64) = k" using assms by (intro unat_of_nat_small) simp
  have e: "x - (a + of_nat k) = (x - a) - of_nat k" by simp
  show ?thesis
  proof (cases "k \<le> unat (x - a)")
    case True
    then have "unat (x - (a + of_nat k)) = unat (x - a) - k" unfolding e unat_sub_if' k by simp
    with True show ?thesis by (auto simp: put_bytes_def)
  next
    case False
    then have "unat (x - (a + of_nat k)) = unat (x - a) + 2 ^ 64 - k" unfolding e unat_sub_if' k by simp
    with False assms show ?thesis by (auto simp: put_bytes_def)
  qed
qed

lemmas put_bytes_at_2 = put_bytes_offset [of 2, simplified]

lemma setupHeader_other: "8 \<le> unat (x - H) \<Longrightarrow> setupHeader w H m x = m x"
  by (simp add: setupHeader_def zeroCommandHeaderFlags_def Let_def put_bytes_at_2 bytes16_def bytes32_def)
    (simp add: put_bytes_def)

lemma setupHeader_flags:
  "take_bit 5 (setupHeader w H m H) = 5" "bit (setupHeader w H m H) 6 = w" "le16_at (setupHeader w H m) (H + 2) = 1"
proof -
  have b: "setupHeader w H m H = (if w then 0x45 else 5)"
    by (simp add: setupHeader_def zeroCommandHeaderFlags_def Let_def put_bytes_at_2 bytes16_def bytes32_def sizeof_fisHost2Device_def)
      (simp add: put_bytes_def)
  show "take_bit 5 (setupHeader w H m H) = 5" "bit (setupHeader w H m H) 6 = w"
    unfolding b by (simp_all add: bit_numeral_rec take_bit_eq_mod)
  show "le16_at (setupHeader w H m) (H + 2) = 1"
    by (simp add: setupHeader_def le16_at_def Let_def put_bytes_def bytes16_def)
qed

lemma setupFis_apply:
  assumes "length fis \<le> 64"
  shows "setupFis T fis m x = (if unat (x - T) < length fis then fis ! unat (x - T) else if unat (x - T) < 64 then 0 else m x)"
  using assms by (simp add: setupFis_def put_bytes_def)

lemma length_transferFis [simp]: "length (transferFis c lba tot) = 14"
  by (simp add: transferFis_def)

lemma put32_outside:
  assumes "unat (x - T) < k \<or> k + 4 \<le> unat (x - T)" and "k + 4 < 2 ^ 64"
  shows "put32 (T + of_nat k) v m x = m x"
  using assms put_bytes_offset [of k "bytes32 v" T m x] by (auto simp: put32_def bytes32_def)

lemmas put32_at_entry = put32_outside [of _ _ 128, simplified] put32_outside [of _ _ 132, simplified]
  put32_outside [of _ _ 140, simplified]

lemma setupEntry_other:
  assumes "unat (x - T) < 128 \<or> 144 \<le> unat (x - T)"
  shows "setupEntry T a c m x = m x"
  using assms by (auto simp: setupEntry_def Let_def add.assoc put32_at_entry)

lemma setupEntry_view:
  "le32_at (setupEntry T a c m) (T + 128) = ucast a" "le32_at (setupEntry T a c m) (T + 132) = ucast (drop_bit 32 a)"
  "le32_at (setupEntry T a c m) (T + 140) AND mask 22 = ucast c AND mask 22"
proof -
  have o: "le32_at (put32 (T + i) v m) (T + j) = le32_at m (T + j)"
    if "(i, j) \<in> {(132, 128), (140, 128), (140, 132)}" for i j v m
    using that by (intro le32_at_cong) (auto simp: put32_at_entry)
  show "le32_at (setupEntry T a c m) (T + 128) = ucast a" "le32_at (setupEntry T a c m) (T + 132) = ucast (drop_bit 32 a)"
    by (simp_all add: setupEntry_def Let_def add.assoc o)
  show "le32_at (setupEntry T a c m) (T + 140) AND mask 22 = ucast c AND mask 22"
  proof -
    have top: "(0x80000000 :: u32) = NOT (mask 31)" by (simp add: mask_eq_exp_minus_1)
    show ?thesis
      by (simp add: setupEntry_def Let_def add.assoc top) (intro bit_word_eqI, auto simp: bit_simps)
  qed
qed

lemma region_address_entry: "ucast (ucast a :: u32) OR push_bit 32 (ucast (ucast (drop_bit 32 a) :: u32)) = a" for a :: u64
  by (rule bit_word_eqI) (auto simp: bit_simps)

text \<open>Header and table do not overlap, and the table is where the header says.\<close>

definition command_slot :: "u64 \<Rightarrow> u64 \<Rightarrow> mem \<Rightarrow> bool" where
  "command_slot H T m \<longleftrightarrow> le32_at m (H + 8) = ucast T \<and> le32_at m (H + 12) = 0 \<and> unat H < 2 ^ 32 \<and> unat T < 2 ^ 32 \<and>
     (unat H + 32 \<le> unat T \<or> unat T + 256 \<le> unat H)"

lemma header_apart:
  assumes "command_slot H T m" "i < 32"
  shows "144 \<le> unat (H + of_nat i - T)"
proof -
  have i: "unat (H + of_nat i) = unat H + i"
    using assms by (subst unat_add_small) (auto simp: command_slot_def unat_of_nat_small)
  show ?thesis unfolding unat_sub_if' i using assms by (auto simp: command_slot_def)
qed

lemma prepare_header:
  assumes "command_slot H T m" "i < 32"
  shows "prepare w c H T pa lba tot m (H + of_nat i) = setupHeader w H m (H + of_nat i)"
  using header_apart [OF assms] by (simp add: prepare_def setupFis_apply setupEntry_other)

lemma prepare_fis:
  assumes "i < 14"
  shows "prepare w c H T pa lba tot m (T + of_nat i) = transferFis c lba tot ! i"
  using assms by (simp add: prepare_def setupFis_apply unat_of_nat_small)

lemma prepare_entry:
  assumes "128 \<le> i" "i < 144"
  shows "prepare w c H T pa lba tot m (T + of_nat i) = setupEntry T pa (tot * 512 - 1) (setupHeader w H m) (T + of_nat i)"
  using assms by (simp add: prepare_def setupFis_apply unat_of_nat_small)

lemma prepare_other:
  assumes "x \<notin> command_memory H T"
  shows "prepare w c H T pa lba tot m x = m x"
  using assms by (auto simp: prepare_def command_memory_def setupFis_apply setupEntry_other setupHeader_other)

lemma table_of_header:
  assumes "command_slot H T m"
  shows "table_address (prepare w c H T pa lba tot m) H = T" "commandTable H (setupHeader w H m) = T"
proof -
  let ?P = "prepare w c H T pa lba tot m"
  have "unat T < 2 ^ LENGTH(32)" using assms by (simp add: command_slot_def)
  then have T: "ucast (ucast T :: u32) = T"
    by (simp add: word_unat_eq_iff unsigned_ucast_eq unsigned_take_bit_eq take_bit_nat_eq_self)
  have p: "?P (H + of_nat i) = m (H + of_nat i)" if "8 \<le> i" "i < 16" for i
    using prepare_header [OF assms, of i] setupHeader_other [of "H + of_nat i" H] that
    by (simp add: unat_of_nat_small)
  have "le32_at ?P (H + 8) = le32_at m (H + 8)" "le32_at ?P (H + 12) = le32_at m (H + 12)"
    using p [of 8] p [of 9] p [of 10] p [of 11] p [of 12] p [of 13] p [of 14] p [of 15]
    by (simp_all add: le32_at_def add.assoc)
  then show "table_address ?P H = T" using assms T by (simp add: table_address_def command_slot_def)
  have "le32_at (setupHeader w H m) (H + 8) = le32_at m (H + 8)" "le32_at (setupHeader w H m) (H + 12) = le32_at m (H + 12)"
    by (simp_all add: le32_at_def add.assoc setupHeader_other)
  then show "commandTable H (setupHeader w H m) = T" using assms T by (simp add: commandTable_def command_slot_def)
qed

section \<open>The command that the port sees\<close>

text \<open>The sector that a frame of the driver addresses.\<close>

definition ahci_lba :: "nat \<Rightarrow> nat" where
  "ahci_lba n = n mod 2 ^ 24 + 2 ^ 24 * (n div 2 ^ 16 mod 2 ^ 8) + 2 ^ 32 * (n div 2 ^ 32 mod 2 ^ 8) +
     2 ^ 40 * (n div 2 ^ 48 mod 2 ^ 8)"

lemma ahci_lba_small: "n < 2 ^ 16 \<Longrightarrow> ahci_lba n = n"
  by (simp add: ahci_lba_def)

lemma ahci_lba_wrong:
  assumes "n < 2 ^ 32"
  shows "ahci_lba n = n mod 2 ^ 24 + 2 ^ 24 * (n div 2 ^ 16 mod 2 ^ 8)"
    "ahci_lba n = n \<longleftrightarrow> n div 2 ^ 24 = n div 2 ^ 16 mod 2 ^ 8"
proof -
  show l: "ahci_lba n = n mod 2 ^ 24 + 2 ^ 24 * (n div 2 ^ 16 mod 2 ^ 8)" using assms by (simp add: ahci_lba_def)
  have "n = n mod 2 ^ 24 + 2 ^ 24 * (n div 2 ^ 24)" by simp
  then show "ahci_lba n = n \<longleftrightarrow> n div 2 ^ 24 = n div 2 ^ 16 mod 2 ^ 8"
    unfolding l by (metis add_left_cancel nat_mult_eq_cancel1 zero_less_numeral zero_less_power)
qed

lemma unat_byte: "unat (ucast (drop_bit k w) :: byte) = unat (w :: u64) div 2 ^ k mod 2 ^ 8"
  by (simp only: unsigned_ucast_eq unsigned_drop_bit_eq take_bit_eq_mod)
    (simp add: drop_bit_eq_div mod_less [OF unat_less_pow64, simplified])

lemma mod_digits: "n mod 2 ^ 8 + 2 ^ 8 * (n div 2 ^ 8 mod 2 ^ 8) + 2 ^ 16 * (n div 2 ^ 16 mod 2 ^ 8) = n mod 2 ^ 24" for n :: nat
proof -
  have "n mod 2 ^ 24 = n mod (2 ^ 16 * 2 ^ 8)" by simp
  also have "\<dots> = 2 ^ 16 * (n div 2 ^ 16 mod 2 ^ 8) + n mod 2 ^ 16" by (rule mod_mult2_eq)
  also have "n mod 2 ^ 16 = 2 ^ 8 * (n div 2 ^ 8 mod 2 ^ 8) + n mod 2 ^ 8"
    using mod_mult2_eq [of n "2 ^ 8" "2 ^ 8"] by simp
  finally show ?thesis by simp
qed

lemma fis_bytes:
  "transferFis c lba tot ! 0 = 0x27" "transferFis c lba tot ! 1 = 0x80" "transferFis c lba tot ! 2 = c"
  "transferFis c lba tot ! 4 = ucast (drop_bit 0 lba)" "transferFis c lba tot ! 5 = ucast (drop_bit 8 lba)"
  "transferFis c lba tot ! 6 = ucast (drop_bit 16 lba)" "transferFis c lba tot ! 7 = 0x40"
  "transferFis c lba tot ! 8 = ucast (drop_bit 16 lba)" "transferFis c lba tot ! 9 = ucast (drop_bit 32 lba)"
  "transferFis c lba tot ! 10 = ucast (drop_bit 48 lba)" "transferFis c lba tot ! 12 = ucast (tot AND 0xFF)"
  "transferFis c lba tot ! 13 = ucast (drop_bit 8 tot AND 0xFF)"
  by (simp_all add: transferFis_def FIS_TYPE_REG_H2D_def)

lemma prepared_frame:
  fixes w c H T pa lba tot m
  defines "P \<equiv> prepare w c H T pa lba tot m"
  shows "P T = 0x27" "P (T + 1) = 0x80" "P (T + 2) = c" "P (T + 7) = 0x40" "frame_lba P T = ahci_lba (unat lba)"
    "0 < unat tot \<Longrightarrow> unat tot < 2 ^ 16 \<Longrightarrow> frame_count P T = unat tot"
proof -
  note b = prepare_fis [of _ w c H T pa lba tot m, folded P_def]
  show "P T = 0x27" "P (T + 1) = 0x80" "P (T + 2) = c" "P (T + 7) = 0x40"
    using b [of 0] b [of 1] b [of 2] b [of 7] by (simp_all add: fis_bytes [simplified])
  have u: "unat (P (T + 4)) = unat lba div 2 ^ 0 mod 2 ^ 8" "unat (P (T + 5)) = unat lba div 2 ^ 8 mod 2 ^ 8"
    "unat (P (T + 6)) = unat lba div 2 ^ 16 mod 2 ^ 8" "unat (P (T + 8)) = unat lba div 2 ^ 16 mod 2 ^ 8"
    "unat (P (T + 9)) = unat lba div 2 ^ 32 mod 2 ^ 8" "unat (P (T + 10)) = unat lba div 2 ^ 48 mod 2 ^ 8"
  proof -
    have "P (T + 4) = ucast (drop_bit 0 lba)" "P (T + 5) = ucast (drop_bit 8 lba)" "P (T + 6) = ucast (drop_bit 16 lba)"
      "P (T + 8) = ucast (drop_bit 16 lba)" "P (T + 9) = ucast (drop_bit 32 lba)" "P (T + 10) = ucast (drop_bit 48 lba)"
      using b [of 4] b [of 5] b [of 6] b [of 8] b [of 9] b [of 10] by (simp_all add: fis_bytes)
    note p = this
    show "unat (P (T + 4)) = unat lba div 2 ^ 0 mod 2 ^ 8" "unat (P (T + 5)) = unat lba div 2 ^ 8 mod 2 ^ 8"
      "unat (P (T + 6)) = unat lba div 2 ^ 16 mod 2 ^ 8" "unat (P (T + 8)) = unat lba div 2 ^ 16 mod 2 ^ 8"
      "unat (P (T + 9)) = unat lba div 2 ^ 32 mod 2 ^ 8" "unat (P (T + 10)) = unat lba div 2 ^ 48 mod 2 ^ 8"
      unfolding p unat_byte by (rule refl)+
  qed
  show "frame_lba P T = ahci_lba (unat lba)"
    using mod_digits [of "unat lba"] unfolding frame_lba_def ahci_lba_def u by simp
  have ff: "(0xFF :: u64) = mask 8" by (simp add: mask_eq_exp_minus_1)
  have a: "ucast (tot AND 0xFF) = (ucast (drop_bit 0 tot) :: byte)" "ucast (drop_bit 8 tot AND 0xFF) = (ucast (drop_bit 8 tot) :: byte)"
    unfolding ff by (auto intro!: bit_word_eqI simp: bit_simps)
  have c: "unat (P (T + 12)) = unat tot div 2 ^ 0 mod 2 ^ 8" "unat (P (T + 13)) = unat tot div 2 ^ 8 mod 2 ^ 8"
  proof -
    have "P (T + 12) = ucast (drop_bit 0 tot)" "P (T + 13) = ucast (drop_bit 8 tot)"
      unfolding a [symmetric] using b [of 12] b [of 13] by (simp_all add: fis_bytes)
    note p = this
    show "unat (P (T + 12)) = unat tot div 2 ^ 0 mod 2 ^ 8" "unat (P (T + 13)) = unat tot div 2 ^ 8 mod 2 ^ 8"
      unfolding p unat_byte by (rule refl)+
  qed
  show "frame_count P T = unat tot" if "0 < unat tot" "unat tot < 2 ^ 16"
  proof -
    have "unat tot div 2 ^ 8 < 2 ^ 8" using that(2) by (intro less_mult_imp_div_less) simp
    then have "unat tot mod 256 + 256 * (unat tot div 256 mod 256) = unat tot"
      using mult_div_mod_eq [of 256 "unat tot"] by simp
    with that(1) show ?thesis unfolding frame_count_def c by simp
  qed
qed

lemma prepared_entry:
  fixes w c H T pa lba tot m
  defines "P \<equiv> prepare w c H T pa lba tot m"
  shows "region_address P T = pa" "0 < unat tot \<Longrightarrow> unat tot \<le> 8191 \<Longrightarrow> region_length P T = unat tot * 512"
proof -
  let ?E = "setupEntry T pa (tot * 512 - 1) (setupHeader w H m)"
  note b = prepare_entry [of _ w c H T pa lba tot m, folded P_def]
  have "le32_at P (T + 128) = le32_at ?E (T + 128)" "le32_at P (T + 132) = le32_at ?E (T + 132)"
    "le32_at P (T + 140) = le32_at ?E (T + 140)"
    using b [of 128] b [of 129] b [of 130] b [of 131] b [of 132] b [of 133] b [of 134] b [of 135]
      b [of 140] b [of 141] b [of 142] b [of 143]
    by (simp_all add: le32_at_def add.assoc)
  note e = this [unfolded setupEntry_view]
  show "region_address P T = pa"
    unfolding region_address_def e by (rule region_address_entry)
  assume t: "0 < unat tot" "unat tot \<le> 8191"
  have "unat (tot * 512) = unat tot * 512" using t(2) by (subst unat_mult_small) simp_all
  moreover from this t(1) have "1 \<le> tot * 512" by (simp add: word_le_nat_alt)
  ultimately have c: "unat (tot * 512 - 1) = unat tot * 512 - 1" by (simp add: unat_sub)
  have "unat ((ucast (tot * 512 - 1) :: u32) AND mask 22) = take_bit 22 (unat tot * 512 - 1)"
    by (simp add: unsigned_take_bit_eq unsigned_ucast_eq c flip: take_bit_eq_mask)
  also have "\<dots> = unat tot * 512 - 1" using t(2) by (intro take_bit_nat_eq_self) simp
  finally show "region_length P T = unat tot * 512"
    using t(1) by (simp add: region_length_def e(3) setupEntry_view(3))
qed

text \<open>Executing the prepared command.\<close>

lemma execute_prepared:
  fixes pa lba tot m
  assumes slot: "command_slot H T m" "H = ucast (hd_clb d)"
    and t: "0 < unat tot" "unat tot \<le> 8191" and ok: "(ahci_lba (unat lba) + unat tot) * 512 \<le> length (hd_sectors d)"
    and c: "c = (if w then 0x35 else 0x25)"
  defines "P \<equiv> prepare w c H T pa lba tot m"
  shows "hba_execute 0 (P, d) =
    (if w then (P, d\<lparr>hd_sectors := overwrite (hd_sectors d) (ahci_lba (unat lba) * 512) (bytes_at P pa (unat tot * 512))\<rparr>)
     else (put_bytes pa (take (unat tot * 512) (drop (ahci_lba (unat lba) * 512) (hd_sectors d))) P, d))"
proof -
  have h: "P H = setupHeader w H m H" "le16_at P (H + 2) = le16_at (setupHeader w H m) (H + 2)"
    using prepare_header [OF slot(1), of 0 w c pa lba tot] prepare_header [OF slot(1), of 2 w c pa lba tot]
      prepare_header [OF slot(1), of 3 w c pa lba tot]
    by (simp_all add: P_def le16_at_def add.assoc)
  have T: "table_address P H = T" unfolding P_def by (rule table_of_header [OF slot(1)])
  have f: "frame_count P T = unat tot" "region_length P T = unat tot * 512" "region_address P T = pa"
    "frame_lba P T = ahci_lba (unat lba)"
    unfolding P_def using prepared_frame(5,6) prepared_entry t by auto
  have "well_formed P H d"
    unfolding well_formed_def T Let_def h f setupHeader_flags
    using ok c prepared_frame(1-4) [of w c H T pa lba tot m, folded P_def] by (simp add: bit_numeral_rec)
  then show ?thesis
    by (simp add: hba_execute_def Let_def slot(2) [symmetric] T f h(1) setupHeader_flags)
qed

section \<open>The driver on the port\<close>

definition hba_idle :: "hba_dev \<Rightarrow> bool" where
  "hba_idle d \<longleftrightarrow> \<not> hd_failed d \<and> hd_busy d = 0"

lemma free_slot:
  assumes b: "hba_behaviour hba port dev" and i: "hba_idle (dev g)"
  shows "\<exists>g'. waitFreeSlot hba port (m, g) = Some (0, (m, g')) \<and> dev g' = (dev g)\<lparr>hd_ci := 0\<rparr>"
proof -
  obtain g1 where g1: "reg_rd hba (port + PORT_SACT) (m, g) = (0, (m, g1))" "dev g1 = dev g"
    using register_read [OF b, of PORT_SACT m g] by (auto simp: hba_register_def hba_offset_defs)
  obtain g2 where g2: "reg_rd hba (port + PORT_CI) (m, g1) = (0, (m, g2))" "dev g2 = (dev g)\<lparr>hd_ci := 0\<rparr>"
    using register_read [OF b, of PORT_CI m g1] g1(2) i
    by (auto simp: hba_register_def hba_offset_defs hba_ci_def hba_poll_def hba_idle_def)
  have "getFreeSlot_loop 32 0 0 = 0" by (simp add: numeral_eq_Suc)
  then have "getFreeSlot hba port (m, g) = (0, (m, g2))" by (simp add: getFreeSlot_def g1(1) g2(1))
  with g2(2) show ?thesis by (subst waitFreeSlot.simps) simp
qed

lemma device_ready:
  assumes b: "hba_behaviour hba port dev"
  shows "\<exists>g'. waitDevice hba port (m, g) = Some (m, g') \<and> dev g' = dev g"
proof -
  obtain g1 where g1: "reg_rd hba (port + PORT_TFD) (m, g) = (0x50, (m, g1))" "dev g1 = dev g"
    using register_read [OF b, of PORT_TFD m g] by (auto simp: hba_register_def hba_offset_defs)
  then show ?thesis by (subst waitDevice.simps) (simp add: ATA_DEV_BUSY_def ATA_DEV_DRQ_def)
qed

lemma headers_pointer:
  assumes b: "hba_behaviour hba port dev"
  shows "\<exists>g'. commandHeaders hba port (m, g) = (ucast (hd_clb (dev g)), (m, g')) \<and> dev g' = dev g"
proof -
  obtain g1 where g1: "reg_rd hba (port + PORT_CLBU) (m, g) = (0, (m, g1))" "dev g1 = dev g"
    using register_read [OF b, of PORT_CLBU m g] by (auto simp: hba_register_def hba_offset_defs)
  obtain g2 where g2: "reg_rd hba (port + PORT_CLB) (m, g1) = (hd_clb (dev g), (m, g2))" "dev g2 = dev g"
    using register_read [OF b, of PORT_CLB m g1] g1(2) by (auto simp: hba_register_def hba_offset_defs)
  show ?thesis using g1 g2 by (simp add: commandHeaders_def)
qed

lemma transferred:
  assumes b: "hba_behaviour hba port dev" and f: "\<not> hd_failed (dev g)"
  shows "\<exists>g'. waitTransferred hba port v (m, g) = Some (0, (m, g')) \<and>
    hd_sectors (dev g') = hd_sectors (dev g) \<and> hd_clb (dev g') = hd_clb (dev g) \<and> \<not> hd_failed (dev g')"
  using f
proof (induction "hd_busy (dev g)" arbitrary: g)
  case 0
  obtain g1 where "reg_rd hba (port + PORT_CI) (m, g) = (0, (m, g1))" "dev g1 = (dev g)\<lparr>hd_ci := 0\<rparr>"
    using register_read [OF b, of PORT_CI m g] 0
    by (auto simp: hba_register_def hba_offset_defs hba_ci_def hba_poll_def)
  with 0 show ?case by (subst waitTransferred.simps) simp
next
  case (Suc n)
  let ?ci = "hd_ci (dev g)"
  obtain g1 where g1: "reg_rd hba (port + PORT_CI) (m, g) = (?ci, (m, g1))" "dev g1 = (dev g)\<lparr>hd_busy := n\<rparr>"
    using register_read [OF b, of PORT_CI m g] Suc.hyps(2) [symmetric] Suc.prems
    by (auto simp: hba_register_def hba_offset_defs hba_ci_def hba_poll_def)
  obtain g2 where g2: "reg_rd hba (port + PORT_IS) (m, g1) = (0, (m, g2))" "dev g2 = (dev g)\<lparr>hd_busy := n\<rparr>"
    using register_read [OF b, of PORT_IS m g1] Suc.prems g1(2)
    by (auto simp: hba_register_def hba_offset_defs)
  have "n = hd_busy (dev g2)" "\<not> hd_failed (dev g2)" using g2(2) Suc.prems by simp_all
  from Suc.hyps(1) [OF this] g2(2) obtain g3 where g3: "waitTransferred hba port v (m, g2) = Some (0, (m, g3))"
    "hd_sectors (dev g3) = hd_sectors (dev g)" "hd_clb (dev g3) = hd_clb (dev g)" "\<not> hd_failed (dev g3)"
    by auto
  show ?case
  proof (cases "?ci AND v = 0")
    case True
    with g1 Suc.prems show ?thesis by (subst waitTransferred.simps) simp
  next
    case False
    with g1 g2 g3 show ?thesis by (subst waitTransferred.simps) simp
  qed
qed

lemma transfer_failed:
  assumes b: "hba_behaviour hba port dev" and f: "hd_failed (dev g)" "hd_ci (dev g) AND v \<noteq> 0"
  shows "\<exists>g'. waitTransferred hba port v (m, g) = Some (- EHARDWARE, (m, g')) \<and> dev g' = dev g"
proof -
  obtain g1 where g1: "reg_rd hba (port + PORT_CI) (m, g) = (hd_ci (dev g), (m, g1))" "dev g1 = dev g"
    using register_read [OF b, of PORT_CI m g] f
    by (auto simp: hba_register_def hba_offset_defs hba_ci_def hba_poll_def)
  obtain g2 where g2: "reg_rd hba (port + PORT_IS) (m, g1) = (push_bit 30 1, (m, g2))" "dev g2 = dev g"
    using register_read [OF b, of PORT_IS m g1] f(1) g1(2)
    by (auto simp: hba_register_def hba_offset_defs)
  show ?thesis using g1 g2 f(2) by (subst waitTransferred.simps) simp
qed

text \<open>Both transfers up to the execution of the command.\<close>

definition maps_buffer :: "u64 \<Rightarrow> u64 \<Rightarrow> u64 \<Rightarrow> u64 \<Rightarrow> u64 \<Rightarrow> mem \<Rightarrow> bool" where
  "maps_buffer root buf pa H T m \<longleftrightarrow>
     (\<forall>m'. (\<forall>x. x \<notin> command_memory H T \<longrightarrow> m' x = m x) \<longrightarrow> virtualToPhysical buf root m' = pa)"

lemma issue_slot0:
  assumes "hd_ci d = 0"
  shows "hba_issue 1 (m, d) = (let (m, d) = hba_execute 0 (m, d) in (m, d\<lparr>hd_ci := 1, hd_busy := hd_latency d\<rparr>))"
proof -
  have "filter (\<lambda>i. bit (1 :: u32) i \<and> \<not> bit (0 :: u32) i) [0..<32] = [0]"
    by (simp add: upt_conv_Cons bit_1_iff)
  then show ?thesis using assms by (simp add: hba_issue_def)
qed

lemma transfer_to_port:
  assumes b: "hba_behaviour hba (ap_port pr) dev" and i: "hba_idle (dev g)"
    and t: "unat tot \<le> 8191"
    and slot: "command_slot H T m" "H = ucast (hd_clb (dev g))" and map: "maps_buffer root buf pa H T m"
  obtains g' where "ahciTransfer w c hba root lba tot buf pr (m, g) =
      waitTransferred hba (ap_port pr) 1 (fst (hba_issue 1 (prepare w c H T pa lba tot m, (dev g)\<lparr>hd_ci := 0\<rparr>)), g')"
    "dev g' = snd (hba_issue 1 (prepare w c H T pa lba tot m, (dev g)\<lparr>hd_ci := 0\<rparr>))"
proof -
  let ?d = "(dev g)\<lparr>hd_ci := 0\<rparr>" and ?P = "prepare w c H T pa lba tot m"
  have "unat (tot * 512) = unat tot * 512" using t by (subst unat_mult_small) simp_all
  then have len: "\<not> tot * 512 > 0x3FFFFF" using t by (simp add: word_less_nat_alt)
  obtain g1 where g1: "reg_rd hba (ap_port pr + PORT_IS) (m, g) = (0, (m, g1))" "dev g1 = dev g"
    using register_read [OF b, of PORT_IS m g] i by (auto simp: hba_register_def hba_offset_defs hba_idle_def)
  obtain g2 where g2: "reg_wr hba (ap_port pr + PORT_IS) 0 (m, g1) = (m, g2)" "dev g2 = dev g"
    using b g1(2) unfolding hba_behaviour_def by metis
  obtain g3 where g3: "waitFreeSlot hba (ap_port pr) (m, g2) = Some (0, (m, g3))" "dev g3 = ?d"
    using free_slot [OF b, of g2 m] i g2(2) by auto
  obtain g4 where g4: "commandHeaders hba (ap_port pr) (m, g3) = (H, (m, g4))" "dev g4 = ?d"
    using headers_pointer [OF b, of m g3] g3(2) slot(2) by auto
  have v: "virtualToPhysical buf root (setupHeader w H m) = pa"
    using map by (simp add: maps_buffer_def command_memory_def setupHeader_other)
  obtain g5 where g5: "waitDevice hba (ap_port pr) (?P, g4) = Some (?P, g5)" "dev g5 = ?d"
    using device_ready [OF b, of ?P g4] g4(2) by auto
  obtain g6 where g6: "reg_rd hba (ap_port pr + PORT_CI) (?P, g5) = (0, (?P, g6))" "dev g6 = ?d"
    using register_read [OF b, of PORT_CI ?P g5] g5(2) i
    by (auto simp: hba_register_def hba_offset_defs hba_ci_def hba_poll_def hba_idle_def)
  obtain g7 where g7: "reg_wr hba (ap_port pr + PORT_CI) 1 (?P, g6) = (fst (hba_issue 1 (?P, ?d)), g7)"
    "dev g7 = snd (hba_issue 1 (?P, ?d))"
    using b g6(2) unfolding hba_behaviour_def by metis
  have "ahciTransfer w c hba root lba tot buf pr (m, g) = waitTransferred hba (ap_port pr) 1 (fst (hba_issue 1 (?P, ?d)), g7)"
    using len g1(1) g2(1) g3(1) g4(1) g5(1) g6(1) g7(1) v table_of_header(2) [OF slot(1), of w]
    by (simp add: ahciTransfer_def issueCommand_def prepare_def Let_def)
  with g7(2) that show thesis by blast
qed

lemma issue_prepared:
  fixes pa lba tot m
  assumes "command_slot H T m" "H = ucast (hd_clb d)" "hd_ci d = 0" "0 < unat tot" "unat tot \<le> 8191"
    and "c = (if w then 0x35 else 0x25)"
  defines "P \<equiv> prepare w c H T pa lba tot m"
  defines "L \<equiv> ahci_lba (unat lba)"
  shows "(L + unat tot) * 512 \<le> length (hd_sectors d) \<Longrightarrow>
      hba_issue 1 (P, d) = (if w
        then (P, d\<lparr>hd_sectors := overwrite (hd_sectors d) (L * 512) (bytes_at P pa (unat tot * 512)),
          hd_ci := 1, hd_busy := hd_latency d\<rparr>)
        else (put_bytes pa (take (unat tot * 512) (drop (L * 512) (hd_sectors d))) P,
          d\<lparr>hd_ci := 1, hd_busy := hd_latency d\<rparr>))"
    and "length (hd_sectors d) < (L + unat tot) * 512 \<Longrightarrow>
      hba_issue 1 (P, d) = (P, d\<lparr>hd_failed := True, hd_ci := 1, hd_busy := hd_latency d\<rparr>)"
proof -
  show "hba_issue 1 (P, d) = (if w
        then (P, d\<lparr>hd_sectors := overwrite (hd_sectors d) (L * 512) (bytes_at P pa (unat tot * 512)),
          hd_ci := 1, hd_busy := hd_latency d\<rparr>)
        else (put_bytes pa (take (unat tot * 512) (drop (L * 512) (hd_sectors d))) P,
          d\<lparr>hd_ci := 1, hd_busy := hd_latency d\<rparr>))"
    if "(L + unat tot) * 512 \<le> length (hd_sectors d)"
    using execute_prepared [OF assms(1,2,4,5) that [unfolded L_def] assms(6), where pa = pa]
    by (simp add: issue_slot0 [OF assms(3)] P_def L_def)
  assume len: "length (hd_sectors d) < (L + unat tot) * 512"
  have f: "frame_count P T = unat tot" "frame_lba P T = L"
    unfolding P_def L_def using prepared_frame(5,6) assms(4,5) by auto
  have T: "table_address P H = T" unfolding P_def by (rule table_of_header [OF assms(1)])
  have "\<not> well_formed P H d" unfolding well_formed_def T Let_def f using len by simp
  then show "hba_issue 1 (P, d) = (P, d\<lparr>hd_failed := True, hd_ci := 1, hd_busy := hd_latency d\<rparr>)"
    by (simp add: issue_slot0 [OF assms(3)] hba_execute_def Let_def assms(2) [symmetric])
qed

lemma ahci_read_sectors:
  fixes pr :: ahciPrivate
  assumes b: "hba_behaviour hba (ap_port pr) dev" "hba_idle (dev g)"
    and t: "0 < unat tot" "unat tot \<le> 8191"
    and slot: "command_slot H T m" "H = ucast (hd_clb (dev g))" and map: "maps_buffer root buf pa H T m"
    and l: "(ahci_lba (unat lba) + unat tot) * 512 \<le> length (hd_sectors (dev g))"
  shows "\<exists>m' g'. ahciRead hba root lba tot buf pr (m, g) = Some (0, (m', g')) \<and>
    bytes_at m' pa (unat tot * 512) = take (unat tot * 512) (drop (ahci_lba (unat lba) * 512) (hd_sectors (dev g))) \<and>
    hd_sectors (dev g') = hd_sectors (dev g) \<and>
    (\<forall>x. x \<notin> command_memory H T \<and> unat tot * 512 \<le> unat (x - pa) \<longrightarrow> m' x = m x)"
proof -
  let ?d = "(dev g)\<lparr>hd_ci := 0\<rparr>" and ?P = "prepare False 0x25 H T pa lba tot m"
  let ?S = "take (unat tot * 512) (drop (ahci_lba (unat lba) * 512) (hd_sectors (dev g)))"
  have i: "hba_issue 1 (?P, ?d) = (put_bytes pa ?S ?P, ?d\<lparr>hd_ci := 1, hd_busy := hd_latency ?d\<rparr>)"
    using issue_prepared(1) [OF slot(1), of ?d tot "0x25" False lba pa] slot(2) t l by simp
  obtain g1 where g1: "ahciTransfer False 0x25 hba root lba tot buf pr (m, g) =
      waitTransferred hba (ap_port pr) 1 (put_bytes pa ?S ?P, g1)" "dev g1 = ?d\<lparr>hd_ci := 1, hd_busy := hd_latency ?d\<rparr>"
    by (rule transfer_to_port [OF b t(2) slot map, of False "0x25" lba]) (simp add: i that)
  obtain g2 where g2: "waitTransferred hba (ap_port pr) 1 (put_bytes pa ?S ?P, g1) = Some (0, (put_bytes pa ?S ?P, g2))"
    "hd_sectors (dev g2) = hd_sectors (dev g1)"
    using transferred [OF b(1), of g1 1 "put_bytes pa ?S ?P"] g1(2) b(2) by (auto simp: hba_idle_def)
  have len: "length ?S = unat tot * 512" using l by (simp add: distrib_right)
  have "bytes_at (put_bytes pa ?S ?P) pa (unat tot * 512) = ?S"
    using put_bytes_at [of ?S pa ?P] len t(2) by simp
  moreover have "put_bytes pa ?S ?P x = m x" if "x \<notin> command_memory H T" "unat tot * 512 \<le> unat (x - pa)" for x
    using that len by (simp add: put_bytes_other prepare_other)
  ultimately show ?thesis
    using g1 g2 by (simp add: ahciRead_def ahci_const_defs)
qed

lemma ahci_write_sectors:
  fixes pr :: ahciPrivate
  assumes b: "hba_behaviour hba (ap_port pr) dev" "hba_idle (dev g)"
    and t: "0 < unat tot" "unat tot \<le> 8191"
    and slot: "command_slot H T m" "H = ucast (hd_clb (dev g))" and map: "maps_buffer root buf pa H T m"
    and l: "(ahci_lba (unat lba) + unat tot) * 512 \<le> length (hd_sectors (dev g))"
    and apart: "\<forall>i < unat tot * 512. pa + of_nat i \<notin> command_memory H T"
  shows "\<exists>m' g'. ahciWrite hba root lba tot buf pr (m, g) = Some (0, (m', g')) \<and>
    hd_sectors (dev g') = overwrite (hd_sectors (dev g)) (ahci_lba (unat lba) * 512) (bytes_at m pa (unat tot * 512)) \<and>
    (\<forall>x. x \<notin> command_memory H T \<longrightarrow> m' x = m x)"
proof -
  let ?d = "(dev g)\<lparr>hd_ci := 0\<rparr>" and ?P = "prepare True 0x35 H T pa lba tot m"
  let ?S = "overwrite (hd_sectors (dev g)) (ahci_lba (unat lba) * 512) (bytes_at ?P pa (unat tot * 512))"
  have i: "hba_issue 1 (?P, ?d) = (?P, ?d\<lparr>hd_sectors := ?S, hd_ci := 1, hd_busy := hd_latency ?d\<rparr>)"
    using issue_prepared(1) [OF slot(1), of ?d tot "0x35" True lba pa] slot(2) t l by simp
  obtain g1 where g1: "ahciTransfer True 0x35 hba root lba tot buf pr (m, g) =
      waitTransferred hba (ap_port pr) 1 (?P, g1)" "dev g1 = ?d\<lparr>hd_sectors := ?S, hd_ci := 1, hd_busy := hd_latency ?d\<rparr>"
    by (rule transfer_to_port [OF b t(2) slot map, of True "0x35" lba]) (simp add: i that)
  obtain g2 where g2: "waitTransferred hba (ap_port pr) 1 (?P, g1) = Some (0, (?P, g2))"
    "hd_sectors (dev g2) = hd_sectors (dev g1)"
    using transferred [OF b(1), of g1 1 ?P] g1(2) b(2) by (auto simp: hba_idle_def)
  have "bytes_at ?P pa (unat tot * 512) = bytes_at m pa (unat tot * 512)"
    using apart by (simp add: bytes_at_def prepare_other)
  then show ?thesis
    using g1 g2 by (simp add: ahciWrite_def ahci_const_defs prepare_other)
qed

lemma ahci_read_fails:
  fixes pr :: ahciPrivate
  assumes b: "hba_behaviour hba (ap_port pr) dev" "hba_idle (dev g)"
    and t: "0 < unat tot" "unat tot \<le> 8191"
    and slot: "command_slot H T m" "H = ucast (hd_clb (dev g))" and map: "maps_buffer root buf pa H T m"
    and l: "length (hd_sectors (dev g)) < (ahci_lba (unat lba) + unat tot) * 512"
  shows "\<exists>m' g'. ahciRead hba root lba tot buf pr (m, g) = Some (- EHARDWARE, (m', g')) \<and>
    hd_sectors (dev g') = hd_sectors (dev g)"
proof -
  let ?d = "(dev g)\<lparr>hd_ci := 0\<rparr>" and ?P = "prepare False 0x25 H T pa lba tot m"
  have i: "hba_issue 1 (?P, ?d) = (?P, ?d\<lparr>hd_failed := True, hd_ci := 1, hd_busy := hd_latency ?d\<rparr>)"
    using issue_prepared(2) [OF slot(1), of ?d tot "0x25" False lba pa] slot(2) t l by simp
  obtain g1 where g1: "ahciTransfer False 0x25 hba root lba tot buf pr (m, g) =
      waitTransferred hba (ap_port pr) 1 (?P, g1)" "dev g1 = ?d\<lparr>hd_failed := True, hd_ci := 1, hd_busy := hd_latency ?d\<rparr>"
    by (rule transfer_to_port [OF b t(2) slot map, of False "0x25" lba]) (simp add: i that)
  obtain g2 where "waitTransferred hba (ap_port pr) 1 (?P, g1) = Some (- EHARDWARE, (?P, g2))" "dev g2 = dev g1"
    using transfer_failed [OF b(1), of g1 1 ?P] g1(2) by auto
  then show ?thesis using g1 by (simp add: ahciRead_def ahci_const_defs)
qed

section \<open>Slots\<close>

lemma getFreeSlot_loop_spec:
  fixes b :: byte
  assumes "9 \<le> k + i" "i \<le> 8" and "\<forall>j < i. bit b j"
  shows "\<exists>r. getFreeSlot_loop k i (drop_bit i b) = int r \<and> r \<le> 8 \<and> (\<forall>j < r. bit b j) \<and> (r < 8 \<longrightarrow> \<not> bit b r)"
  using assms
proof (induction k arbitrary: i)
  case (Suc k)
  have one: "drop_bit i b AND 1 = 0 \<longleftrightarrow> \<not> bit b i"
    using even_drop_bit_iff_not_bit [of i b] by (simp add: and_one_eq even_iff_mod_2_eq_zero)
  show ?case
  proof (cases "bit b i")
    case False
    with one Suc.prems show ?thesis by (intro exI [of _ i]) simp
  next
    case True
    then have "i < 8" using bit_imp_le_length [of b i] by simp
    with Suc.prems have p: "9 \<le> k + Suc i" "Suc i \<le> 8" by simp_all
    have "\<forall>j < Suc i. bit b j" using Suc.prems(3) True by (auto simp: less_Suc_eq)
    from Suc.IH [OF p this] True one show ?thesis by (simp add: drop_bit_drop_bit)
  qed
qed simp

section \<open>Properties\<close>

text \<open>
  Property C30. With a port and a drive that behave as the standards say, requests of 1 to 8191 sectors that
  end before sector 65536 are transferred correctly: after a read the buffer holds exactly the sectors,
  and apart from it only the header and the table of the command have changed in memory; a write
  replaces exactly the sectors by the buffer. Both report success.
\<close>

theorem ahci_transfers:
  fixes pr :: ahciPrivate
  assumes "hba_behaviour hba (ap_port pr) dev" and "hba_idle (dev g)"
    and "0 < unat tot" "unat tot \<le> 8191" "unat lba + unat tot \<le> 2 ^ 16"
    and "command_slot H T m" "H = ucast (hd_clb (dev g))" and "maps_buffer root buf pa H T m"
    and "(unat lba + unat tot) * 512 \<le> length (hd_sectors (dev g))"
    and "\<forall>i < unat tot * 512. pa + of_nat i \<notin> command_memory H T"
  shows "(\<exists>m' g'. ahciRead hba root lba tot buf pr (m, g) = Some (0, (m', g')) \<and>
      bytes_at m' pa (unat tot * 512) = take (unat tot * 512) (drop (unat lba * 512) (hd_sectors (dev g))) \<and>
      hd_sectors (dev g') = hd_sectors (dev g) \<and>
      (\<forall>x. x \<notin> command_memory H T \<and> unat tot * 512 \<le> unat (x - pa) \<longrightarrow> m' x = m x)) \<and>
    (\<exists>m' g'. ahciWrite hba root lba tot buf pr (m, g) = Some (0, (m', g')) \<and>
      hd_sectors (dev g') = overwrite (hd_sectors (dev g)) (unat lba * 512) (bytes_at m pa (unat tot * 512)) \<and>
      (\<forall>x. x \<notin> command_memory H T \<longrightarrow> m' x = m x))"
proof -
  have "ahci_lba (unat lba) = unat lba" using assms(3,5) by (intro ahci_lba_small) linarith
  then show ?thesis
    using ahci_read_sectors [OF assms(1-4,6-8), of lba] ahci_write_sectors [OF assms(1-4,6-8) _ assms(10), of lba] assms(9)
    by simp
qed

text \<open>
  Property C31. The sectors that a request for sector \<open>n\<close> below \<open>2 ^ 32\<close> addresses. The driver takes the fourth byte of the sector
  number from the third, so that it addresses the sector \<open>n\<close> itself exactly when these bytes are equal; for the sectors from 65536 up to
  \<open>2 ^ 24\<close> they never are. Reads and writes transfer the addressed sectors and report success
  where the drive has them; on a smaller drive a read fails with \<^verbatim>\<open>-EHARDWARE\<close>.
\<close>

theorem ahci_wrong_sector:
  fixes pr :: ahciPrivate
  assumes "hba_behaviour hba (ap_port pr) dev" and "hba_idle (dev g)"
    and "0 < unat tot" "unat tot \<le> 8191" "unat lba < 2 ^ 32"
    and "command_slot H T m" "H = ucast (hd_clb (dev g))" and "maps_buffer root buf pa H T m"
    and "n = unat lba" and "addressed = n mod 2 ^ 24 + 2 ^ 24 * (n div 2 ^ 16 mod 2 ^ 8)"
  shows "(addressed = n \<longleftrightarrow> n div 2 ^ 24 = n div 2 ^ 16 mod 2 ^ 8) \<and>
    (2 ^ 16 \<le> n \<and> n < 2 ^ 24 \<longrightarrow> addressed \<noteq> n) \<and>
    (\<exists>ret m' g'. ahciRead hba root lba tot buf pr (m, g) = Some (ret, (m', g')) \<and>
      (if (addressed + unat tot) * 512 \<le> length (hd_sectors (dev g))
       then ret = 0 \<and> bytes_at m' pa (unat tot * 512) = take (unat tot * 512) (drop (addressed * 512) (hd_sectors (dev g)))
       else ret = - EHARDWARE)) \<and>
    ((addressed + unat tot) * 512 \<le> length (hd_sectors (dev g)) \<and>
      (\<forall>i < unat tot * 512. pa + of_nat i \<notin> command_memory H T) \<longrightarrow>
      (\<exists>m' g'. ahciWrite hba root lba tot buf pr (m, g) = Some (0, (m', g')) \<and>
        hd_sectors (dev g') = overwrite (hd_sectors (dev g)) (addressed * 512) (bytes_at m pa (unat tot * 512))))"
proof -
  have L: "ahci_lba (unat lba) = addressed" "addressed = n \<longleftrightarrow> n div 2 ^ 24 = n div 2 ^ 16 mod 2 ^ 8"
    using ahci_lba_wrong [OF assms(5)] assms(9,10) by auto
  have "n div 2 ^ 24 = 0 \<and> n div 2 ^ 16 mod 2 ^ 8 \<noteq> 0" if a: "2 ^ 16 \<le> n" "n < 2 ^ 24"
  proof -
    have "n div 2 ^ 16 < 2 ^ 8" using a(2) by (intro less_mult_imp_div_less) simp
    moreover have "0 < n div 2 ^ 16" using a(1) by (simp add: div_greater_zero_iff)
    ultimately show ?thesis using a(2) by simp
  qed
  with L(2) have bad: "2 ^ 16 \<le> n \<and> n < 2 ^ 24 \<longrightarrow> addressed \<noteq> n" by metis
  have "\<exists>ret m' g'. ahciRead hba root lba tot buf pr (m, g) = Some (ret, (m', g')) \<and>
      (if (addressed + unat tot) * 512 \<le> length (hd_sectors (dev g))
       then ret = 0 \<and> bytes_at m' pa (unat tot * 512) = take (unat tot * 512) (drop (addressed * 512) (hd_sectors (dev g)))
       else ret = - EHARDWARE)"
  proof (cases "(addressed + unat tot) * 512 \<le> length (hd_sectors (dev g))")
    case True
    with ahci_read_sectors [OF assms(1-4,6-8), of lba] L(1) show ?thesis by auto
  next
    case False
    with ahci_read_fails [OF assms(1-4,6-8), of lba] L(1) show ?thesis by auto
  qed
  moreover have "\<exists>m' g'. ahciWrite hba root lba tot buf pr (m, g) = Some (0, (m', g')) \<and>
      hd_sectors (dev g') = overwrite (hd_sectors (dev g)) (addressed * 512) (bytes_at m pa (unat tot * 512))"
    if "(addressed + unat tot) * 512 \<le> length (hd_sectors (dev g))" "\<forall>i < unat tot * 512. pa + of_nat i \<notin> command_memory H T"
    using ahci_write_sectors [OF assms(1-4,6-8) _ that(2), of lba] that(1) L(1) by auto
  ultimately show ?thesis using L(2) bad by blast
qed

text \<open>
  The search for a free slot looks at 8 of the 32 slots and never fails: it returns the lowest of
  the slots 0 to 7 that is neither active nor issued, and slot 8 when these are taken, whether
  slot 8 is free or not.
\<close>

theorem getFreeSlot_bounds:
  assumes "reg_rd hba (port + PORT_SACT) b = (active, b1)" and "reg_rd hba (port + PORT_CI) b1 = (issued, b2)"
  shows "\<exists>r. getFreeSlot hba port b = (int r, b2) \<and> r \<le> 8 \<and>
    (\<forall>j < r. bit active j \<or> bit issued j) \<and> (r < 8 \<longrightarrow> \<not> bit active r \<and> \<not> bit issued r)"
proof -
  obtain r where r: "getFreeSlot_loop 32 0 (ucast (active OR issued)) = int r" "r \<le> 8"
    "\<forall>j < r. bit (ucast (active OR issued) :: byte) j" "r < 8 \<longrightarrow> \<not> bit (ucast (active OR issued) :: byte) r"
    using getFreeSlot_loop_spec [of 32 0 "ucast (active OR issued)"] by auto
  have "bit (ucast (active OR issued) :: byte) j \<longleftrightarrow> j < 8 \<and> (bit active j \<or> bit issued j)" for j
    by (auto simp: bit_simps)
  with r assms show ?thesis by (intro exI [of _ r]) (auto simp: getFreeSlot_def)
qed

section \<open>Witnesses\<close>

text \<open>
  Memory with a command header at 1 MiB, its table behind, and page tables at 2 MiB that map the page
  \<^verbatim>\<open>0x5000\<close> to the frame \<^verbatim>\<open>0x7000\<close>; a drive of four sectors.
\<close>

definition ahci_memory :: mem where
  "ahci_memory = put32 0x100008 0x101000 (put_bytes 0x200000 (bytes64 0x201003) (put_bytes 0x201000 (bytes64 0x202003)
     (put_bytes 0x202000 (bytes64 0x203003) (put_bytes 0x203028 (bytes64 0x7003) (\<lambda>_. 0)))))"

definition ahci_drive :: "byte list \<Rightarrow> hba_dev" where
  "ahci_drive sectors = \<lparr>hd_sectors = sectors, hd_clb = 0x100000, hd_ci = 0, hd_latency = 3, hd_busy = 0, hd_failed = False\<rparr>"

definition ahci_port :: ahciPrivate where
  "ahci_port = \<lparr>ap_port = 0xffffA00000000100, ap_availableEntries = 8\<rparr>"

lemma ahci_memory_slot: "command_slot 0x100000 0x101000 ahci_memory"
  by (simp add: command_slot_def ahci_memory_def)
    (simp add: le32_at_def put32_def put_bytes_def bytes64_def bytes32_def)

lemma ahci_memory_maps: "maps_buffer 0x200000 0x5000 0x7000 0x100000 0x101000 ahci_memory"
  unfolding maps_buffer_def
proof (intro allI impI)
  fix m' :: mem assume m': "\<forall>x. x \<notin> command_memory 0x100000 0x101000 \<longrightarrow> m' x = ahci_memory x"
  have "le64_at m' (0x200000 + of_nat k) = le64_at ahci_memory (0x200000 + of_nat k)" if k: "k \<le> 2 ^ 16" for k
  proof (rule le64_at_cong)
    fix i :: nat assume i: "i < 8"
    have u: "unat (0x200000 + of_nat k + of_nat i :: u64) = 0x200000 + k + i"
      using i k by (subst unat_add_small) (simp_all add: unat_add_small unat_of_nat_small)
    have "0x200000 + of_nat k + of_nat i \<notin> command_memory 0x100000 0x101000"
      unfolding command_memory_def mem_Collect_eq unat_sub_if' u by simp
    with m' show "m' (0x200000 + of_nat k + of_nat i) = ahci_memory (0x200000 + of_nat k + of_nat i)" by blast
  qed
  note e = this [of 0] this [of "0x1000"] this [of "0x2000"] this [of "0x3028"]
  have "le64_at ahci_memory 0x200000 = 0x201003" "le64_at ahci_memory 0x201000 = 0x202003"
    "le64_at ahci_memory 0x202000 = 0x203003" "le64_at ahci_memory 0x203028 = 0x7003"
    by (simp_all add: ahci_memory_def put32_def bytes32_def le64_at_put_other)
  with e show "virtualToPhysical 0x5000 0x200000 m' = 0x7000"
    by (simp add: virtualToPhysical_def getPTTable_def returnTableEntryNoFlags_def getPml4IndexFromVirtual_def
        paging_const_defs)
qed

lemma ahci_drive_facts:
  "hba_behaviour (hba_port_io 0xffffA00000000100) (ap_port ahci_port) (\<lambda>d. d)" "hba_idle (ahci_drive S)"
  "ucast (hd_clb (ahci_drive S)) = (0x100000 :: u64)" "hd_sectors (ahci_drive S) = S"
  using hba_port_io_behaviour [of "0xffffA00000000100"] by (simp_all add: ahci_port_def ahci_drive_def hba_idle_def)

theorem ahci_transfers_witness:
  "\<exists>m' g'. ahciRead (hba_port_io 0xffffA00000000100) 0x200000 1 2 0x5000 ahci_port
      (ahci_memory, ahci_drive (replicate 512 1 @ replicate 512 2 @ replicate 512 3)) = Some (0, (m', g')) \<and>
    bytes_at m' 0x7000 1024 = replicate 512 2 @ replicate 512 3"
proof -
  let ?S = "replicate 512 1 @ replicate 512 2 @ replicate 512 (3 :: byte)"
  have apart: "\<forall>i < 1024. 0x7000 + of_nat i \<notin> command_memory 0x100000 0x101000"
  proof (intro allI impI)
    fix i :: nat assume i: "i < 1024"
    have u: "unat (0x7000 + of_nat i :: u64) = 0x7000 + i"
      using i by (subst unat_add_small) (simp_all add: unat_of_nat_small)
    show "0x7000 + of_nat i \<notin> command_memory 0x100000 0x101000"
      unfolding command_memory_def mem_Collect_eq unat_sub_if' u using i by simp
  qed
  show ?thesis
    using ahci_transfers [OF ahci_drive_facts(1,2) _ _ _ ahci_memory_slot ahci_drive_facts(3) [symmetric] ahci_memory_maps,
        of 2 1 ?S] apart
    by (simp add: ahci_drive_facts(4)) blast
qed

theorem ahci_wrong_sector_witness:
  "\<exists>m' g'. ahciRead (hba_port_io 0xffffA00000000100) 0x200000 0x10000 1 0x5000 ahci_port
      (ahci_memory, ahci_drive (replicate 512 1)) = Some (- EHARDWARE, (m', g'))"
  using ahci_wrong_sector [OF ahci_drive_facts(1,2) _ _ _ ahci_memory_slot ahci_drive_facts(3) [symmetric] ahci_memory_maps refl refl,
      of 1 "0x10000" "replicate 512 1"]
  by (simp add: ahci_drive_facts(4))

theorem getFreeSlot_bounds_witness:
  "\<exists>r. fst (getFreeSlot (hba_port_io 0) 0 (ahci_memory, ahci_drive [])) = int r \<and> r \<le> 8"
proof -
  obtain active b1 where 1: "reg_rd (hba_port_io 0) (0 + PORT_SACT) (ahci_memory, ahci_drive []) = (active, b1)" by (rule prod.exhaust)
  obtain issued b2 where 2: "reg_rd (hba_port_io 0) (0 + PORT_CI) b1 = (issued, b2)" by (rule prod.exhaust)
  show ?thesis using getFreeSlot_bounds [OF 1 2] by auto
qed

end
