(* ===== verification/Path_Tracer.thy ===== *)
theory Path_Tracer
  imports Partition_Stream
begin

text \<open>
  Paths, \<^verbatim>\<open>vfsl/pathTracer.c\<close>: a path \<^verbatim>\<open>C:/dir/file\<close> is parsed into a doubly linked list of parts on
  the heap. The two stores map the addresses of the structures; a released structure leaves its
  store, so that a use after free is a fault.
\<close>

section \<open>State\<close>

record pathTracer =
  pt_label :: byte
  pt_root :: u64

record pathTracerPart =
  pathPart :: "byte list"
  pathType :: byte
  pathPrev :: u64
  pathNext :: u64

record 'h path_state = "'h pstream_state" +
  tracers :: "u64 \<Rightarrow> pathTracer option"
  tparts :: "u64 \<Rightarrow> pathTracerPart option"

definition BOBAOS_MAX_PATH_SIZE :: nat where "BOBAOS_MAX_PATH_SIZE = 255"
definition PATH_TRACER_PART_DIRECTORY :: byte where "PATH_TRACER_PART_DIRECTORY = 1"
definition PATH_TRACER_PART_FILE :: byte where "PATH_TRACER_PART_FILE = 2"
definition sizeof_pathTracer :: u64 where "sizeof_pathTracer = 16"
definition sizeof_pathTracerPart :: u64 where "sizeof_pathTracerPart = 272"

lemmas path_const_defs =
  BOBAOS_MAX_PATH_SIZE_def PATH_TRACER_PART_DIRECTORY_def PATH_TRACER_PART_FILE_def
  sizeof_pathTracer_def sizeof_pathTracerPart_def

definition deref :: "(u64 \<Rightarrow> 'b option) \<Rightarrow> u64 \<Rightarrow> 'b option" where
  "deref store p = (if p = 0 then None else store p)"

text \<open>The structures that fresh memory holds before their fields are set.\<close>

definition tracer_from :: "mem \<Rightarrow> u64 \<Rightarrow> pathTracer" where
  "tracer_from m a = \<lparr>pt_label = m a, pt_root = le64_at m (a + 8)\<rparr>"

definition part_from :: "mem \<Rightarrow> u64 \<Rightarrow> pathTracerPart" where
  "part_from m a = \<lparr>pathPart = bytes_at m a BOBAOS_MAX_PATH_SIZE, pathType = m (a + 255),
     pathPrev = le64_at m (a + 256), pathNext = le64_at m (a + 264)\<rparr>"

definition alloc_tracer :: "('h, 'a) path_state_scheme \<Rightarrow> (u64 \<times> ('h, 'a) path_state_scheme) option" where
  "alloc_tracer s = do {
     (p, s) \<leftarrow> kzalloc sizeof_pathTracer s;
     Some (p, if p = 0 then s else s\<lparr>tracers := (tracers s)(p \<mapsto> tracer_from (hmem s) p)\<rparr>)
   }"

definition alloc_part :: "('h, 'a) path_state_scheme \<Rightarrow> (u64 \<times> ('h, 'a) path_state_scheme) option" where
  "alloc_part s = do {
     (p, s) \<leftarrow> kzalloc sizeof_pathTracerPart s;
     Some (p, if p = 0 then s else s\<lparr>tparts := (tparts s)(p \<mapsto> part_from (hmem s) p)\<rparr>)
   }"

definition free_tracer :: "u64 \<Rightarrow> ('h, 'a) path_state_scheme \<Rightarrow> ('h, 'a) path_state_scheme option" where
  "free_tracer p s = do {
     (r, s) \<leftarrow> kzfree p s;
     Some (if r = 0 then s\<lparr>tracers := (tracers s)(p := None)\<rparr> else s)
   }"

definition free_part :: "u64 \<Rightarrow> ('h, 'a) path_state_scheme \<Rightarrow> ('h, 'a) path_state_scheme option" where
  "free_part p s = do {
     (r, s) \<leftarrow> kzfree p s;
     Some (if r = 0 then s\<lparr>tparts := (tparts s)(p := None)\<rparr> else s)
   }"

definition set_part ::
  "u64 \<Rightarrow> (pathTracerPart \<Rightarrow> pathTracerPart) \<Rightarrow> ('h, 'a) path_state_scheme \<Rightarrow> ('h, 'a) path_state_scheme option" where
  "set_part p f s = do { pt \<leftarrow> deref (tparts s) p; Some (s\<lparr>tparts := (tparts s)(p \<mapsto> f pt)\<rparr>) }"

section \<open>Operations\<close>

definition checkVolumeLabel :: "byte \<Rightarrow> bool" where
  "checkVolumeLabel label \<longleftrightarrow> BOBAOS_DEFAULT_VOLUME_LABEL \<le>s label \<and> label \<le>s 90"

text \<open>
  The loop of \<^verbatim>\<open>destroyPathTracer\<close> ends only when it meets \<^verbatim>\<open>NULL\<close>; on a cycle it meets a released part.
\<close>

partial_function (option) destroy_loop ::
  "u64 \<Rightarrow> ('h, 'a) path_state_scheme \<Rightarrow> ('h, 'a) path_state_scheme option" where
  "destroy_loop temp s =
     (if temp = 0 then Some s
      else do {
        pt \<leftarrow> deref (tparts s) temp;
        s \<leftarrow> free_part temp s;
        destroy_loop (pathNext pt) s
      })"

definition destroyPathTracer :: "u64 \<Rightarrow> ('h, 'a) path_state_scheme \<Rightarrow> ('h, 'a) path_state_scheme option" where
  "destroyPathTracer tracer s =
     (if tracer = 0 then Some s
      else do {
        t \<leftarrow> deref (tracers s) tracer;
        s \<leftarrow> destroy_loop (pt_root t) s;
        free_tracer tracer s
      })"

text \<open>
  The loop of \<^verbatim>\<open>createPathTracer\<close> over the characters after \<^verbatim>\<open>C:/\<close>: \<open>k\<close> rounds are left, \<open>i\<close> is the
  index, \<open>buf\<close> and \<open>cnt\<close> are the local buffer and its counter. The left result is an error code, the
  right one the current part with the buffer and the counter.
\<close>

primrec createPathTracer_loop ::
  "nat \<Rightarrow> nat \<Rightarrow> byte list \<Rightarrow> u64 \<Rightarrow> byte list \<Rightarrow> byte \<Rightarrow> ('h, 'a) path_state_scheme \<Rightarrow>
    ((int + u64 \<times> byte list \<times> byte) \<times> ('h, 'a) path_state_scheme) option" where
  "createPathTracer_loop 0 i path part buf cnt s = Some (Inr (part, buf, cnt), s)"
| "createPathTracer_loop (Suc k) i path part buf cnt s = do {
     c \<leftarrow> rd path i;
     if unat cnt = BOBAOS_MAX_PATH_SIZE - 1 \<or> c = 47 then
       if cnt = 0 then Some (Inl (- EFORMAT), s)
       else do {
         buf \<leftarrow> wr buf (unat cnt) 0;
         pt \<leftarrow> deref (tparts s) part;
         name \<leftarrow> strcpy (pathPart pt) buf;
         s \<leftarrow> set_part part (pathPart_update (\<lambda>_. name)) s;
         (tempPath, s) \<leftarrow> alloc_part s;
         if tempPath = 0 then Some (Inl (- ENMEM), s)
         else do {
           s \<leftarrow> set_part part (\<lambda>pt. pt\<lparr>pathType := PATH_TRACER_PART_DIRECTORY, pathNext := tempPath\<rparr>) s;
           s \<leftarrow> set_part tempPath (pathPrev_update (\<lambda>_. part)) s;
           createPathTracer_loop k (Suc i) path tempPath buf 0 s
         }
       }
     else do {
       buf \<leftarrow> wr buf (unat cnt) c;
       createPathTracer_loop k (Suc i) path part buf (cnt + 1) s
     }
   }"

definition createPathTracer_finish ::
  "u64 \<Rightarrow> byte list \<Rightarrow> byte \<Rightarrow> ('h, 'a) path_state_scheme \<Rightarrow> ('h, 'a) path_state_scheme option" where
  "createPathTracer_finish part buf cnt s = do {
     pt \<leftarrow> deref (tparts s) part;
     if cnt = 0 then do {
       s \<leftarrow> (if pathPrev pt \<noteq> 0 then set_part (pathPrev pt) (pathNext_update (\<lambda>_. 0)) s else Some s);
       free_part part s
     }
     else do {
       buf \<leftarrow> wr buf (unat cnt) 0;
       name \<leftarrow> strcpy (pathPart pt) buf;
       set_part part (\<lambda>pt. pt\<lparr>pathPart := name, pathType := PATH_TRACER_PART_FILE\<rparr>) s
     }
   }"

text \<open>
  The results are the tracer, the value of \<^verbatim>\<open>*oErrCode\<close> and the state. The buffer is local and
  uninitialised in the code; no byte of it is read before it is written.
\<close>

definition createPathTracer ::
  "byte list option \<Rightarrow> int \<Rightarrow> ('h, 'a) path_state_scheme \<Rightarrow> (u64 \<times> int \<times> ('h, 'a) path_state_scheme) option" where
  "createPathTracer path oErrCode s =
     (case path of None \<Rightarrow> Some (0, - EIARG, s)
      | Some path \<Rightarrow> do {
          label \<leftarrow> rd path 0;
          if \<not> checkVolumeLabel label then Some (0, - EFORMAT, s)
          else do {
            strLen \<leftarrow> strlen path;
            if unat strLen \<ge> BOBAOS_MAX_PATH_SIZE then Some (0, - ELONG, s)
            else do {
              c1 \<leftarrow> rd path 1;
              wrong \<leftarrow> (if c1 \<noteq> 58 then Some True else do { c2 \<leftarrow> rd path 2; Some (c2 \<noteq> 47) });
              if wrong then Some (0, - EFORMAT, s)
              else do {
                volume \<leftarrow> partitionGetByVolumeLabel label s;
                if volume = None then Some (0, - ENFOUND, s)
                else do {
                  (pathTracer, s) \<leftarrow> alloc_tracer s;
                  if pathTracer = 0 then Some (0, - ENMEM, s)
                  else do {
                    t \<leftarrow> deref (tracers s) pathTracer;
                    let s = s\<lparr>tracers := (tracers s)(pathTracer \<mapsto> t\<lparr>pt_label := label\<rparr>)\<rparr>;
                    (part, s) \<leftarrow> alloc_part s;
                    if part = 0 then do {
                      s \<leftarrow> free_tracer pathTracer s;
                      Some (0, - ENMEM, s)
                    }
                    else do {
                      t \<leftarrow> deref (tracers s) pathTracer;
                      let s = s\<lparr>tracers := (tracers s)(pathTracer \<mapsto> t\<lparr>pt_root := part\<rparr>)\<rparr>;
                      (r, s) \<leftarrow> createPathTracer_loop (unat strLen - 3) 3 path part
                                  (replicate BOBAOS_MAX_PATH_SIZE 0) 0 s;
                      (case r of
                         Inl err \<Rightarrow> do {
                           s \<leftarrow> destroyPathTracer pathTracer s;
                           Some (0, err, s)
                         }
                       | Inr (part, buf, cnt) \<Rightarrow> do {
                           s \<leftarrow> createPathTracer_finish part buf cnt s;
                           Some (pathTracer, oErrCode, s)
                         })
                    }
                  }
                }
              }
            }
          }
        })"

definition pathTracerStartTrace :: "u64 \<Rightarrow> ('h, 'a) path_state_scheme \<Rightarrow> u64 option" where
  "pathTracerStartTrace tracer s =
     (if tracer = 0 then Some 0 else do { t \<leftarrow> deref (tracers s) tracer; Some (pt_root t) })"

definition pathTracerGetNext :: "u64 \<Rightarrow> ('h, 'a) path_state_scheme \<Rightarrow> u64 option" where
  "pathTracerGetNext part s =
     (if part = 0 then Some 0 else do { pt \<leftarrow> deref (tparts s) part; Some (pathNext pt) })"

partial_function (option) getPathString_loop ::
  "u64 \<Rightarrow> u16 \<Rightarrow> byte list \<Rightarrow> ('h, 'a) path_state_scheme \<Rightarrow> byte list option" where
  "getPathString_loop part counter ret s =
     (if part = 0 then Some ret
      else do {
        pt \<leftarrow> deref (tparts s) part;
        n \<leftarrow> strlen (pathPart pt);
        sub \<leftarrow> strncpy (drop (unat counter) ret) (pathPart pt) n;
        let ret = take (unat counter) ret @ sub;
        let counter = counter + ucast n;
        ret \<leftarrow> (if pathType pt = PATH_TRACER_PART_DIRECTORY
               then do { c \<leftarrow> rd ret (unat counter); wr ret (unat counter) (c + 47) } else Some ret);
        part \<leftarrow> pathTracerGetNext part s;
        getPathString_loop part (counter + 1) ret s
      })"

definition pathTracerGetPathString ::
  "u64 \<Rightarrow> ('h, 'a) path_state_scheme \<Rightarrow> (u64 \<times> ('h, 'a) path_state_scheme) option" where
  "pathTracerGetPathString tracer s = do {
     (ret, s) \<leftarrow> kzalloc (of_nat BOBAOS_MAX_PATH_SIZE) s;
     if ret = 0 then Some (0, s)
     else do {
       let buf = bytes_at (hmem s) ret BOBAOS_MAX_PATH_SIZE;
       t \<leftarrow> deref (tracers s) tracer;
       buf \<leftarrow> wr buf 0 (pt_label t);
       buf \<leftarrow> wr buf 1 58;
       buf \<leftarrow> wr buf 2 47;
       part \<leftarrow> pathTracerStartTrace tracer s;
       buf \<leftarrow> getPathString_loop part 3 buf s;
       Some (ret, s\<lparr>hmem := put_bytes ret buf (hmem s)\<rparr>)
     }
   }"

partial_function (option) getFileName_loop ::
  "u64 \<Rightarrow> ('h, 'a) path_state_scheme \<Rightarrow> byte list option option" where
  "getFileName_loop part s =
     (if part = 0 then Some None
      else do {
        pt \<leftarrow> deref (tparts s) part;
        if pathType pt = PATH_TRACER_PART_FILE then Some (Some (pathPart pt))
        else getFileName_loop (pathNext pt) s
      })"

text \<open>The result \<open>Some None\<close> is \<^verbatim>\<open>NULL\<close>; otherwise it is the string behind the returned pointer.\<close>

definition pathTracerGetFileName :: "u64 \<Rightarrow> ('h, 'a) path_state_scheme \<Rightarrow> byte list option option" where
  "pathTracerGetFileName tracer s = do {
     part \<leftarrow> pathTracerStartTrace tracer s;
     getFileName_loop part s
   }"


section \<open>The represented path\<close>

text \<open>
  \<open>parse_parts cur cs\<close> is the list of named parts of the characters \<open>cs\<close>, where \<open>cur\<close> are the
  characters of the part that is being read; \<open>render_parts\<close> writes them out again.
\<close>

fun parse_parts :: "byte list \<Rightarrow> byte list \<Rightarrow> (byte list \<times> byte) list option" where
  "parse_parts cur [] = Some (if cur = [] then [] else [(cur, PATH_TRACER_PART_FILE)])"
| "parse_parts cur (c # cs) =
     (if c = 47 then
        if cur = [] then None else map_option (Cons (cur, PATH_TRACER_PART_DIRECTORY)) (parse_parts [] cs)
      else parse_parts (cur @ [c]) cs)"

definition render_parts :: "(byte list \<times> byte) list \<Rightarrow> byte list" where
  "render_parts ps = concat (map (\<lambda>(n, t). n @ (if t = PATH_TRACER_PART_DIRECTORY then [47] else [])) ps)"

lemma render_parse: "parse_parts cur cs = Some ps \<Longrightarrow> render_parts ps = cur @ cs"
proof (induction cur cs arbitrary: ps rule: parse_parts.induct)
  case (2 cur c cs)
  then show ?case by (auto simp: render_parts_def split: if_splits)
qed (auto simp: render_parts_def path_const_defs)

text \<open>A doubly linked list in the store, from the predecessor \<open>pv\<close> to the successor \<open>nx\<close>.\<close>

fun chain :: "(u64 \<Rightarrow> pathTracerPart option) \<Rightarrow> u64 \<Rightarrow> u64 list \<Rightarrow> u64 \<Rightarrow> bool" where
  "chain tp pv [] nx = True"
| "chain tp pv (a # as) nx \<longleftrightarrow> a \<noteq> 0 \<and>
     (case tp a of None \<Rightarrow> False
      | Some pt \<Rightarrow> pathPrev pt = pv \<and> pathNext pt = (case as of [] \<Rightarrow> nx | b # _ \<Rightarrow> b)) \<and>
     chain tp a as nx"

definition spells :: "(u64 \<Rightarrow> pathTracerPart option) \<Rightarrow> u64 list \<Rightarrow> (byte list \<times> byte) list \<Rightarrow> bool" where
  "spells tp as ps \<longleftrightarrow> list_all2 (\<lambda>a (n, t). case tp a of None \<Rightarrow> False
     | Some pt \<Rightarrow> terminated (pathPart pt) \<and> length (pathPart pt) = 255 \<and> cstr (pathPart pt) = n \<and> pathType pt = t) as ps"

lemma chain_snoc:
  "chain tp pv (as @ [b]) nx \<longleftrightarrow> chain tp pv as b \<and> b \<noteq> 0 \<and>
     (case tp b of None \<Rightarrow> False | Some pt \<Rightarrow> pathPrev pt = last (pv # as) \<and> pathNext pt = nx)"
  by (induction as arbitrary: pv) (auto split: option.splits list.splits)

lemma chain_upd_other: "b \<notin> set as \<Longrightarrow> chain (tp(b := x)) pv as nx = chain tp pv as nx"
  by (induction as arbitrary: pv) auto

lemma spells_upd_other: "b \<notin> set as \<Longrightarrow> spells (tp(b := x)) as ps = spells tp as ps"
  unfolding spells_def by (rule list.rel_cong) auto

lemma spells_snoc:
  "spells tp (as @ [b]) (ps @ [(n, t)]) \<longleftrightarrow> spells tp as ps \<and>
     (case tp b of None \<Rightarrow> False
      | Some pt \<Rightarrow> terminated (pathPart pt) \<and> length (pathPart pt) = 255 \<and> cstr (pathPart pt) = n \<and> pathType pt = t)"
  unfolding spells_def by (subst list_all2_rev [symmetric]) (simp add: conj_commute)

section \<open>Parts and the heap\<close>

definition blank_part :: pathTracerPart where
  "blank_part = \<lparr>pathPart = replicate 255 0, pathType = 0, pathPrev = 0, pathNext = 0\<rparr>"

lemma part_from_zero:
  assumes "\<forall>x. unat (x - a) < 4096 \<longrightarrow> m x = 0"
  shows "part_from m a = blank_part"
proof -
  have z: "m (a + of_nat i) = 0" if "i < 4096" for i
    using assms that by (simp add: unat_of_nat)
  have b: "bytes_at m (a + of_nat k) n = replicate n 0" if "k + n \<le> 4096" for k n
    using that z by (intro nth_equalityI) (simp_all add: bytes_at_def add.assoc flip: of_nat_add)
  have l: "le64_at m (a + of_nat k) = 0" if "k \<le> 4000" for k
    using that b [of k 8] by (simp add: le64_at_def numeral_eq_Suc)
  show ?thesis
    using b [of 0 255] z [of 255] l [of 256] l [of 264]
    by (simp add: part_from_def blank_part_def path_const_defs)
qed

lemma alloc_part_cases:
  fixes s :: "('h, 'a) path_state_scheme"
  assumes wf: "kheap_wf s"
  obtains (null) "alloc_part s = Some (0, s)"
  | (block) p m where "alloc_part s = Some (p, s\<lparr>hmem := m, tparts := (tparts s)(p \<mapsto> blank_part)\<rparr>)" "p \<noteq> 0"
      "kheap_wf (s\<lparr>hmem := m, tparts := (tparts s)(p \<mapsto> blank_part)\<rparr>)"
      "live (s\<lparr>hmem := m, tparts := (tparts s)(p \<mapsto> blank_part)\<rparr>) = insert (p, 4096) (live s)"
      "\<forall>k. (p, k) \<notin> live s"
proof -
  have ok: "size_ok sizeof_pathTracerPart" by (simp add: size_ok_def path_const_defs)
  have pages: "pages_for sizeof_pathTracerPart = 1" by (simp add: pages_for_def path_const_defs)
  from wf ok show thesis
  proof (cases rule: kheap_alloc)
    case null
    then show ?thesis using that(1) by (simp add: alloc_part_def)
  next
    case (block p s')
    obtain m where m: "s' = s\<lparr>hmem := m\<rparr>"
      using kzalloc_frame [OF _ block(1)] wf by (auto simp: kheap_wf_def)
    have z: "part_from m p = blank_part"
      using kheap_zeroed [OF wf ok block(1,2)] by (intro part_from_zero) (simp add: pages m)
    have [simp]: "live (s\<lparr>hmem := m, tparts := x\<rparr>) = live s'" "kheap_wf (s\<lparr>hmem := m, tparts := x\<rparr>) = kheap_wf s'" for x
      by (rule same_heap; simp add: m)+
    show ?thesis
      using that(2) [of p m] block by (simp add: alloc_part_def z m pages)
  qed
qed

lemma free_part_live:
  fixes s :: "('h, 'a) path_state_scheme"
  assumes "kheap_wf s" and "(p, l) \<in> live s"
  shows "\<exists>m. free_part p s = Some (s\<lparr>hmem := m, tparts := (tparts s)(p := None)\<rparr>) \<and>
    kheap_wf (s\<lparr>hmem := m, tparts := (tparts s)(p := None)\<rparr>) \<and>
    live (s\<lparr>hmem := m, tparts := (tparts s)(p := None)\<rparr>) = live s - {(p, l)}"
proof -
  obtain s' where s': "kzfree p s = Some (0, s')" "kheap_wf s'" "live s' = live s - {(p, l)}"
    using kheap_free [OF assms] by blast
  then obtain m where m: "s' = s\<lparr>hmem := m\<rparr>"
    using kzfree_frame [OF _ s'(1)] assms(1) by (auto simp: kheap_wf_def)
  have [simp]: "live (s\<lparr>hmem := m, tparts := x\<rparr>) = live s'" "kheap_wf (s\<lparr>hmem := m, tparts := x\<rparr>) = kheap_wf s'" for x
    by (rule same_heap; simp add: m)+
  show ?thesis using s' by (intro exI [of _ m]) (simp add: free_part_def m)
qed

text \<open>Releasing a chain of parts.\<close>

lemma destroy_loop_chain:
  fixes s :: "('h, 'a) path_state_scheme"
  assumes "chain (tparts s) pv as 0" and "distinct as" and "kheap_wf s"
    and "\<forall>a \<in> set as. (a, 4096) \<in> live s"
  shows "\<exists>m tp. let s' = s\<lparr>hmem := m, tparts := tp\<rparr> in
    destroy_loop (case as of [] \<Rightarrow> 0 | a # _ \<Rightarrow> a) s = Some s' \<and> kheap_wf s' \<and>
    live s' = live s - (\<lambda>a. (a, 4096)) ` set as"
  using assms
proof (induction as arbitrary: pv s)
  case Nil
  then show ?case
    by (intro exI [of _ "hmem s"] exI [of _ "tparts s"]) (simp add: destroy_loop.simps)
next
  case (Cons a as)
  from Cons.prems obtain pt where pt: "tparts s a = Some pt" "a \<noteq> 0"
    "pathNext pt = (case as of [] \<Rightarrow> 0 | b # _ \<Rightarrow> b)" "chain (tparts s) a as 0"
    by (cases "tparts s a") auto
  obtain m where m: "free_part a s = Some (s\<lparr>hmem := m, tparts := (tparts s)(a := None)\<rparr>)"
    "kheap_wf (s\<lparr>hmem := m, tparts := (tparts s)(a := None)\<rparr>)"
    "live (s\<lparr>hmem := m, tparts := (tparts s)(a := None)\<rparr>) = live s - {(a, 4096)}"
    using free_part_live [OF Cons.prems(3), of a 4096] Cons.prems(4) by (metis list.set_intros(1))
  let ?s = "s\<lparr>hmem := m, tparts := (tparts s)(a := None)\<rparr>"
  have "distinct as" and c: "chain (tparts ?s) a as 0"
    using pt(4) Cons.prems(2) by (simp_all add: chain_upd_other)
  moreover have l: "\<forall>b \<in> set as. (b, 4096) \<in> live ?s" using Cons.prems m(3) by auto
  ultimately obtain m' tp where IH: "destroy_loop (case as of [] \<Rightarrow> 0 | b # _ \<Rightarrow> b) ?s = Some (?s\<lparr>hmem := m', tparts := tp\<rparr>)"
    "kheap_wf (?s\<lparr>hmem := m', tparts := tp\<rparr>)"
    "live (?s\<lparr>hmem := m', tparts := tp\<rparr>) = live ?s - (\<lambda>a. (a, 4096)) ` set as"
    using Cons.IH [OF c _ m(2) l, unfolded Let_def] by blast
  have "destroy_loop a s = Some (?s\<lparr>hmem := m', tparts := tp\<rparr>)"
    using pt m(1) IH(1) by (simp add: destroy_loop.simps [of a] deref_def)
  moreover have "live (?s\<lparr>hmem := m', tparts := tp\<rparr>) = live s - (\<lambda>a. (a, 4096)) ` set (a # as)"
    using IH(3) m(3) by auto
  ultimately show ?case using IH(2) by (intro exI [of _ m'] exI [of _ tp]) (simp add: Let_def)
qed


section \<open>Parsing\<close>

text \<open>
  The state of the parser: the closed parts \<open>as\<close> spell \<open>ps\<close>, \<open>part\<close> is the last one of the chain, and
  the live blocks are those of \<open>B\<close> and the parts.
\<close>

definition building ::
  "('h, 'a) path_state_scheme \<Rightarrow> (u64 \<times> nat) set \<Rightarrow> u64 list \<Rightarrow> u64 \<Rightarrow> (byte list \<times> byte) list \<Rightarrow> bool" where
  "building s B as part ps \<longleftrightarrow> kheap_wf s \<and> chain (tparts s) 0 (as @ [part]) 0 \<and> distinct (as @ [part]) \<and>
     live s = B \<union> (\<lambda>a. (a, 4096)) ` set (as @ [part]) \<and> (\<forall>a \<in> set (as @ [part]). \<forall>k. (a, k) \<notin> B) \<and>
     spells (tparts s) as ps \<and> (case tparts s part of None \<Rightarrow> False | Some pt \<Rightarrow> length (pathPart pt) = 255)"

lemma building_part:
  assumes "building s B as part ps"
  obtains pt where "tparts s part = Some pt" "part \<noteq> 0" "length (pathPart pt) = 255"
    "pathPrev pt = last (0 # as)" "pathNext pt = 0"
  using assms by (auto simp: building_def chain_snoc split: option.splits)

lemma building_change:
  fixes s :: "('h, 'a) path_state_scheme"
  assumes "building s B as part ps" and "length (pathPart pt) = 255"
    and "pathPrev pt = last (0 # as)" "pathNext pt = 0"
  shows "building (s\<lparr>tparts := (tparts s)(part \<mapsto> pt)\<rparr>) B as part ps"
proof -
  have "live (s\<lparr>tparts := x\<rparr>) = live s" "kheap_wf (s\<lparr>tparts := x\<rparr>) = kheap_wf s" for x
    by (rule same_heap; simp)+
  with assms show ?thesis
    by (auto simp: building_def chain_snoc chain_upd_other spells_upd_other)
qed

lemma building_extend:
  fixes s :: "('h, 'a) path_state_scheme"
  assumes b: "building s B as part ps"
    and pt: "length (pathPart pt) = 255" "terminated (pathPart pt)" "cstr (pathPart pt) = n" "pathType pt = t"
      "pathPrev pt = last (0 # as)" "pathNext pt = p"
    and p: "p \<noteq> 0" "\<forall>k. (p, k) \<notin> live s"
    and wf: "kheap_wf (s\<lparr>hmem := m, tparts := x\<rparr>)"
    and lv: "live (s\<lparr>hmem := m, tparts := x\<rparr>) = insert (p, 4096) (live s)"
  shows "building (s\<lparr>hmem := m, tparts := (tparts s)(part \<mapsto> pt, p \<mapsto> blank_part\<lparr>pathPrev := part\<rparr>)\<rparr>)
    B (as @ [part]) p (ps @ [(n, t)])"
proof -
  have eq: "live (s\<lparr>hmem := m, tparts := y\<rparr>) = live (s\<lparr>hmem := m, tparts := x\<rparr>)"
    "kheap_wf (s\<lparr>hmem := m, tparts := y\<rparr>) = kheap_wf (s\<lparr>hmem := m, tparts := x\<rparr>)" for y
    by (rule same_heap; simp)+
  have new: "p \<notin> set (as @ [part])" "\<forall>k. (p, k) \<notin> B"
    using b p(2) by (auto simp: building_def)
  have part: "part \<notin> set as" "part \<noteq> 0" using b by (auto simp: building_def chain_snoc)
  show ?thesis
    unfolding building_def
  proof (intro conjI)
    show "chain (tparts (s\<lparr>hmem := m, tparts := (tparts s)(part \<mapsto> pt, p \<mapsto> blank_part\<lparr>pathPrev := part\<rparr>)\<rparr>)) 0
        ((as @ [part]) @ [p]) 0"
      unfolding chain_snoc using b pt p(1) new part
      by (auto simp: building_def chain_snoc chain_upd_other blank_part_def simp del: append_assoc)
    show "spells (tparts (s\<lparr>hmem := m, tparts := (tparts s)(part \<mapsto> pt, p \<mapsto> blank_part\<lparr>pathPrev := part\<rparr>)\<rparr>))
        (as @ [part]) (ps @ [(n, t)])"
      using b pt new part by (auto simp: building_def spells_snoc spells_upd_other)
    show "kheap_wf (s\<lparr>hmem := m, tparts := (tparts s)(part \<mapsto> pt, p \<mapsto> blank_part\<lparr>pathPrev := part\<rparr>)\<rparr>)"
      by (rule eq(2) [THEN iffD2, OF wf])
    show "live (s\<lparr>hmem := m, tparts := (tparts s)(part \<mapsto> pt, p \<mapsto> blank_part\<lparr>pathPrev := part\<rparr>)\<rparr>)
      = B \<union> (\<lambda>a. (a, 4096)) ` set ((as @ [part]) @ [p])"
      by (rule trans [OF eq(1)]) (use b lv in \<open>simp add: building_def insert_commute\<close>)
    show "distinct ((as @ [part]) @ [p])" using b new(1) by (auto simp: building_def)
    show "\<forall>a \<in> set ((as @ [part]) @ [p]). \<forall>k. (a, k) \<notin> B" using b new(2) by (simp add: building_def)
  qed (simp add: blank_part_def)
qed

lemma set_part_eq:
  "tparts s p = Some pt \<Longrightarrow> p \<noteq> 0 \<Longrightarrow> set_part p f s = Some (s\<lparr>tparts := (tparts s)(p \<mapsto> f pt)\<rparr>)"
  by (simp add: set_part_def deref_def)

lemma createPathTracer_loop_spec:
  fixes s :: "('h, 'a) path_state_scheme"
  assumes "building s B as part ps"
    and "terminated path" and "i + k = length (cstr path)" and "i + k < 255"
    and "length buf = 255" and "unat cnt < i" and "0 \<notin> set (take (unat cnt) buf)"
  shows "\<exists>r s' as' part' ps' m tp. createPathTracer_loop k i path part buf cnt s = Some (r, s') \<and>
    s' = s\<lparr>hmem := m, tparts := tp\<rparr> \<and> building s' B as' part' ps' \<and> hd (as' @ [part']) = hd (as @ [part]) \<and>
    (case r of
       Inl err \<Rightarrow> err = - ENMEM \<or> err = - EFORMAT \<and> parse_parts (take (unat cnt) buf) (drop i (cstr path)) = None
     | Inr (p', buf', cnt') \<Rightarrow> p' = part' \<and> length buf' = 255 \<and> unat cnt' < 255 \<and> 0 \<notin> set (take (unat cnt') buf') \<and>
         (\<exists>ds. ps' = ps @ ds \<and> parse_parts (take (unat cnt) buf) (drop i (cstr path)) =
           Some (ds @ (if cnt' = 0 then [] else [(take (unat cnt') buf', PATH_TRACER_PART_FILE)]))))"
  using assms
proof (induction k arbitrary: s as part ps i buf cnt)
  case 0
  then have "drop i (cstr path) = []" "take (unat cnt) buf = [] \<longleftrightarrow> cnt = 0"
    by (auto simp: unat_eq_0)
  with 0 show ?case
    by (intro exI [of _ "Inr (part, buf, cnt)"] exI [of _ s] exI [of _ as] exI [of _ part] exI [of _ ps]
        exI [of _ "hmem s"] exI [of _ "tparts s"]) simp
next
  case (Suc k)
  let ?cs = "drop i (cstr path)" and ?cur = "take (unat cnt) buf"
  have i: "i < length (cstr path)" using Suc.prems by simp
  have c: "rd path i = Some (cstr path ! i)" "cstr path ! i \<noteq> 0" using cstr_nth [OF i] by (simp_all add: rd_def)
  have cs: "?cs = cstr path ! i # drop (Suc i) (cstr path)" using i by (simp add: Cons_nth_drop_Suc)
  have cnt: "unat cnt < 254" "unat cnt < length buf" using Suc.prems by simp_all
  have cur: "?cur = [] \<longleftrightarrow> cnt = 0" using cnt(2) by (auto simp: unat_eq_0)
  show ?case
  proof (cases "cstr path ! i = 47")
    case sep: True
    show ?thesis
    proof (cases "cnt = 0")
      case True
      with Suc.prems sep c cs cur show ?thesis
        by (intro exI [of _ "Inl (- EFORMAT)"] exI [of _ s] exI [of _ as] exI [of _ part] exI [of _ ps]
            exI [of _ "hmem s"] exI [of _ "tparts s"]) (simp add: path_const_defs)
    next
      case False
      obtain pt where pt: "tparts s part = Some pt" "part \<noteq> 0" "length (pathPart pt) = 255"
        "pathPrev pt = last (0 # as)" "pathNext pt = 0" by (rule building_part [OF Suc.prems(1)])
      note buf = terminate_buffer [OF cnt(2) Suc.prems(7)]
      have "length (cstr (buf[unat cnt := 0])) < length (pathPart pt)" using cnt by (simp add: buf(2) pt(3))
      then obtain d where d: "strcpy (pathPart pt) (buf[unat cnt := 0]) = Some d" "cstr d = ?cur"
        "terminated d" "length d = 255"
        using strcpy_copies [OF buf(3), of "pathPart pt"] by (auto simp: buf(2) pt(3))
      let ?s = "s\<lparr>tparts := (tparts s)(part \<mapsto> pt\<lparr>pathPart := d\<rparr>)\<rparr>"
      have b: "building ?s B as part ps"
        using building_change [OF Suc.prems(1), of "pt\<lparr>pathPart := d\<rparr>"] d pt by simp
      note step = c sep False buf(1) pt d(1) set_part_eq [of s part pt] path_const_defs cnt(1)
      have wf: "kheap_wf ?s" using b by (simp add: building_def)
      then show ?thesis
      proof (cases rule: alloc_part_cases)
        case null
        have "createPathTracer_loop (Suc k) i path part buf cnt s = Some (Inl (- ENMEM), ?s)"
          using cnt(1) by (simp add: step null deref_def)
        with b show ?thesis
          by (intro exI [of _ "Inl (- ENMEM)"] exI [of _ ?s] exI [of _ as] exI [of _ part] exI [of _ ps]
              exI [of _ "hmem s"] exI [of _ "tparts ?s"]) (simp add: fun_upd_def)
      next
        case (block p m)
        let ?pt = "pt\<lparr>pathPart := d, pathType := 1, pathNext := p\<rparr>"
        let ?t = "?s\<lparr>hmem := m, tparts := (tparts ?s)(part \<mapsto> ?pt, p \<mapsto> blank_part\<lparr>pathPrev := part\<rparr>)\<rparr>"
        have b': "building ?t B (as @ [part]) p (ps @ [(?cur, 1)])"
          by (rule building_extend [OF b _ _ _ _ _ _ block(2,5,3,4)]) (use d pt in simp_all)
        have "p \<noteq> part" using b block(5) by (auto simp: building_def)
        then have l: "createPathTracer_loop (Suc k) i path part buf cnt s =
          createPathTracer_loop k (Suc i) path p (buf[unat cnt := 0]) 0 ?t"
          using cnt(1) block(2) by (simp add: step block(1) deref_def set_part_def fun_upd_twist)
        have pp: "parse_parts ?cur ?cs = map_option (Cons (?cur, 1)) (parse_parts [] (drop (Suc i) (cstr path)))"
          using sep False cur by (simp add: cs path_const_defs)
        have IH_prems: "Suc i + k = length (cstr path)" "Suc i + k < 255" "length (buf[unat cnt := 0]) = 255"
          "unat (0 :: byte) < Suc i" "0 \<notin> set (take (unat (0 :: byte)) (buf[unat cnt := 0]))"
          using Suc.prems by simp_all
        obtain r s' as' part' ps' m' tp where IH:
          "createPathTracer_loop k (Suc i) path p (buf[unat cnt := 0]) 0 ?t = Some (r, s')"
          "s' = ?t\<lparr>hmem := m', tparts := tp\<rparr>" "building s' B as' part' ps'"
          "hd (as' @ [part']) = hd ((as @ [part]) @ [p])"
          "case r of
             Inl err \<Rightarrow> err = - ENMEM \<or> err = - EFORMAT \<and> parse_parts [] (drop (Suc i) (cstr path)) = None
           | Inr (p', buf', cnt') \<Rightarrow> p' = part' \<and> length buf' = 255 \<and> unat cnt' < 255 \<and> 0 \<notin> set (take (unat cnt') buf') \<and>
               (\<exists>ds. ps' = (ps @ [(?cur, 1)]) @ ds \<and> parse_parts [] (drop (Suc i) (cstr path)) =
                 Some (ds @ (if cnt' = 0 then [] else [(take (unat cnt') buf', PATH_TRACER_PART_FILE)])))"
          using Suc.IH [OF b' Suc.prems(2) IH_prems(1-5), unfolded unat_0 take_0]
          by (elim exE conjE) (rule that, assumption+)
        have "s' = s\<lparr>hmem := m', tparts := tp\<rparr>" using IH(2) by simp
        moreover have "hd (as' @ [part']) = hd (as @ [part])" using IH(4) by (cases as) simp_all
        moreover have "case r of
             Inl err \<Rightarrow> err = - ENMEM \<or> err = - EFORMAT \<and> parse_parts ?cur ?cs = None
           | Inr (p', buf', cnt') \<Rightarrow> p' = part' \<and> length buf' = 255 \<and> unat cnt' < 255 \<and> 0 \<notin> set (take (unat cnt') buf') \<and>
               (\<exists>ds. ps' = ps @ ds \<and> parse_parts ?cur ?cs =
                 Some (ds @ (if cnt' = 0 then [] else [(take (unat cnt') buf', PATH_TRACER_PART_FILE)])))"
          using IH(5) unfolding pp by (cases r) auto
        ultimately show ?thesis using IH(1,3) unfolding l by blast
      qed
    qed
  next
    case False
    have cnt': "unat (cnt + 1) = Suc (unat cnt)" using cnt(1) by (simp add: unat_add_small)
    have take': "take (unat (cnt + 1)) (buf[unat cnt := cstr path ! i]) = ?cur @ [cstr path ! i]"
      using cnt(2) by (simp add: cnt' take_Suc_conv_app_nth)
    have l: "createPathTracer_loop (Suc k) i path part buf cnt s =
      createPathTracer_loop k (Suc i) path part (buf[unat cnt := cstr path ! i]) (cnt + 1) s"
      using False c cnt by (simp add: path_const_defs wr_def)
    have pp: "parse_parts ?cur ?cs = parse_parts (?cur @ [cstr path ! i]) (drop (Suc i) (cstr path))"
      using False by (simp add: cs)
    have "Suc i + k = length (cstr path)" "Suc i + k < 255" "length (buf[unat cnt := cstr path ! i]) = 255"
      "unat (cnt + 1) < Suc i" "0 \<notin> set (take (unat (cnt + 1)) (buf[unat cnt := cstr path ! i]))"
      unfolding take' using Suc.prems c(2) by (simp_all add: cnt')
    from Suc.IH [OF Suc.prems(1,2) this, unfolded take'] show ?thesis unfolding l pp .
  qed
qed


section \<open>Properties\<close>

definition closed ::
  "('h, 'a) path_state_scheme \<Rightarrow> (u64 \<times> nat) set \<Rightarrow> u64 list \<Rightarrow> (byte list \<times> byte) list \<Rightarrow> bool" where
  "closed s B as ps \<longleftrightarrow> kheap_wf s \<and> chain (tparts s) 0 as 0 \<and> distinct as \<and>
     live s = B \<union> (\<lambda>a. (a, 4096)) ` set as \<and> (\<forall>a \<in> set as. \<forall>k. (a, k) \<notin> B) \<and> spells (tparts s) as ps"

lemma last_in: "as \<noteq> [] \<Longrightarrow> as = butlast as @ [last as]"
  by simp

lemma chain_nonzero: "chain tp pv as nx \<Longrightarrow> a \<in> set as \<Longrightarrow> a \<noteq> 0"
  by (induction as arbitrary: pv) auto

lemma createPathTracer_finish_spec:
  fixes s :: "('h, 'a) path_state_scheme"
  assumes b: "building s B as part ps" and buf: "length buf = 255" "unat cnt < 255" "0 \<notin> set (take (unat cnt) buf)"
  defines "full \<equiv> ps @ (if cnt = 0 then [] else [(take (unat cnt) buf, PATH_TRACER_PART_FILE)])"
  shows "\<exists>m tp as'. createPathTracer_finish part buf cnt s = Some (s\<lparr>hmem := m, tparts := tp\<rparr>) \<and>
    closed (s\<lparr>hmem := m, tparts := tp\<rparr>) B as' full \<and> (as' \<noteq> [] \<longrightarrow> hd as' = hd (as @ [part])) \<and>
    (as' = [] \<longrightarrow> as = [] \<and> tp part = None)"
proof -
  obtain pt where pt: "tparts s part = Some pt" "part \<noteq> 0" "length (pathPart pt) = 255"
    "pathPrev pt = last (0 # as)" "pathNext pt = 0" by (rule building_part [OF b])
  have eq: "live (s\<lparr>hmem := m, tparts := y\<rparr>) = live (s\<lparr>hmem := m\<rparr>)"
    "kheap_wf (s\<lparr>hmem := m, tparts := y\<rparr>) = kheap_wf (s\<lparr>hmem := m\<rparr>)" for y m
    by (rule same_heap; simp)+
  note bd = b [unfolded building_def]
  show ?thesis
  proof (cases "cnt = 0")
    case False
    note tb = terminate_buffer [OF _ buf(3), unfolded buf(1), OF buf(2)]
    have "length (cstr (buf[unat cnt := 0])) < length (pathPart pt)" using buf by (simp add: tb(2) pt(3))
    then obtain d where d: "strcpy (pathPart pt) (buf[unat cnt := 0]) = Some d" "cstr d = take (unat cnt) buf"
      "terminated d" "length d = 255"
      using strcpy_copies [OF tb(3), of "pathPart pt"] by (auto simp: tb(2) pt(3))
    let ?tp = "(tparts s)(part \<mapsto> pt\<lparr>pathPart := d, pathType := 2\<rparr>)"
    have "createPathTracer_finish part buf cnt s = Some (s\<lparr>hmem := hmem s, tparts := ?tp\<rparr>)"
      using False pt tb(1) d(1) by (simp add: createPathTracer_finish_def deref_def set_part_def path_const_defs)
    moreover have "closed (s\<lparr>hmem := hmem s, tparts := ?tp\<rparr>) B (as @ [part]) full"
      unfolding closed_def eq full_def using False bd pt d
      by (auto simp: chain_snoc chain_upd_other spells_snoc spells_upd_other path_const_defs)
    ultimately show ?thesis by blast
  next
    case True
    have wf: "kheap_wf s" and lv: "(part, 4096) \<in> live s" using bd by simp_all
    show ?thesis
    proof (cases "as = []")
      case as: True
      obtain m where m: "free_part part s = Some (s\<lparr>hmem := m, tparts := (tparts s)(part := None)\<rparr>)"
        "kheap_wf (s\<lparr>hmem := m, tparts := (tparts s)(part := None)\<rparr>)"
        "live (s\<lparr>hmem := m, tparts := (tparts s)(part := None)\<rparr>) = live s - {(part, 4096)}"
        using free_part_live [OF wf lv] by (elim exE conjE) (rule that)
      have "createPathTracer_finish part buf cnt s = Some (s\<lparr>hmem := m, tparts := (tparts s)(part := None)\<rparr>)"
        using True pt m(1) as by (simp add: createPathTracer_finish_def deref_def)
      moreover have "closed (s\<lparr>hmem := m, tparts := (tparts s)(part := None)\<rparr>) B [] full"
        using bd m(2) as True by (auto simp: closed_def m(3) full_def spells_def)
      ultimately show ?thesis using as by fastforce
    next
      case as: False
      define q where "q = last as"
      obtain qt where qt: "tparts s q = Some qt" "q \<noteq> 0" "pathPrev qt = last (0 # butlast as)" "pathNext qt = part"
        "q \<in> set as" "chain (tparts s) 0 (butlast as) q" "q \<notin> set (butlast as)"
      proof -
        have "chain (tparts s) 0 as part" "distinct as" using bd by (simp_all add: chain_snoc)
        then have c: "chain (tparts s) 0 (butlast as @ [q]) part" "distinct (butlast as @ [q])"
          using as by (simp_all add: q_def)
        have "q \<in> set as" using as by (simp add: q_def)
        with c that show thesis unfolding chain_snoc by (auto split: option.splits)
      qed
      let ?s = "s\<lparr>tparts := (tparts s)(q \<mapsto> qt\<lparr>pathNext := 0\<rparr>)\<rparr>"
      have e: "live ?s = live s" "kheap_wf ?s = kheap_wf s" by (rule same_heap; simp)+
      obtain m where m: "free_part part ?s = Some (?s\<lparr>hmem := m, tparts := (tparts ?s)(part := None)\<rparr>)"
        "kheap_wf (?s\<lparr>hmem := m, tparts := (tparts ?s)(part := None)\<rparr>)"
        "live (?s\<lparr>hmem := m, tparts := (tparts ?s)(part := None)\<rparr>) = live s - {(part, 4096)}"
        using free_part_live [of ?s part 4096, unfolded e, OF wf lv] by (elim exE conjE) (rule that)
      let ?tp = "(tparts s)(q \<mapsto> qt\<lparr>pathNext := 0\<rparr>, part := None)"
      have ne: "part \<noteq> q" "part \<notin> set as" using bd qt(5) by auto
      have fin: "createPathTracer_finish part buf cnt s = Some (s\<lparr>hmem := m, tparts := ?tp\<rparr>)"
        using True pt m(1) as qt by (simp add: createPathTracer_finish_def deref_def set_part_def q_def)
      have ch: "chain ?tp 0 as 0"
      proof -
        have "part \<notin> set (butlast as)" using ne(2) by (auto dest: in_set_butlastD)
        then have "chain ?tp 0 (butlast as @ [q]) 0"
          unfolding chain_snoc using qt ne by (simp add: chain_upd_other)
        then show ?thesis using as by (simp add: q_def)
      qed
      have sp: "spells ?tp as full"
      proof -
        have "spells ((tparts s)(q \<mapsto> qt\<lparr>pathNext := 0\<rparr>)) as ps"
          using bd qt(1) unfolding spells_def by (auto elim!: list_all2_mono)
        then show ?thesis using True ne(2) by (simp add: full_def spells_upd_other)
      qed
      have "closed (s\<lparr>hmem := m, tparts := ?tp\<rparr>) B as full"
        using m(2,3) bd ch sp ne by (auto simp: closed_def)
      with fin as show ?thesis by (intro exI [of _ m] exI [of _ ?tp] exI [of _ as]) simp
    qed
  qed
qed


lemma alloc_tracer_cases:
  fixes s :: "('h, 'a) path_state_scheme"
  assumes wf: "kheap_wf s"
  obtains (null) "alloc_tracer s = Some (0, s)"
  | (block) p m t where "alloc_tracer s = Some (p, s\<lparr>hmem := m, tracers := (tracers s)(p \<mapsto> t)\<rparr>)" "p \<noteq> 0"
      "kheap_wf (s\<lparr>hmem := m\<rparr>)" "live (s\<lparr>hmem := m\<rparr>) = insert (p, 4096) (live s)" "\<forall>k. (p, k) \<notin> live s"
proof -
  have ok: "size_ok sizeof_pathTracer" by (simp add: size_ok_def path_const_defs)
  have pages: "pages_for sizeof_pathTracer = 1" by (simp add: pages_for_def path_const_defs)
  from wf ok show thesis
  proof (cases rule: kheap_alloc)
    case null
    then show ?thesis using that(1) by (simp add: alloc_tracer_def)
  next
    case (block p s')
    obtain m where m: "s' = s\<lparr>hmem := m\<rparr>"
      using kzalloc_frame [OF _ block(1)] wf by (auto simp: kheap_wf_def)
    show ?thesis
      using that(2) [of p "tracer_from m p" m] block by (simp add: alloc_tracer_def m pages)
  qed
qed

lemma free_tracer_live:
  fixes s :: "('h, 'a) path_state_scheme"
  assumes "kheap_wf s" and "(p, l) \<in> live s"
  shows "\<exists>m. free_tracer p s = Some (s\<lparr>hmem := m, tracers := (tracers s)(p := None)\<rparr>) \<and>
    kheap_wf (s\<lparr>hmem := m\<rparr>) \<and> live (s\<lparr>hmem := m\<rparr>) = live s - {(p, l)}"
proof -
  obtain s' where s': "kzfree p s = Some (0, s')" "kheap_wf s'" "live s' = live s - {(p, l)}"
    using kheap_free [OF assms] by blast
  then obtain m where m: "s' = s\<lparr>hmem := m\<rparr>"
    using kzfree_frame [OF _ s'(1)] assms(1) by (auto simp: kheap_wf_def)
  show ?thesis using s' by (intro exI [of _ m]) (simp add: free_tracer_def m)
qed

lemma path_heap [simp]:
  fixes s :: "('h, 'a) path_state_scheme"
  shows "live (s\<lparr>tracers := x\<rparr>) = live s" "kheap_wf (s\<lparr>tracers := x\<rparr>) = kheap_wf s"
    "live (s\<lparr>hmem := m, tracers := x\<rparr>) = live (s\<lparr>hmem := m\<rparr>)"
    "kheap_wf (s\<lparr>hmem := m, tracers := x\<rparr>) = kheap_wf (s\<lparr>hmem := m\<rparr>)"
    "live (s\<lparr>hmem := m, tparts := y, tracers := x\<rparr>) = live (s\<lparr>hmem := m, tparts := y\<rparr>)"
    "kheap_wf (s\<lparr>hmem := m, tparts := y, tracers := x\<rparr>) = kheap_wf (s\<lparr>hmem := m, tparts := y\<rparr>)"
  by (rule same_heap; simp)+

text \<open>Releasing a tracer with its chain of parts, which hold all live blocks outside \<open>B\<close>.\<close>

lemma destroyPathTracer_chain:
  fixes s :: "('h, 'a) path_state_scheme"
  assumes c: "kheap_wf s" "chain (tparts s) 0 as 0" "distinct as"
      "live s = insert (t, 4096) B \<union> (\<lambda>a. (a, 4096)) ` set as"
      "\<forall>a \<in> set as. \<forall>k. (a, k) \<notin> insert (t, 4096) B" "as \<noteq> []" and t: "tracers s t = Some \<lparr>pt_label = l, pt_root = hd as\<rparr>"
    and B: "t \<noteq> 0" "\<forall>k. (t, k) \<notin> B"
  shows "\<exists>s'. destroyPathTracer t s = Some s' \<and> kheap_wf s' \<and> live s' = B"
proof -
  have c': "chain (tparts s) 0 as 0" "distinct as" "kheap_wf s" "\<forall>a \<in> set as. (a, 4096) \<in> live s"
    using c by auto
  obtain m tp where d: "destroy_loop (case as of [] \<Rightarrow> 0 | a # _ \<Rightarrow> a) s = Some (s\<lparr>hmem := m, tparts := tp\<rparr>)"
    "kheap_wf (s\<lparr>hmem := m, tparts := tp\<rparr>)"
    "live (s\<lparr>hmem := m, tparts := tp\<rparr>) = live s - (\<lambda>a. (a, 4096)) ` set as"
    using destroy_loop_chain [OF c', unfolded Let_def] by (elim exE conjE) (rule that)
  have hd: "(case as of [] \<Rightarrow> 0 | a # _ \<Rightarrow> a) = hd as" using c(6) by (cases as) auto
  have lv: "live (s\<lparr>hmem := m, tparts := tp\<rparr>) = insert (t, 4096) B"
    using c(4,5) unfolding d(3) by auto
  then have tl: "(t, 4096) \<in> live (s\<lparr>hmem := m, tparts := tp\<rparr>)" by simp
  obtain m' where f: "free_tracer t (s\<lparr>hmem := m, tparts := tp\<rparr>) =
      Some (s\<lparr>hmem := m, tparts := tp\<rparr>\<lparr>hmem := m', tracers := (tracers (s\<lparr>hmem := m, tparts := tp\<rparr>))(t := None)\<rparr>)"
    "kheap_wf (s\<lparr>hmem := m, tparts := tp\<rparr>\<lparr>hmem := m'\<rparr>)"
    "live (s\<lparr>hmem := m, tparts := tp\<rparr>\<lparr>hmem := m'\<rparr>) = live (s\<lparr>hmem := m, tparts := tp\<rparr>) - {(t, 4096)}"
    using free_tracer_live [OF d(2) tl] by (elim exE conjE) (rule that)
  have "destroyPathTracer t s =
      Some (s\<lparr>hmem := m, tparts := tp\<rparr>\<lparr>hmem := m', tracers := (tracers (s\<lparr>hmem := m, tparts := tp\<rparr>))(t := None)\<rparr>)"
    unfolding destroyPathTracer_def using B(1) t d(1) f(1) by (simp add: deref_def hd)
  moreover have "live (s\<lparr>hmem := m, tparts := tp\<rparr>) - {(t, 4096)} = B" using lv B(2) by auto
  ultimately show ?thesis using f(2,3) by (simp del: surjective)
qed

text \<open>A tracer \<open>t\<close> that represents a path, next to the live blocks \<open>B\<close> of others.\<close>

definition represents ::
  "('h, 'a) path_state_scheme \<Rightarrow> u64 \<Rightarrow> byte \<Rightarrow> (byte list \<times> byte) list \<Rightarrow> (u64 \<times> nat) set \<Rightarrow> bool" where
  "represents s t label parts B \<longleftrightarrow> t \<noteq> 0 \<and> (\<forall>k. (t, k) \<notin> B) \<and>
     (\<exists>as. as \<noteq> [] \<and> closed s (insert (t, 4096) B) as parts \<and>
       tracers s t = Some \<lparr>pt_label = label, pt_root = hd as\<rparr>)"

text \<open>A tracer whose first part was released: the parser's result for a bare volume.\<close>

definition dangling :: "('h, 'a) path_state_scheme \<Rightarrow> u64 \<Rightarrow> bool" where
  "dangling s t \<longleftrightarrow> t \<noteq> 0 \<and> (\<exists>p. tracers s t = Some p \<and> pt_root p \<noteq> 0 \<and> tparts s (pt_root p) = None)"

definition path_prefix :: "byte list \<Rightarrow> byte \<Rightarrow> bool" where
  "path_prefix path label \<longleftrightarrow> terminated path \<and> length (cstr path) < 255 \<and> checkVolumeLabel label \<and>
     take 3 (cstr path) = [label, 58, 47]"

lemma path_prefix_reads:
  assumes "path_prefix path label"
  shows "rd path 0 = Some label" "rd path 1 = Some 58" "rd path 2 = Some 47"
    "strlen path = Some (of_nat (length (cstr path)))"
    "unat (of_nat (length (cstr path)) :: u64) = length (cstr path)" "3 \<le> length (cstr path)"
proof -
  have l: "3 \<le> length (cstr path)" using assms unfolding path_prefix_def
    by (metis length_Cons length_take list.size(3) min_def nat_le_linear numeral_3_eq_3)
  then show "3 \<le> length (cstr path)" .
  have n: "cstr path ! i = [label, 58, 47] ! i" if "i < 3" for i
    using assms that unfolding path_prefix_def by (metis nth_take)
  have r: "rd path i = Some ([label, 58, 47] ! i)" if "i < 3" for i
    using cstr_nth [of i path] l n [OF that] that by (simp add: rd_def)
  show "rd path 0 = Some label" "rd path 1 = Some 58" "rd path 2 = Some 47"
    using r [of 0] r [of 1] r [of 2] by simp_all
  show "strlen path = Some (of_nat (length (cstr path)))"
    using assms strlen_cstr by (simp add: path_prefix_def)
  show "unat (of_nat (length (cstr path)) :: u64) = length (cstr path)"
    using assms by (simp add: path_prefix_def unat_of_nat_small)
qed


lemma createPathTracer_cases:
  fixes s :: "('h, 'a) path_state_scheme"
  assumes wf: "kheap_wf s" and pre: "path_prefix path label"
    and vol: "partitionGetByVolumeLabel label s = Some (Some v)"
  shows "\<exists>t e s'. createPathTracer (Some path) err s = Some (t, e, s') \<and> kheap_wf s' \<and>
    (if t = 0 then live s' = live s \<and>
       (e = - ENMEM \<or> e = - EFORMAT \<and> parse_parts [] (drop 3 (cstr path)) = None)
     else e = err \<and> (\<exists>parts. parse_parts [] (drop 3 (cstr path)) = Some parts \<and>
       (if parts = [] then dangling s' t else represents s' t label parts (live s))))"
proof -
  note r = path_prefix_reads [OF pre]
  have lbl: "checkVolumeLabel label" and len: "length (cstr path) < 255" and tm: "terminated path"
    using pre by (simp_all add: path_prefix_def)
  have nlen: "\<not> 255 \<le> length (cstr path)" using len by simp
  note start = createPathTracer_def r r(2) [unfolded One_nat_def] lbl nlen vol path_const_defs
  from wf show ?thesis
  proof (cases rule: alloc_tracer_cases)
    case null
    then have "createPathTracer (Some path) err s = Some (0, - ENMEM, s)" using len by (simp add: start)
    with wf show ?thesis by simp
  next
    case (block t m tr)
    let ?B = "insert (t, 4096) (live s)"
    define s1 where "s1 = s\<lparr>hmem := m, tracers := (tracers s)(t \<mapsto> tr\<lparr>pt_label := label\<rparr>)\<rparr>"
    have s1: "kheap_wf s1" "live s1 = ?B" using block by (simp_all add: s1_def)
    from s1(1) show ?thesis
    proof (cases rule: alloc_part_cases)
      case null
      have tl: "(t, 4096) \<in> live s1" by (simp add: s1)
      obtain m' where f: "free_tracer t s1 = Some (s1\<lparr>hmem := m', tracers := (tracers s1)(t := None)\<rparr>)"
        "kheap_wf (s1\<lparr>hmem := m'\<rparr>)" "live (s1\<lparr>hmem := m'\<rparr>) = live s1 - {(t, 4096)}"
        using free_tracer_live [OF s1(1) tl] by (elim exE conjE) (rule that)
      have "createPathTracer (Some path) err s =
          Some (0, - ENMEM, s1\<lparr>hmem := m', tracers := (tracers s1)(t := None)\<rparr>)"
        using block(1,2) null f(1) len by (simp add: start deref_def s1_def)
      moreover have "live s1 - {(t, 4096)} = live s" using s1(2) block(5) by auto
      ultimately show ?thesis using f(2,3) by simp
    next
      case p: (block p m2)
      define s2 where "s2 = s1\<lparr>hmem := m2, tparts := (tparts s1)(p \<mapsto> blank_part),
        tracers := (tracers s1)(t \<mapsto> \<lparr>pt_label = label, pt_root = p\<rparr>)\<rparr>"
      have b: "building s2 ?B [] p []"
        using p by (simp add: building_def s2_def blank_part_def spells_def s1(2))
      have tr2: "tracers s2 t = Some \<lparr>pt_label = label, pt_root = p\<rparr>" by (simp add: s2_def)
      have le: "3 + (length (cstr path) - 3) = length (cstr path)" "3 + (length (cstr path) - 3) < 255"
        using r(6) len by simp_all
      have q: "length (replicate 255 (0 :: byte)) = 255" "unat (0 :: byte) < 3"
        "0 \<notin> set (take (unat (0 :: byte)) (replicate 255 0))" by simp_all
      obtain r' s3 as' part' ps' m3 tp where L:
        "createPathTracer_loop (length (cstr path) - 3) 3 path p (replicate 255 0) 0 s2 = Some (r', s3)"
        "s3 = s2\<lparr>hmem := m3, tparts := tp\<rparr>" "building s3 ?B as' part' ps'"
        "hd (as' @ [part']) = hd ([] @ [p])"
        "case r' of
           Inl e \<Rightarrow> e = - ENMEM \<or> e = - EFORMAT \<and> parse_parts [] (drop 3 (cstr path)) = None
         | Inr (p', buf', cnt') \<Rightarrow> p' = part' \<and> length buf' = 255 \<and> unat cnt' < 255 \<and> 0 \<notin> set (take (unat cnt') buf') \<and>
             (\<exists>ds. ps' = [] @ ds \<and> parse_parts [] (drop 3 (cstr path)) =
               Some (ds @ (if cnt' = 0 then [] else [(take (unat cnt') buf', PATH_TRACER_PART_FILE)])))"
        using createPathTracer_loop_spec [OF b tm le q, unfolded unat_0 take_0]
        by (elim exE conjE) (rule that)
      have tr3: "tracers s3 t = Some \<lparr>pt_label = label, pt_root = p\<rparr>" using L(2) tr2 by simp
      have rootp: "hd (as' @ [part']) = p" using L(4) by simp
      have trp: "tr\<lparr>pt_label := label, pt_root := p\<rparr> = \<lparr>pt_label = label, pt_root = p\<rparr>" by (cases tr) simp
      have run: "createPathTracer (Some path) err s =
        (case r' of Inl e \<Rightarrow> do { s \<leftarrow> destroyPathTracer t s3; Some (0, e, s) }
         | Inr (part, buf, cnt) \<Rightarrow> do { s \<leftarrow> createPathTracer_finish part buf cnt s3; Some (t, err, s) })"
        using block(1,2) p(1,2) L(1) by (simp add: trp start deref_def s1_def s2_def)
      show ?thesis
      proof (cases r')
        case (Inl e)
        have bd: "kheap_wf s3" "chain (tparts s3) 0 (as' @ [part']) 0" "distinct (as' @ [part'])"
          "live s3 = ?B \<union> (\<lambda>a. (a, 4096)) ` set (as' @ [part'])"
          "\<forall>a \<in> set (as' @ [part']). \<forall>k. (a, k) \<notin> ?B"
          using L(3) unfolding building_def by blast+
        obtain s4 where "destroyPathTracer t s3 = Some s4" "kheap_wf s4" "live s4 = live s"
          using destroyPathTracer_chain [OF bd _ _ block(2,5), of label] tr3 rootp by auto
        with run Inl L(5) show ?thesis by auto
      next
        case (Inr x)
        obtain part buf cnt where x: "x = (part, buf, cnt)" by (cases x)
        from L(5) obtain ds where ds: "part = part'" "length buf = 255" "unat cnt < 255" "0 \<notin> set (take (unat cnt) buf)"
          "ps' = ds" "parse_parts [] (drop 3 (cstr path)) =
            Some (ds @ (if cnt = 0 then [] else [(take (unat cnt) buf, PATH_TRACER_PART_FILE)]))"
          unfolding Inr x by auto
        let ?parts = "ds @ (if cnt = 0 then [] else [(take (unat cnt) buf, PATH_TRACER_PART_FILE)])"
        obtain m4 tp4 as4 where F: "createPathTracer_finish part' buf cnt s3 = Some (s3\<lparr>hmem := m4, tparts := tp4\<rparr>)"
          "closed (s3\<lparr>hmem := m4, tparts := tp4\<rparr>) ?B as4 ?parts" "as4 \<noteq> [] \<longrightarrow> hd as4 = hd (as' @ [part'])"
          "as4 = [] \<longrightarrow> as' = [] \<and> tp4 part' = None"
          using createPathTracer_finish_spec [OF L(3) ds(2-4)] unfolding ds(5) by (elim exE conjE) (rule that)
        let ?s4 = "s3\<lparr>hmem := m4, tparts := tp4\<rparr>"
        have tr4: "tracers ?s4 t = Some \<lparr>pt_label = label, pt_root = p\<rparr>" using tr3 by simp
        have e: "?parts = [] \<longleftrightarrow> as4 = []"
          using F(2) by (auto simp: closed_def spells_def dest: list_all2_lengthD)
        have "if ?parts = [] then dangling ?s4 t else represents ?s4 t label ?parts (live s)"
        proof (cases "as4 = []")
          case True
          with F(4) rootp tr4 p(2) block(2) have "dangling ?s4 t" by (simp add: dangling_def)
          with e True show ?thesis by presburger
        next
          case False
          with F(2,3) rootp tr4 block(2,5) have "represents ?s4 t label ?parts (live s)"
            unfolding represents_def by metis
          with e False show ?thesis by presburger
        qed
        moreover have "kheap_wf ?s4" using F(2) by (simp add: closed_def)
        moreover have "createPathTracer (Some path) err s = Some (t, err, ?s4)"
          using run Inr x ds(1) F(1) by simp
        ultimately show ?thesis using block(2) ds(6) by (metis (no_types, lifting))
      qed
    qed
  qed
qed


section \<open>Reading a tracer\<close>

text \<open>Only the last part of a parsed path can be a file.\<close>

definition path_shape :: "(byte list \<times> byte) list \<Rightarrow> bool" where
  "path_shape ps \<longleftrightarrow> (\<forall>(n, t) \<in> set (butlast ps). t = PATH_TRACER_PART_DIRECTORY)"

lemma parse_shape: "parse_parts cur cs = Some ps \<Longrightarrow> path_shape ps"
proof (induction cur cs arbitrary: ps rule: parse_parts.induct)
  case (2 cur c cs)
  then show ?case by (auto simp: path_shape_def split: if_splits)
qed (auto simp: path_shape_def)

lemma render_simps [simp]:
  "render_parts [] = []"
  "render_parts ((n, t) # ps) = n @ (if t = PATH_TRACER_PART_DIRECTORY then [47] else []) @ render_parts ps"
  by (simp_all add: render_parts_def)

lemma getPathString_loop_spec:
  assumes "chain (tparts s) pv as 0" and "spells (tparts s) as ps" and "path_shape ps"
    and "length xs + length (render_parts ps) < 255" and "unat c = length xs"
  shows "getPathString_loop (case as of [] \<Rightarrow> 0 | a # _ \<Rightarrow> a) c (xs @ replicate (255 - length xs) 0) s =
    Some (xs @ render_parts ps @ replicate (255 - length xs - length (render_parts ps)) 0)"
  using assms
proof (induction as arbitrary: pv ps xs c)
  case Nil
  then show ?case by (simp add: getPathString_loop.simps spells_def)
next
  case (Cons a as)
  from Cons.prems(2) obtain n t qs where ps: "ps = (n, t) # qs" by (auto simp: spells_def list_all2_Cons1)
  from Cons.prems obtain pt where pt: "tparts s a = Some pt" "a \<noteq> 0"
    "pathNext pt = (case as of [] \<Rightarrow> 0 | b # _ \<Rightarrow> b)" "chain (tparts s) a as 0"
    "terminated (pathPart pt)" "length (pathPart pt) = 255" "cstr (pathPart pt) = n" "pathType pt = t"
    "spells (tparts s) as qs"
    by (cases "tparts s a") (auto simp: spells_def ps)
  have sh: "path_shape qs" "t = PATH_TRACER_PART_DIRECTORY \<or> qs = []"
    using Cons.prems(3) by (auto simp: path_shape_def ps split: if_splits)
  have len: "length xs + length n < 255" using Cons.prems(4) by (simp add: ps)
  have n64: "unat (of_nat (length n) :: u64) = length n" using len by (simp add: unat_of_nat_small)
  have "ucast (of_nat (length n) :: u64) = (of_nat (length n) :: u16)"
    using len by (simp add: unsigned_of_nat take_bit_nat_eq_self)
  moreover have n16: "unat (of_nat (length n) :: u16) = length n" using len by (simp add: unat_of_nat_small)
  ultimately have c16: "unat (c + ucast (of_nat (length n) :: u64)) = length xs + length n"
    using len Cons.prems(5) by (simp add: unat_add_small)
  then have c16': "unat (c + ucast (of_nat (length n) :: u64) + 1) = Suc (length xs + length n)"
    using len by (simp add: unat_add_small)
  have cp: "strncpy (replicate (255 - length xs) 0) (pathPart pt) (of_nat (length n)) =
      Some (n @ replicate (255 - length xs - length n) 0)"
    using strncpy_whole [OF pt(5), of "replicate (255 - length xs) 0"] len
    by (simp add: pt(6,7) overwrite_def)
  let ?c = "c + ucast (of_nat (length n) :: u64)"
  have tail: "replicate (255 - length xs - length n) (0 :: byte) = 0 # replicate (255 - length (xs @ n @ [47])) 0"
    using len by (simp flip: replicate_Suc)
  have step: "getPathString_loop a c (xs @ replicate (255 - length xs) 0) s =
    (if t = PATH_TRACER_PART_DIRECTORY
     then getPathString_loop (pathNext pt) (?c + 1) ((xs @ n @ [47]) @ replicate (255 - length (xs @ n @ [47])) 0) s
     else getPathString_loop (pathNext pt) (?c + 1) (xs @ n @ replicate (255 - length xs - length n) 0) s)"
  proof -
    have "rd (xs @ n @ replicate (255 - length xs - length n) 0) (unat ?c) = Some 0"
      using len by (simp add: rd_def c16 nth_append)
    moreover have "wr (xs @ n @ replicate (255 - length xs - length n) 0) (unat ?c) 47 =
        Some ((xs @ n @ [47]) @ replicate (255 - length (xs @ n @ [47])) 0)"
      using len unfolding tail by (simp add: wr_def c16 list_update_append)
    ultimately show ?thesis
      using pt cp strlen_cstr [OF pt(5)] Cons.prems(5)
      by (subst getPathString_loop.simps) (simp add: deref_def pathTracerGetNext_def)
  qed
  show ?case
  proof (cases "t = PATH_TRACER_PART_DIRECTORY")
    case True
    have "getPathString_loop (case as of [] \<Rightarrow> 0 | a # _ \<Rightarrow> a) (?c + 1)
        ((xs @ n @ [47]) @ replicate (255 - length (xs @ n @ [47])) 0) s =
      Some ((xs @ n @ [47]) @ render_parts qs @ replicate (255 - length (xs @ n @ [47]) - length (render_parts qs)) 0)"
      using Cons.prems(4) True c16' by (intro Cons.IH [OF pt(4,9) sh(1)]) (simp_all add: ps)
    with step True pt(3) show ?thesis by (simp add: ps)
  next
    case False
    with sh(2) pt(9) have "qs = []" "as = []" by (auto simp: spells_def)
    with step False pt(3) show ?thesis by (simp add: ps getPathString_loop.simps [of 0])
  qed
qed

lemma pathTracerGetPathString_spec:
  fixes s :: "('h, 'a) path_state_scheme"
  assumes r: "represents s t label parts B" and wf: "kheap_wf s" and sh: "path_shape parts"
    and len: "3 + length (render_parts parts) < 255"
  shows "\<exists>q s'. pathTracerGetPathString t s = Some (q, s') \<and>
    (q \<noteq> 0 \<longrightarrow> take (Suc (Suc (Suc (Suc (length (render_parts parts)))))) (bytes_at (hmem s') q 255) =
      label # 58 # 47 # render_parts parts @ [0])"
proof -
  obtain as where t: "t \<noteq> 0" "tracers s t = Some \<lparr>pt_label = label, pt_root = hd as\<rparr>" "as \<noteq> []"
    "chain (tparts s) 0 as 0" "spells (tparts s) as parts"
    using r by (auto simp: represents_def closed_def)
  have ok: "size_ok 255" by (simp add: size_ok_def)
  have pages: "pages_for 255 = 1" by (simp add: pages_for_def)
  from wf ok show ?thesis
  proof (cases rule: kheap_alloc)
    case null
    then show ?thesis by (simp add: pathTracerGetPathString_def path_const_defs)
  next
    case (block q s1)
    obtain m where m: "s1 = s\<lparr>hmem := m\<rparr>"
      using kzalloc_frame [OF _ block(1)] wf by (auto simp: kheap_wf_def)
    have "m (q + of_nat i) = 0" if "i < 4096" for i
      using kheap_zeroed [OF wf ok block(1,2)] that by (simp add: pages m unat_of_nat)
    then have z: "bytes_at m q 255 = 0 # 0 # 0 # replicate 252 0"
      unfolding replicate_Suc [symmetric] by (intro nth_equalityI) (simp_all add: bytes_at_def)
    let ?r = "[label, 58, 47] @ render_parts parts @ replicate (255 - 3 - length (render_parts parts)) 0"
    have hd: "(case as of [] \<Rightarrow> 0 | a # _ \<Rightarrow> a) = hd as" using t(3) by (cases as) auto
    have l: "getPathString_loop (hd as) 3 (label # 58 # 47 # replicate 252 0) s1 = Some ?r"
      using getPathString_loop_spec [of s1 0 as parts "[label, 58, 47]" 3] t(4,5) sh len by (simp add: m hd)
    have "pathTracerGetPathString t s = Some (q, s1\<lparr>hmem := put_bytes q ?r m\<rparr>)"
      using block(1,2) t(1,2) l
      by (simp add: pathTracerGetPathString_def path_const_defs m z wr_def deref_def pathTracerStartTrace_def)
    moreover have "bytes_at (put_bytes q ?r m) q 255 = ?r"
      using put_bytes_at [of ?r q m] len by simp
    moreover have "take (Suc (Suc (Suc (Suc (length (render_parts parts)))))) ?r = label # 58 # 47 # render_parts parts @ [0]"
      using len by (cases "255 - 3 - length (render_parts parts)") simp_all
    ultimately show ?thesis by simp
  qed
qed

lemma getFileName_loop_spec:
  assumes "chain (tparts s) pv as 0" and "spells (tparts s) as ps" and "path_shape ps"
  shows "\<exists>r. getFileName_loop (case as of [] \<Rightarrow> 0 | a # _ \<Rightarrow> a) s = Some r \<and>
    map_option cstr r = (if ps \<noteq> [] \<and> snd (last ps) = PATH_TRACER_PART_FILE then Some (fst (last ps)) else None)"
  using assms
proof (induction as arbitrary: pv ps)
  case Nil
  then show ?case by (simp add: getFileName_loop.simps spells_def)
next
  case (Cons a as)
  from Cons.prems(2) obtain n t qs where ps: "ps = (n, t) # qs" by (auto simp: spells_def list_all2_Cons1)
  from Cons.prems obtain pt where pt: "tparts s a = Some pt" "a \<noteq> 0"
    "pathNext pt = (case as of [] \<Rightarrow> 0 | b # _ \<Rightarrow> b)" "chain (tparts s) a as 0"
    "cstr (pathPart pt) = n" "pathType pt = t" "spells (tparts s) as qs"
    by (cases "tparts s a") (auto simp: spells_def ps)
  have sh: "path_shape qs" "t = PATH_TRACER_PART_DIRECTORY \<or> qs = []"
    using Cons.prems(3) by (auto simp: path_shape_def ps split: if_splits)
  show ?case
  proof (cases "t = PATH_TRACER_PART_FILE")
    case True
    with sh(2) have "qs = []" by (auto simp: path_const_defs)
    with True pt show ?thesis by (simp add: ps getFileName_loop.simps [of a] deref_def)
  next
    case False
    with Cons.IH [OF pt(4,7) sh(1)] pt show ?thesis
      by (auto simp: ps getFileName_loop.simps [of a] deref_def)
  qed
qed


section \<open>Properties of paths\<close>

lemma cstr_prefix: "take n xs = ys @ [0] \<Longrightarrow> 0 \<notin> set ys \<Longrightarrow> cstr xs = ys"
  using append_take_drop_id [of n xs] cstr_append [of ys "0 # drop n xs"] by simp

lemma path_prefix_split:
  assumes "path_prefix path label"
  shows "cstr path = label # 58 # 47 # drop 3 (cstr path)"
  using assms append_take_drop_id [of 3 "cstr path"] by (simp add: path_prefix_def)

text \<open>
  Property C23. \<^verbatim>\<open>createPathTracer\<close> on a path with a proper prefix and an existing volume never faults.
  Either it fails, with \<^verbatim>\<open>-ENMEM\<close> or, only where the path has an empty part, \<^verbatim>\<open>-EFORMAT\<close>, and has
  released all it allocated; or the path parses and \<^verbatim>\<open>*oErrCode\<close> is left alone. Then the tracer's chain
  spells exactly the parts of the path, if it has any; for a bare volume such as \<^verbatim>\<open>C:/\<close> the tracer that is
  returned points to a part that was already released (\<open>dangling\<close>).
\<close>

theorem createPathTracer_correct:
  fixes s :: "('h, 'a) path_state_scheme"
  assumes "kheap_wf s" and "path_prefix path label" and "partitionGetByVolumeLabel label s = Some (Some v)"
  shows "\<exists>t e s'. createPathTracer (Some path) err s = Some (t, e, s') \<and> kheap_wf s' \<and>
    (if t = 0 then live s' = live s \<and>
       (e = - ENMEM \<or> e = - EFORMAT \<and> parse_parts [] (drop 3 (cstr path)) = None)
     else e = err \<and> (\<exists>parts. parse_parts [] (drop 3 (cstr path)) = Some parts \<and>
       (if parts = [] then dangling s' t else represents s' t label parts (live s))))"
  using createPathTracer_cases [OF assms, of err] .

text \<open>
  Property C24. Round trip: when \<^verbatim>\<open>createPathTracer\<close> returns a tracer for a path with at least one part,
  \<^verbatim>\<open>pathTracerGetPathString\<close> writes the very path into a fresh block (unless the heap is exhausted),
  \<^verbatim>\<open>pathTracerGetFileName\<close> is the last part if the path does not end in a slash and \<^verbatim>\<open>NULL\<close>
  otherwise, and \<^verbatim>\<open>destroyPathTracer\<close> gives back every block the tracer took.
\<close>

theorem pathTracer_roundtrip:
  fixes s :: "('h, 'a) path_state_scheme"
  assumes "kheap_wf s" and pre: "path_prefix path label" and "partitionGetByVolumeLabel label s = Some (Some v)"
    and res: "createPathTracer (Some path) err s = Some (t, e, s')" and "t \<noteq> 0" and long: "3 < length (cstr path)"
  shows "(\<exists>q s''. pathTracerGetPathString t s' = Some (q, s'') \<and>
      (q \<noteq> 0 \<longrightarrow> cstr (bytes_at (hmem s'') q 255) = cstr path)) \<and>
    (\<exists>name parts. pathTracerGetFileName t s' = Some name \<and> parse_parts [] (drop 3 (cstr path)) = Some parts \<and>
      map_option cstr name = (if snd (last parts) = PATH_TRACER_PART_FILE then Some (fst (last parts)) else None)) \<and>
    (\<exists>s''. destroyPathTracer t s' = Some s'' \<and> kheap_wf s'' \<and> live s'' = live s)"
proof -
  obtain parts where wf: "kheap_wf s'" and p: "parse_parts [] (drop 3 (cstr path)) = Some parts"
    and r: "if parts = [] then dangling s' t else represents s' t label parts (live s)"
    using createPathTracer_cases [OF assms(1-3), of err] res \<open>t \<noteq> 0\<close> by auto
  have ren: "render_parts parts = drop 3 (cstr path)" using render_parse [OF p] by simp
  with long have ne: "parts \<noteq> []" by (auto simp: render_parts_def)
  with r have rp: "represents s' t label parts (live s)" by simp
  have len: "3 + length (render_parts parts) < 255" using pre long by (simp add: ren path_prefix_def)
  have full: "cstr path = label # 58 # 47 # render_parts parts" unfolding ren by (rule path_prefix_split [OF pre])
  have "0 \<notin> set (label # 58 # 47 # render_parts parts)" using cstr_nonzero [of path] unfolding full .
  then have "\<exists>q s''. pathTracerGetPathString t s' = Some (q, s'') \<and>
      (q \<noteq> 0 \<longrightarrow> cstr (bytes_at (hmem s'') q 255) = cstr path)"
    using pathTracerGetPathString_spec [OF rp wf parse_shape [OF p] len] cstr_prefix
    unfolding full append_Cons [symmetric] by blast
  moreover obtain as where t: "t \<noteq> 0" "\<forall>k. (t, k) \<notin> live s" "tracers s' t = Some \<lparr>pt_label = label, pt_root = hd as\<rparr>"
    "as \<noteq> []" "closed s' (insert (t, 4096) (live s)) as parts"
    using rp by (auto simp: represents_def)
  have hd: "(case as of [] \<Rightarrow> 0 | a # _ \<Rightarrow> a) = hd as" using t(4) by (cases as) auto
  have "\<exists>name. pathTracerGetFileName t s' = Some name \<and>
      map_option cstr name = (if snd (last parts) = PATH_TRACER_PART_FILE then Some (fst (last parts)) else None)"
    using getFileName_loop_spec [of s' 0 as parts] parse_shape [OF p] t ne
    by (simp add: pathTracerGetFileName_def pathTracerStartTrace_def deref_def hd closed_def)
  moreover have "\<exists>s''. destroyPathTracer t s' = Some s'' \<and> kheap_wf s'' \<and> live s'' = live s"
    using t(5) by (intro destroyPathTracer_chain [OF _ _ _ _ _ t(4,3,1,2)]) (simp_all add: closed_def)
  ultimately show ?thesis using p by blast
qed

text \<open>
  The path of a bare volume, \<^verbatim>\<open>C:/\<close>, is accepted, but the tracer that is returned points to
  a part that was already released: both reading it and destroying it access released memory.
\<close>

theorem pathTracer_bare_volume:
  fixes s :: "('h, 'a) path_state_scheme"
  assumes "kheap_wf s" and pre: "path_prefix path label" and "partitionGetByVolumeLabel label s = Some (Some v)"
    and res: "createPathTracer (Some path) err s = Some (t, e, s')" and bare: "length (cstr path) = 3"
  shows "if t = 0 then e = - ENMEM
    else e = err \<and> destroyPathTracer t s' = None \<and> pathTracerGetFileName t s' = None \<and>
      (\<forall>q s''. pathTracerGetPathString t s' = Some (q, s'') \<longrightarrow> q = 0)"
proof -
  have p: "parse_parts [] (drop 3 (cstr path)) = Some []" using bare by simp
  show ?thesis
  proof (cases "t = 0")
    case True
    then show ?thesis using createPathTracer_cases [OF assms(1-3), of err] res p by simp
  next
    case False
    then have d: "dangling s' t" "e = err" "kheap_wf s'"
      using createPathTracer_cases [OF assms(1-3), of err] res p by auto
    then obtain r where r: "tracers s' t = Some r" "pt_root r \<noteq> 0" "tparts s' (pt_root r) = None"
      by (auto simp: dangling_def)
    have "q = 0" if g: "pathTracerGetPathString t s' = Some (q, s'')" for q s''
    proof (rule ccontr)
      assume "q \<noteq> 0"
      obtain q1 s1 where k: "kzalloc (of_nat BOBAOS_MAX_PATH_SIZE) s' = Some (q1, s1)"
        using g by (auto simp: pathTracerGetPathString_def Option.bind_eq_Some_conv)
      obtain m where m: "s1 = s'\<lparr>hmem := m\<rparr>"
        using kzalloc_frame [OF _ k] d(3) by (auto simp: kheap_wf_def)
      show False
        using g k r False \<open>q \<noteq> 0\<close>
        by (auto simp: pathTracerGetPathString_def Option.bind_eq_Some_conv m deref_def pathTracerStartTrace_def
            getPathString_loop.simps split: if_splits)
    qed
    then show ?thesis
      using d(2) r False
      by (auto simp: destroyPathTracer_def deref_def destroy_loop.simps pathTracerGetFileName_def
          pathTracerStartTrace_def getFileName_loop.simps)
  qed
qed

text \<open>A state with one partition, for the witnesses.\<close>

definition path_ram :: "byte list path_state" where
  "path_ram = pstream_state.extend
     (pstream_state.truncate (ram_part small_heap 0)\<lparr>partitionList := replicate 1020 (Some (8, 0)), currentPartition := 1\<rparr>)
     (path_state.fields (\<lambda>_. None) (\<lambda>_. None))"

lemma path_ram_heap: "kheap_wf path_ram" "live path_ram = {}"
proof -
  have "live path_ram = live (ram_part small_heap 0)" "kheap_wf path_ram \<longleftrightarrow> kheap_wf (ram_part small_heap 0)"
    by (rule same_heap; simp add: path_ram_def pstream_state.defs path_state.defs)+
  then show "kheap_wf path_ram" "live path_ram = {}" by (simp_all add: ram_part_heap)
qed

lemma path_ram_volume: "partitionGetByVolumeLabel 67 path_ram = Some (Some (8, 0))"
  by (simp add: partitionGetByVolumeLabel_def path_ram_def pstream_state.defs path_state.defs disk_const_defs rd_def Let_def)

lemma path_ram_prefix:
  "path_prefix [67, 58, 47, 97, 0] 67" "path_prefix [67, 58, 47, 0] 67"
  by (simp_all add: path_prefix_def checkVolumeLabel_def disk_const_defs word_sle_eq)

lemma path_ram_alloc:
  fixes s :: "byte list path_state"
  assumes "kheap_wf s" and "live s = (\<lambda>a. (a, 4096)) ` A" "finite A" "card A < 4" and "table_size s = table_size path_ram"
  shows "alloc_part s \<noteq> Some (0, s)" "alloc_tracer s \<noteq> Some (0, s)"
proof -
  have n: "unat (table_size s) = 4"
    using assms(5) small_heap_pages by (simp add: path_ram_def pstream_state.defs ram_part_def)
  have "kzalloc sz s \<noteq> Some (0, t)" if "size_ok sz" "pages_for sz = 1" for sz t
    using kheap_serves_page [OF assms(1-3) _ that] assms(4) n by simp
  from this [of sizeof_pathTracer] this [of sizeof_pathTracerPart]
  show "alloc_part s \<noteq> Some (0, s)" "alloc_tracer s \<noteq> Some (0, s)"
    by (auto simp: alloc_part_def alloc_tracer_def size_ok_def pages_for_def path_const_defs Option.bind_eq_Some_conv
        split: if_splits)
qed

text \<open>On this state the tracer and its first part are allocated.\<close>

lemma path_ram_start:
  obtains t p m m' tr where
    "alloc_tracer path_ram = Some (t, path_ram\<lparr>hmem := m, tracers := (tracers path_ram)(t \<mapsto> tr)\<rparr>)" "t \<noteq> 0" "p \<noteq> 0"
    "let s = path_ram\<lparr>hmem := m, tracers := (tracers path_ram)(t \<mapsto> tr\<lparr>pt_label := 67\<rparr>)\<rparr>
     in alloc_part s = Some (p, s\<lparr>hmem := m', tparts := (tparts s)(p \<mapsto> blank_part)\<rparr>) \<and>
       kheap_wf (s\<lparr>hmem := m', tparts := (tparts s)(p \<mapsto> blank_part)\<rparr>) \<and>
       live (s\<lparr>hmem := m', tparts := (tparts s)(p \<mapsto> blank_part)\<rparr>) = {(p, 4096), (t, 4096)} \<and> p \<noteq> t"
proof -
  from path_ram_heap(1) show thesis
  proof (cases rule: alloc_tracer_cases)
    case null
    then show ?thesis using path_ram_alloc(2) [OF path_ram_heap(1), of "{}"] path_ram_heap(2) by simp
  next
    case (block t m tr)
    let ?s = "path_ram\<lparr>hmem := m, tracers := (tracers path_ram)(t \<mapsto> tr\<lparr>pt_label := 67\<rparr>)\<rparr>"
    have s: "kheap_wf ?s" "live ?s = {(t, 4096)}" using block path_ram_heap(2) by simp_all
    from s(1) show ?thesis
    proof (cases rule: alloc_part_cases)
      case null
      then show ?thesis using path_ram_alloc(1) [OF s(1), of "{t}"] s(2) by simp
    next
      case p: (block p m')
      show ?thesis
        by (rule that [of t tr m p m']) (use block(1,2) p s(2) in \<open>auto simp: Let_def\<close>)
    qed
  qed
qed

lemma path_ram_create:
  "\<exists>t s'. createPathTracer (Some [67, 58, 47, 97, 0]) 0 path_ram = Some (t, 0, s') \<and> t \<noteq> 0"
  "\<exists>t s'. createPathTracer (Some [67, 58, 47, 0]) 0 path_ram = Some (t, 0, s') \<and> t \<noteq> 0"
proof -
  obtain t p m m' tr where a:
    "alloc_tracer path_ram = Some (t, path_ram\<lparr>hmem := m, tracers := (tracers path_ram)(t \<mapsto> tr)\<rparr>)" "t \<noteq> 0" "p \<noteq> 0"
    "let s = path_ram\<lparr>hmem := m, tracers := (tracers path_ram)(t \<mapsto> tr\<lparr>pt_label := 67\<rparr>)\<rparr>
     in alloc_part s = Some (p, s\<lparr>hmem := m', tparts := (tparts s)(p \<mapsto> blank_part)\<rparr>) \<and>
       kheap_wf (s\<lparr>hmem := m', tparts := (tparts s)(p \<mapsto> blank_part)\<rparr>) \<and>
       live (s\<lparr>hmem := m', tparts := (tparts s)(p \<mapsto> blank_part)\<rparr>) = {(p, 4096), (t, 4096)} \<and> p \<noteq> t"
    by (rule path_ram_start)
  note start = createPathTracer_def rd_def path_ram_volume path_const_defs a(1-3) deref_def strlen_def
    checkVolumeLabel_def disk_const_defs word_sle_eq
  let ?s = "path_ram\<lparr>hmem := m, tracers := (tracers path_ram)(t \<mapsto> tr\<lparr>pt_label := 67\<rparr>)\<rparr>"
  let ?s1 = "?s\<lparr>hmem := m', tparts := (tparts ?s)(p \<mapsto> blank_part)\<rparr>"
  let ?s2 = "path_ram\<lparr>hmem := m', tparts := (tparts path_ram)(p \<mapsto> blank_part),
    tracers := (tracers path_ram)(t \<mapsto> tr\<lparr>pt_label := 67, pt_root := p\<rparr>)\<rparr>"
  have "live ?s2 = live ?s1" "kheap_wf ?s2 = kheap_wf ?s1" by (rule same_heap; simp)+
  then have b: "building ?s2 {(t, 4096)} [] p []"
    using a(3,4) by (simp only: building_def Let_def) (simp add: blank_part_def spells_def)
  show "\<exists>t s'. createPathTracer (Some [67, 58, 47, 97, 0]) 0 path_ram = Some (t, 0, s') \<and> t \<noteq> 0"
    using a(4) createPathTracer_finish_spec [OF b, of "(replicate 255 0)[0 := 97]" 1]
    by (fastforce simp: start Let_def wr_def take_Suc_conv_app_nth)
  show "\<exists>t s'. createPathTracer (Some [67, 58, 47, 0]) 0 path_ram = Some (t, 0, s') \<and> t \<noteq> 0"
    using a(4) createPathTracer_finish_spec [OF b, of "replicate 255 0" 0]
    by (fastforce simp: start Let_def)
qed

theorem createPathTracer_correct_witness:
  "(\<exists>t s'. createPathTracer (Some [67, 58, 47, 97, 0]) 0 path_ram = Some (t, 0, s') \<and>
     represents s' t 67 [([97], 2)] {}) \<and>
   (\<exists>t s'. createPathTracer (Some [67, 58, 47, 0]) 0 path_ram = Some (t, 0, s') \<and> dangling s' t)"
proof
  show "\<exists>t s'. createPathTracer (Some [67, 58, 47, 97, 0]) 0 path_ram = Some (t, 0, s') \<and> represents s' t 67 [([97], 2)] {}"
    using createPathTracer_correct [OF path_ram_heap(1) path_ram_prefix(1) path_ram_volume, of 0] path_ram_create(1)
    by (auto simp: path_ram_heap(2) path_const_defs)
  show "\<exists>t s'. createPathTracer (Some [67, 58, 47, 0]) 0 path_ram = Some (t, 0, s') \<and> dangling s' t"
    using createPathTracer_correct [OF path_ram_heap(1) path_ram_prefix(2) path_ram_volume, of 0] path_ram_create(2)
    by (auto simp: path_ram_heap(2) path_const_defs)
qed

theorem pathTracer_roundtrip_witness:
  "\<exists>t s' s''. createPathTracer (Some [67, 58, 47, 97, 0]) 0 path_ram = Some (t, 0, s') \<and>
     pathTracerGetFileName t s' \<noteq> None \<and> destroyPathTracer t s' = Some s'' \<and> live s'' = {}"
proof -
  obtain t s' where t: "createPathTracer (Some [67, 58, 47, 97, 0]) 0 path_ram = Some (t, 0, s')" "t \<noteq> 0"
    using path_ram_create(1) by blast
  show ?thesis
    using pathTracer_roundtrip [OF path_ram_heap(1) path_ram_prefix(1) path_ram_volume t] t
    by (auto simp: path_ram_heap(2))
qed

theorem pathTracer_bare_volume_witness:
  "\<exists>t s'. createPathTracer (Some [67, 58, 47, 0]) 0 path_ram = Some (t, 0, s') \<and> t \<noteq> 0 \<and>
     destroyPathTracer t s' = None"
proof -
  obtain t s' where t: "createPathTracer (Some [67, 58, 47, 0]) 0 path_ram = Some (t, 0, s')" "t \<noteq> 0"
    using path_ram_create(2) by blast
  show ?thesis
    using pathTracer_bare_volume [OF path_ram_heap(1) path_ram_prefix(2) path_ram_volume t(1)] t by auto
qed

end
