(* ===== verification/Fat32.thy ===== *)
theory Fat32
  imports Path_Tracer
begin

text \<open>
  The FAT32 driver, \<^verbatim>\<open>vfsl/driver/fat32.c\<close>, reading side: the boot record, the file allocation table,
  directories and the search for a file. Buffers and directory entries lie in physical memory, so
  that an access past a buffer reaches its neighbours; local arrays are lists, and an access past
  them is the fault \<open>None\<close>. \<^verbatim>\<open>oErrCode\<close> is passed in and out. \<open>junk\<close> stands for the indeterminate
  contents of local arrays. \<^verbatim>\<open>struct fatPrivate\<close> does not change after \<^verbatim>\<open>attachToDisk\<close> and is passed by
  value.
\<close>

section \<open>State\<close>

record masterBootRecord =
  bytesPerSector :: u16
  sectorsPerCluster :: byte
  reservedSectors :: u16
  fatCopies :: byte
  totalSectorsBig :: u32
  sectorsPerFat32 :: u32
  rootDirCluster :: u32

record fatPrivate =
  bootRecord :: masterBootRecord
  clusterSize :: u32
  fatAddress :: u32
  fatCopyStartAddress :: u32
  dataClusterStartAddress :: u32
  rootDirStartAddress :: u32
  readStream :: u64
  writeStream :: u64

record fatFile =
  startCluster :: u32
  fat_fileSize :: u32

record vfsl_file =
  file_label :: byte
  file_path :: "byte list"
  file_name :: "byte list"
  file_mode :: byte
  file_position :: u64
  file_size :: u64

text \<open>The only file system of the kernel is FAT32, so that its callbacks are not stored.\<close>

record fileSystem =
  fs_private :: u64

record 'h fat_state = "'h path_state" +
  fatPrivates :: "u64 \<Rightarrow> fatPrivate"
  fatFiles :: "u64 \<Rightarrow> fatFile"
  files :: "u64 \<Rightarrow> vfsl_file"
  fileSystems :: "u64 \<Rightarrow> fileSystem"
  junk :: "byte list"

definition FAT_ENTRY_AND :: u32 where "FAT_ENTRY_AND = 0x0FFFFFFF"
definition FAT_ENTRY_FREE :: u32 where "FAT_ENTRY_FREE = 0"
definition FAT_ENTRY_USED :: u32 where "FAT_ENTRY_USED = 0x0FFFFFFF"
definition DIR_ENTRY_ATTRIBUTE_DIRECTORY :: byte where "DIR_ENTRY_ATTRIBUTE_DIRECTORY = 0x10"
definition DIR_ENTRY_ATTRIBUTE_ARCHIVE :: byte where "DIR_ENTRY_ATTRIBUTE_ARCHIVE = 0x20"
definition DIR_ENTRY_ATTRIBUTE_LNF :: byte where "DIR_ENTRY_ATTRIBUTE_LNF = 0xF"
definition sizeof_masterBootRecord :: u64 where "sizeof_masterBootRecord = 90"
definition sizeof_directoryEntry :: u64 where "sizeof_directoryEntry = 32"
definition sizeof_fatPrivate :: u64 where "sizeof_fatPrivate = 640"
definition sizeof_fatFile :: u64 where "sizeof_fatFile = 8"
definition sizeof_fileSystem :: u64 where "sizeof_fileSystem = 80"

lemmas fat_const_defs =
  FAT_ENTRY_AND_def FAT_ENTRY_FREE_def FAT_ENTRY_USED_def DIR_ENTRY_ATTRIBUTE_DIRECTORY_def
  DIR_ENTRY_ATTRIBUTE_ARCHIVE_def DIR_ENTRY_ATTRIBUTE_LNF_def sizeof_masterBootRecord_def
  sizeof_directoryEntry_def sizeof_fatPrivate_def sizeof_fatFile_def sizeof_fileSystem_def

section \<open>Numbers and structures in memory\<close>

definition le16 :: "byte list \<Rightarrow> nat \<Rightarrow> u16 option" where
  "le16 xs i = do { a \<leftarrow> rd xs i; b \<leftarrow> rd xs (i + 1); Some (ucast a OR push_bit 8 (ucast b)) }"

text \<open>The fields of \<^verbatim>\<open>struct directoryEntry\<close> at an address.\<close>

definition entry_name :: "mem \<Rightarrow> u64 \<Rightarrow> byte list" where "entry_name m e = bytes_at m e 8"
definition entry_ext :: "mem \<Rightarrow> u64 \<Rightarrow> byte list" where "entry_ext m e = bytes_at m (e + 8) 3"
definition entry_attributes :: "mem \<Rightarrow> u64 \<Rightarrow> byte" where "entry_attributes m e = m (e + 11)"
definition entry_high :: "mem \<Rightarrow> u64 \<Rightarrow> u16" where "entry_high m e = le16_at m (e + 20)"
definition entry_low :: "mem \<Rightarrow> u64 \<Rightarrow> u16" where "entry_low m e = le16_at m (e + 26)"
definition entry_fileSize :: "mem \<Rightarrow> u64 \<Rightarrow> u32" where "entry_fileSize m e = le32_at m (e + 28)"

text \<open>\<^verbatim>\<open>startClusterHigh << 16 | startClusterLow\<close> is computed as an \<^verbatim>\<open>int\<close>; shifting into its sign is a fault.\<close>

definition entry_cluster :: "mem \<Rightarrow> u64 \<Rightarrow> u32 option" where
  "entry_cluster m e =
     (if entry_high m e \<ge> 0x8000 then None
      else Some (push_bit 16 (ucast (entry_high m e)) OR ucast (entry_low m e)))"

text \<open>Transfers between a stream and memory.\<close>

definition streamRead ::
  "u64 \<Rightarrow> u64 \<Rightarrow> u64 \<Rightarrow> ('h, 'a) fat_state_scheme \<Rightarrow> (int \<times> ('h, 'a) fat_state_scheme) option" where
  "streamRead stream ptr len s = do {
     (ret, out, s) \<leftarrow> partitionStreamRead stream (bytes_at (hmem s) ptr (unat len)) len s;
     Some (ret, s\<lparr>hmem := put_bytes ptr out (hmem s)\<rparr>)
   }"

definition streamWrite ::
  "u64 \<Rightarrow> u64 \<Rightarrow> u64 \<Rightarrow> ('h, 'a) fat_state_scheme \<Rightarrow> (int \<times> ('h, 'a) fat_state_scheme) option" where
  "streamWrite stream ptr len s = partitionStreamWrite stream (bytes_at (hmem s) ptr (unat len)) len s"

section \<open>Attaching to a partition\<close>

definition read_bootRecord :: "byte list \<Rightarrow> masterBootRecord option" where
  "read_bootRecord b = do {
     bps \<leftarrow> le16 b 11; spc \<leftarrow> rd b 13; res \<leftarrow> le16 b 14; cp \<leftarrow> rd b 16;
     tot \<leftarrow> le32 b 32; spf \<leftarrow> le32 b 36; rt \<leftarrow> le32 b 44;
     Some \<lparr>bytesPerSector = bps, sectorsPerCluster = spc, reservedSectors = res, fatCopies = cp,
       totalSectorsBig = tot, sectorsPerFat32 = spf, rootDirCluster = rt\<rparr>
   }"

text \<open>
  The addresses of the layout. The product of two 16-bit fields is an \<^verbatim>\<open>int\<close>, whose overflow is a fault;
  the other products are taken modulo \<open>2 ^ 32\<close>.
\<close>

definition fat_layout :: "masterBootRecord \<Rightarrow> u64 \<Rightarrow> u64 \<Rightarrow> fatPrivate option" where
  "fat_layout b rs ws =
     (if unat (reservedSectors b) * unat (bytesPerSector b) \<ge> 2 ^ 31 then None
      else let reserved = (ucast (reservedSectors b) * ucast (bytesPerSector b) :: u32);
               fat = sectorsPerFat32 b * ucast (bytesPerSector b);
               cluster = (ucast (bytesPerSector b) * ucast (sectorsPerCluster b) :: u32);
               data = reserved + fat * ucast (fatCopies b)
           in Some \<lparr>bootRecord = b, clusterSize = cluster, fatAddress = reserved,
                fatCopyStartAddress = reserved + fat, dataClusterStartAddress = data,
                rootDirStartAddress = data + (rootDirCluster b - 2) * cluster,
                readStream = rs, writeStream = ws\<rparr>)"

definition attachToDisk ::
  "partition_ptr option \<Rightarrow> ('h, 'a) fat_state_scheme \<Rightarrow> (u64 \<times> ('h, 'a) fat_state_scheme) option" where
  "attachToDisk pp s =
     (case pp of None \<Rightarrow> Some (0, s)
      | Some p \<Rightarrow> do {
          (private, s) \<leftarrow> kzalloc sizeof_fatPrivate s;
          if private = 0 then Some (0, s)
          else do {
            pt \<leftarrow> partition_at p s;
            (rStream, s) \<leftarrow> partitionStreamCreate (part_label pt) 0 s;
            pt \<leftarrow> partition_at p s;
            (wStream, s) \<leftarrow> partitionStreamCreate (part_label pt) 0 s;
            if rStream = 0 \<or> wStream = 0 then Some (0, s)
            else do {
              (errCode, out, s) \<leftarrow> partitionStreamRead rStream (bytes_at (hmem s) private 90) sizeof_masterBootRecord s;
              let s = s\<lparr>hmem := put_bytes private out (hmem s)\<rparr>;
              (retFs, s) \<leftarrow> (if errCode < 0 then Some (0, s)
                else do {
                  b \<leftarrow> read_bootRecord out;
                  pr \<leftarrow> fat_layout b rStream wStream;
                  kzalloc sizeof_fileSystem (s\<lparr>fatPrivates := (fatPrivates s)(private := pr)\<rparr>)
                });
              if retFs = 0 then do {
                (_, s) \<leftarrow> kzfree private s;
                s \<leftarrow> partitionStreamDestroy rStream s;
                s \<leftarrow> partitionStreamDestroy wStream s;
                Some (0, s)
              }
              else Some (retFs, s\<lparr>fileSystems := (fileSystems s)(retFs := \<lparr>fs_private = private\<rparr>)\<rparr>)
            }
          }
        })"

text \<open>\<open>FAT32\<close> and three spaces.\<close>

definition FAT32_ID :: "byte list" where
  "FAT32_ID = [70, 65, 84, 51, 50, 32, 32, 32]"

definition resolve :: "partition_ptr \<Rightarrow> ('h, 'a) fat_state_scheme \<Rightarrow> (bool \<times> ('h, 'a) fat_state_scheme) option" where
  "resolve pp s = do {
     pt \<leftarrow> partition_at pp s;
     (volumeStream, s) \<leftarrow> partitionStreamCreate (part_label pt) 0 s;
     (_, fatHeader, s) \<leftarrow> partitionStreamRead volumeStream (take 512 (junk s)) 512 s;
     c \<leftarrow> strncmp (drop 82 fatHeader) (FAT32_ID @ [0]) 8;
     s \<leftarrow> partitionStreamDestroy volumeStream s;
     Some (c = 0, s)
   }"

section \<open>The file allocation table\<close>

text \<open>A division by zero is a fault.\<close>

definition absoluteAddressToCluster :: "u32 \<Rightarrow> fatPrivate \<Rightarrow> u32 option" where
  "absoluteAddressToCluster absolute pr =
     (if absolute < dataClusterStartAddress pr then Some 0
      else if clusterSize pr = 0 then None
      else Some (2 + (dataClusterStartAddress pr - absolute) div clusterSize pr))"

definition dataClusterToAbsoluteAddress :: "u32 \<Rightarrow> fatPrivate \<Rightarrow> u64" where
  "dataClusterToAbsoluteAddress dataCluster pr =
     ucast ((dataCluster - 2) * clusterSize pr + dataClusterStartAddress pr)"

definition clusterToFATTableAddress :: "u32 \<Rightarrow> fatPrivate \<Rightarrow> u32" where
  "clusterToFATTableAddress cluster pr = fatAddress pr + 4 * cluster"

definition clusterToFATCopyTableAddress :: "u32 \<Rightarrow> fatPrivate \<Rightarrow> u32" where
  "clusterToFATCopyTableAddress cluster pr = fatCopyStartAddress pr + 4 * cluster"

primrec maskEntries :: "nat \<Rightarrow> u64 \<Rightarrow> mem \<Rightarrow> mem" where
  "maskEntries 0 ret m = m"
| "maskEntries (Suc n) ret m =
     put_bytes (ret + 4 * of_nat n) (bytes32 (le32_at m (ret + 4 * of_nat n) AND FAT_ENTRY_AND)) (maskEntries n ret m)"

definition getMultipleFatEntries ::
  "u32 \<Rightarrow> u32 \<Rightarrow> fatPrivate \<Rightarrow> int \<Rightarrow> ('h, 'a) fat_state_scheme \<Rightarrow> (u64 \<times> int \<times> ('h, 'a) fat_state_scheme) option" where
  "getMultipleFatEntries start end' pr err s = do {
     (ret, s) \<leftarrow> kzalloc (4 * ucast (end' - start)) s;
     if ret = 0 then Some (0, err, s)
     else do {
       (err, s) \<leftarrow> partitionStreamSeek (readStream pr) (ucast start * 4 + ucast (fatAddress pr)) s;
       if err < 0 then Some (0, err, s)
       else do {
         (err, s) \<leftarrow> streamRead (readStream pr) ret (4 * ucast (end' - start)) s;
         if err < 0 then Some (0, err, s)
         else Some (ret, err, s\<lparr>hmem := maskEntries (unat (end' - start)) ret (hmem s)\<rparr>)
       }
     }
   }"

text \<open>The checksum takes the two name fields; \<open>upperName\<close> starts with the junk of its local array.\<close>

definition getCheckSumFromSEntry :: "byte list \<Rightarrow> byte list \<Rightarrow> byte list \<Rightarrow> byte option" where
  "getCheckSumFromSEntry jnk name ext = do {
     a \<leftarrow> strncpy (take 11 jnk) name 8;
     b \<leftarrow> strncpy (drop 8 a) ext 3;
     let upperName = take 8 a @ b;
     Some (foldl (\<lambda>sum c. (drop_bit 1 sum OR push_bit 7 sum) + c) 0 upperName)
   }"

text \<open>
  The search in blocks of 512 entries. The loop need not end when \<^verbatim>\<open>end\<close> wraps around, so that a call
  that does not return has the value \<open>None\<close>; so has the dereference of a \<^verbatim>\<open>NULL\<close> block.
\<close>

partial_function (option) getFreeFatEntry_loop ::
  "u32 \<Rightarrow> u32 \<Rightarrow> fatPrivate \<Rightarrow> int \<Rightarrow> ('h, 'a) fat_state_scheme \<Rightarrow> (u32 \<times> int \<times> ('h, 'a) fat_state_scheme) option" where
  "getFreeFatEntry_loop start end' pr err s =
     (if end' < totalSectorsBig (bootRecord pr) then do {
        (entries, err, s) \<leftarrow> getMultipleFatEntries start end' pr err s;
        if err < 0 then Some (0, err, s)
        else if entries = 0 then None
        else (case find (\<lambda>i. le32_at (hmem s) (entries + 4 * of_nat i) = FAT_ENTRY_FREE) [0..<512] of
            Some i \<Rightarrow> Some (start + of_nat i, err, s)
          | None \<Rightarrow> getFreeFatEntry_loop (start + 512) (end' + 512) pr err s)
      }
      else Some (0, err, s))"

definition getFreeFatEntryCluster ::
  "fatPrivate \<Rightarrow> int \<Rightarrow> ('h, 'a) fat_state_scheme \<Rightarrow> (u32 \<times> int \<times> ('h, 'a) fat_state_scheme) option" where
  "getFreeFatEntryCluster pr err s = getFreeFatEntry_loop 0 512 pr err s"

text \<open>On an error the code returns the error code as an entry.\<close>

definition getFatEntry ::
  "u32 \<Rightarrow> fatPrivate \<Rightarrow> ('h, 'a) fat_state_scheme \<Rightarrow> (u32 \<times> int \<times> ('h, 'a) fat_state_scheme) option" where
  "getFatEntry entry pr s = do {
     (err, s) \<leftarrow> partitionStreamSeek (readStream pr) (ucast entry * 4 + ucast (fatAddress pr)) s;
     if err < 0 then Some (of_int err, err, s)
     else do {
       (err, out, s) \<leftarrow> partitionStreamRead (readStream pr) [0, 0, 0, 0] 4 s;
       if err < 0 then Some (of_int err, err, s)
       else do { ret \<leftarrow> le32 out 0; Some (ret AND FAT_ENTRY_AND, err, s) }
     }
   }"

section \<open>Directories\<close>

text \<open>
  The number of entries is an out parameter, passed in and out. The buffer of a single cluster is
  requested with the size of one entry.
\<close>

definition getDirEntrySingleCluster ::
  "u32 \<Rightarrow> fatPrivate \<Rightarrow> u32 \<Rightarrow> int \<Rightarrow> ('h, 'a) fat_state_scheme \<Rightarrow>
    (u64 \<times> u32 \<times> int \<times> ('h, 'a) fat_state_scheme) option" where
  "getDirEntrySingleCluster clusterNum pr outMax err s = do {
     (entries, s) \<leftarrow> kzalloc sizeof_directoryEntry s;
     if entries = 0 then Some (0, outMax, err, s)
     else do {
       (err, s) \<leftarrow> partitionStreamSeek (readStream pr) (dataClusterToAbsoluteAddress clusterNum pr) s;
       if err < 0 then Some (0, outMax, err, s)
       else do {
         (err, s) \<leftarrow> streamRead (readStream pr) entries (ucast (clusterSize pr)) s;
         if err < 0 then Some (0, outMax, err, s)
         else Some (entries, clusterSize pr div 32, err, s)
       }
     }
   }"

text \<open>
  The chain of a directory is collected in an array of 255 clusters; a longer chain writes behind the
  array, so that 256 rounds of the loop suffice. \<open>fatDir\<close> is the entry after \<open>cluster\<close>.
\<close>

primrec getDirEntries_chain ::
  "nat \<Rightarrow> u32 list \<Rightarrow> nat \<Rightarrow> u32 \<Rightarrow> u32 \<Rightarrow> fatPrivate \<Rightarrow> ('h, 'a) fat_state_scheme \<Rightarrow>
    (u32 list option \<times> int \<times> ('h, 'a) fat_state_scheme) option" where
  "getDirEntries_chain 0 clusterList tot cluster fatDir pr s = None"
| "getDirEntries_chain (Suc k) clusterList tot cluster fatDir pr s = do {
     clusterList \<leftarrow> wr clusterList tot cluster;
     if fatDir \<noteq> FAT_ENTRY_USED \<and> fatDir \<noteq> FAT_ENTRY_FREE then do {
       (next', err, s) \<leftarrow> getFatEntry fatDir pr s;
       if err < 0 then Some (None, err, s)
       else getDirEntries_chain k clusterList (Suc tot) fatDir next' pr s
     }
     else Some (Some (take (Suc tot) clusterList), 0, s)
   }"

text \<open>
  The errors of this loop are not seen: the code compares the pointer \<^verbatim>\<open>oErrCode\<close> with 0. The pointer
  \<^verbatim>\<open>ret\<close> advances by entries where bytes are meant.
\<close>

primrec getDirEntries_read ::
  "u32 list \<Rightarrow> u32 \<Rightarrow> u64 \<Rightarrow> fatPrivate \<Rightarrow> int \<Rightarrow> ('h, 'a) fat_state_scheme \<Rightarrow> (int \<times> ('h, 'a) fat_state_scheme) option" where
  "getDirEntries_read [] i ret pr err s = Some (err, s)"
| "getDirEntries_read (c # cs) i ret pr err s = do {
     (err, s) \<leftarrow> partitionStreamSeek (readStream pr) (dataClusterToAbsoluteAddress c pr) s;
     (err, s) \<leftarrow> streamRead (readStream pr) (ret + 32 * ucast (i * clusterSize pr)) (ucast (clusterSize pr)) s;
     getDirEntries_read cs (i + 1) ret pr err s
   }"

definition getDirEntries ::
  "u32 \<Rightarrow> fatPrivate \<Rightarrow> u32 \<Rightarrow> ('h, 'a) fat_state_scheme \<Rightarrow> (u64 \<times> u32 \<times> int \<times> ('h, 'a) fat_state_scheme) option" where
  "getDirEntries dataClusterNum pr outMax s = do {
     (fatDir, err, s) \<leftarrow> getFatEntry dataClusterNum pr s;
     if err < 0 then Some (0, outMax, err, s)
     else do {
       (cl, err', s) \<leftarrow> getDirEntries_chain 256 (replicate 255 0) 0 dataClusterNum fatDir pr s;
       (case cl of
          None \<Rightarrow> Some (0, outMax, err', s)
        | Some clusters \<Rightarrow> do {
            let clustersTotal = (of_nat (length clusters) :: u32);
            (ret, s) \<leftarrow> kzalloc (ucast (clusterSize pr * clustersTotal)) s;
            if ret = 0 then Some (0, outMax, - ENMEM, s)
            else do {
              (err, s) \<leftarrow> getDirEntries_read clusters 0 ret pr err s;
              Some (ret, (clusterSize pr * clustersTotal) div 32, err, s)
            }
          })
     }
   }"

text \<open>
  The fields of a long name entry: \<open>lfn_fill k idx fin name\<close> fills \<open>k\<close> characters from position \<open>idx\<close>;
  \<open>fin\<close> tells that the terminator was written.
\<close>

primrec lfn_fill :: "nat \<Rightarrow> nat \<Rightarrow> bool \<Rightarrow> int \<Rightarrow> byte list \<Rightarrow> (u16 list \<times> nat \<times> bool) option" where
  "lfn_fill 0 idx fin len name = Some ([], idx, fin)"
| "lfn_fill (Suc k) idx fin len name =
     (if \<not> fin \<and> int idx < len then do {
        c \<leftarrow> rd name idx;
        (cs, idx, fin) \<leftarrow> lfn_fill k (Suc idx) fin len name;
        Some (ucast c # cs, idx, fin)
      }
      else do {
        (cs, idx, fin') \<leftarrow> lfn_fill k idx True len name;
        Some ((if fin then 0xFFFF else 0) # cs, idx, fin')
      })"

definition lfn_bytes :: "byte \<Rightarrow> byte \<Rightarrow> u16 list \<Rightarrow> u16 list \<Rightarrow> u16 list \<Rightarrow> byte list" where
  "lfn_bytes order checkSum low mid high =
     order # concat (map bytes16 low) @ [0x0F, 0, checkSum] @ concat (map bytes16 mid) @ [0, 0] @
     concat (map bytes16 high)"

definition toLongFileName ::
  "byte list \<Rightarrow> int \<Rightarrow> byte \<Rightarrow> int \<Rightarrow> ('h, 'a) fat_state_scheme \<Rightarrow> (u64 \<times> int \<times> ('h, 'a) fat_state_scheme) option" where
  "toLongFileName name orderNumber checkSum err s = do {
     (longEntry, s) \<leftarrow> kzalloc sizeof_directoryEntry s;
     if longEntry = 0 then Some (0, - ENMEM, s)
     else do {
       n \<leftarrow> strlen name;
       let len = sint (ucast n :: u32);
       (low, idx, fin) \<leftarrow> lfn_fill 5 0 False len name;
       (mid, idx, fin) \<leftarrow> lfn_fill 6 idx fin len name;
       (high, idx, fin) \<leftarrow> lfn_fill 2 idx fin len name;
       Some (longEntry, err,
         s\<lparr>hmem := put_bytes longEntry (lfn_bytes (of_int orderNumber) checkSum low mid high) (hmem s)\<rparr>)
     }
   }"

text \<open>The array \<open>extension\<close> is filled with the octal constant \<^verbatim>\<open>020\<close>.\<close>

definition compareShortWithName :: "mem \<Rightarrow> u64 \<Rightarrow> byte list \<Rightarrow> bool option" where
  "compareShortWithName m entry name = do {
     pointPos \<leftarrow> findChar name 46;
     n \<leftarrow> strlen name;
     realName \<leftarrow> strncpy (replicate 8 0x20) name (if pointPos > 0 then of_int pointPos else n);
     extension \<leftarrow> (if pointPos > 0
       then strncpy (replicate 3 16) (drop (nat pointPos + 1) name) (n - of_int pointPos - 1)
       else Some (replicate 3 16));
     v \<leftarrow> strncmp (entry_name m entry) realName 8;
     v \<leftarrow> (if v = 0 then strncmp (entry_ext m entry) extension 3 else Some v);
     Some (v = 0)
   }"

definition compareEntryWithEntryByFullName :: "mem \<Rightarrow> u64 \<Rightarrow> u64 \<Rightarrow> int option" where
  "compareEntryWithEntryByFullName m entry1 entry2 = do {
     v \<leftarrow> strncmp (entry_name m entry1) (entry_name m entry2) 8;
     if v = 0 then strncmp (entry_ext m entry1) (entry_ext m entry2) 3 else Some v
   }"

text \<open>
  The addresses of the 13 characters of a long name entry, and the loop over those of a chain. The number of entries has 8
  bits and the position in the name 16; an entry behind the array is a fault.
\<close>

definition lfn_addresses :: "u64 \<Rightarrow> u64 list" where
  "lfn_addresses e = map (\<lambda>l. e + 1 + 2 * of_nat l) [0..<5] @ map (\<lambda>l. e + 14 + 2 * of_nat l) [0..<6] @
     map (\<lambda>l. e + 28 + 2 * of_nat l) [0..<2]"

primrec lfn_chars :: "u64 list \<Rightarrow> u16 \<Rightarrow> byte list \<Rightarrow> mem \<Rightarrow> byte list option" where
  "lfn_chars [] charCounter oName m = Some oName"
| "lfn_chars (a # as) charCounter oName m =
     (if le16_at m a = 0xFFFF then Some oName
      else do {
        oName \<leftarrow> wr oName (unat charCounter) (ucast (le16_at m a));
        lfn_chars as (charCounter + 1) oName m
      })"

definition longFileNameEntriesToName :: "u64 list \<Rightarrow> byte \<Rightarrow> byte list \<Rightarrow> mem \<Rightarrow> byte list option" where
  "longFileNameEntriesToName lfnChain entries oName m =
     (if length lfnChain < unat entries then None
      else lfn_chars (concat (map lfn_addresses (rev (take (unat entries) lfnChain)))) 0 oName m)"

text \<open>
  The scan of \<^verbatim>\<open>generateShortFileName\<close> over the \<open>k\<close> entries from \<open>e\<close> on, for the used numbers.
\<close>

primrec scanNumbers ::
  "nat \<Rightarrow> u64 \<Rightarrow> byte list \<Rightarrow> mem \<Rightarrow> int \<times> int \<times> int \<times> bool \<Rightarrow> (int \<times> int \<times> int \<times> bool) option" where
  "scanNumbers 0 e fileName m acc = Some acc"
| "scanNumbers (Suc k) e fileName m acc = do {
     hit \<leftarrow> (if entry_attributes m e = DIR_ENTRY_ATTRIBUTE_ARCHIVE then do {
               v \<leftarrow> strncmp fileName (bytes_at m e 32) 6;
               Some (v = 0 \<and> m (e + 6) = 126 \<and> isNumber (m (e + 7)) \<noteq> 0)
             } else Some False);
     scanNumbers k (e + 32) fileName m
       (if hit then
          let (low, nxt, mx, found) = acc; num = int (unat (toNumber (m (e + 7))))
          in if num < low then (num, nxt, mx, True)
             else if num < nxt then (low, num, mx, True)
             else if num < mx then (low, nxt, num, True)
             else (low, nxt, mx, True)
        else acc)
   }"

definition nextFreeNumber :: "int \<times> int \<times> int \<times> bool \<Rightarrow> int" where
  "nextFreeNumber = (\<lambda>(low, nxt, mx, found).
     if nxt > 1 + low then low else if mx > 1 + nxt then nxt else if \<not> found then 1 else - ENFOUND)"

definition generateShortFileName ::
  "u64 \<Rightarrow> byte list \<Rightarrow> fatPrivate \<Rightarrow> byte list \<Rightarrow> ('h, 'a) fat_state_scheme \<Rightarrow>
    (int \<times> byte list \<times> ('h, 'a) fat_state_scheme) option" where
  "generateShortFileName currDir fileName pr oName s = do {
     n \<leftarrow> strlen fileName;
     (upperName, s) \<leftarrow> toUpperCase fileName n s;
     pointPos \<leftarrow> findChar fileName 46;
     let len = (if pointPos > 0 then pointPos else sint (ucast n :: u32));
     if len \<le> 8 then do {
       nn \<leftarrow> strncpy (replicate 8 0x20 @ [46, 16, 16, 16, 0]) (bytes_at (hmem s) upperName 9) (of_int len);
       tl' \<leftarrow> strncpy (drop 9 nn) (bytes_at (hmem s) (upperName + of_int len + 1) 3) 3;
       oName \<leftarrow> strncpy oName (take 9 nn @ tl') 13;
       (_, s) \<leftarrow> kzfree upperName s;
       Some (SUCCESS, oName, s)
     }
     else do {
       c \<leftarrow> entry_cluster (hmem s) currDir;
       (entries, count, _, s) \<leftarrow> getDirEntries c pr 0 s;
       acc \<leftarrow> scanNumbers (unat count) entries fileName (hmem s) (9, 9, 9, False);
       let num = nextFreeNumber acc;
       oName \<leftarrow> (if num \<ge> 1 then do {
           oName \<leftarrow> strncpy oName (bytes_at (hmem s) upperName 6) 6;
           oName \<leftarrow> wr oName 6 126;
           oName \<leftarrow> wr oName 7 (48 + of_int num);
           oName \<leftarrow> wr oName 8 46;
           t \<leftarrow> (if pointPos > 0
                then strncpy (replicate 3 16) (bytes_at (hmem s) (upperName + of_int pointPos + 1) 3) 3
                else Some (replicate 3 16));
           ext \<leftarrow> strncpy (drop 9 oName) t 3;
           Some (take 9 oName @ ext)
         } else Some oName);
       (_, s) \<leftarrow> kzfree upperName s;
       (_, s) \<leftarrow> kzfree entries s;
       Some (num, oName, s)
     }
   }"


section \<open>Searching\<close>

text \<open>
  The loop of \<^verbatim>\<open>findDirEntry\<close> over the \<open>k\<close> entries from \<open>e\<close> on; \<open>lfnChain\<close> has 12 slots. The result is the
  address of the entry that was found.
\<close>

primrec findDirEntry_loop ::
  "nat \<Rightarrow> u64 \<Rightarrow> u64 list \<Rightarrow> byte \<Rightarrow> byte list \<Rightarrow> byte \<Rightarrow> byte list \<Rightarrow> mem \<Rightarrow> u64 option option" where
  "findDirEntry_loop 0 e lfnChain cur name attribute jnk m = Some None"
| "findDirEntry_loop (Suc k) e lfnChain cur name attribute jnk m =
     (if entry_attributes m e = 0 then Some None
      else if entry_attributes m e = DIR_ENTRY_ATTRIBUTE_LNF then do {
        lfnChain \<leftarrow> wr lfnChain (unat cur) e;
        findDirEntry_loop k (e + 32) lfnChain (cur + 1) name attribute jnk m
      }
      else do {
        found \<leftarrow> (if cur > 0 then do {
             fullName \<leftarrow> longFileNameEntriesToName lfnChain cur (take 255 jnk) m;
             c \<leftarrow> strncmp fullName name 255;
             if c = 0 then do {
               checkSum \<leftarrow> getCheckSumFromSEntry jnk (entry_name m e) (entry_ext m e);
               Some (entry_attributes m e = attribute \<and> checkSum = m (e - 32 + 13))
             }
             else Some False
           }
           else compareShortWithName m e name);
        if found then Some (Some e)
        else findDirEntry_loop k (e + 32) lfnChain 0 name attribute jnk m
      })"

definition findDirEntry ::
  "u32 \<Rightarrow> byte list \<Rightarrow> byte \<Rightarrow> fatPrivate \<Rightarrow> int \<Rightarrow> ('h, 'a) fat_state_scheme \<Rightarrow>
    (u64 \<times> int \<times> ('h, 'a) fat_state_scheme) option" where
  "findDirEntry dataClusterNum name attribute pr err s = do {
     (ret, s) \<leftarrow> kzalloc sizeof_directoryEntry s;
     if ret = 0 then Some (0, - ENMEM, s)
     else do {
       (entries, maxEntries, err, s) \<leftarrow> getDirEntries dataClusterNum pr 0 s;
       found \<leftarrow> (if entries = 0 then Some None
         else findDirEntry_loop (unat maxEntries) entries (replicate 12 0) 0 name attribute (junk s) (hmem s));
       (case found of
          None \<Rightarrow> do {
            (_, s) \<leftarrow> kzfree entries s;
            (_, s) \<leftarrow> kzfree ret s;
            Some (0, - ENFOUND, s)
          }
        | Some e \<Rightarrow> do {
            let s = s\<lparr>hmem := put_bytes ret (bytes_at (hmem s) e 32) (hmem s)\<rparr>;
            (_, s) \<leftarrow> kzfree entries s;
            Some (ret, err, s)
          })
     }
   }"

definition put_entry_cluster :: "u64 \<Rightarrow> u32 \<Rightarrow> mem \<Rightarrow> mem" where
  "put_entry_cluster e c m =
     put_bytes (e + 26) (bytes16 (ucast (c AND 0xFFFF))) (put_bytes (e + 20) (bytes16 (ucast (drop_bit 16 c))) m)"

definition findDirectory_finish ::
  "u64 \<Rightarrow> int \<Rightarrow> ('h, 'a) fat_state_scheme \<Rightarrow> (u64 \<times> int \<times> ('h, 'a) fat_state_scheme) option" where
  "findDirectory_finish entry err s =
     (if entry \<noteq> 0 \<and> entry_attributes (hmem s) entry = DIR_ENTRY_ATTRIBUTE_DIRECTORY then Some (entry, err, s)
      else Some (0, - ENFOUND, s))"

partial_function (option) findDirectory_loop ::
  "u64 \<Rightarrow> u32 \<Rightarrow> byte \<Rightarrow> fatPrivate \<Rightarrow> int \<Rightarrow> ('h, 'a) fat_state_scheme \<Rightarrow>
    (u64 \<times> int \<times> ('h, 'a) fat_state_scheme) option" where
  "findDirectory_loop part dataClusterNum curAttribute pr err s = do {
     pt \<leftarrow> deref (tparts s) part;
     (entry, err, s) \<leftarrow> findDirEntry dataClusterNum (pathPart pt) curAttribute pr err s;
     if entry = 0 then Some (0, err, s)
     else do {
       part \<leftarrow> pathTracerGetNext part s;
       if part = 0 then findDirectory_finish entry err s
       else do {
         pt \<leftarrow> deref (tparts s) part;
         if pathType pt = PATH_TRACER_PART_FILE then findDirectory_finish entry err s
         else if curAttribute = DIR_ENTRY_ATTRIBUTE_DIRECTORY then do {
           dataClusterNum \<leftarrow> entry_cluster (hmem s) entry;
           nextDir \<leftarrow> (if pathNext pt \<noteq> 0
              then do { nx \<leftarrow> deref (tparts s) (pathNext pt); Some (pathType nx = PATH_TRACER_PART_DIRECTORY) }
              else Some False);
           if nextDir then do {
             (_, s) \<leftarrow> kzfree entry s;
             findDirectory_loop part dataClusterNum DIR_ENTRY_ATTRIBUTE_DIRECTORY pr err s
           }
           else findDirectory_finish entry err s
         }
         else if curAttribute = DIR_ENTRY_ATTRIBUTE_ARCHIVE then findDirectory_finish entry err s
         else findDirectory_loop part dataClusterNum curAttribute pr err s
       }
     }
   }"

definition findDirectory ::
  "u64 \<Rightarrow> fatPrivate \<Rightarrow> int \<Rightarrow> ('h, 'a) fat_state_scheme \<Rightarrow> (u64 \<times> int \<times> ('h, 'a) fat_state_scheme) option" where
  "findDirectory tracer pr err s = do {
     part \<leftarrow> pathTracerStartTrace tracer s;
     if part = 0 then Some (0, - EIARG, s)
     else do {
       dataClusterNum \<leftarrow> absoluteAddressToCluster (rootDirStartAddress pr) pr;
       pt \<leftarrow> deref (tparts s) part;
       if pathType pt = PATH_TRACER_PART_FILE then do {
         (entry, s) \<leftarrow> kzalloc sizeof_directoryEntry s;
         if entry = 0 then Some (0, - ENMEM, s)
         else Some (entry, err, s\<lparr>hmem :=
           (put_entry_cluster entry dataClusterNum (hmem s))(entry + 11 := DIR_ENTRY_ATTRIBUTE_DIRECTORY)\<rparr>)
       }
       else findDirectory_loop part dataClusterNum DIR_ENTRY_ATTRIBUTE_DIRECTORY pr err s
     }
   }"

definition findFile ::
  "u64 \<Rightarrow> fatPrivate \<Rightarrow> int \<Rightarrow> ('h, 'a) fat_state_scheme \<Rightarrow> (u64 \<times> int \<times> ('h, 'a) fat_state_scheme) option" where
  "findFile tracer pr err s = do {
     (entry, err, s) \<leftarrow> findDirectory tracer pr err s;
     if entry = 0 then Some (0, err, s)
     else do {
       name \<leftarrow> pathTracerGetFileName tracer s;
       (case name of
          None \<Rightarrow> Some (0, - EIARG, s)
        | Some fileName \<Rightarrow> do {
            clusterNum \<leftarrow> entry_cluster (hmem s) entry;
            (fileEntry, err, s) \<leftarrow> findDirEntry clusterNum fileName DIR_ENTRY_ATTRIBUTE_ARCHIVE pr err s;
            (_, s) \<leftarrow> kzfree entry s;
            if fileEntry = 0 then Some (0, err, s)
            else do {
              (fl, s) \<leftarrow> kzalloc sizeof_fatFile s;
              if fl = 0 then Some (0, - ENMEM, s)
              else do {
                c \<leftarrow> entry_cluster (hmem s) fileEntry;
                let s = s\<lparr>fatFiles := (fatFiles s)(fl :=
                  \<lparr>startCluster = c, fat_fileSize = entry_fileSize (hmem s) fileEntry\<rparr>)\<rparr>;
                (_, s) \<leftarrow> kzfree fileEntry s;
                Some (fl, err, s)
              }
            }
          })
     }
   }"

section \<open>Reading a file\<close>

text \<open>Following the chain for \<open>k\<close> clusters, as both directions of transfer do.\<close>

primrec skipClusters ::
  "nat \<Rightarrow> u32 \<Rightarrow> fatPrivate \<Rightarrow> ('h, 'a) fat_state_scheme \<Rightarrow> (u32 \<times> int \<times> ('h, 'a) fat_state_scheme) option" where
  "skipClusters 0 cluster pr s = Some (cluster, 0, s)"
| "skipClusters (Suc k) cluster pr s = do {
     (cluster, ret, s) \<leftarrow> getFatEntry cluster pr s;
     if ret < 0 then Some (cluster, ret, s) else skipClusters k cluster pr s
   }"

text \<open>
  The loop of \<^verbatim>\<open>readFatFile\<close>: \<open>k\<close> clusters are left. \<^verbatim>\<open>currentToRead\<close> has 16 bits. Leaving the loop before
  its end is an error.
\<close>

primrec readFatFile_loop ::
  "nat \<Rightarrow> u32 \<Rightarrow> u32 \<Rightarrow> u64 \<Rightarrow> u64 \<Rightarrow> u16 \<Rightarrow> u32 \<Rightarrow> u64 \<Rightarrow> u64 \<Rightarrow> u64 \<Rightarrow> fatPrivate \<Rightarrow> int \<Rightarrow>
    ('h, 'a) fat_state_scheme \<Rightarrow> (int \<times> ('h, 'a) fat_state_scheme) option" where
  "readFatFile_loop 0 i clustersToRead size' filePos currentToRead currentCluster currentFilePos totalRead ptr pr ret s =
     Some (ret, s)"
| "readFatFile_loop (Suc k) i clustersToRead size' filePos currentToRead currentCluster currentFilePos totalRead ptr pr ret s =
     (if currentCluster = FAT_ENTRY_USED \<or> currentCluster = FAT_ENTRY_FREE then Some (- EFSYSTEM, s)
      else do {
        (ret, s) \<leftarrow> partitionStreamSeek (readStream pr) (dataClusterToAbsoluteAddress currentCluster pr + currentFilePos) s;
        if ret < 0 then Some (ret, s)
        else do {
          (ret, s) \<leftarrow> streamRead (readStream pr) (ptr + totalRead) (ucast currentToRead) s;
          if ret < 0 then Some (ret, s)
          else do {
            (nextCluster, ret, s) \<leftarrow> getFatEntry currentCluster pr s;
            if ret < 0 then Some (ret, s)
            else readFatFile_loop k (i + 1) clustersToRead size' filePos
              (if i + 2 = clustersToRead
               then if (filePos + size') mod ucast (clusterSize pr) = 0 then ucast (clusterSize pr)
                    else ucast (size' mod ucast (clusterSize pr))
               else ucast (clusterSize pr))
              nextCluster 0 (totalRead + ucast currentToRead) ptr pr ret s
          }
        }
      })"

definition readFatFile ::
  "fatFile \<Rightarrow> u64 \<Rightarrow> u64 \<Rightarrow> u64 \<Rightarrow> fatPrivate \<Rightarrow> ('h, 'a) fat_state_scheme \<Rightarrow> (int \<times> ('h, 'a) fat_state_scheme) option" where
  "readFatFile ff size' filePos ptr pr s =
     (let cs = ucast (clusterSize pr) :: u64
      in if cs = 0 then None
      else do {
        (currentCluster, ret, s) \<leftarrow> (if filePos \<ge> cs
           then skipClusters (unat (ucast (filePos div cs) :: u32)) (startCluster ff) pr s
           else Some (startCluster ff, 0, s));
        if ret < 0 then Some (ret, s)
        else do {
          let clustersToRead = (ucast (size' div cs) + (if size' mod cs \<noteq> 0 then 1 else 0) :: u32);
          let currentToRead = (ucast cs - (if size' < cs then ucast (cs - size' mod cs) else 0) :: u16);
          readFatFile_loop (unat clustersToRead) 0 clustersToRead size' filePos currentToRead currentCluster
            (filePos mod cs) 0 ptr pr ret s
        }
      })"

definition readFile ::
  "u64 \<Rightarrow> u64 \<Rightarrow> u64 \<Rightarrow> fatPrivate \<Rightarrow> ('h, 'a) fat_state_scheme \<Rightarrow> (int \<times> ('h, 'a) fat_state_scheme) option" where
  "readFile ptr size' fl pr s = do {
     f \<leftarrow> at (files s) fl;
     (tracer, errCode, s) \<leftarrow> createPathTracer (Some (file_path f)) 0 s;
     if tracer = 0 then Some (errCode, s)
     else do {
       (ff, errCode, s) \<leftarrow> findFile tracer pr errCode s;
       s \<leftarrow> destroyPathTracer tracer s;
       if ff = 0 then Some (errCode, s)
       else readFatFile (fatFiles s ff) size' (file_position f) ptr pr s
     }
   }"

end
