(* ===== verification/Fat32_Write.thy ===== *)
theory Fat32_Write
  imports Fat32
begin

text \<open>
  The FAT32 driver, \<^verbatim>\<open>vfsl/driver/fat32.c\<close>, writing side: entries of the allocation table, growing and
  filling directories, creating, opening and writing files.
\<close>

section \<open>The allocation table\<close>

definition writeFATEntry ::
  "u32 \<Rightarrow> u32 \<Rightarrow> fatPrivate \<Rightarrow> ('h, 'a) fat_state_scheme \<Rightarrow> (int \<times> ('h, 'a) fat_state_scheme) option" where
  "writeFATEntry cluster value pr s = do {
     (ret, s) \<leftarrow> partitionStreamSeek (writeStream pr) (ucast (clusterToFATTableAddress cluster pr)) s;
     if ret < 0 then Some (ret, s)
     else do {
       (ret, s) \<leftarrow> partitionStreamWrite (writeStream pr) (bytes32 value) 4 s;
       if ret < 0 then Some (ret, s)
       else do {
         (ret, s) \<leftarrow> partitionStreamSeek (writeStream pr) (ucast (clusterToFATCopyTableAddress cluster pr)) s;
         if ret < 0 then Some (ret, s)
         else partitionStreamWrite (writeStream pr) (bytes32 value) 4 s
       }
     }
   }"

text \<open>The result is the new cluster as an \<^verbatim>\<open>int\<close>, or an error code.\<close>

definition makeDirBigger ::
  "u64 \<Rightarrow> fatPrivate \<Rightarrow> ('h, 'a) fat_state_scheme \<Rightarrow> (int \<times> ('h, 'a) fat_state_scheme) option" where
  "makeDirBigger endCluster pr s = do {
     (c, errCode, s) \<leftarrow> getFreeFatEntryCluster pr 0 s;
     if errCode < 0 then Some (errCode, s)
     else if c = 0 then Some (- EDISKSPACE, s)
     else do {
       (errCode, s) \<leftarrow> writeFATEntry (ucast endCluster) c pr s;
       if errCode < 0 then Some (errCode, s)
       else do {
         (errCode, s) \<leftarrow> writeFATEntry c FAT_ENTRY_USED pr s;
         if errCode < 0 then Some (errCode, s)
         else do {
           (errCode, s) \<leftarrow> partitionStreamSeek (writeStream pr) (dataClusterToAbsoluteAddress c pr) s;
           if errCode < 0 then Some (errCode, s)
           else do {
             (errCode, s) \<leftarrow> partitionStreamWrite (writeStream pr) (replicate (unat (clusterSize pr)) 0)
                              (ucast (clusterSize pr)) s;
             Some (if errCode < 0 then errCode else sint c, s)
           }
         }
       }
     }
   }"

text \<open>
  The loop of \<^verbatim>\<open>unlinkFatChain\<close> over the entries after the first; on a cyclic chain of the disk it ends
  only by the entries that it has freed.
\<close>

partial_function (option) unlinkFatChain_loop ::
  "u32 \<Rightarrow> fatPrivate \<Rightarrow> ('h, 'a) fat_state_scheme \<Rightarrow> (int \<times> ('h, 'a) fat_state_scheme) option" where
  "unlinkFatChain_loop fatEntry pr s =
     (if fatEntry \<noteq> FAT_ENTRY_USED \<and> fatEntry \<noteq> FAT_ENTRY_FREE then do {
        (nextEntry, ret, s) \<leftarrow> getFatEntry fatEntry pr s;
        if ret < 0 then Some (ret, s)
        else do {
          (ret, s) \<leftarrow> writeFATEntry fatEntry FAT_ENTRY_FREE pr s;
          if ret < 0 then Some (ret, s) else unlinkFatChain_loop nextEntry pr s
        }
      }
      else Some (0, s))"

definition unlinkFatChain ::
  "u32 \<Rightarrow> fatPrivate \<Rightarrow> ('h, 'a) fat_state_scheme \<Rightarrow> (int \<times> ('h, 'a) fat_state_scheme) option" where
  "unlinkFatChain cluster pr s = do {
     (fatEntry, ret, s) \<leftarrow> getFatEntry cluster pr s;
     if ret < 0 then Some (ret, s)
     else do {
       (ret, s) \<leftarrow> unlinkFatChain_loop fatEntry pr s;
       if ret < 0 then Some (ret, s) else writeFATEntry cluster FAT_ENTRY_USED pr s
     }
   }"

section \<open>Directories\<close>

definition writeEntryAtAddress ::
  "byte list \<Rightarrow> u64 \<Rightarrow> fatPrivate \<Rightarrow> ('h, 'a) fat_state_scheme \<Rightarrow> (int \<times> ('h, 'a) fat_state_scheme) option" where
  "writeEntryAtAddress entry address pr s = do {
     (err, s) \<leftarrow> partitionStreamSeek (writeStream pr) address s;
     if err < 0 then Some (err, s) else partitionStreamWrite (writeStream pr) entry sizeof_directoryEntry s
   }"

primrec findByFullName :: "nat \<Rightarrow> nat \<Rightarrow> u64 \<Rightarrow> u64 \<Rightarrow> mem \<Rightarrow> nat option option" where
  "findByFullName 0 i entries entry m = Some None"
| "findByFullName (Suc k) i entries entry m = do {
     let e = entries + 32 * of_nat i;
     hit \<leftarrow> (if entry_attributes m e \<noteq> 0
            then do { c \<leftarrow> compareEntryWithEntryByFullName m e entry; Some (c = 0) } else Some False);
     if hit then Some (Some i) else findByFullName k (Suc i) entries entry m
   }"

text \<open>
  The next cluster is always looked up for the first cluster of the directory. A \<^verbatim>\<open>NULL\<close> buffer, with
  the number of entries not set, is a fault.
\<close>

partial_function (option) updateDirectoryEntry_loop ::
  "u32 \<Rightarrow> u32 \<Rightarrow> u64 \<Rightarrow> byte list \<Rightarrow> int \<Rightarrow> fatPrivate \<Rightarrow> ('h, 'a) fat_state_scheme \<Rightarrow>
    (int \<times> ('h, 'a) fat_state_scheme) option" where
  "updateDirectoryEntry_loop clusterOfDirectory nextEntry entryToUpdate newEntry ret pr s = do {
     (entries, maxEntries, ret, s) \<leftarrow> getDirEntrySingleCluster nextEntry pr 0 ret s;
     if ret < 0 then Some (ret, s)
     else if entries = 0 then None
     else do {
       hit \<leftarrow> findByFullName (unat maxEntries) 0 entries entryToUpdate (hmem s);
       (case hit of
          Some i \<Rightarrow> writeEntryAtAddress newEntry (dataClusterToAbsoluteAddress nextEntry pr + 32 * of_nat i) pr s
        | None \<Rightarrow> do {
            (nextEntry, ret, s) \<leftarrow> getFatEntry clusterOfDirectory pr s;
            if ret < 0 then Some (ret, s)
            else if nextEntry \<noteq> FAT_ENTRY_FREE \<and> nextEntry \<noteq> FAT_ENTRY_USED
            then updateDirectoryEntry_loop clusterOfDirectory nextEntry entryToUpdate newEntry ret pr s
            else Some (- ENFOUND, s)
          })
     }
   }"

definition updateDirectoryEntry ::
  "u32 \<Rightarrow> u64 \<Rightarrow> byte list \<Rightarrow> fatPrivate \<Rightarrow> ('h, 'a) fat_state_scheme \<Rightarrow> (int \<times> ('h, 'a) fat_state_scheme) option" where
  "updateDirectoryEntry clusterOfDirectory entryToUpdate newEntry pr s =
     updateDirectoryEntry_loop clusterOfDirectory clusterOfDirectory entryToUpdate newEntry 0 pr s"

text \<open>
  The search for \<open>count\<close> free entries in a row. The list of addresses is requested with \<open>count\<close> bytes
  and holds 8 bytes per address.
\<close>

partial_function (option) getFreeDirEntries_loop ::
  "u64 \<Rightarrow> u32 \<Rightarrow> u64 \<Rightarrow> u32 \<Rightarrow> u32 \<Rightarrow> byte \<Rightarrow> byte \<Rightarrow> u64 \<Rightarrow> fatPrivate \<Rightarrow> int \<Rightarrow> ('h, 'a) fat_state_scheme \<Rightarrow>
    (u64 \<times> int \<times> ('h, 'a) fat_state_scheme) option" where
  "getFreeDirEntries_loop oldCluster fatEntry entries maxPerCluster entriesCount foundCount count addressList pr err s =
     (if entriesCount = maxPerCluster then do {
        (fatEntry, s) \<leftarrow> (if fatEntry = FAT_ENTRY_USED
           then do { (c, s) \<leftarrow> makeDirBigger oldCluster pr s; Some (of_int c, s) } else Some (fatEntry, s));
        (_, s) \<leftarrow> kzfree entries s;
        (entries, maxPerCluster, err, s) \<leftarrow> getDirEntrySingleCluster fatEntry pr maxPerCluster err s;
        (nextEntry, err, s) \<leftarrow> getFatEntry fatEntry pr s;
        if err < 0 then do {
          (_, s) \<leftarrow> kzfree entries s;
          Some (0, err, s)
        }
        else getFreeDirEntries_loop (ucast fatEntry) nextEntry entries maxPerCluster 0 foundCount count addressList pr err s
      }
      else if entries = 0 then None
      else if entry_attributes (hmem s) (entries + 32 * ucast entriesCount) = 0 then do {
        let s = s\<lparr>hmem := put_bytes (addressList + 8 * ucast foundCount)
          (bytes64 (dataClusterToAbsoluteAddress (ucast oldCluster) pr + 32 * ucast entriesCount)) (hmem s)\<rparr>;
        if foundCount + 1 = count then Some (addressList, err, s)
        else getFreeDirEntries_loop oldCluster fatEntry entries maxPerCluster (entriesCount + 1) (foundCount + 1)
          count addressList pr err s
      }
      else getFreeDirEntries_loop oldCluster fatEntry entries maxPerCluster (entriesCount + 1) 0
        count addressList pr err s)"

definition getFreeDirEntriesAddresses ::
  "u64 \<Rightarrow> byte \<Rightarrow> fatPrivate \<Rightarrow> int \<Rightarrow> ('h, 'a) fat_state_scheme \<Rightarrow> (u64 \<times> int \<times> ('h, 'a) fat_state_scheme) option" where
  "getFreeDirEntriesAddresses startEntry count pr err s = do {
     (addressList, s) \<leftarrow> kzalloc (ucast count) s;
     if addressList = 0 then Some (0, - ENMEM, s)
     else do {
       c \<leftarrow> entry_cluster (hmem s) startEntry;
       (fatEntry, err, s) \<leftarrow> getFatEntry c pr s;
       if err < 0 then Some (0, err, s)
       else do {
         (entries, maxPerCluster, err, s) \<leftarrow> getDirEntrySingleCluster c pr 0 err s;
         getFreeDirEntries_loop (ucast c) fatEntry entries maxPerCluster 0 0 count addressList pr err s
       }
     }
   }"

section \<open>Creating a file\<close>

text \<open>The new entry is a local structure: its name, then zeroes with the attribute and the cluster.\<close>

definition newEntry_bytes :: "byte list \<Rightarrow> byte list \<Rightarrow> u32 \<Rightarrow> byte list" where
  "newEntry_bytes name ext c =
     name @ ext @ [DIR_ENTRY_ATTRIBUTE_ARCHIVE] @ replicate 8 0 @ bytes16 (ucast (drop_bit 16 c)) @
     replicate 4 0 @ bytes16 (ucast (c AND 0xFFFF)) @ replicate 4 0"

definition createFileEntryAtAbsoluteAddress ::
  "u64 \<Rightarrow> byte list \<Rightarrow> fatPrivate \<Rightarrow> int \<Rightarrow> ('h, 'a) fat_state_scheme \<Rightarrow>
    (u64 \<times> int \<times> ('h, 'a) fat_state_scheme) option" where
  "createFileEntryAtAbsoluteAddress address fileName pr err s = do {
     (freeCluster, err, s) \<leftarrow> getFreeFatEntryCluster pr err s;
     if freeCluster = 0 then Some (0, err, s)
     else do {
       name \<leftarrow> strncpy (replicate 8 0) fileName 8;
       ext \<leftarrow> strncpy (replicate 3 0) (drop 9 fileName) 3;
       (err, s) \<leftarrow> writeFATEntry freeCluster 0x0FFFFFFF pr s;
       if err < 0 then Some (0, err, s)
       else do {
         (err, s) \<leftarrow> partitionStreamSeek (writeStream pr) address s;
         if err < 0 then Some (0, err, s)
         else do {
           (err, s) \<leftarrow> partitionStreamWrite (writeStream pr) (newEntry_bytes name ext freeCluster) sizeof_directoryEntry s;
           if err < 0 then Some (0, err, s)
           else do {
             (ff, s) \<leftarrow> kzalloc sizeof_fatFile s;
             Some (ff, err, if ff = 0 then s else s\<lparr>fatFiles := (fatFiles s)(ff :=
               \<lparr>startCluster = freeCluster, fat_fileSize = 0\<rparr>)\<rparr>)
           }
         }
       }
     }
   }"

text \<open>The loop counts \<open>i\<close> down from \<open>entriesNeeded - 1\<close> and \<open>count\<close> up. \<open>LFN_ENTRY_LAST_FLAG\<close> is 0x40.\<close>

primrec createLongFileNameEntry_loop ::
  "nat \<Rightarrow> nat \<Rightarrow> u64 \<Rightarrow> u64 \<Rightarrow> byte list \<Rightarrow> byte \<Rightarrow> fatPrivate \<Rightarrow> int \<Rightarrow> ('h, 'a) fat_state_scheme \<Rightarrow>
    (int \<times> ('h, 'a) fat_state_scheme) option" where
  "createLongFileNameEntry_loop 0 n count address fileName checkSum pr err s = Some (err, s)"
| "createLongFileNameEntry_loop (Suc i) n count address fileName checkSum pr err s = do {
     (longEntry, err, s) \<leftarrow> toLongFileName (drop (i * 13) fileName) (int i + 1) checkSum err s;
     if err < 0 then Some (err, s)
     else if longEntry = 0 then None
     else do {
       let s = (if Suc i = n then s\<lparr>hmem := (hmem s)(longEntry := hmem s longEntry OR 0x40)\<rparr> else s);
       (err, s) \<leftarrow> partitionStreamSeek (writeStream pr) (le64_at (hmem s) (address + 8 * count)) s;
       if err < 0 then Some (err, s)
       else do {
         (err, s) \<leftarrow> streamWrite (writeStream pr) longEntry 32 s;
         if err < 0 then Some (err, s)
         else do {
           (_, s) \<leftarrow> kzfree longEntry s;
           createLongFileNameEntry_loop i n (count + 1) address fileName checkSum pr err s
         }
       }
     }
   }"

text \<open>\<^verbatim>\<open>fileNameLength\<close> has 16 bits and \<^verbatim>\<open>entriesNeeded\<close> has 8; the result is \<^verbatim>\<open>*oErrCode\<close>.\<close>

definition createLongFileNameEntryAtAddress ::
  "u64 \<Rightarrow> byte list \<Rightarrow> byte \<Rightarrow> fatPrivate \<Rightarrow> int \<Rightarrow> ('h, 'a) fat_state_scheme \<Rightarrow>
    (int \<times> ('h, 'a) fat_state_scheme) option" where
  "createLongFileNameEntryAtAddress address fileName checkSum pr err s = do {
     n \<leftarrow> strlen fileName;
     let l = (ucast n :: u16);
     let entriesNeeded = (ucast (l div 13) + (if l mod 13 > 0 then 1 else 0) :: byte);
     createLongFileNameEntry_loop (unat entriesNeeded) (unat entriesNeeded) 0 address fileName checkSum pr err s
   }"

definition createFatFileInDir ::
  "u64 \<Rightarrow> byte list \<Rightarrow> fatPrivate \<Rightarrow> int \<Rightarrow> ('h, 'a) fat_state_scheme \<Rightarrow> (u64 \<times> int \<times> ('h, 'a) fat_state_scheme) option" where
  "createFatFileInDir entry fileName pr err s = do {
     n \<leftarrow> strlen fileName;
     let fileLength = (ucast n :: u32);
     let entriesNeeded = (ucast (fileLength div 13) + (if fileLength mod 13 > 0 then 1 else 0) + 1 :: byte);
     (addressList, err, s) \<leftarrow> getFreeDirEntriesAddresses entry entriesNeeded pr err s;
     (fl, err, s) \<leftarrow> (if err < 0 then Some (0, err, s)
       else if addressList = 0 then None
       else do {
         (_, shortFileName, s) \<leftarrow> generateShortFileName entry fileName pr (replicate 255 0) s;
         name \<leftarrow> strncpy (take 8 (junk s)) shortFileName 8;
         ext \<leftarrow> strncpy (take 3 (drop 8 (junk s))) (drop 9 shortFileName) 3;
         checkSum \<leftarrow> getCheckSumFromSEntry (junk s) name ext;
         (err, s) \<leftarrow> createLongFileNameEntryAtAddress addressList fileName checkSum pr err s;
         if err < 0 then Some (0, err, s)
         else createFileEntryAtAbsoluteAddress (le64_at (hmem s) (addressList + 8 * (ucast (entriesNeeded - 1))))
                shortFileName pr err s
       });
     s \<leftarrow> (if addressList \<noteq> 0 then do { (_, s) \<leftarrow> kzfree addressList s; Some s } else Some s);
     Some (fl, err, s)
   }"

section \<open>Writing a file\<close>

text \<open>The clusters to skip that are left, the last cluster and its entry, and the error code.\<close>

primrec writeSkip ::
  "nat \<Rightarrow> u32 \<Rightarrow> u32 \<Rightarrow> fatPrivate \<Rightarrow> ('h, 'a) fat_state_scheme \<Rightarrow>
    (nat \<times> u32 \<times> u32 \<times> int \<times> ('h, 'a) fat_state_scheme) option" where
  "writeSkip 0 oldCluster fatEntry pr s = Some (0, oldCluster, fatEntry, 0, s)"
| "writeSkip (Suc k) oldCluster fatEntry pr s = do {
     (nextEntry, ret, s) \<leftarrow> getFatEntry fatEntry pr s;
     if ret < 0 then Some (Suc k, fatEntry, nextEntry, ret, s)
     else if nextEntry = FAT_ENTRY_FREE \<or> nextEntry = FAT_ENTRY_USED then Some (Suc k, fatEntry, nextEntry, 0, s)
     else writeSkip k fatEntry nextEntry pr s
   }"

text \<open>The loop of \<^verbatim>\<open>writeFatFile\<close>: \<open>k\<close> clusters are left. The results of extending the chain are not looked at.\<close>

primrec writeFatFile_loop ::
  "nat \<Rightarrow> u32 \<Rightarrow> u32 \<Rightarrow> u64 \<Rightarrow> u64 \<Rightarrow> u32 \<Rightarrow> u32 \<Rightarrow> u16 \<Rightarrow> u32 \<Rightarrow> u64 \<Rightarrow> fatPrivate \<Rightarrow> int \<Rightarrow>
    ('h, 'a) fat_state_scheme \<Rightarrow> (int \<times> ('h, 'a) fat_state_scheme) option" where
  "writeFatFile_loop 0 i clustersToWrite size' totalWritten currCluster oldCluster toWrite clusterPos inp pr ret s =
     Some (ret, s)"
| "writeFatFile_loop (Suc k) i clustersToWrite size' totalWritten currCluster oldCluster toWrite clusterPos inp pr ret s = do {
     (ret, s) \<leftarrow> partitionStreamSeek (writeStream pr) (dataClusterToAbsoluteAddress currCluster pr + ucast clusterPos) s;
     if ret < 0 then Some (ret, s)
     else do {
       (ret, s) \<leftarrow> streamWrite (writeStream pr) (inp + totalWritten) (ucast toWrite) s;
       if ret < 0 then Some (ret, s)
       else do {
         let totalWritten = totalWritten + ucast toWrite;
         (nextCluster, ret, s) \<leftarrow> getFatEntry currCluster pr s;
         if ret < 0 then Some (ret, s)
         else do {
           (ret, currCluster, oldCluster, s) \<leftarrow>
             (if nextCluster = FAT_ENTRY_USED \<and> i + 1 \<noteq> clustersToWrite then do {
                (newFat, ret, s) \<leftarrow> getFreeFatEntryCluster pr ret s;
                if ret < 0 then Some (ret, nextCluster, oldCluster, s)
                else do {
                  (_, s) \<leftarrow> writeFATEntry oldCluster newFat pr s;
                  (_, s) \<leftarrow> writeFATEntry newFat FAT_ENTRY_USED pr s;
                  Some (ret, newFat, newFat, s)
                }
              }
              else Some (ret, nextCluster, oldCluster, s));
           if ret < 0 then Some (ret, s)
           else writeFatFile_loop k (i + 1) clustersToWrite size' totalWritten currCluster oldCluster
             (if i + 2 = clustersToWrite then ucast (size' - totalWritten) else ucast (clusterSize pr))
             0 inp pr ret s
         }
       }
     }
   }"

definition writeFatFile ::
  "fatFile \<Rightarrow> u64 \<Rightarrow> u64 \<Rightarrow> u64 \<Rightarrow> fatPrivate \<Rightarrow> ('h, 'a) fat_state_scheme \<Rightarrow> (int \<times> ('h, 'a) fat_state_scheme) option" where
  "writeFatFile ff size' startPos inp pr s =
     (let cs = clusterSize pr
      in if cs = 0 then None
      else do {
        let startClusterPos = (ucast (startPos mod ucast cs) :: u32);
        let clustersToWrite = (ucast ((ucast startClusterPos + size') div ucast cs) +
              (if (ucast startClusterPos + size') mod ucast cs \<noteq> 0 then 1 else 0) :: u32);
        (clustersToSkip, oldCluster, fatEntry, ret, s) \<leftarrow>
           writeSkip (unat (ucast (startPos div ucast cs) :: u32)) (startCluster ff) (startCluster ff) pr s;
        if ret < 0 then Some (ret, s)
        else do {
          let oldCluster = (if fatEntry \<noteq> FAT_ENTRY_USED \<and> fatEntry \<noteq> FAT_ENTRY_FREE then fatEntry else oldCluster);
          (start, ret, s) \<leftarrow>
            (if clustersToSkip = 1 then do {
               (newCluster, ret, s) \<leftarrow> getFreeFatEntryCluster pr 0 s;
               if ret < 0 then Some (newCluster, ret, s)
               else do {
                 (ret, s) \<leftarrow> writeFATEntry oldCluster newCluster pr s;
                 if ret < 0 then Some (newCluster, ret, s)
                 else do {
                   (ret, s) \<leftarrow> writeFATEntry newCluster FAT_ENTRY_USED pr s;
                   Some (newCluster, ret, s)
                 }
               }
             }
             else if clustersToSkip \<noteq> 0 then Some (0, - ENFOUND, s)
             else Some (oldCluster, 0, s));
          if ret < 0 then Some (ret, s)
          else do {
            let rest = (ucast (size' mod ucast cs) :: u16);
            let toWrite = (if rest = 0 then ucast cs else rest);
            let toWrite = (if ucast toWrite + startClusterPos > cs
                  then toWrite - ucast ((ucast toWrite + startClusterPos) mod cs) else toWrite);
            (ret, s) \<leftarrow> unlinkFatChain start pr s;
            if ret < 0 then Some (ret, s)
            else writeFatFile_loop (unat clustersToWrite) 0 clustersToWrite size' 0 start start toWrite
                   startClusterPos inp pr ret s
          }
        }
      })"

section \<open>The callbacks of the file system\<close>

definition sizeof_file :: u64 where "sizeof_file = 528"
definition FILE_MODE_READ :: byte where "FILE_MODE_READ = 1"
definition FILE_MODE_WRITE :: byte where "FILE_MODE_WRITE = 2"
definition FILE_MODE_APPEND :: byte where "FILE_MODE_APPEND = 4"

text \<open>The path string that is copied is not released.\<close>

definition openFile ::
  "u64 \<Rightarrow> bool \<Rightarrow> fatPrivate \<Rightarrow> int \<Rightarrow> ('h, 'a) fat_state_scheme \<Rightarrow> (u64 \<times> int \<times> ('h, 'a) fat_state_scheme) option" where
  "openFile tracer create pr err s = do {
     (ff, err, s) \<leftarrow> findFile tracer pr err s;
     (ff, err, s) \<leftarrow> (if ff = 0 \<and> create \<and> (err = 0 \<or> err = - ENFOUND) then do {
         (entry, err, s) \<leftarrow> findDirectory tracer pr err s;
         if entry \<noteq> 0 then do {
           name \<leftarrow> pathTracerGetFileName tracer s;
           (ff, err, s) \<leftarrow> (case name of None \<Rightarrow> Some (ff, err, s)
             | Some fileName \<Rightarrow> createFatFileInDir entry fileName pr err s);
           (_, s) \<leftarrow> kzfree entry s;
           Some (ff, err, s)
         }
         else Some (ff, err, s)
       }
       else Some (ff, err, s));
     if err < 0 then Some (0, err, s)
     else do {
       (fl, s) \<leftarrow> kzalloc sizeof_file s;
       if fl = 0 then Some (0, - ENMEM, s)
       else do {
         t \<leftarrow> deref (tracers s) tracer;
         f \<leftarrow> at (fatFiles s) ff;
         let m = hmem s;
         (str, s) \<leftarrow> pathTracerGetPathString tracer s;
         path \<leftarrow> (if str = 0 then None else strcpym (bytes_at m (fl + 1) 255) (bytes_at (hmem s) str 256) 255);
         name \<leftarrow> pathTracerGetFileName tracer s;
         fileName \<leftarrow> name;
         fname \<leftarrow> strcpym (bytes_at m (fl + 256) 255) fileName 255;
         let s = s\<lparr>files := (files s)(fl := \<lparr>file_label = pt_label t, file_path = path, file_name = fname,
            file_mode = m (fl + 511), file_position = 0, file_size = ucast (fat_fileSize f)\<rparr>)\<rparr>;
         (_, s) \<leftarrow> kzfree ff s;
         Some (fl, err, s)
       }
     }
   }"

text \<open>The entry as it is written back: the size, and the first cluster of a file that had none.\<close>

definition updated_entry :: "byte list \<Rightarrow> u32 \<Rightarrow> u32 \<Rightarrow> byte list" where
  "updated_entry e sz c =
     (if c > 0 then take 20 e @ bytes16 (ucast (drop_bit 16 c)) @ take 4 (drop 22 e) @ bytes16 (ucast (c AND 0xFFFF))
      else take 28 e) @ bytes32 sz"

definition writeFile_update ::
  "u64 \<Rightarrow> u32 \<Rightarrow> u32 \<Rightarrow> fatPrivate \<Rightarrow> ('h, 'a) fat_state_scheme \<Rightarrow> (bool \<times> int \<times> ('h, 'a) fat_state_scheme) option" where
  "writeFile_update tracer sz startClusterWritten pr s = do {
     (dir, err, s) \<leftarrow> findDirectory tracer pr 0 s;
     if err < 0 then Some (True, err, s)
     else if dir = 0 then None
     else do {
       c \<leftarrow> entry_cluster (hmem s) dir;
       name \<leftarrow> pathTracerGetFileName tracer s;
       fileName \<leftarrow> name;
       (fileEntry, err, s) \<leftarrow> findDirEntry c fileName DIR_ENTRY_ATTRIBUTE_ARCHIVE pr err s;
       if fileEntry = 0 then Some (True, err, s)
       else do {
         (err, s) \<leftarrow> updateDirectoryEntry c fileEntry
           (updated_entry (bytes_at (hmem s) fileEntry 32) sz startClusterWritten) pr s;
         (_, s) \<leftarrow> kzfree dir s;
         Some (False, err, s)
       }
     }
   }"

text \<open>
  \<open>writeFile_update\<close> above is the part of \<^verbatim>\<open>writeFile\<close> after a successful transfer; its flag tells that the
  code returns at once, without releasing the file and the tracer.
\<close>

definition writeFile ::
  "u64 \<Rightarrow> u64 \<Rightarrow> u64 \<Rightarrow> fatPrivate \<Rightarrow> ('h, 'a) fat_state_scheme \<Rightarrow> (int \<times> ('h, 'a) fat_state_scheme) option" where
  "writeFile ptr size' fl pr s = do {
     f \<leftarrow> at (files s) fl;
     (tracer, errCode, s) \<leftarrow> createPathTracer (Some (file_path f)) 0 s;
     if tracer = 0 then Some (errCode, s)
     else do {
       (ff, errCode, s) \<leftarrow> findFile tracer pr errCode s;
       if ff = 0 then do {
         s \<leftarrow> destroyPathTracer tracer s;
         Some (errCode, s)
       }
       else do {
         (errCode, written, s) \<leftarrow> (if startCluster (fatFiles s ff) = 0 then do {
             (fat, _, s) \<leftarrow> getFreeFatEntryCluster pr errCode s;
             if fat = 0 then Some (- EDISKSPACE, 0, s)
             else do {
               (errCode, s) \<leftarrow> writeFATEntry fat FAT_ENTRY_USED pr s;
               if errCode < 0 then Some (errCode, 0, s)
               else Some (errCode, fat,
                 s\<lparr>fatFiles := (fatFiles s)(ff := (fatFiles s ff)\<lparr>startCluster := fat\<rparr>)\<rparr>)
             }
           }
           else Some (0, 0, s));
         (early, errCode, s) \<leftarrow> (if errCode < 0 then Some (False, errCode, s)
           else do {
             let append = file_mode f AND FILE_MODE_APPEND \<noteq> 0;
             let startPos = (if append then file_size f else file_position f);
             (errCode, s) \<leftarrow> writeFatFile (fatFiles s ff) size' startPos ptr pr s;
             if errCode = 0
             then writeFile_update tracer (ucast (if append then file_size f + size' else size' + startPos)) written pr s
             else Some (False, errCode, s)
           });
         if early then Some (errCode, s)
         else do {
           (_, s) \<leftarrow> kzfree ff s;
           s \<leftarrow> destroyPathTracer tracer s;
           Some (errCode, s)
         }
       }
     }
   }"

end
