(* ===== verification/Fat32_Table.thy ===== *)
theory Fat32_Table
  imports Fat32_Write
begin

text \<open>
  What the FAT32 driver promises of the file allocation table: reading and writing of entries against
  the bytes of the volume, and the arithmetic of clusters, checksums and names.
\<close>

section \<open>The two streams of a file system\<close>

text \<open>
  The streams of a mounted volume, for any driver whose disk holds \<open>content\<close>. The volume ends before
  the end of the disk, where disk streams get stuck. \<open>vol_bytes\<close> are its bytes.
\<close>

definition vol_bytes :: "('h \<Rightarrow> byte list) \<Rightarrow> fatPrivate \<Rightarrow> ('h, 'a) fat_state_scheme \<Rightarrow> byte list" where
  "vol_bytes content pr s = part_bytes content (readStream pr) s"

definition mounted :: "('h \<Rightarrow> byte list) \<Rightarrow> fatPrivate \<Rightarrow> ('h, 'a) fat_state_scheme \<Rightarrow> bool" where
  "mounted content pr s \<longleftrightarrow> kheap_wf s \<and>
     pstream_ok content (readStream pr) s \<and> pstream_ok content (writeStream pr) s \<and>
     readStream pr \<noteq> writeStream pr \<and>
     ps_diskStream (pstreams s (readStream pr)) \<noteq> ps_diskStream (pstreams s (writeStream pr)) \<and>
     part_base (readStream pr) s = part_base (writeStream pr) s \<and>
     part_size (readStream pr) s = part_size (writeStream pr) s \<and>
     part_base (readStream pr) s + part_size (readStream pr) s < length (content (hw s)) \<and>
     length (content (hw s)) < 2 ^ 55"

lemma fat_heap_frame [simp]:
  fixes s :: "('h, 'a) fat_state_scheme"
  shows "live (set_ps_position p n (set_position q k t)) = live t"
    "kheap_wf (set_ps_position p n (set_position q k t)) = kheap_wf t"
  by (rule same_heap; simp add: set_ps_position_def set_position_def)+

text \<open>Moving one stream and changing the contents of the disk leaves the other stream in step.\<close>

lemma pstream_ok_other:
  assumes "pstream_ok content other s" and "other \<noteq> stream" and "ps_diskStream (pstreams s other) \<noteq> ds"
    and "length (content h) = length (content (hw s))"
  shows "pstream_ok content other (set_ps_position stream p (set_position ds q (s\<lparr>hmem := m, hw := h\<rparr>)))"
    "part_base other (set_ps_position stream p (set_position ds q (s\<lparr>hmem := m, hw := h\<rparr>))) = part_base other s"
    "part_size other (set_ps_position stream p (set_position ds q (s\<lparr>hmem := m, hw := h\<rparr>))) = part_size other s"
    "part_base stream (set_ps_position stream p (set_position ds q (s\<lparr>hmem := m, hw := h\<rparr>))) = part_base stream s"
    "part_size stream (set_ps_position stream p (set_position ds q (s\<lparr>hmem := m, hw := h\<rparr>))) = part_size stream s"
    "ps_diskStream (pstreams (set_ps_position stream p (set_position ds q (s\<lparr>hmem := m, hw := h\<rparr>))) x) =
      ps_diskStream (pstreams s x)"
  using assms
  by (auto simp: pstream_ok_def stream_on_def position_of_def part_base_def part_size_def part_pos_def
      set_ps_position_def set_position_def Let_def)

lemma mounted_frame:
  fixes s :: "('h, 'a) fat_state_scheme"
  assumes "mounted content pr s" and x: "x = readStream pr \<or> x = writeStream pr"
    and s': "s' = set_ps_position x p (set_position (ps_diskStream (pstreams s x)) q (s\<lparr>hmem := m, hw := h\<rparr>))"
    and "pstream_ok content x s'" and "kheap_wf s'" and "length (content (hw s')) = length (content (hw s))"
  shows "mounted content pr s'"
    "part_base (readStream pr) s' = part_base (readStream pr) s"
    "part_size (readStream pr) s' = part_size (readStream pr) s"
proof -
  have h: "hw s' = h" by (simp add: s' set_ps_position_def set_position_def)
  note other = pstream_ok_other [of content _ s x "ps_diskStream (pstreams s x)" h p q m, folded s']
  show "part_base (readStream pr) s' = part_base (readStream pr) s"
    "part_size (readStream pr) s' = part_size (readStream pr) s" "mounted content pr s'"
    using x assms other [of "readStream pr"] other [of "writeStream pr"] h
    by (auto simp: mounted_def)
qed

lemma seek_volume:
  fixes s :: "('h, 'a) fat_state_scheme"
  assumes mt: "mounted content pr s" and x: "x = readStream pr \<or> x = writeStream pr"
    and p: "unat p < part_size (readStream pr) s"
  shows "\<exists>s'. partitionStreamSeek x p s = Some (0, s') \<and> mounted content pr s' \<and> part_pos x s' = unat p \<and>
    hw s' = hw s \<and> part_size (readStream pr) s' = part_size (readStream pr) s \<and>
    part_base (readStream pr) s' = part_base (readStream pr) s"
proof -
  let ?ds = "ps_diskStream (pstreams s x)" and ?off = "ps_volumeOffset (pstreams s x)"
  let ?s = "set_position ?ds (?off + p) s"
  let ?s' = "set_ps_position x p ?s"
  note m = mt [unfolded mounted_def]
  have ok: "pstream_ok content x s" and sz: "part_size (readStream pr) s = part_size x s"
    and bs: "part_base x s + part_size x s < length (content (hw s))" "length (content (hw s)) < 2 ^ 55"
    using m x by auto
  have p': "unat p < part_size x s" using p sz by simp
  let ?dk = "disks s (stream_disk (streams s ?ds))"
  have st: "x \<noteq> 0" "?ds \<noteq> 0" "stream_disk (streams s ?ds) \<noteq> 0" "unat (disk_sizeBytes ?dk) = length (content (hw s))"
    "position_of ?ds s = part_base x s + part_pos x s" "part_pos x s \<le> part_size x s"
    using ok by (auto simp: pstream_ok_def stream_on_def Let_def)
  have "unat (stream_position (streams s ?ds)) < unat (disk_sizeBytes ?dk)"
    using st bs by (simp add: position_of_def)
  then have c: "checkDiskStream ?ds s = Some 0"
    using st by (simp add: checkDiskStream_def at_def word_le_nat_alt)
  have po: "unat (?off + p) = part_base x s + unat p"
    using p bs by (subst unat_add_small) (simp_all add: part_base_def sz)
  have "unat (disk_sizeBytes ?dk * 512) = length (content (hw s)) * 512"
    using bs(2) st(4) by (subst unat_mult_small) simp_all
  then have "\<not> ?off + p > disk_sizeBytes ?dk * 512"
    using po p bs by (simp add: word_less_nat_alt sz)
  then have d: "diskStreamSeek ?ds (?off + p) s = Some (0, ?s)"
    using c st by (simp add: diskStreamSeek_def at_def)
  have "p < ps_volumeSize (pstreams s x)" using p sz by (simp add: part_size_def word_less_nat_alt)
  then have sk: "partitionStreamSeek x p s = Some (0, ?s')"
    using st(1) d by (simp add: partitionStreamSeek_def at_def)
  have eq: "?s' = set_ps_position x p (set_position ?ds (?off + p) (s\<lparr>hmem := hmem s, hw := hw s\<rparr>))" by simp
  have ok': "pstream_ok content x ?s'"
    using ok po p' by (auto simp: pstream_ok_def stream_on_def position_of_def part_base_def part_size_def part_pos_def
        set_ps_position_def set_position_def Let_def)
  have hw: "hw ?s' = hw s" by (simp add: set_ps_position_def set_position_def)
  have wf: "kheap_wf ?s'" using m by simp
  have "part_pos x ?s' = unat p" by (simp add: part_pos_def set_ps_position_def)
  with sk hw mounted_frame [OF mt x eq ok' wf] show ?thesis by simp
qed

lemma volume_length:
  "mounted content pr s \<Longrightarrow> length (vol_bytes content pr s) = part_size (readStream pr) s"
  by (auto simp: mounted_def vol_bytes_def part_bytes_def)

lemma volume_write_stream:
  "mounted content pr s \<Longrightarrow> part_bytes content (writeStream pr) s = vol_bytes content pr s"
  by (simp add: mounted_def vol_bytes_def part_bytes_def)

lemma volume_cong:
  "\<lbrakk> content (hw s') = content (hw s); part_size (readStream pr) s' = part_size (readStream pr) s;
     part_base (readStream pr) s' = part_base (readStream pr) s \<rbrakk> \<Longrightarrow> vol_bytes content pr s' = vol_bytes content pr s"
  by (simp add: vol_bytes_def part_bytes_def)

text \<open>Reading and writing the volume at a position.\<close>

lemma read_volume:
  fixes s :: "('h, 'a) fat_state_scheme"
  assumes mt: "mounted content pr s" and n: "0 < unat n" "length out = unat n"
    and pos: "part_pos (readStream pr) s + unat n \<le> part_size (readStream pr) s"
  shows "partitionStreamRead (readStream pr) out n s = Some (- ENMEM, out, s) \<or>
    (\<exists>s'. partitionStreamRead (readStream pr) out n s =
        Some (0, take (unat n) (drop (part_pos (readStream pr) s) (vol_bytes content pr s)), s') \<and>
      mounted content pr s' \<and> content (hw s') = content (hw s) \<and>
      vol_bytes content pr s' = vol_bytes content pr s)"
proof -
  let ?x = "readStream pr"
  have ok: "kheap_wf s" "pstream_ok content ?x s" using mt by (simp_all add: mounted_def)
  have "part_size ?x s < 2 ^ 64" unfolding part_size_def by (rule unat_less_pow64)
  then have "part_pos ?x s + unat n < 2 ^ 64" using pos by simp
  moreover have "length (take (unat n) (drop (part_pos ?x s) (part_bytes content ?x s))) = unat n"
    using pos volume_length [OF mt] by (simp add: vol_bytes_def)
  then have ov: "overwrite out 0 (take (unat n) (drop (part_pos ?x s) (part_bytes content ?x s))) =
      take (unat n) (drop (part_pos ?x s) (part_bytes content ?x s))"
    using n(2) by (simp add: overwrite_def)
  ultimately consider (err) "partitionStreamRead ?x out n s = Some (- ENMEM, out, s)"
    | (done') s' m h p q where "partitionStreamRead ?x out n s =
        Some (0, take (unat n) (drop (part_pos ?x s) (part_bytes content ?x s)), s')"
      "content (hw s') = content (hw s)" "pstream_ok content ?x s'" "kheap_wf s'"
      "s' = set_ps_position ?x p (set_position (ps_diskStream (pstreams s ?x)) q (s\<lparr>hmem := m, hw := h\<rparr>))"
    using partitionStreamRead_cases [OF ok n(1), of out] n(2) pos unfolding ov by (auto simp: not_less split: if_splits)
  then show ?thesis
  proof cases
    case err
    then show ?thesis by simp
  next
    case done'
    have "mounted content pr s'" "part_base ?x s' = part_base ?x s" "part_size ?x s' = part_size ?x s"
      using mounted_frame [OF mt _ done'(5,3,4)] done'(2) by simp_all
    then show ?thesis using done'(1,2) volume_cong [of content s' s pr] by (auto simp: vol_bytes_def)
  qed
qed

lemma write_volume:
  fixes s :: "('h, 'a) fat_state_scheme"
  assumes mt: "mounted content pr s" and n: "0 < unat n" "length inp = unat n"
    and pos: "part_pos (writeStream pr) s + unat n \<le> part_size (readStream pr) s"
  shows "partitionStreamWrite (writeStream pr) inp n s = Some (- ENMEM, s) \<or>
    (\<exists>s'. partitionStreamWrite (writeStream pr) inp n s = Some (0, s') \<and> mounted content pr s' \<and>
      vol_bytes content pr s' = overwrite (vol_bytes content pr s) (part_pos (writeStream pr) s) inp)"
proof -
  let ?x = "writeStream pr"
  have ok: "kheap_wf s" "pstream_ok content ?x s" and sz: "part_size ?x s = part_size (readStream pr) s"
    using mt by (simp_all add: mounted_def)
  have "part_size (readStream pr) s < 2 ^ 64" unfolding part_size_def by (rule unat_less_pow64)
  then have "part_pos ?x s + unat n < 2 ^ 64" using pos by simp
  then consider (err) "partitionStreamWrite ?x inp n s = Some (- ENMEM, s)"
    | (done') s' m h p q where "partitionStreamWrite ?x inp n s = Some (0, s')"
      "length (content (hw s')) = length (content (hw s))"
      "part_bytes content ?x s' = overwrite (part_bytes content ?x s) (part_pos ?x s) inp"
      "pstream_ok content ?x s'" "kheap_wf s'"
      "s' = set_ps_position ?x p (set_position (ps_diskStream (pstreams s ?x)) q (s\<lparr>hmem := m, hw := h\<rparr>))"
    using partitionStreamWrite_cases [OF ok n(1), of inp] n(2) pos sz by (auto simp: not_less split: if_splits)
  then show ?thesis
  proof cases
    case err
    then show ?thesis by simp
  next
    case done'
    have "mounted content pr s'" using mounted_frame [OF mt _ done'(6,4,5)] done'(2) by simp
    then show ?thesis
      using done'(1,3) volume_write_stream [OF mt] volume_write_stream [of content pr s'] by auto
  qed
qed


section \<open>Entries of the table\<close>

lemma unat_up64 [simp]: "unat (ucast (x :: u32) :: u64) = unat x"
proof -
  have "unat x < 2 ^ LENGTH(32)" by (rule unsigned_less)
  then have "unat x < 2 ^ 32" by simp
  then show ?thesis by (simp add: unsigned_ucast_eq take_bit_nat_eq_self)
qed

lemma le32_bytes32: "le32 (bytes32 v) 0 = Some v"
proof -
  have "ucast (ucast v :: byte) OR push_bit 8 (ucast (ucast (drop_bit 8 v) :: byte)) OR
      push_bit 16 (ucast (ucast (drop_bit 16 v) :: byte)) OR push_bit 24 (ucast (ucast (drop_bit 24 v) :: byte)) = v"
    by (rule bit_word_eqI) (auto simp: bit_simps not_less, rule ccontr, simp)
  then show ?thesis by (simp add: le32_def rd_def bytes32_def)
qed

lemma length_bytes32 [simp]: "length (bytes32 v) = 4"
  by (simp add: bytes32_def)

lemma le32_cong: "(\<forall>i < 4. rd xs (a + i) = rd ys (b + i)) \<Longrightarrow> le32 xs a = le32 ys b"
proof -
  assume r: "\<forall>i < 4. rd xs (a + i) = rd ys (b + i)"
  from r [rule_format, of 0] r [rule_format, of 1] r [rule_format, of 2] r [rule_format, of 3]
  show ?thesis by (simp add: le32_def)
qed

lemma le32_slice: "a + 4 \<le> length xs \<Longrightarrow> le32 (take 4 (drop a xs)) 0 = le32 xs a"
  by (rule le32_cong) (auto simp: rd_def)

lemma rd_overwrite:
  "a + length ys \<le> length xs \<Longrightarrow>
   rd (overwrite xs a ys) i = (if a \<le> i \<and> i < a + length ys then Some (ys ! (i - a)) else rd xs i)"
  by (simp add: rd_def nth_overwrite)

lemma le32_overwrite_same:
  assumes "a + 4 \<le> length xs"
  shows "le32 (overwrite xs a (bytes32 v)) a = Some v"
proof -
  have "le32 (overwrite xs a (bytes32 v)) a = le32 (bytes32 v) 0"
    using assms by (intro le32_cong) (simp add: rd_overwrite, simp add: rd_def)
  then show ?thesis by (simp add: le32_bytes32)
qed

lemma le32_overwrite_other:
  "\<lbrakk> a + length ys \<le> length xs; b + 4 \<le> a \<or> a + length ys \<le> b \<rbrakk> \<Longrightarrow> le32 (overwrite xs a ys) b = le32 xs b"
  by (rule le32_cong) (auto simp: rd_overwrite)

text \<open>The entry of a cluster in the first table, and the bounds under which both tables hold it.\<close>

definition fat_entry :: "fatPrivate \<Rightarrow> byte list \<Rightarrow> u32 \<Rightarrow> u32 option" where
  "fat_entry pr vol c = le32 vol (unat (fatAddress pr) + 4 * unat c)"

definition fat_copy_entry :: "fatPrivate \<Rightarrow> byte list \<Rightarrow> u32 \<Rightarrow> u32 option" where
  "fat_copy_entry pr vol c = le32 vol (unat (fatCopyStartAddress pr) + 4 * unat c)"

definition in_fat :: "fatPrivate \<Rightarrow> nat \<Rightarrow> u32 \<Rightarrow> bool" where
  "in_fat pr n c \<longleftrightarrow> unat (fatAddress pr) + 4 * unat c + 4 \<le> unat (fatCopyStartAddress pr) \<and>
     unat (fatCopyStartAddress pr) + 4 * unat c + 4 \<le> n \<and> n < 2 ^ 32"

lemma getFatEntry_spec:
  fixes s :: "('h, 'a) fat_state_scheme"
  assumes mt: "mounted content pr s" and r: "unat (fatAddress pr) + 4 * unat c + 4 \<le> length (vol_bytes content pr s)"
  shows "\<exists>e err s'. getFatEntry c pr s = Some (e, err, s') \<and> mounted content pr s' \<and>
    vol_bytes content pr s' = vol_bytes content pr s \<and>
    (err = - ENMEM \<or> err = 0 \<and> map_option (\<lambda>v. v AND FAT_ENTRY_AND) (fat_entry pr (vol_bytes content pr s) c) = Some e)"
proof -
  let ?p = "ucast c * 4 + ucast (fatAddress pr) :: u64"
  let ?a = "unat (fatAddress pr) + 4 * unat c"
  have len: "length (vol_bytes content pr s) = part_size (readStream pr) s" by (rule volume_length [OF mt])
  have b: "unat c < 2 ^ 32" "unat (fatAddress pr) < 2 ^ 32" using unsigned_less [of c] unsigned_less [of "fatAddress pr"] by simp_all
  then have "unat (ucast c * 4 :: u64) = unat c * 4" by (subst unat_mult_small) (simp_all add: unat_up64)
  with b have p: "unat ?p = ?a" by (subst unat_add_small) (simp_all add: unat_up64)
  have "unat ?p < part_size (readStream pr) s" using r len p by simp
  from seek_volume [OF mt _ this, of "readStream pr"] obtain s1 where s1:
    "partitionStreamSeek (readStream pr) ?p s = Some (0, s1)" "mounted content pr s1"
    "part_pos (readStream pr) s1 = ?a" "hw s1 = hw s" "part_size (readStream pr) s1 = part_size (readStream pr) s"
    "part_base (readStream pr) s1 = part_base (readStream pr) s" unfolding p by auto
  have vol: "vol_bytes content pr s1 = vol_bytes content pr s" using s1 by (intro volume_cong) simp_all
  have slice: "le32 (take 4 (drop ?a (vol_bytes content pr s))) 0 = le32 (vol_bytes content pr s) ?a"
    by (rule le32_slice) (use r in simp)
  have "rd (vol_bytes content pr s) (?a + i) \<noteq> None" if "i < 4" for i using that r by (simp add: rd_def)
  from this [of 0] this [of 1] this [of 2] this [of 3] obtain v where v: "le32 (vol_bytes content pr s) ?a = Some v"
    by (auto simp: le32_def)
  from read_volume [OF s1(2), of 4 "[0, 0, 0, 0]"] r len s1(3,5)
  consider "partitionStreamRead (readStream pr) [0, 0, 0, 0] 4 s1 = Some (- ENMEM, [0, 0, 0, 0], s1)"
    | s2 where "partitionStreamRead (readStream pr) [0, 0, 0, 0] 4 s1 = Some (0, take 4 (drop ?a (vol_bytes content pr s)), s2)"
      "mounted content pr s2" "vol_bytes content pr s2 = vol_bytes content pr s"
    unfolding vol by auto
  then show ?thesis
  proof cases
    case 1
    then show ?thesis using s1(1,2) vol by (simp add: getFatEntry_def)
  next
    case 2
    then show ?thesis using s1(1) v by (simp add: getFatEntry_def slice fat_entry_def)
  qed
qed

text \<open>One table of \<^verbatim>\<open>writeFATEntry\<close>.\<close>

lemma write_entry_at:
  fixes s :: "('h, 'a) fat_state_scheme"
  assumes mt: "mounted content pr s" and r: "unat p + 4 \<le> length (vol_bytes content pr s)"
  obtains s1 where "partitionStreamSeek (writeStream pr) p s = Some (0, s1)" "mounted content pr s1"
      "vol_bytes content pr s1 = vol_bytes content pr s"
      "partitionStreamWrite (writeStream pr) (bytes32 v) 4 s1 = Some (- ENMEM, s1) \<or>
       (\<exists>s2. partitionStreamWrite (writeStream pr) (bytes32 v) 4 s1 = Some (0, s2) \<and> mounted content pr s2 \<and>
          vol_bytes content pr s2 = overwrite (vol_bytes content pr s) (unat p) (bytes32 v))"
proof -
  have len: "length (vol_bytes content pr s) = part_size (readStream pr) s" by (rule volume_length [OF mt])
  then have "unat p < part_size (readStream pr) s" using r by simp
  from seek_volume [OF mt _ this, of "writeStream pr"] obtain s1 where s1:
    "partitionStreamSeek (writeStream pr) p s = Some (0, s1)" "mounted content pr s1"
    "part_pos (writeStream pr) s1 = unat p" "hw s1 = hw s" "part_size (readStream pr) s1 = part_size (readStream pr) s"
    "part_base (readStream pr) s1 = part_base (readStream pr) s" by auto
  have vol: "vol_bytes content pr s1 = vol_bytes content pr s" using s1 by (intro volume_cong) simp_all
  show thesis
    using write_volume [OF s1(2), of 4 "bytes32 v"] r len s1(3,5) unfolding vol s1(3)
    by (intro that [OF s1(1,2) vol]) auto
qed

text \<open>
  Property C25. Writing a table entry and reading it back: \<^verbatim>\<open>writeFATEntry\<close> puts the value into both
  copies of the table and changes no other byte of the volume; \<^verbatim>\<open>getFatEntry\<close> then returns its lower 28
  bits. Either operation can only fail with \<^verbatim>\<open>-ENMEM\<close>.
\<close>

theorem fat_entry_roundtrip:
  fixes s :: "('h, 'a) fat_state_scheme"
  assumes mt: "mounted content pr s" and r: "in_fat pr (length (vol_bytes content pr s)) c"
  shows "\<exists>ret s'. writeFATEntry c v pr s = Some (ret, s') \<and> mounted content pr s' \<and>
    (if ret = 0 then
       vol_bytes content pr s' = overwrite (overwrite (vol_bytes content pr s)
         (unat (fatAddress pr) + 4 * unat c) (bytes32 v)) (unat (fatCopyStartAddress pr) + 4 * unat c) (bytes32 v) \<and>
       fat_entry pr (vol_bytes content pr s') c = Some v \<and> fat_copy_entry pr (vol_bytes content pr s') c = Some v \<and>
       (\<forall>d. d \<noteq> c \<and> in_fat pr (length (vol_bytes content pr s)) d \<longrightarrow>
         fat_entry pr (vol_bytes content pr s') d = fat_entry pr (vol_bytes content pr s) d) \<and>
       (\<exists>e err s''. getFatEntry c pr s' = Some (e, err, s'') \<and>
         vol_bytes content pr s'' = vol_bytes content pr s' \<and> (err = - ENMEM \<or> err = 0 \<and> e = v AND FAT_ENTRY_AND))
     else ret = - ENMEM)"
proof -
  let ?V = "vol_bytes content pr s"
  let ?a = "unat (fatAddress pr) + 4 * unat c" and ?b = "unat (fatCopyStartAddress pr) + 4 * unat c"
  note r' = r [unfolded in_fat_def]
  have c4: "unat (4 * c) = 4 * unat c" using r' by (subst unat_mult_small) simp_all
  have pa: "unat (ucast (clusterToFATTableAddress c pr) :: u64) = ?a"
    using r' c4 by (simp add: clusterToFATTableAddress_def unat_up64 unat_add_small)
  have pb: "unat (ucast (clusterToFATCopyTableAddress c pr) :: u64) = ?b"
    using r' c4 by (simp add: clusterToFATCopyTableAddress_def unat_up64 unat_add_small)
  obtain s1 where s1: "partitionStreamSeek (writeStream pr) (ucast (clusterToFATTableAddress c pr)) s = Some (0, s1)"
    "mounted content pr s1" "vol_bytes content pr s1 = ?V"
    "partitionStreamWrite (writeStream pr) (bytes32 v) 4 s1 = Some (- ENMEM, s1) \<or>
     (\<exists>s2. partitionStreamWrite (writeStream pr) (bytes32 v) 4 s1 = Some (0, s2) \<and> mounted content pr s2 \<and>
        vol_bytes content pr s2 = overwrite ?V ?a (bytes32 v))"
    using write_entry_at [OF mt, of "ucast (clusterToFATTableAddress c pr)" v] r' unfolding pa by auto
  show ?thesis
  proof (cases "partitionStreamWrite (writeStream pr) (bytes32 v) 4 s1 = Some (- ENMEM, s1)")
    case True
    then show ?thesis using s1(1,2) by (simp add: writeFATEntry_def)
  next
    case False
    then obtain s2 where s2: "partitionStreamWrite (writeStream pr) (bytes32 v) 4 s1 = Some (0, s2)"
      "mounted content pr s2" "vol_bytes content pr s2 = overwrite ?V ?a (bytes32 v)" using s1(4) by auto
    have l2: "length (vol_bytes content pr s2) = length ?V" using s2(3) r' by simp
    obtain s3 where s3: "partitionStreamSeek (writeStream pr) (ucast (clusterToFATCopyTableAddress c pr)) s2 = Some (0, s3)"
      "mounted content pr s3" "vol_bytes content pr s3 = overwrite ?V ?a (bytes32 v)"
      "partitionStreamWrite (writeStream pr) (bytes32 v) 4 s3 = Some (- ENMEM, s3) \<or>
       (\<exists>s4. partitionStreamWrite (writeStream pr) (bytes32 v) 4 s3 = Some (0, s4) \<and> mounted content pr s4 \<and>
          vol_bytes content pr s4 = overwrite (overwrite ?V ?a (bytes32 v)) ?b (bytes32 v))"
      using write_entry_at [OF s2(2), of "ucast (clusterToFATCopyTableAddress c pr)" v] r'
      unfolding pb l2 s2(3) by auto
    show ?thesis
    proof (cases "partitionStreamWrite (writeStream pr) (bytes32 v) 4 s3 = Some (- ENMEM, s3)")
      case True
      then show ?thesis using s1(1) s2(1) s3(1,2) by (simp add: writeFATEntry_def)
    next
      case False
      then obtain s4 where s4: "partitionStreamWrite (writeStream pr) (bytes32 v) 4 s3 = Some (0, s4)"
        "mounted content pr s4" "vol_bytes content pr s4 = overwrite (overwrite ?V ?a (bytes32 v)) ?b (bytes32 v)"
        using s3(4) by auto
      let ?W = "vol_bytes content pr s4"
      have e: "fat_entry pr ?W c = Some v" "fat_copy_entry pr ?W c = Some v"
        using r' by (simp_all add: fat_entry_def fat_copy_entry_def s4(3) le32_overwrite_other le32_overwrite_same)
      have o: "fat_entry pr ?W d = fat_entry pr ?V d" if "d \<noteq> c" "in_fat pr (length ?V) d" for d
      proof -
        have "unat d < unat c \<or> unat c < unat d" using that(1) by (metis linorder_neqE_nat word_unat_eq_iff)
        then show ?thesis
          using that(2) r' by (auto simp: fat_entry_def s4(3) le32_overwrite_other in_fat_def)
      qed
      have "unat (fatAddress pr) + 4 * unat c + 4 \<le> length ?W" using r' by (simp add: s4(3))
      from getFatEntry_spec [OF s4(2) this] e(1)
      have g: "\<exists>e err s''. getFatEntry c pr s4 = Some (e, err, s'') \<and>
         vol_bytes content pr s'' = vol_bytes content pr s4 \<and> (err = - ENMEM \<or> err = 0 \<and> e = v AND FAT_ENTRY_AND)"
        by auto
      have "writeFATEntry c v pr s = Some (0, s4)"
        using s1(1) s2(1) s3(1) s4(1) by (simp add: writeFATEntry_def)
      with s4(2,3) e o g show ?thesis by auto
    qed
  qed
qed


text \<open>A mounted volume in memory: 512 bytes of a disk of 1024, tables at 0 and 64, data at 128.\<close>

definition ram_fat :: fatPrivate where
  "ram_fat = \<lparr>bootRecord = \<lparr>bytesPerSector = 32, sectorsPerCluster = 1, reservedSectors = 0, fatCopies = 2,
       totalSectorsBig = 16, sectorsPerFat32 = 2, rootDirCluster = 2\<rparr>,
     clusterSize = 32, fatAddress = 0, fatCopyStartAddress = 64, dataClusterStartAddress = 128,
     rootDirStartAddress = 128, readStream = 24, writeStream = 32\<rparr>"

definition fat_ram :: "byte list fat_state" where
  "fat_ram = path_state.extend (path_state.truncate path_ram\<lparr>
       streams := (\<lambda>_. \<lparr>stream_disk = 8, stream_position = 0\<rparr>),
       pstreams := (\<lambda>p. \<lparr>ps_label = 67, ps_position = 0, ps_volumeOffset = 0, ps_volumeSize = 512,
         ps_diskStream = (if p = 24 then 8 else 16)\<rparr>)\<rparr>)
     (fat_state.fields (\<lambda>_. ram_fat) (\<lambda>_. \<lparr>startCluster = 0, fat_fileSize = 0\<rparr>)
       (\<lambda>_. \<lparr>file_label = 67, file_path = [0], file_name = [0], file_mode = 0, file_position = 0, file_size = 0\<rparr>)
       (\<lambda>_. \<lparr>fs_private = 8\<rparr>) (replicate 512 0))"

lemmas fat_ram_defs = fat_ram_def path_state.defs fat_state.defs path_ram_def pstream_state.defs ram_part_def

lemma fat_ram_mounted: "mounted (\<lambda>h. h) ram_fat fat_ram"
proof -
  have "kheap_wf fat_ram \<longleftrightarrow> kheap_wf path_ram"
    by (rule same_heap; simp add: fat_ram_defs)
  then have "kheap_wf fat_ram" by (simp add: path_ram_heap)
  moreover have "pstream_ok (\<lambda>h. h) p fat_ram" if "p = 24 \<or> p = 32" for p
    using that ram_driver_lawful
    by (auto simp: pstream_ok_def stream_on_def fat_ram_defs ram_disk_def part_base_def part_pos_def
        part_size_def position_of_def)
  ultimately show ?thesis
    by (simp add: mounted_def ram_fat_def) (simp add: part_base_def part_size_def fat_ram_defs)
qed

lemma fat_ram_volume: "vol_bytes (\<lambda>h. h) ram_fat fat_ram = replicate 512 65"
  by (simp add: vol_bytes_def part_bytes_def part_size_def part_base_def fat_ram_defs)

theorem fat_entry_roundtrip_witness:
  "\<exists>ret s'. writeFATEntry 3 0x12345678 ram_fat fat_ram = Some (ret, s') \<and>
     (if ret = 0 then fat_entry ram_fat (vol_bytes (\<lambda>h. h) ram_fat s') 3 = Some 0x12345678 \<and>
        fat_entry ram_fat (vol_bytes (\<lambda>h. h) ram_fat s') 4 = Some 0x41414141
      else ret = - ENMEM)"
proof -
  have r: "in_fat ram_fat (length (vol_bytes (\<lambda>h. h) ram_fat fat_ram)) c" if "c = 3 \<or> c = 4" for c
    unfolding fat_ram_volume using that by (auto simp: in_fat_def ram_fat_def)
  have "fat_entry ram_fat (vol_bytes (\<lambda>h. h) ram_fat fat_ram) 4 = Some 0x41414141"
    unfolding fat_ram_volume fat_entry_def by (simp add: ram_fat_def le32_def rd_def)
  then show ?thesis
    using fat_entry_roundtrip [OF fat_ram_mounted r [of 3], of "0x12345678"] r [of 4]
    by (auto split: if_splits)
qed

section \<open>Clusters\<close>

text \<open>
  The address of a data cluster and the cluster of an address: with cluster 2 as the root
  directory the driver starts at the root, but where the root is any other cluster of the volume
  (\<open>k > 0\<close> clusters further, within 1 GiB), \<^verbatim>\<open>absoluteAddressToCluster\<close> subtracts the wrong way round
  and does not give it back.
\<close>

theorem root_cluster_lost:
  assumes cs: "0 < clusterSize pr" and k: "unat (dataClusterStartAddress pr) + unat k * unat (clusterSize pr) < 2 ^ 30"
  shows "dataClusterToAbsoluteAddress (k + 2) pr = ucast (dataClusterStartAddress pr + k * clusterSize pr) \<and>
    (absoluteAddressToCluster (dataClusterStartAddress pr + k * clusterSize pr) pr = Some (k + 2) \<longleftrightarrow> k = 0)"
proof
  show "dataClusterToAbsoluteAddress (k + 2) pr = ucast (dataClusterStartAddress pr + k * clusterSize pr)"
    by (simp add: dataClusterToAbsoluteAddress_def add.commute)
  let ?d = "dataClusterStartAddress pr" and ?c = "clusterSize pr"
  have kc: "unat (k * ?c) = unat k * unat ?c" using k by (subst unat_mult_small) simp_all
  then have dk: "unat (?d + k * ?c) = unat ?d + unat k * unat ?c" using k by (subst unat_add_small) simp_all
  then have "\<not> ?d + k * ?c < ?d" by (simp add: word_less_nat_alt)
  moreover have "?c \<noteq> 0" using cs by auto
  ultimately have a: "absoluteAddressToCluster (?d + k * ?c) pr = Some (2 + (- (k * ?c)) div ?c)"
    by (simp add: absoluteAddressToCluster_def)
  show "absoluteAddressToCluster (?d + k * ?c) pr = Some (k + 2) \<longleftrightarrow> k = 0"
  proof
    assume "absoluteAddressToCluster (?d + k * ?c) pr = Some (k + 2)"
    with a have e: "(- (k * ?c)) div ?c = k" by (simp add: add.commute)
    show "k = 0"
    proof (rule ccontr)
      assume "k \<noteq> 0"
      then have pos: "0 < unat (k * ?c)" using kc cs by (simp add: unat_gt_0 word_gt_0)
      then have "k * ?c \<noteq> 0" by auto
      have "(of_nat (2 ^ 32 - unat (k * ?c)) :: u32) = - (k * ?c)"
        using k kc by (subst of_nat_diff) simp_all
      moreover have "unat (of_nat (2 ^ 32 - unat (k * ?c)) :: u32) = 2 ^ 32 - unat (k * ?c)"
        using pos by (subst unat_of_nat_small) simp_all
      ultimately have "unat (- (k * ?c)) = 2 ^ 32 - unat k * unat ?c" using kc by simp
      then have "unat k = (2 ^ 32 - unat k * unat ?c) div unat ?c"
        using e by (metis unat_div)
      then have "2 ^ 32 - unat k * unat ?c < (unat k + 1) * unat ?c"
        using cs by (metis dividend_less_div_times unat_gt_0 word_gt_0 add.commute mult.commute mult_Suc_right Suc_eq_plus1)
      moreover have "unat ?c \<le> unat k * unat ?c" using \<open>k \<noteq> 0\<close> by (simp add: unat_gt_0 Suc_le_eq)
      ultimately have "2 ^ 32 - unat k * unat ?c < unat k * unat ?c + unat k * unat ?c" by (simp only: distrib_right mult_1)
      with k show False by simp
    qed
  qed (use a in \<open>simp add: absoluteAddressToCluster_def\<close>)
qed

theorem root_cluster_lost_witness:
  "absoluteAddressToCluster 160 ram_fat \<noteq> Some 3 \<and> dataClusterToAbsoluteAddress 3 ram_fat = 160"
  using root_cluster_lost [of ram_fat 1] by (simp add: ram_fat_def)

section \<open>Checksums and names\<close>

text \<open>The checksum of a short name as the FAT specification gives it: rotate right, then add.\<close>

definition spec_checksum :: "byte list \<Rightarrow> byte" where
  "spec_checksum name = foldl (\<lambda>sum c. (if bit sum 0 then 0x80 else 0) + drop_bit 1 sum + c) 0 name"

lemma rotate_step: "drop_bit 1 x OR push_bit 7 x = (if bit x 0 then 0x80 else 0) + drop_bit 1 (x :: byte)"
proof -
  have p: "push_bit 7 x = (if bit x 0 then 0x80 else 0)"
  proof -
    have "bit (push_bit 7 x) n = bit (push_bit 7 (if bit x 0 then 1 else 0 :: byte)) n" if "n < 8" for n
      using that by (cases "n = 7") (auto simp: bit_push_bit_iff)
    then have "push_bit 7 x = push_bit 7 (if bit x 0 then 1 else 0)" by (intro bit_word_eqI) simp
    then show ?thesis by simp
  qed
  have "bit (0x80 :: byte) n \<Longrightarrow> \<not> bit (drop_bit 1 x) n" for n
    by (auto simp: bit_simps bit_numeral_rec less_Suc_eq numeral_eq_Suc dest: bit_imp_le_length)
  then have "(if bit x 0 then 0x80 else 0) + drop_bit 1 x = (if bit x 0 then 0x80 else 0) OR drop_bit 1 x"
    by (intro disjunctive_add) auto
  then show ?thesis by (simp add: p or.commute)
qed

text \<open>
  Property C27. For a name and an extension without NUL bytes the checksum of the driver is the one of the
  FAT specification, whatever the local array held before; where the name has a NUL, the bytes
  behind it are those of the array instead.
\<close>

theorem checksum_equivalence:
  assumes l: "length name = 8" "length ext = 3" "11 \<le> length jnk"
  shows "(0 \<notin> set name \<and> 0 \<notin> set ext \<longrightarrow> getCheckSumFromSEntry jnk name ext = Some (spec_checksum (name @ ext))) \<and>
    (name = replicate 8 0 \<and> ext = replicate 3 0 \<longrightarrow>
      getCheckSumFromSEntry jnk name ext = Some (spec_checksum (take 11 jnk)))"
proof -
  have f: "foldl (\<lambda>x c. (drop_bit 1 x OR push_bit 7 x) + c) 0 xs = spec_checksum xs" for xs
    unfolding spec_checksum_def rotate_step by simp
  have "getCheckSumFromSEntry jnk name ext = Some (spec_checksum (name @ ext))" if "0 \<notin> set name" "0 \<notin> set ext"
  proof -
    have c: "cstr name = name" "cstr ext = ext" using that cstr_append [of name "[]"] cstr_append [of ext "[]"] by simp_all
    have "strncpy (take 11 jnk) name 8 = Some (name @ take 3 (drop 8 jnk))"
      using strncpy_loop_spec [of 0 8 name "take 11 jnk"] l by (simp add: strncpy_def c overwrite_def drop_take)
    moreover have "strncpy (take 3 (drop 8 jnk)) ext 3 = Some ext"
      using strncpy_loop_spec [of 0 3 ext "take 3 (drop 8 jnk)"] l by (simp add: strncpy_def c overwrite_def)
    ultimately show ?thesis using l f by (simp add: getCheckSumFromSEntry_def)
  qed
  moreover have z: "0 < n \<Longrightarrow> strncpy d (replicate n 0) k = Some d" for d k n
    by (cases "unat k") (simp_all add: strncpy_def rd_def)
  have "getCheckSumFromSEntry jnk (replicate 8 0) (replicate 3 0) = Some (spec_checksum (take 11 jnk))"
    using f by (simp add: getCheckSumFromSEntry_def z)
  ultimately show ?thesis by blast
qed

theorem checksum_equivalence_witness:
  "getCheckSumFromSEntry (replicate 11 7) [66, 79, 79, 84, 32, 32, 32, 32] [66, 73, 78]
   = Some (spec_checksum [66, 79, 79, 84, 32, 32, 32, 32, 66, 73, 78])"
  using checksum_equivalence [of "[66, 79, 79, 84, 32, 32, 32, 32]" "[66, 73, 78]" "replicate 11 7"] by simp


section \<open>Long names\<close>

lemma le16_bytes16: "ucast (ucast w :: byte) OR push_bit 8 (ucast (ucast (drop_bit 8 w) :: byte)) = (w :: u16)"
  by (rule bit_word_eqI) (auto simp: bit_simps not_less)

lemma ucast_char [simp]: "ucast (ucast (c :: byte) :: u16) = c"
  by (rule bit_word_eqI) (simp add: bit_simps)

text \<open>The 13 characters that \<^verbatim>\<open>toLongFileName\<close> stores for the rest \<open>cs\<close> of a name.\<close>

definition lfn_chunk :: "nat \<Rightarrow> byte list \<Rightarrow> u16 list" where
  "lfn_chunk k cs = map ucast (take k cs) @ (if length cs < k then 0 # replicate (k - length cs - 1) 0xFFFF else [])"

lemma lfn_fill_fin: "lfn_fill k idx True len name = Some (replicate k 0xFFFF, idx, True)"
  by (induction k arbitrary: idx) auto

lemma lfn_fill_spec:
  assumes "idx \<le> length (cstr name)" and "len = int (length (cstr name))"
  shows "lfn_fill k idx False len name = Some (lfn_chunk k (drop idx (cstr name)),
    min (idx + k) (length (cstr name)), length (cstr name) < idx + k)"
  using assms(1)
proof (induction k arbitrary: idx)
  case 0
  then show ?case by (simp add: lfn_chunk_def min_absorb1)
next
  case (Suc k)
  show ?case
  proof (cases "idx = length (cstr name)")
    case True
    then show ?thesis by (simp add: assms(2) lfn_fill_fin lfn_chunk_def)
  next
    case False
    then have i: "idx < length (cstr name)" using Suc.prems by simp
    then have "drop idx (cstr name) = cstr name ! idx # drop (Suc idx) (cstr name)" by (simp add: Cons_nth_drop_Suc)
    moreover have "lfn_fill k (Suc idx) False len name = Some (lfn_chunk k (drop (Suc idx) (cstr name)),
      min (Suc idx + k) (length (cstr name)), length (cstr name) < Suc idx + k)" using i by (intro Suc.IH) simp
    moreover have "rd name idx = Some (cstr name ! idx)" using cstr_nth [OF i] by (simp add: rd_def)
    ultimately show ?thesis using i by (simp add: assms(2) lfn_chunk_def)
  qed
qed

lemma lfn_fill_append:
  "lfn_fill (a + b) idx fin len name = do {
     (xs, idx, fin) \<leftarrow> lfn_fill a idx fin len name;
     (ys, idx, fin) \<leftarrow> lfn_fill b idx fin len name;
     Some (xs @ ys, idx, fin)
   }"
proof (induction a arbitrary: idx fin)
  case 0
  then show ?case by (cases "lfn_fill b idx fin len name") auto
next
  case (Suc a)
  then show ?case by (auto split: bind_splits simp: bind_eq_None_conv)
qed

text \<open>The fields of a stored entry, read at the addresses of its characters.\<close>

lemma le16_at_nth:
  assumes "bytes_at m p n = bs" and "i + 1 < n"
  shows "le16_at m (p + of_nat i) = ucast (bs ! i) OR push_bit 8 (ucast (bs ! (i + 1)))"
  using assms by (auto simp: le16_at_def bytes_at_def add.assoc add.commute add.left_commute)

lemma lfn_addresses_offsets:
  "lfn_addresses p = map (\<lambda>i. p + of_nat i) [1, 3, 5, 7, 9, 14, 16, 18, 20, 22, 24, 28, 30]"
  by (simp add: lfn_addresses_def upt_rec)

lemma length_lfn_bytes:
  "length low = 5 \<Longrightarrow> length mid = 6 \<Longrightarrow> length high = 2 \<Longrightarrow> length (lfn_bytes ord cs low mid high) = 32"
  by (simp add: lfn_bytes_def length_concat bytes16_def comp_def sum_list_triv)

lemma lfn_bytes_chars:
  assumes b: "bytes_at m p 32 = lfn_bytes ord cs low mid high" and l: "length low = 5" "length mid = 6" "length high = 2"
  shows "map (le16_at m) (lfn_addresses p) = low @ mid @ high"
proof -
  from l obtain a0 a1 a2 a3 a4 b0 b1 b2 b3 b4 b5 c0 c1 where
    e: "low = [a0, a1, a2, a3, a4]" "mid = [b0, b1, b2, b3, b4, b5]" "high = [c0, c1]"
    by (auto simp: length_Suc_conv numeral_eq_Suc)
  have F: "le16_at m (p + of_nat i) = ucast (lfn_bytes ord cs low mid high ! i) OR
      push_bit 8 (ucast (lfn_bytes ord cs low mid high ! (i + 1)))" if "i + 1 < 32" for i
    using le16_at_nth [OF b that] .
  have "map (le16_at m) (lfn_addresses p) =
      map (\<lambda>i. ucast (lfn_bytes ord cs low mid high ! i) OR push_bit 8 (ucast (lfn_bytes ord cs low mid high ! (i + 1))))
        [1, 3, 5, 7, 9, 14, 16, 18, 20, 22, 24, 28, 30]"
    unfolding lfn_addresses_offsets map_map comp_def by (intro map_cong refl F) auto
  also have "\<dots> = low @ mid @ high"
    unfolding e lfn_bytes_def by (simp add: bytes16_def le16_bytes16)
  finally show ?thesis .
qed

lemma toLongFileName_chars:
  fixes s :: "('h, 'a) fat_state_scheme"
  assumes t: "terminated name" "length (cstr name) < 2 ^ 31"
    and r: "toLongFileName name ord cs err s = Some (p, err', s')" "p \<noteq> 0"
  shows "map (le16_at (hmem s')) (lfn_addresses p) = lfn_chunk 13 (cstr name)"
proof -
  let ?n = "int (length (cstr name))"
  have "lfn_fill 13 0 False ?n name = Some (lfn_chunk 13 (cstr name), min 13 (length (cstr name)), length (cstr name) < 13)"
    using lfn_fill_spec [of 0 name ?n 13] by simp
  moreover have "lfn_fill 13 0 False ?n name = do {
     (xs, idx, fin) \<leftarrow> lfn_fill 5 0 False ?n name;
     (ys, idx, fin) \<leftarrow> lfn_fill 6 idx fin ?n name;
     (zs, idx, fin) \<leftarrow> lfn_fill 2 idx fin ?n name;
     Some (xs @ ys @ zs, idx, fin) }"
    using lfn_fill_append [of 5 8 0 False ?n name] lfn_fill_append [of 6 2 _ _ ?n name]
    by (simp add: case_prod_unfold)
  ultimately obtain low mid high i f i' f' where f:
    "lfn_fill 5 0 False ?n name = Some (low, i, f)" "lfn_fill 6 i f ?n name = Some (mid, i', f')"
    "\<exists>i'' f''. lfn_fill 2 i' f' ?n name = Some (high, i'', f'')" "lfn_chunk 13 (cstr name) = low @ mid @ high"
    by (auto simp: Option.bind_eq_Some_conv)
  have len: "lfn_fill k a b c name = Some (xs, y) \<Longrightarrow> length xs = k" for k a b c xs y
    by (induction k arbitrary: a b xs y) (auto simp: Option.bind_eq_Some_conv split: if_splits)
  have l: "length low = 5" "length mid = 6" "length high = 2" using f(1-3) len by blast+
  have n: "sint (ucast (of_nat (length (cstr name)) :: u64) :: u32) = ?n"
    using t(2) by (simp add: unsigned_of_nat take_bit_nat_eq_self sint_small32)
  obtain s1 :: "('h, 'a) fat_state_scheme" where "hmem s' = put_bytes p (lfn_bytes (of_int ord) cs low mid high) (hmem s1)"
    using r strlen_cstr [OF t(1)] f
    by (auto simp: toLongFileName_def Option.bind_eq_Some_conv n Let_def split: if_splits)
  then have "bytes_at (hmem s') p 32 = lfn_bytes (of_int ord) cs low mid high"
    using put_bytes_at [of "lfn_bytes (of_int ord) cs low mid high" p "hmem s1"] length_lfn_bytes [OF l] by simp
  from lfn_bytes_chars [OF this l] f(4) show ?thesis by simp
qed

lemma lfn_chars_spec:
  assumes "\<forall>x \<in> set us. x \<noteq> 0xFFFF" and "unat i + length us \<le> length oName" and "unat i + length us < 2 ^ 16"
    and "map (le16_at m) as = us @ vs" and "vs = [] \<or> hd vs = 0xFFFF"
  shows "lfn_chars as i oName m = Some (overwrite oName (unat i) (map ucast us))"
  using assms
proof (induction us arbitrary: as i oName)
  case Nil
  then show ?case by (cases as) (auto simp: overwrite_def)
next
  case (Cons u us)
  then obtain a bs where a: "as = a # bs" "le16_at m a = u" "map (le16_at m) bs = us @ vs" by (cases as) auto
  have i: "unat (i + 1) = Suc (unat i)" using Cons.prems(3) by (subst unat_add_lem [THEN iffD1]) simp_all
  have "lfn_chars bs (i + 1) (oName[unat i := ucast u]) m =
      Some (overwrite (oName[unat i := ucast u]) (unat (i + 1)) (map ucast us))"
    using Cons.prems a by (intro Cons.IH) (auto simp: i)
  moreover have "take (Suc (unat i)) (oName[unat i := ucast u]) = take (unat i) oName @ [ucast u]"
    using Cons.prems by (simp add: take_Suc_conv_app_nth)
  ultimately show ?case using a Cons.prems by (simp add: wr_def overwrite_def i)
qed

lemma chunks_concat:
  "0 < length cs \<Longrightarrow>
   concat (map (\<lambda>i. lfn_chunk 13 (drop (13 * i) cs)) [0..<(length cs + 12) div 13]) =
     map ucast cs @ (if length cs mod 13 = 0 then [] else 0 # replicate (12 - length cs mod 13) 0xFFFF)"
proof (induction "length cs" arbitrary: cs rule: less_induct)
  case less
  show ?case
  proof (cases "length cs \<le> 13")
    case True
    then have "(length cs + 12) div 13 = 1" using less.prems by (intro div_nat_eqI) (auto simp: Suc_le_eq)
    moreover have "length cs mod 13 = (if length cs = 13 then 0 else length cs)" using True by auto
    ultimately show ?thesis using True by (auto simp: lfn_chunk_def)
  next
    case False
    let ?ds = "drop 13 cs"
    have "length cs + 12 = 13 + (length ?ds + 12)" using False by simp
    then have k: "(length cs + 12) div 13 = Suc ((length ?ds + 12) div 13)" by simp
    have c: "map (\<lambda>i. lfn_chunk 13 (drop (13 * i) cs)) [0..<(length cs + 12) div 13] =
        lfn_chunk 13 cs # map (\<lambda>i. lfn_chunk 13 (drop (13 * i) ?ds)) [0..<(length ?ds + 12) div 13]"
      unfolding k by (simp add: map_upt_Suc add.commute del: upt_Suc)
    have "lfn_chunk 13 cs = map ucast (take 13 cs)" using False by (simp add: lfn_chunk_def)
    moreover have "length ?ds mod 13 = length cs mod 13" using False by (simp add: mod_if)
    moreover have "map ucast (take 13 cs) @ map ucast ?ds = (map ucast cs :: u16 list)"
      by (simp flip: map_append)
    ultimately show ?thesis using less.hyps [of ?ds] less.prems False unfolding c by simp
  qed
qed

text \<open>
  Property C26. Long names of at most 255 entries (3315 characters) round trip: let the entries of a chain, in the order of the
  directory, hold the characters that \<^verbatim>\<open>toLongFileName\<close> stores for the pieces of 13 characters of a name, last piece first.
  Then \<^verbatim>\<open>longFileNameEntriesToName\<close> writes the name into the buffer, with a NUL only where the length of
  the name is not a multiple of 13; otherwise the buffer keeps its old contents behind the name.
\<close>

theorem lfn_roundtrip:
  assumes name: "cs \<noteq> []" "length cs \<le> 255 * 13" "length cs < length oName"
    and k: "length es = (length cs + 12) div 13"
    and stored: "\<forall>i < length es. es ! (length es - 1 - i) \<noteq> 0 \<and>
      (\<exists>nm (s :: ('h, 'a) fat_state_scheme) err ord sum' err' s'. terminated nm \<and> cstr nm = drop (13 * i) cs \<and>
        toLongFileName nm ord sum' err s = Some (es ! (length es - 1 - i), err', s') \<and>
        bytes_at m (es ! (length es - 1 - i)) 32 = bytes_at (hmem s') (es ! (length es - 1 - i)) 32)"
  shows "longFileNameEntriesToName es (of_nat (length es)) oName m =
      Some (overwrite oName 0 (cs @ (if length cs mod 13 = 0 then [] else [0])))"
proof -
  have piece: "map (le16_at m) (lfn_addresses (rev es ! i)) = lfn_chunk 13 (drop (13 * i) cs)" if i: "i < length es" for i
  proof -
    obtain nm and s s' :: "('h, 'a) fat_state_scheme" and err ord sum' err' where
      p: "terminated nm" "cstr nm = drop (13 * i) cs"
      "toLongFileName nm ord sum' err s = Some (es ! (length es - 1 - i), err', s')" "es ! (length es - 1 - i) \<noteq> 0"
      "bytes_at m (es ! (length es - 1 - i)) 32 = bytes_at (hmem s') (es ! (length es - 1 - i)) 32"
      using stored i by blast
    let ?p = "es ! (length es - 1 - i)"
    have F: "le16_at m (?p + of_nat j) = le16_at (hmem s') (?p + of_nat j)" if "j + 1 < 32" for j
      using le16_at_nth [OF refl that, of m ?p] le16_at_nth [OF refl that, of "hmem s'" ?p] p(5) by simp
    have "map (le16_at m) (lfn_addresses ?p) = map (le16_at (hmem s')) (lfn_addresses ?p)"
      unfolding lfn_addresses_offsets map_map comp_def by (intro map_cong refl F) auto
    also have "\<dots> = lfn_chunk 13 (cstr nm)"
      by (rule toLongFileName_chars [OF p(1) _ p(3,4)]) (use p(2) name(2) in simp)
    finally show ?thesis using i p(2) by (simp add: rev_nth)
  qed
  have es: "map lfn_addresses (rev es) = map (\<lambda>i. lfn_addresses (rev es ! i)) [0..<length es]"
    by (rule nth_equalityI) simp_all
  have "map (le16_at m) (concat (map lfn_addresses (rev es))) =
      concat (map (\<lambda>i. map (le16_at m) (lfn_addresses (rev es ! i))) [0..<length es])"
    unfolding es by (simp add: map_concat comp_def)
  also have "\<dots> = concat (map (\<lambda>i. lfn_chunk 13 (drop (13 * i) cs)) [0..<length es])"
    using piece by (intro arg_cong [where f = concat] map_cong refl) simp
  also have "\<dots> = map ucast cs @ (if length cs mod 13 = 0 then [] else 0 # replicate (12 - length cs mod 13) 0xFFFF)"
    unfolding k using chunks_concat [of cs] name(1) by simp
  finally have all: "map (le16_at m) (concat (map lfn_addresses (rev es))) =
      (map ucast cs @ (if length cs mod 13 = 0 then [] else [0])) @
      (if length cs mod 13 = 0 then [] else replicate (12 - length cs mod 13) 0xFFFF)" by simp
  have "(ucast c :: u16) \<noteq> 0xFFFF" for c :: byte
  proof -
    have "unat c < 2 ^ LENGTH(8)" by (rule unsigned_less)
    then have "unat (ucast c :: u16) < 256" by (simp add: unsigned_ucast_eq take_bit_nat_eq_self)
    then show ?thesis by auto
  qed
  then have U: "\<forall>x \<in> set (map ucast cs @ (if length cs mod 13 = 0 then [] else [0 :: u16])). x \<noteq> 0xFFFF" by auto
  have "0 + length (map ucast cs @ (if length cs mod 13 = 0 then [] else [0 :: u16])) \<le> length oName"
    using name(3) by simp
  then have L: "unat (0 :: u16) + length (map ucast cs @ (if length cs mod 13 = 0 then [] else [0 :: u16])) \<le> length oName"
    by simp
  have S: "unat (0 :: u16) + length (map ucast cs @ (if length cs mod 13 = 0 then [] else [0 :: u16])) < 2 ^ 16"
    using name(2) by simp
  have "length es \<le> 255" using k name(2) by (simp add: div_le_mono less_mult_imp_div_less less_Suc_eq_le [symmetric])
  then have n: "unat (of_nat (length es) :: byte) = length es" by (simp add: unsigned_of_nat take_bit_nat_eq_self)
  have H: "(if length cs mod 13 = 0 then [] else replicate (12 - length cs mod 13) (0xFFFF :: u16)) = [] \<or>
      hd (if length cs mod 13 = 0 then [] else replicate (12 - length cs mod 13) 0xFFFF) = (0xFFFF :: u16)"
    by (cases "12 - length cs mod 13") simp_all
  have "longFileNameEntriesToName es (of_nat (length es)) oName m =
      Some (overwrite oName 0 (map ucast (map ucast cs @ (if length cs mod 13 = 0 then [] else [0 :: u16]))))"
    unfolding longFileNameEntriesToName_def
    using lfn_chars_spec [OF U L S all H] n by simp
  then show ?thesis by (simp add: comp_def)
qed

lemma fat_ram_alloc:
  assumes "size_ok sz" and "pages_for sz = 1"
  obtains p m where "kzalloc sz fat_ram = Some (p, fat_ram\<lparr>hmem := m\<rparr>)" "p \<noteq> 0"
proof -
  have eq: "live fat_ram = live path_ram" "kheap_wf fat_ram \<longleftrightarrow> kheap_wf path_ram"
    by (rule same_heap; simp add: fat_ram_defs)+
  have wf: "kheap_wf fat_ram" using eq path_ram_heap by simp
  have n: "unat (table_size fat_ram) = 4" using small_heap_pages by (simp add: fat_ram_defs)
  obtain p s' where k: "kzalloc sz fat_ram = Some (p, s')" using kh.alloc_total [OF wf assms(1)] by blast
  moreover obtain m where "s' = fat_ram\<lparr>hmem := m\<rparr>"
    using kzalloc_frame [OF _ k] wf by (auto simp: kheap_wf_def)
  moreover have "p \<noteq> 0"
    using kheap_serves_page [OF wf, of "{}" sz s'] eq path_ram_heap n assms k by auto
  ultimately show thesis using that by blast
qed

theorem lfn_roundtrip_witness:
  "\<exists>p s'. toLongFileName [97, 98, 0] 1 7 0 fat_ram = Some (p, 0, s') \<and>
     longFileNameEntriesToName [p] 1 (replicate 255 9) (hmem s') = Some ([97, 98, 0] @ replicate 252 9)"
proof -
  have "size_ok sizeof_directoryEntry" "pages_for sizeof_directoryEntry = 1"
    by (simp_all add: size_ok_def pages_for_def fat_const_defs)
  then obtain p m where a: "kzalloc sizeof_directoryEntry fat_ram = Some (p, fat_ram\<lparr>hmem := m\<rparr>)" "p \<noteq> 0"
    by (rule fat_ram_alloc)
  have c: "cstr [97, 98, 0] = [97, 98]" "int (length [97, 98 :: byte]) = 2" by simp_all
  have fill: "lfn_fill k idx False 2 [97, 98, 0] = Some (lfn_chunk k (drop idx [97, 98]),
      min (idx + k) (length [97, 98 :: byte]), length [97, 98 :: byte] < idx + k)" if "idx \<le> 2" for k idx
    using lfn_fill_spec [of idx "[97, 98, 0]" 2 k, unfolded c] that by simp
  obtain s' where t: "toLongFileName [97, 98, 0] 1 7 0 fat_ram = Some (p, 0, s')"
    using a fill by (simp add: toLongFileName_def strlen_def Let_def lfn_fill_fin)
  have "longFileNameEntriesToName [p] (of_nat (length [p])) (replicate 255 9) (hmem s') =
      Some (overwrite (replicate 255 9) 0 ([97, 98] @ (if length [97, 98 :: byte] mod 13 = 0 then [] else [0])))"
  proof (rule lfn_roundtrip)
    show "\<forall>i < length [p]. [p] ! (length [p] - 1 - i) \<noteq> 0 \<and>
      (\<exists>nm (s :: byte list fat_state) err ord sum' err' s''. terminated nm \<and> cstr nm = drop (13 * i) [97, 98] \<and>
        toLongFileName nm ord sum' err s = Some ([p] ! (length [p] - 1 - i), err', s'') \<and>
        bytes_at (hmem s') ([p] ! (length [p] - 1 - i)) 32 = bytes_at (hmem s'') ([p] ! (length [p] - 1 - i)) 32)"
      using t a(2) by (auto intro!: exI [of _ "[97, 98, 0]"]) (intro exI conjI, assumption, rule refl)
  qed simp_all
  with t show ?thesis by (auto simp: overwrite_def)
qed

end
