(* ===== verification/Vfsl.thy ===== *)
theory Vfsl
  imports Fat32_Table
begin

text \<open>
  The virtual file system layer, \<^verbatim>\<open>vfsl/virtualFilesystemLayer.c\<close>: the list of file systems, the hash
  table of open files, and the operations on files. A pointer to an entry of the table is a slot of
  the array or a heap address. The callbacks of a file system are those of FAT32, the only one that
  the kernel registers.
\<close>

section \<open>State\<close>

datatype entry_ref = Slot nat | Heap u64

record fileListEntry =
  le_file :: u64
  le_next :: "entry_ref option"
  le_prev :: "entry_ref option"

record 'h vfsl_state = "'h fat_state" +
  fileSystemList :: "u64 list"
  currentFileSystem :: byte
  openFiles :: "fileListEntry list"
  listEntries :: "u64 \<Rightarrow> fileListEntry"

definition BOBAOS_MAX_FILESYSTEMS :: nat where "BOBAOS_MAX_FILESYSTEMS = 12"
definition BOBAOS_MAX_OPEN_FILES :: nat where "BOBAOS_MAX_OPEN_FILES = 1024"
definition sizeof_fileListEntry :: u64 where "sizeof_fileListEntry = 24"

lemmas vfsl_const_defs =
  BOBAOS_MAX_FILESYSTEMS_def BOBAOS_MAX_OPEN_FILES_def sizeof_fileListEntry_def FILE_MODE_READ_def
  FILE_MODE_WRITE_def FILE_MODE_APPEND_def

definition no_entry :: fileListEntry where
  "no_entry = \<lparr>le_file = 0, le_next = None, le_prev = None\<rparr>"

fun get_entry :: "entry_ref option \<Rightarrow> ('h, 'a) vfsl_state_scheme \<Rightarrow> fileListEntry option" where
  "get_entry None s = None"
| "get_entry (Some (Slot i)) s = rd (openFiles s) i"
| "get_entry (Some (Heap p)) s = at (listEntries s) p"

fun set_entry ::
  "entry_ref option \<Rightarrow> fileListEntry \<Rightarrow> ('h, 'a) vfsl_state_scheme \<Rightarrow> ('h, 'a) vfsl_state_scheme option" where
  "set_entry None e s = None"
| "set_entry (Some (Slot i)) e s = do { l \<leftarrow> wr (openFiles s) i e; Some (s\<lparr>openFiles := l\<rparr>) }"
| "set_entry (Some (Heap p)) e s = (if p = 0 then None else Some (s\<lparr>listEntries := (listEntries s)(p := e)\<rparr>))"

section \<open>File systems\<close>

definition addFileSystem ::
  "u64 \<Rightarrow> ('h, 'a) vfsl_state_scheme \<Rightarrow> (int \<times> ('h, 'a) vfsl_state_scheme) option" where
  "addFileSystem fs s =
     (if unat (currentFileSystem s) \<ge> BOBAOS_MAX_FILESYSTEMS then Some (- ENMEM, s)
      else if fs = 0 then Some (- EIARG, s)
      else do {
        l \<leftarrow> wr (fileSystemList s) (unat (currentFileSystem s)) fs;
        Some (0, s\<lparr>fileSystemList := l, currentFileSystem := currentFileSystem s + 1\<rparr>)
      })"

definition appendFileSystemToDisk ::
  "u64 \<Rightarrow> partition_ptr option \<Rightarrow> ('h, 'a) vfsl_state_scheme \<Rightarrow> (int \<times> ('h, 'a) vfsl_state_scheme) option" where
  "appendFileSystemToDisk fs volume s =
     (case volume of None \<Rightarrow> Some (- EIARG, s)
      | Some v \<Rightarrow>
          if fs = 0 then Some (- EIARG, s)
          else do {
            dk \<leftarrow> at (disks s) (fst v);
            pt \<leftarrow> rd (disk_partition dk) (snd v);
            Some (0, s\<lparr>disks := (disks s)(fst v :=
              dk\<lparr>disk_partition := (disk_partition dk)[snd v := pt\<lparr>part_fileSystem := fs\<rparr>]\<rparr>)\<rparr>)
          })"

text \<open>\<open>fs\<close> is the address of the static structure that \<^verbatim>\<open>insertIntoFileSystem\<close> returns.\<close>

definition addStaticFileSystems ::
  "u64 \<Rightarrow> ('h, 'a) vfsl_state_scheme \<Rightarrow> (int \<times> ('h, 'a) vfsl_state_scheme) option" where
  "addStaticFileSystems fs s = addFileSystem fs s"

text \<open>The inner loop tries the \<open>k\<close> remaining file systems on a volume; the flag tells that it returned.\<close>

primrec resolveVolume ::
  "nat \<Rightarrow> nat \<Rightarrow> partition_ptr \<Rightarrow> ('h, 'a) vfsl_state_scheme \<Rightarrow> (int option \<times> ('h, 'a) vfsl_state_scheme) option" where
  "resolveVolume 0 i v s = Some (None, s)"
| "resolveVolume (Suc k) i v s = do {
     fs \<leftarrow> rd (fileSystemList s) i;
     if fs = 0 then None
     else do {
       (ok, s) \<leftarrow> resolve v s;
       if ok then do {
         (attached, s) \<leftarrow> attachToDisk (Some v) s;
         (ret, s) \<leftarrow> appendFileSystemToDisk attached (Some v) s;
         Some (Some (if ret < 0 then - EIARG else SUCCESS), s)
       }
       else resolveVolume k (Suc i) v s
     }
   }"

primrec resolveVolumes ::
  "nat \<Rightarrow> nat \<Rightarrow> ('h, 'a) vfsl_state_scheme \<Rightarrow> (int \<times> ('h, 'a) vfsl_state_scheme) option" where
  "resolveVolumes 0 j s = None"
| "resolveVolumes (Suc k) j s = do {
     volume \<leftarrow> rd (partitionList s) j;
     (case volume of None \<Rightarrow> Some (- ENFOUND, s)
      | Some v \<Rightarrow> do {
          (r, s) \<leftarrow> resolveVolume (unat (currentFileSystem s)) 0 v s;
          (case r of Some ret \<Rightarrow> Some (ret, s) | None \<Rightarrow> resolveVolumes k (Suc j) s)
        })
   }"

text \<open>The walk along the volumes ends at an empty slot of the list; beyond the list is a fault.\<close>

definition resolveStaticFileSystems ::
  "('h, 'a) vfsl_state_scheme \<Rightarrow> (int \<times> ('h, 'a) vfsl_state_scheme) option" where
  "resolveStaticFileSystems s = resolveVolumes (Suc (length (partitionGetAll s))) 0 s"

definition vfslInit :: "u64 \<Rightarrow> ('h, 'a) vfsl_state_scheme \<Rightarrow> (int \<times> ('h, 'a) vfsl_state_scheme) option" where
  "vfslInit fs s = do {
     let s = s\<lparr>openFiles := replicate BOBAOS_MAX_OPEN_FILES no_entry,
               fileSystemList := replicate BOBAOS_MAX_FILESYSTEMS 0\<rparr>;
     (ret, s) \<leftarrow> addStaticFileSystems fs s;
     if ret < 0 then Some (ret, s) else resolveStaticFileSystems s
   }"

section \<open>The table of open files\<close>

definition slot_of :: "byte list \<Rightarrow> nat option" where
  "slot_of path = do { h \<leftarrow> strHash path; Some (unat h mod BOBAOS_MAX_OPEN_FILES) }"

partial_function (option) checkOpen_loop ::
  "entry_ref option \<Rightarrow> byte list \<Rightarrow> ('h, 'a) vfsl_state_scheme \<Rightarrow> bool option" where
  "checkOpen_loop r path s = do {
     e \<leftarrow> get_entry r s;
     if le_file e = 0 then Some False
     else do {
       c \<leftarrow> strcmp path (file_path (files s (le_file e)));
       if c = 0 then Some True else checkOpen_loop (le_next e) path s
     }
   }"

definition checkIfFileIsOpenString :: "byte list \<Rightarrow> ('h, 'a) vfsl_state_scheme \<Rightarrow> bool option" where
  "checkIfFileIsOpenString path s = do {
     i \<leftarrow> slot_of path;
     e \<leftarrow> rd (openFiles s) i;
     if le_file e \<noteq> 0 then checkOpen_loop (Some (Slot i)) path s else Some False
   }"

definition checkIfFileIsOpen :: "u64 \<Rightarrow> ('h, 'a) vfsl_state_scheme \<Rightarrow> bool option" where
  "checkIfFileIsOpen fl s =
     (if fl = 0 then Some False else checkIfFileIsOpenString (file_path (files s fl)) s)"

partial_function (option) addOpen_last ::
  "entry_ref option \<Rightarrow> byte list \<Rightarrow> ('h, 'a) vfsl_state_scheme \<Rightarrow> entry_ref option option" where
  "addOpen_last r path s = do {
     e \<leftarrow> get_entry r s;
     f \<leftarrow> at (files s) (le_file e);
     c \<leftarrow> strcmp (file_path f) path;
     if c = 0 \<and> le_next e \<noteq> None then addOpen_last (le_next e) path s else Some r
   }"

definition addOpenFile ::
  "u64 \<Rightarrow> ('h, 'a) vfsl_state_scheme \<Rightarrow> (int \<times> ('h, 'a) vfsl_state_scheme) option" where
  "addOpenFile fl s = do {
     f \<leftarrow> at (files s) fl;
     i \<leftarrow> slot_of (file_path f);
     e \<leftarrow> rd (openFiles s) i;
     if le_file e = 0 then do {
       s \<leftarrow> set_entry (Some (Slot i)) \<lparr>le_file = fl, le_next = None, le_prev = None\<rparr> s;
       Some (0, s)
     }
     else do {
       r \<leftarrow> addOpen_last (Some (Slot i)) (file_path f) s;
       (newEntry, s) \<leftarrow> kzalloc sizeof_fileListEntry s;
       if newEntry = 0 then Some (- ENMEM, s)
       else do {
         s \<leftarrow> set_entry (Some (Heap newEntry)) \<lparr>le_file = fl, le_next = None, le_prev = r\<rparr> s;
         e \<leftarrow> get_entry r s;
         s \<leftarrow> set_entry r (e\<lparr>le_next := Some (Heap newEntry)\<rparr>) s;
         Some (0, s)
       }
     }
   }"

fun checkMode_loop :: "byte list \<Rightarrow> byte \<Rightarrow> byte option" where
  "checkMode_loop [] ret = None"
| "checkMode_loop (c # mode) ret =
     (if c = 0 then Some ret
      else if c = 114 then
        if ret AND FILE_MODE_WRITE = 0 \<and> ret AND FILE_MODE_APPEND = 0
        then checkMode_loop mode (ret OR FILE_MODE_READ) else Some 0
      else if c = 119 then
        if ret AND FILE_MODE_READ = 0 then checkMode_loop mode (ret OR FILE_MODE_WRITE) else Some 0
      else if c = 97 then
        if ret AND FILE_MODE_READ = 0 then checkMode_loop mode (ret OR FILE_MODE_APPEND) else Some 0
      else Some 0)"

definition checkMode :: "byte list \<Rightarrow> byte option" where
  "checkMode mode = checkMode_loop mode 0"

partial_function (option) closeFile_loop ::
  "entry_ref option \<Rightarrow> byte list \<Rightarrow> ('h, 'a) vfsl_state_scheme \<Rightarrow> (int \<times> ('h, 'a) vfsl_state_scheme) option" where
  "closeFile_loop r path s = do {
     e \<leftarrow> get_entry r s;
     f \<leftarrow> at (files s) (le_file e);
     c \<leftarrow> strcmp (file_path f) path;
     if c = 0 then do {
       s \<leftarrow> (if le_prev e = None \<and> le_next e = None then set_entry r (e\<lparr>le_file := 0\<rparr>) s
            else do {
              n \<leftarrow> get_entry (le_next e) s;
              s \<leftarrow> set_entry r (e\<lparr>le_file := le_file n, le_next := le_next n\<rparr>) s;
              n' \<leftarrow> get_entry (le_next n) s;
              set_entry (le_next n) (n'\<lparr>le_prev := r\<rparr>) s
            });
       Some (SUCCESS, s)
     }
     else if le_next e \<noteq> None then closeFile_loop (le_next e) path s
     else Some (- ENFOUND, s)
   }"

definition closeFile :: "u64 \<Rightarrow> ('h, 'a) vfsl_state_scheme \<Rightarrow> (int \<times> ('h, 'a) vfsl_state_scheme) option" where
  "closeFile fl s = do {
     i \<leftarrow> slot_of (file_path (files s fl));
     closeFile_loop (Some (Slot i)) (file_path (files s fl)) s
   }"

section \<open>Operations on files\<close>

text \<open>The file system of the volume of a label, with its private data.\<close>

definition volume_private :: "partition_ptr \<Rightarrow> ('h, 'a) vfsl_state_scheme \<Rightarrow> fatPrivate option" where
  "volume_private v s = do {
     pt \<leftarrow> partition_at v s;
     fs \<leftarrow> at (fileSystems s) (part_fileSystem pt);
     at (fatPrivates s) (fs_private fs)
   }"

definition fopen ::
  "byte list \<Rightarrow> byte list \<Rightarrow> ('h, 'a) vfsl_state_scheme \<Rightarrow> (u64 \<times> int \<times> ('h, 'a) vfsl_state_scheme) option" where
  "fopen path mode s = do {
     isOpen \<leftarrow> checkIfFileIsOpenString path s;
     if isOpen then Some (0, - EIUSE, s)
     else do {
       m \<leftarrow> checkMode mode;
       if m = 0 then Some (0, - EWMODE, s)
       else do {
         (tracer, err, s) \<leftarrow> createPathTracer (Some path) 0 s;
         if tracer = 0 then Some (0, err, s)
         else do {
           t \<leftarrow> deref (tracers s) tracer;
           volume \<leftarrow> partitionGetByVolumeLabel (pt_label t) s;
           v \<leftarrow> volume;
           pr \<leftarrow> volume_private v s;
           (fl, err, s) \<leftarrow> openFile tracer (m AND FILE_MODE_WRITE \<noteq> 0 \<and> m AND FILE_MODE_APPEND = 0) pr err s;
           s \<leftarrow> destroyPathTracer tracer s;
           if fl = 0 then Some (0, err, s)
           else do {
             let s = s\<lparr>files := (files s)(fl := (files s fl)\<lparr>file_mode := m\<rparr>)\<rparr>;
             (err, s) \<leftarrow> addOpenFile fl s;
             if err \<ge> 0 then Some (fl, err, s)
             else do {
               (_, s) \<leftarrow> kzfree fl s;
               Some (0, err, s)
             }
           }
         }
       }
     }
   }"

definition fseek :: "u64 \<Rightarrow> u64 \<Rightarrow> ('h, 'a) vfsl_state_scheme \<Rightarrow> (int \<times> ('h, 'a) vfsl_state_scheme) option" where
  "fseek fl offset s = do {
     f \<leftarrow> at (files s) fl;
     if offset \<le> file_size f
     then Some (SUCCESS, s\<lparr>files := (files s)(fl := f\<lparr>file_position := offset\<rparr>)\<rparr>)
     else Some (- ENMEM, s)
   }"

definition fread ::
  "u64 \<Rightarrow> u64 \<Rightarrow> u64 \<Rightarrow> u64 \<Rightarrow> ('h, 'a) vfsl_state_scheme \<Rightarrow> (int \<times> ('h, 'a) vfsl_state_scheme) option" where
  "fread fl out sz count s = do {
     isOpen \<leftarrow> checkIfFileIsOpen fl s;
     if \<not> isOpen then Some (- ENFOUND, s)
     else do {
       f \<leftarrow> at (files s) fl;
       if file_mode f AND FILE_MODE_READ = 0 then Some (- EWMODE, s)
       else do {
         volume \<leftarrow> partitionGetByVolumeLabel (file_label f) s;
         (case volume of None \<Rightarrow> Some (- EIARG, s)
          | Some v \<Rightarrow>
              if sz * count > file_size f + file_position f then Some (- EOF, s)
              else do {
                pr \<leftarrow> volume_private v s;
                (ret, s) \<leftarrow> readFile out (sz * count) fl pr s;
                Some (ret, if ret = 0
                  then s\<lparr>files := (files s)(fl := (files s fl)\<lparr>file_position := file_position (files s fl) + sz * count\<rparr>)\<rparr>
                  else s)
              })
       }
     }
   }"

definition fwrite_advance :: "u64 \<Rightarrow> vfsl_file \<Rightarrow> vfsl_file" where
  "fwrite_advance n f =
     (if file_mode f AND FILE_MODE_APPEND \<noteq> 0
      then f\<lparr>file_position := file_position f + n, file_size := file_size f + n\<rparr>
      else f\<lparr>file_size := file_position f + n, file_position := file_position f + n\<rparr>)"

definition fwrite ::
  "u64 \<Rightarrow> u64 \<Rightarrow> u64 \<Rightarrow> u64 \<Rightarrow> ('h, 'a) vfsl_state_scheme \<Rightarrow> (int \<times> ('h, 'a) vfsl_state_scheme) option" where
  "fwrite fl inp sz count s = do {
     isOpen \<leftarrow> checkIfFileIsOpen fl s;
     if \<not> isOpen then Some (- ENFOUND, s)
     else do {
       f \<leftarrow> at (files s) fl;
       if file_mode f AND FILE_MODE_WRITE = 0 then Some (- EWMODE, s)
       else do {
         volume \<leftarrow> partitionGetByVolumeLabel (file_label f) s;
         (case volume of None \<Rightarrow> Some (- EIARG, s)
          | Some v \<Rightarrow> do {
              pr \<leftarrow> volume_private v s;
              (ret, s) \<leftarrow> writeFile inp (sz * count) fl pr s;
              Some (ret, if ret = 0 then s\<lparr>files := (files s)(fl := fwrite_advance (sz * count) (files s fl))\<rparr> else s)
            })
       }
     }
   }"

definition fclose :: "u64 \<Rightarrow> ('h, 'a) vfsl_state_scheme \<Rightarrow> (int \<times> ('h, 'a) vfsl_state_scheme) option" where
  "fclose fl s = do {
     isOpen \<leftarrow> checkIfFileIsOpen fl s;
     if \<not> isOpen then Some (- ENFOUND, s) else closeFile fl s
   }"


section \<open>Modes\<close>

text \<open>The modes that fit together: reading alone, or writing and appending.\<close>

definition mode_valid :: "byte set \<Rightarrow> bool" where
  "mode_valid S \<longleftrightarrow> S \<subseteq> {114} \<or> S \<subseteq> {119, 97}"

definition mode_of :: "byte set \<Rightarrow> byte" where
  "mode_of S = (if 114 \<in> S then 1 else 0) OR (if 119 \<in> S then 2 else 0) OR (if 97 \<in> S then 4 else 0)"

lemma mode_valid_subset: "mode_valid T \<Longrightarrow> S \<subseteq> T \<Longrightarrow> mode_valid S"
  by (auto simp: mode_valid_def)

lemma mode_of_bits:
  "mode_of S AND FILE_MODE_READ = 0 \<longleftrightarrow> 114 \<notin> S" "mode_of S AND FILE_MODE_WRITE = 0 \<longleftrightarrow> 119 \<notin> S"
  "mode_of S AND FILE_MODE_APPEND = 0 \<longleftrightarrow> 97 \<notin> S"
  "mode_of S OR FILE_MODE_READ = mode_of (insert 114 S)" "mode_of S OR FILE_MODE_WRITE = mode_of (insert 119 S)"
  "mode_of S OR FILE_MODE_APPEND = mode_of (insert 97 S)"
  by (simp_all add: mode_of_def vfsl_const_defs)

lemma checkMode_loop_spec:
  "\<lbrakk> terminated mode; mode_valid S \<rbrakk> \<Longrightarrow> checkMode_loop mode (mode_of S) =
     Some (if mode_valid (S \<union> set (cstr mode)) then mode_of (S \<union> set (cstr mode)) else 0)"
proof (induction mode arbitrary: S)
  case (Cons c mode)
  show ?case
  proof (cases "c = 0")
    case False
    have step: "checkMode_loop (c # mode) (mode_of S) =
      (if mode_valid (insert c S) \<and> c \<in> {114, 119, 97} then checkMode_loop mode (mode_of (insert c S)) else Some 0)"
      using False Cons.prems(2) by (auto simp: mode_of_bits mode_valid_def)
    show ?thesis
    proof (cases "mode_valid (insert c S) \<and> c \<in> {114, 119, 97}")
      case True
      with False Cons.prems(1) show ?thesis unfolding step by (simp add: Cons.IH)
    next
      case bad: False
      then have "\<not> mode_valid (S \<union> set (cstr (c # mode)))"
        using False mode_valid_subset [of "S \<union> set (cstr (c # mode))" "insert c S"] by (auto simp: mode_valid_def)
      with bad show ?thesis unfolding step by auto
    qed
  qed (use Cons.prems in simp)
qed simp

text \<open>
  Property C28. A mode string is accepted exactly when it is not empty and consists of \<^verbatim>\<open>r\<close> alone or of
  \<^verbatim>\<open>w\<close> and \<^verbatim>\<open>a\<close>, in any order and number; the flags then are those of its characters. \<^verbatim>\<open>fopen\<close> refuses
  every other mode with \<^verbatim>\<open>-EWMODE\<close> and changes nothing.
\<close>

theorem checkMode_correct:
  assumes "terminated mode"
  shows "checkMode mode = Some (if mode_valid (set (cstr mode)) then mode_of (set (cstr mode)) else 0) \<and>
    (checkMode mode = Some 0 \<longleftrightarrow> cstr mode = [] \<or> \<not> mode_valid (set (cstr mode))) \<and>
    (checkMode mode = Some 0 \<and> checkIfFileIsOpenString path s = Some False \<longrightarrow> fopen path mode s = Some (0, - EWMODE, s))"
proof -
  have "mode_of {} = 0" "mode_valid {}" by (simp_all add: mode_of_def mode_valid_def)
  then have c: "checkMode mode = Some (if mode_valid (set (cstr mode)) then mode_of (set (cstr mode)) else 0)"
    using checkMode_loop_spec [OF assms, of "{}"] by (simp add: checkMode_def)
  moreover have "mode_of S = 0 \<longleftrightarrow> S = {}" if "mode_valid S" for S
    using that by (auto simp: mode_of_def mode_valid_def split: if_splits)
  ultimately show ?thesis by (auto simp: fopen_def)
qed

theorem checkMode_correct_witness:
  "checkMode [119, 97, 0] = Some 6 \<and> checkMode [114, 119, 0] = Some 0"
  using checkMode_correct [of "[119, 97, 0]", THEN conjunct1] checkMode_correct [of "[114, 119, 0]", THEN conjunct1]
  by (simp add: mode_valid_def mode_of_def)

section \<open>The table of open files\<close>

lemma strHash_total: "terminated str \<Longrightarrow> \<exists>h. strHash_loop str a = Some h"
  by (induction str arbitrary: a) auto

lemma slot_of_total: "terminated path \<Longrightarrow> \<exists>i < 1024. slot_of path = Some i"
  using strHash_total [of path 5381] by (auto simp: slot_of_def strHash_def BOBAOS_MAX_OPEN_FILES_def)

text \<open>
  Property C29. In an empty slot of the table a file is entered, then found to be open, and closing it
  empties the slot again. But where the slot of a path is taken by one file of another path, whose hash is
  the same, the search runs past the end of the list: opening the path dereferences \<^verbatim>\<open>NULL\<close>.
\<close>

theorem open_table:
  fixes s :: "('h, 'a) vfsl_state_scheme"
  assumes fl: "fl \<noteq> 0" and path: "terminated (file_path (files s fl))" and n: "length (openFiles s) = 1024"
  shows "\<exists>i < 1024. slot_of (file_path (files s fl)) = Some i \<and>
    (if le_file (openFiles s ! i) = 0 then
       \<exists>s' s''. addOpenFile fl s = Some (0, s') \<and> checkIfFileIsOpen fl s' = Some True \<and>
         fclose fl s' = Some (SUCCESS, s'') \<and> openFiles s'' = (openFiles s)[i := no_entry]
     else \<forall>g mode. le_file (openFiles s ! i) = g \<and> le_next (openFiles s ! i) = None \<and> terminated (file_path (files s g)) \<and>
         cstr (file_path (files s g)) \<noteq> cstr (file_path (files s fl)) \<longrightarrow>
       fopen (file_path (files s fl)) mode s = None)"
proof -
  let ?p = "file_path (files s fl)"
  obtain i where i: "i < 1024" "slot_of ?p = Some i" using slot_of_total [OF path] by blast
  have eq: "strcmp ?p ?p = Some 0" using strcmp_spec [OF path path] by auto
  show ?thesis
  proof (cases "le_file (openFiles s ! i) = 0")
    case True
    let ?s = "s\<lparr>openFiles := (openFiles s)[i := \<lparr>le_file = fl, le_next = None, le_prev = None\<rparr>]\<rparr>"
    have a: "addOpenFile fl s = Some (0, ?s)"
      using True fl i n by (simp add: addOpenFile_def at_def rd_def wr_def)
    moreover have c: "checkIfFileIsOpen fl ?s = Some True"
      using fl i n eq by (simp add: checkIfFileIsOpen_def checkIfFileIsOpenString_def rd_def checkOpen_loop.simps)
    moreover have "fclose fl ?s = Some (SUCCESS, s\<lparr>openFiles := (openFiles s)[i := no_entry]\<rparr>)"
      using c fl i n eq
      by (simp add: fclose_def closeFile_def closeFile_loop.simps rd_def wr_def at_def no_entry_def)
    ultimately show ?thesis using True i by auto
  next
    case False
    have "fopen ?p mode s = None"
      if g: "le_next (openFiles s ! i) = None" "terminated (file_path (files s (le_file (openFiles s ! i))))"
        "cstr (file_path (files s (le_file (openFiles s ! i)))) \<noteq> cstr ?p" for mode
    proof -
      obtain r where "strcmp ?p (file_path (files s (le_file (openFiles s ! i)))) = Some r" "r \<noteq> 0"
        using strcmp_spec [OF path g(2)] g(3) by auto
      then have "checkOpen_loop (Some (Slot i)) ?p s = None"
        using False i n g(1) by (subst checkOpen_loop.simps) (simp add: rd_def checkOpen_loop.simps [of None])
      then show ?thesis using i n False by (simp add: fopen_def checkIfFileIsOpenString_def rd_def)
    qed
    with False i show ?thesis by auto
  qed
qed

text \<open>An empty table and a file at a position, for the witnesses.\<close>

definition ram_file :: "u64 \<Rightarrow> vfsl_file" where
  "ram_file pos = \<lparr>file_label = 67, file_path = [97, 0], file_name = [97, 0], file_mode = 1, file_position = pos, file_size = 20\<rparr>"

definition vfsl_ram :: "vfsl_file \<Rightarrow> byte list vfsl_state" where
  "vfsl_ram f = fat_state.extend (fat_state.truncate fat_ram\<lparr>files := (\<lambda>_. f)\<rparr>)
     (vfsl_state.fields (replicate 12 0) 0 (replicate 1024 no_entry) (\<lambda>_. no_entry))"

theorem open_table_witness:
  "\<exists>s' s''. addOpenFile 16 (vfsl_ram (ram_file 0)) = Some (0, s') \<and> fclose 16 s' = Some (SUCCESS, s'') \<and>
     openFiles s'' = replicate 1024 no_entry"
proof -
  have p: "file_path (files (vfsl_ram (ram_file 0)) 16) = [97, 0]" "openFiles (vfsl_ram (ram_file 0)) = replicate 1024 no_entry"
    by (simp_all add: vfsl_ram_def ram_file_def fat_state.defs vfsl_state.defs)
  have "(replicate 1024 no_entry)[i := no_entry] = replicate 1024 no_entry" if "i < 1024" for i
    using that by (metis list_update_id nth_replicate)
  then show ?thesis using open_table [of 16 "vfsl_ram (ram_file 0)"] p by (auto simp: no_entry_def)
qed

text \<open>
  The end of a file is not where \<^verbatim>\<open>fread\<close> stops: behind position 0 a request that reaches
  up to \<open>file_position\<close> bytes beyond the end is handed to the file system, and only longer ones are
  refused with \<^verbatim>\<open>-EOF\<close>.
\<close>

theorem fread_past_end:
  assumes f: "checkIfFileIsOpen fl s = Some True" "fl \<noteq> 0" "file_mode (files s fl) AND FILE_MODE_READ \<noteq> 0"
    and v: "partitionGetByVolumeLabel (file_label (files s fl)) s = Some (Some v)" "volume_private v s = Some pr"
    and w: "unat (file_size (files s fl)) + unat (file_position (files s fl)) < 2 ^ 64"
  shows "if unat (n * k) \<le> unat (file_size (files s fl)) + unat (file_position (files s fl))
    then fread fl out n k s = do {
        (ret, s') \<leftarrow> readFile out (n * k) fl pr s;
        Some (ret, if ret = 0 then s'\<lparr>files := (files s')(fl := (files s' fl)
          \<lparr>file_position := file_position (files s' fl) + n * k\<rparr>)\<rparr> else s') }
    else fread fl out n k s = Some (- EOF, s)"
proof -
  have "(n * k > file_size (files s fl) + file_position (files s fl)) \<longleftrightarrow>
      \<not> unat (n * k) \<le> unat (file_size (files s fl)) + unat (file_position (files s fl))"
    using unat_add_small [of "file_size (files s fl)" "file_position (files s fl)"] w
    by (simp add: word_less_nat_alt not_le)
  then show ?thesis using f v by (simp add: fread_def at_def)
qed

definition vfsl_open :: "byte list vfsl_state" where
  "vfsl_open = vfsl_ram (ram_file 10)\<lparr>openFiles := replicate 1024 \<lparr>le_file = 8, le_next = None, le_prev = None\<rparr>,
     disks := (\<lambda>_. ram_disk\<lparr>disk_partition := replicate 4 ((disk_partition ram_disk ! 0)\<lparr>part_fileSystem := 8\<rparr>)\<rparr>)\<rparr>"

lemma vfsl_open_fields:
  "files vfsl_open = (\<lambda>_. ram_file 10)" "volume_private (8, 0) vfsl_open = Some ram_fat"
  "partitionGetByVolumeLabel 67 vfsl_open = Some (Some (8, 0))"
  by (simp_all add: vfsl_open_def vfsl_ram_def volume_private_def partition_at_def at_def rd_def ram_disk_def
      partitionGetByVolumeLabel_def disk_const_defs Let_def fat_ram_defs vfsl_state.defs)

theorem fread_past_end_witness:
  "fread 8 0 31 1 vfsl_open = Some (- EOF, vfsl_open) \<and>
   fread 8 0 25 1 vfsl_open = do {
     (ret, s') \<leftarrow> readFile 0 25 8 ram_fat vfsl_open;
     Some (ret, if ret = 0 then s'\<lparr>files := (files s')(8 := (files s' 8)
       \<lparr>file_position := file_position (files s' 8) + 25\<rparr>)\<rparr> else s') }"
proof -
  have "checkIfFileIsOpen 8 vfsl_open = Some True"
  proof -
    obtain i where "i < 1024" "slot_of [97, 0] = Some i" using slot_of_total [of "[97, 0]"] by auto
    then show ?thesis
      by (simp add: checkIfFileIsOpen_def checkIfFileIsOpenString_def vfsl_open_fields ram_file_def rd_def)
        (simp add: vfsl_open_def checkOpen_loop.simps rd_def vfsl_ram_def ram_file_def fat_state.defs vfsl_state.defs)
  qed
  then show ?thesis
    using fread_past_end [of 8 vfsl_open "(8, 0)" ram_fat 31 1 0, unfolded mult_1_right]
      fread_past_end [of 8 vfsl_open "(8, 0)" ram_fat 25 1 0, unfolded mult_1_right]
    by (simp add: vfsl_open_fields ram_file_def vfsl_const_defs)
qed

end
