(* ===== verification/Idt.thy ===== *)
theory Idt
  imports Stream Port_Io
begin

text \<open>
  Interrupts: the gates and the dispatch of handlers in \<^verbatim>\<open>idt/idt.c\<close>, the handlers in \<^verbatim>\<open>idt/irqHandler.c\<close> and
  \<^verbatim>\<open>idt/exceptionHandler.c\<close>, and \<^verbatim>\<open>panic\<close> of \<^verbatim>\<open>kernel.c\<close>. A handler is a function on the trap frame and the world
  \<open>'w\<close> outside of these tables. Text output is left out; a panic, which never returns, is a result of
  its own. The 256 entry points are assembly code, their addresses are a parameter.
\<close>

section \<open>State\<close>

record trapFrame =
  tf_r15 :: u64
  tf_r14 :: u64
  tf_r13 :: u64
  tf_r12 :: u64
  tf_r11 :: u64
  tf_r10 :: u64
  tf_r9 :: u64
  tf_r8 :: u64
  tf_rbp :: u64
  tf_rdi :: u64
  tf_rsi :: u64
  tf_rdx :: u64
  tf_rcx :: u64
  tf_rbx :: u64
  tf_rax :: u64
  tf_rip :: u64
  tf_cs :: u64
  tf_flags :: u64
  tf_rsp :: u64
  tf_ds :: u64

datatype panicType = PANIC_TYPE_KERNEL | PANIC_TYPE_EXCEPTION

datatype 'w handled = Returns int 'w | Panics panicType "trapFrame option" string 'w

type_synonym 'w TRAPHANDLER = "trapFrame \<Rightarrow> 'w \<Rightarrow> 'w handled"

text \<open>\<^verbatim>\<open>panic\<close> stops the machine with a message.\<close>

definition panic :: "panicType \<Rightarrow> trapFrame option \<Rightarrow> string \<Rightarrow> 'w \<Rightarrow> 'w handled" where
  "panic type frame message w = Panics type frame message w"

record 'w idt_state =
  idt :: "byte list"
  idtPtr_size :: u16
  idtPtr_offset :: u64
  handlerList :: "'w TRAPHANDLER option list"
  loadedIdt :: "(u16 \<times> u64) option"

definition BOBAOS_TOTAL_INTERRUPTS :: nat where "BOBAOS_TOTAL_INTERRUPTS = 256"
definition BOBAOS_KERNEL_SELECTOR_CODE :: u16 where "BOBAOS_KERNEL_SELECTOR_CODE = 8"
definition IDT_GATE_TYPE_INTERRUPT :: byte where "IDT_GATE_TYPE_INTERRUPT = 0xE"
definition sizeof_idtEntry :: nat where "sizeof_idtEntry = 16"

lemmas idt_const_defs =
  BOBAOS_TOTAL_INTERRUPTS_def BOBAOS_KERNEL_SELECTOR_CODE_def IDT_GATE_TYPE_INTERRUPT_def sizeof_idtEntry_def

section \<open>Gates\<close>

text \<open>\<open>junk\<close> is the field \<^verbatim>\<open>reserved\<close> of the local entry, which is not initialised.\<close>

definition idtEntry :: "u32 \<Rightarrow> u64 \<Rightarrow> byte \<Rightarrow> byte \<Rightarrow> u16 \<Rightarrow> byte list" where
  "idtEntry junk address gateType dpl selector =
     bytes16 (ucast (address AND 0xFFFF)) @ bytes16 selector @ [0, 0x80 OR push_bit 5 dpl OR gateType] @
     bytes16 (ucast (drop_bit 16 address AND 0xFFFF)) @ bytes32 (ucast (drop_bit 32 address AND 0xFFFFFFFF)) @
     bytes32 junk"

definition idtSet ::
  "u32 \<Rightarrow> u16 \<Rightarrow> u64 \<Rightarrow> byte \<Rightarrow> byte \<Rightarrow> u16 \<Rightarrow> 'w idt_state \<Rightarrow> 'w idt_state option" where
  "idtSet junk vector address gateType dpl selector s = do {
     l \<leftarrow> memcpy_between (idt s) (sizeof_idtEntry * unat vector) (idtEntry junk address gateType dpl selector) 0 sizeof_idtEntry;
     Some (s\<lparr>idt := l\<rparr>)
   }"

primrec fillIdt_loop :: "nat \<Rightarrow> nat \<Rightarrow> u32 \<Rightarrow> (nat \<Rightarrow> u64) \<Rightarrow> 'w idt_state \<Rightarrow> 'w idt_state option" where
  "fillIdt_loop 0 i junk idtAddressList s = Some s"
| "fillIdt_loop (Suc n) i junk idtAddressList s = do {
     s \<leftarrow> idtSet junk (of_nat i) (idtAddressList i) IDT_GATE_TYPE_INTERRUPT 0 BOBAOS_KERNEL_SELECTOR_CODE s;
     fillIdt_loop n (Suc i) junk idtAddressList s
   }"

definition fillIdt :: "u32 \<Rightarrow> (nat \<Rightarrow> u64) \<Rightarrow> 'w idt_state \<Rightarrow> 'w idt_state option" where
  "fillIdt junk idtAddressList s = fillIdt_loop BOBAOS_TOTAL_INTERRUPTS 0 junk idtAddressList s"

section \<open>Handlers\<close>

definition registerHandler :: "u16 \<Rightarrow> 'w TRAPHANDLER \<Rightarrow> 'w idt_state \<Rightarrow> (int \<times> 'w idt_state) option" where
  "registerHandler vector handler s =
     (if unat vector \<ge> BOBAOS_TOTAL_INTERRUPTS then Some (- EIARG, s)
      else do {
        l \<leftarrow> wr (handlerList s) (unat vector) (Some handler);
        Some (0, s\<lparr>handlerList := l\<rparr>)
      })"

primrec registerHandlers :: "(u16 \<times> 'w TRAPHANDLER) list \<Rightarrow> 'w idt_state \<Rightarrow> 'w idt_state option" where
  "registerHandlers [] s = Some s"
| "registerHandlers (vh # vhs) s = do {
     (_, s) \<leftarrow> registerHandler (fst vh) (snd vh) s;
     registerHandlers vhs s
   }"

definition noInterruptHandler :: "'w TRAPHANDLER" where
  "noInterruptHandler frame w = Returns 0 w"

definition timerInterrupt :: "'w TRAPHANDLER" where
  "timerInterrupt frame w = Returns 0 w"

definition freePeripherals :: "'w TRAPHANDLER" where
  "freePeripherals frame w = Returns 0 w"

definition initIrqHandler :: "'w idt_state \<Rightarrow> 'w idt_state option" where
  "initIrqHandler s = registerHandlers
     ((32, timerInterrupt) # map (\<lambda>i. (of_nat i, noInterruptHandler)) [33..<48] @ [(43, freePeripherals)]) s"

definition divError :: "'w TRAPHANDLER" where
  "divError frame w = panic PANIC_TYPE_EXCEPTION (Some frame) ''Divide by zero'' w"

definition debugError :: "'w TRAPHANDLER" where
  "debugError frame w = panic PANIC_TYPE_EXCEPTION (Some frame) ''Debug'' w"

definition NoMaskIntError :: "'w TRAPHANDLER" where
  "NoMaskIntError frame w = panic PANIC_TYPE_EXCEPTION (Some frame) ''Non-maskable Interrupt'' w"

definition breakError :: "'w TRAPHANDLER" where
  "breakError frame w = panic PANIC_TYPE_EXCEPTION (Some frame) ''Breakpoint hit'' w"

definition overflowError :: "'w TRAPHANDLER" where
  "overflowError frame w = panic PANIC_TYPE_EXCEPTION (Some frame) ''Overflow'' w"

definition boundRangeError :: "'w TRAPHANDLER" where
  "boundRangeError frame w = panic PANIC_TYPE_EXCEPTION (Some frame) ''Bound Range Exceeded'' w"

definition invalidOpcodeError :: "'w TRAPHANDLER" where
  "invalidOpcodeError frame w = panic PANIC_TYPE_EXCEPTION (Some frame) ''Invalid Opcode'' w"

definition deviceNotAvailableError :: "'w TRAPHANDLER" where
  "deviceNotAvailableError frame w = panic PANIC_TYPE_EXCEPTION (Some frame) ''Device Not Available'' w"

definition doubleFaultError :: "'w TRAPHANDLER" where
  "doubleFaultError frame w = panic PANIC_TYPE_EXCEPTION (Some frame) ''Double Fault'' w"

definition tssError :: "'w TRAPHANDLER" where
  "tssError frame w = panic PANIC_TYPE_EXCEPTION (Some frame) ''Invalid Tss'' w"

definition segmentPresentError :: "'w TRAPHANDLER" where
  "segmentPresentError frame w = panic PANIC_TYPE_EXCEPTION (Some frame) ''Segment Not Present'' w"

definition stackSegmentError :: "'w TRAPHANDLER" where
  "stackSegmentError frame w = panic PANIC_TYPE_EXCEPTION (Some frame) ''Stack Segment Fault'' w"

definition protectionError :: "'w TRAPHANDLER" where
  "protectionError frame w = panic PANIC_TYPE_EXCEPTION (Some frame) ''General Protection Fault'' w"

definition pageError :: "'w TRAPHANDLER" where
  "pageError frame w = panic PANIC_TYPE_EXCEPTION (Some frame) ''Page Fault'' w"

definition machineError :: "'w TRAPHANDLER" where
  "machineError frame w = panic PANIC_TYPE_EXCEPTION (Some frame) ''Machine Check'' w"

definition floatingPointError :: "'w TRAPHANDLER" where
  "floatingPointError frame w = panic PANIC_TYPE_EXCEPTION (Some frame) ''Floating Point Exception'' w"

definition alignmentError :: "'w TRAPHANDLER" where
  "alignmentError frame w = panic PANIC_TYPE_EXCEPTION (Some frame) ''Alignment Check'' w"

definition smidFloatingPointError :: "'w TRAPHANDLER" where
  "smidFloatingPointError frame w = panic PANIC_TYPE_EXCEPTION (Some frame) ''SMID Floating Point Exception'' w"

definition virtualizationError :: "'w TRAPHANDLER" where
  "virtualizationError frame w = panic PANIC_TYPE_EXCEPTION (Some frame) ''Virtualization Exception'' w"

definition controlError :: "'w TRAPHANDLER" where
  "controlError frame w = panic PANIC_TYPE_EXCEPTION (Some frame) ''Control Protection Exception'' w"

definition hypervisorError :: "'w TRAPHANDLER" where
  "hypervisorError frame w = panic PANIC_TYPE_EXCEPTION (Some frame) ''Hypervisoir Injection Exception'' w"

definition vmmError :: "'w TRAPHANDLER" where
  "vmmError frame w = panic PANIC_TYPE_EXCEPTION (Some frame) ''VMM Communication Exception'' w"

definition securityError :: "'w TRAPHANDLER" where
  "securityError frame w = panic PANIC_TYPE_EXCEPTION (Some frame) ''Security Exception'' w"

definition initExceptionHandler :: "'w idt_state \<Rightarrow> 'w idt_state option" where
  "initExceptionHandler s = registerHandlers
    [(0, divError),
     (1, debugError),
     (2, NoMaskIntError),
     (3, breakError),
     (4, overflowError),
     (5, boundRangeError),
     (6, invalidOpcodeError),
     (7, deviceNotAvailableError),
     (8, doubleFaultError),
     (10, tssError),
     (11, segmentPresentError),
     (12, stackSegmentError),
     (13, protectionError),
     (14, pageError),
     (16, floatingPointError),
     (17, alignmentError),
     (18, machineError),
     (19, smidFloatingPointError),
     (20, virtualizationError),
     (21, controlError),
     (28, hypervisorError),
     (29, vmmError),
     (30, securityError)] s"

text \<open>A vector without a handler is reported, and then called nevertheless, which is a fault.\<close>

definition trapHandler ::
  "'w port_io \<Rightarrow> u16 \<Rightarrow> u32 \<Rightarrow> trapFrame \<Rightarrow> 'w idt_state \<Rightarrow> 'w \<Rightarrow> 'w handled option" where
  "trapHandler io vector errorCode frame s w =
     (if unat vector \<ge> BOBAOS_TOTAL_INTERRUPTS then Some (Returns 0 w)
      else do {
        slot \<leftarrow> rd (handlerList s) (unat vector);
        handler \<leftarrow> slot;
        case handler frame w of
          Panics t f msg w \<Rightarrow> Some (Panics t f msg w)
        | Returns ret w \<Rightarrow>
            if vector > 31 \<and> vector < 48 then Some (Returns 0 (outb io 0x20 0x20 w)) else Some (Returns 0 w)
      })"

text \<open>\<open>address\<close> is the one of the array \<^verbatim>\<open>idt\<close>.\<close>

definition idtInit :: "u32 \<Rightarrow> (nat \<Rightarrow> u64) \<Rightarrow> u64 \<Rightarrow> 'w idt_state \<Rightarrow> 'w idt_state option" where
  "idtInit junk idtAddressList address s = do {
     let s = s\<lparr>idt := replicate (BOBAOS_TOTAL_INTERRUPTS * sizeof_idtEntry) 0,
       handlerList := replicate BOBAOS_TOTAL_INTERRUPTS None\<rparr>;
     s \<leftarrow> fillIdt junk idtAddressList s;
     s \<leftarrow> initIrqHandler s;
     s \<leftarrow> initExceptionHandler s;
     let sz = of_nat (sizeof_idtEntry * BOBAOS_TOTAL_INTERRUPTS - 1);
     Some (s\<lparr>idtPtr_offset := address, idtPtr_size := sz, loadedIdt := Some (sz, address)\<rparr>)
   }"

section \<open>What the processor reads\<close>

definition gate_offset :: "byte list \<Rightarrow> u64" where
  "gate_offset d = ucast (d ! 0) OR push_bit 8 (ucast (d ! 1)) OR push_bit 16 (ucast (d ! 6)) OR push_bit 24 (ucast (d ! 7)) OR
     push_bit 32 (ucast (d ! 8)) OR push_bit 40 (ucast (d ! 9)) OR push_bit 48 (ucast (d ! 10)) OR push_bit 56 (ucast (d ! 11))"

definition gate_selector :: "byte list \<Rightarrow> u16" where
  "gate_selector d = ucast (d ! 2) OR push_bit 8 (ucast (d ! 3))"

definition gate :: "byte list \<Rightarrow> nat \<Rightarrow> byte list" where
  "gate table v = take sizeof_idtEntry (drop (sizeof_idtEntry * v) table)"

lemma length_idtEntry [simp]: "length (idtEntry junk a t p sel) = 16"
  by (simp add: idtEntry_def bytes16_def bytes32_def)

lemma join_word:
  fixes w :: u64
  shows "ucast (ucast w :: byte) OR push_bit 8 (ucast (ucast (drop_bit 8 w) :: byte)) = take_bit 16 w"
    "take_bit 16 w OR push_bit 16 (ucast (ucast (drop_bit 16 w) :: byte)) = take_bit 24 w"
    "take_bit 24 w OR push_bit 24 (ucast (ucast (drop_bit 24 w) :: byte)) = take_bit 32 w"
    "take_bit 32 w OR push_bit 32 (ucast (ucast (drop_bit 32 w) :: byte)) = take_bit 40 w"
    "take_bit 40 w OR push_bit 40 (ucast (ucast (drop_bit 40 w) :: byte)) = take_bit 48 w"
    "take_bit 48 w OR push_bit 48 (ucast (ucast (drop_bit 48 w) :: byte)) = take_bit 56 w"
    "take_bit 56 w OR push_bit 56 (ucast (ucast (drop_bit 56 w) :: byte)) = w"
  by (rule bit_word_eqI, auto simp: bit_simps; metis le_add_diff_inverse linorder_not_le)+

lemma entry_bytes:
  fixes junk a t p sel
  defines "d \<equiv> idtEntry junk a t p sel"
  shows "d ! 0 = ucast a" "d ! 1 = ucast (drop_bit 8 a)" "d ! 2 = ucast sel" "d ! 3 = ucast (drop_bit 8 sel)"
    "d ! 5 = 0x80 OR push_bit 5 p OR t" "d ! 6 = ucast (drop_bit 16 a)" "d ! 7 = ucast (drop_bit 24 a)"
    "d ! 8 = ucast (drop_bit 32 a)" "d ! 9 = ucast (drop_bit 40 a)" "d ! 10 = ucast (drop_bit 48 a)" "d ! 11 = ucast (drop_bit 56 a)"
proof -
  have m: "(0xFFFF :: u64) = mask 16" "(0xFFFFFFFF :: u64) = mask 32" by (simp_all add: mask_eq_exp_minus_1)
  show "d ! 2 = ucast sel" "d ! 3 = ucast (drop_bit 8 sel)" "d ! 5 = 0x80 OR push_bit 5 p OR t"
    by (simp_all add: d_def idtEntry_def bytes16_def bytes32_def)
  show "d ! 0 = ucast a" "d ! 1 = ucast (drop_bit 8 a)" "d ! 6 = ucast (drop_bit 16 a)" "d ! 7 = ucast (drop_bit 24 a)"
    "d ! 8 = ucast (drop_bit 32 a)" "d ! 9 = ucast (drop_bit 40 a)" "d ! 10 = ucast (drop_bit 48 a)" "d ! 11 = ucast (drop_bit 56 a)"
    unfolding d_def idtEntry_def bytes16_def bytes32_def m
    by (simp_all del: drop_bit_and) (rule bit_word_eqI; auto simp: bit_simps)+
qed

text \<open>
  Property C35. Setting a gate below 256 makes the processor read exactly the handler's address, the selector,
  the privilege level and the type, with the present bit set, and leaves every other gate as it
  was. A vector from 256 on writes behind the table.
\<close>

theorem idtSet_gate:
  assumes "length (idt s) = sizeof_idtEntry * BOBAOS_TOTAL_INTERRUPTS" and "dpl < 4" and "gateType < 16"
  shows "if unat vector < BOBAOS_TOTAL_INTERRUPTS
    then \<exists>l. idtSet junk vector address gateType dpl selector s = Some (s\<lparr>idt := l\<rparr>) \<and> length l = length (idt s) \<and>
      gate_offset (gate l (unat vector)) = address \<and> gate_selector (gate l (unat vector)) = selector \<and>
      take_bit 4 (gate l (unat vector) ! 5) = gateType \<and> take_bit 2 (drop_bit 5 (gate l (unat vector) ! 5)) = dpl \<and>
      bit (gate l (unat vector) ! 5) 7 \<and>
      (\<forall>v. v \<noteq> unat vector \<longrightarrow> gate l v = gate (idt s) v)
    else idtSet junk vector address gateType dpl selector s = None"
proof (cases "unat vector < BOBAOS_TOTAL_INTERRUPTS")
  case False
  with assms(1) show ?thesis by (simp add: idtSet_def memcpy_between_def idt_const_defs)
next
  case True
  let ?v = "unat vector" and ?e = "idtEntry junk address gateType dpl selector"
  let ?l = "overwrite (idt s) (16 * ?v) ?e"
  have v: "16 * ?v + 16 \<le> length (idt s)" using True assms(1) by (simp add: idt_const_defs)
  have set: "idtSet junk vector address gateType dpl selector s = Some (s\<lparr>idt := ?l\<rparr>)"
    using v by (simp add: idtSet_def memcpy_between_def idt_const_defs)
  have g: "gate ?l ?v = ?e" using v by (simp add: gate_def overwrite_def sizeof_idtEntry_def)
  have o: "gate ?l w = gate (idt s) w" if "w \<noteq> ?v" for w
  proof (rule nth_equalityI)
    show "length (gate ?l w) = length (gate (idt s) w)" using v by (simp add: gate_def)
    fix i assume i: "i < length (gate ?l w)"
    then have "i < 16" "16 * w + i < length (idt s)" using v by (auto simp: gate_def sizeof_idtEntry_def)
    moreover have "16 * w + i < 16 * ?v \<or> 16 * ?v + 16 \<le> 16 * w + i"
      using \<open>i < 16\<close> that by (cases "w < ?v") linarith+
    ultimately show "gate ?l w ! i = gate (idt s) w ! i"
      using v by (auto simp: gate_def sizeof_idtEntry_def nth_overwrite)
  qed
  have d: "n < 2" if "bit dpl n" for n
  proof -
    have "dpl = take_bit 2 dpl" using assms(2) by (simp add: word_unat_eq_iff unsigned_take_bit_eq take_bit_nat_eq_self word_less_nat_alt)
    then show ?thesis using that by (metis bit_take_bit_iff)
  qed
  have t: "n < 4" if "bit gateType n" for n
  proof -
    have "gateType = take_bit 4 gateType" using assms(3) by (simp add: word_unat_eq_iff unsigned_take_bit_eq take_bit_nat_eq_self word_less_nat_alt)
    then show ?thesis using that by (metis bit_take_bit_iff)
  qed
  have top: "(0x80 :: byte) = NOT (mask 7)" by (simp add: mask_eq_exp_minus_1)
  have "gate_offset ?e = address" by (simp add: gate_offset_def entry_bytes entry_bytes(2) [simplified] join_word flip: or.assoc)
  moreover have "gate_selector ?e = selector"
    unfolding gate_selector_def entry_bytes by (rule bit_word_eqI) (auto simp: bit_simps)
  moreover have "take_bit 4 (?e ! 5) = gateType" "take_bit 2 (drop_bit 5 (?e ! 5)) = dpl"
    unfolding entry_bytes top by (rule bit_word_eqI; auto simp: bit_simps dest: d t)+
  moreover have "bit (?e ! 5) 7" unfolding entry_bytes top by (simp add: bit_simps)
  ultimately show ?thesis using True set g o v by auto
qed

section \<open>The handlers after the initialisation\<close>

definition exceptions :: "(nat \<times> string) list" where
  "exceptions =
    [(0, ''Divide by zero''),
     (1, ''Debug''),
     (2, ''Non-maskable Interrupt''),
     (3, ''Breakpoint hit''),
     (4, ''Overflow''),
     (5, ''Bound Range Exceeded''),
     (6, ''Invalid Opcode''),
     (7, ''Device Not Available''),
     (8, ''Double Fault''),
     (10, ''Invalid Tss''),
     (11, ''Segment Not Present''),
     (12, ''Stack Segment Fault''),
     (13, ''General Protection Fault''),
     (14, ''Page Fault''),
     (16, ''Floating Point Exception''),
     (17, ''Alignment Check''),
     (18, ''Machine Check''),
     (19, ''SMID Floating Point Exception''),
     (20, ''Virtualization Exception''),
     (21, ''Control Protection Exception''),
     (28, ''Hypervisoir Injection Exception''),
     (29, ''VMM Communication Exception''),
     (30, ''Security Exception'')]"

lemma registered:
  assumes "\<forall>(v, h) \<in> set vhs. unat v < 256" and "length (handlerList s) = 256"
  shows "\<exists>l. registerHandlers vhs s = Some (s\<lparr>handlerList := l\<rparr>) \<and> length l = 256 \<and>
    (\<forall>i < 256. l ! i = (case map_of (rev (map (\<lambda>(v, h). (unat v, h)) vhs)) i of Some h \<Rightarrow> Some h | None \<Rightarrow> handlerList s ! i))"
  using assms
proof (induction vhs arbitrary: s)
  case Nil
  then show ?case by (intro exI [of _ "handlerList s"]) simp
next
  case (Cons vh vhs)
  obtain v h where vh: "vh = (v, h)" by (cases vh)
  let ?s = "s\<lparr>handlerList := (handlerList s)[unat v := Some h]\<rparr>"
  have v: "unat v < 256" "\<forall>(v, h) \<in> set vhs. unat v < 256" using Cons.prems(1) vh by auto
  have "registerHandler v h s = Some (0, ?s)"
    using v(1) Cons.prems(2) by (simp add: registerHandler_def wr_def BOBAOS_TOTAL_INTERRUPTS_def)
  moreover obtain l where l: "registerHandlers vhs ?s = Some (?s\<lparr>handlerList := l\<rparr>)" "length l = 256"
    "\<forall>i < 256. l ! i = (case map_of (rev (map (\<lambda>(v, h). (unat v, h)) vhs)) i of Some h \<Rightarrow> Some h | None \<Rightarrow> handlerList ?s ! i)"
    using Cons.IH [OF v(2), of ?s] Cons.prems(2) by auto
  ultimately show ?case
    using v(1) Cons.prems(2) by (intro exI [of _ l]) (auto simp: vh map_add_def split: option.splits)
qed

lemma filled:
  assumes "length (idt s) = 16 * 256" and "n + i \<le> 256"
  shows "\<exists>l. fillIdt_loop n i junk addrs s = Some (s\<lparr>idt := l\<rparr>) \<and> length l = 16 * 256"
  using assms
proof (induction n arbitrary: i s)
  case 0
  then show ?case by (intro exI [of _ "idt s"]) simp
next
  case (Suc n)
  then have "unat (of_nat i :: u16) = i" by (intro unat_of_nat_small) simp
  then obtain l where "idtSet junk (of_nat i) (addrs i) 0xE 0 8 s = Some (s\<lparr>idt := l\<rparr>)" "length l = 16 * 256"
    using Suc.prems by (simp add: idtSet_def memcpy_between_def sizeof_idtEntry_def)
  with Suc.IH [of "s\<lparr>idt := l\<rparr>" "Suc i"] Suc.prems(2) show ?case by (auto simp: idt_const_defs)
qed

lemmas handler_defs = divError_def debugError_def NoMaskIntError_def breakError_def overflowError_def boundRangeError_def invalidOpcodeError_def deviceNotAvailableError_def doubleFaultError_def tssError_def segmentPresentError_def stackSegmentError_def protectionError_def pageError_def machineError_def floatingPointError_def alignmentError_def smidFloatingPointError_def virtualizationError_def controlError_def hypervisorError_def vmmError_def securityError_def
  panic_def noInterruptHandler_def timerInterrupt_def freePeripherals_def

lemma exception_handlers:
  "rev (map (\<lambda>(v, h). (unat v, h)) [(0 :: u16, divError), (1, debugError), (2, NoMaskIntError), (3, breakError), (4, overflowError), (5, boundRangeError), (6, invalidOpcodeError), (7, deviceNotAvailableError), (8, doubleFaultError), (10, tssError), (11, segmentPresentError), (12, stackSegmentError), (13, protectionError), (14, pageError), (16, floatingPointError), (17, alignmentError), (18, machineError), (19, smidFloatingPointError), (20, virtualizationError), (21, controlError), (28, hypervisorError), (29, vmmError), (30, securityError)]) =
    map (\<lambda>(v, msg). (v, \<lambda>frame w. Panics PANIC_TYPE_EXCEPTION (Some frame) msg w)) (rev exceptions)"
  by (simp add: exceptions_def fun_eq_iff handler_defs)

lemma irq_handlers:
  "map_of (rev (map (\<lambda>(v, h). (unat v, h)) ((32 :: u16, timerInterrupt :: 'w TRAPHANDLER) # map (\<lambda>i. (of_nat i, noInterruptHandler)) [33..<48] @
      [(43, freePeripherals)]))) i = (if 32 \<le> i \<and> i < 48 then Some (\<lambda>frame w. Returns 0 w) else None)"
proof -
  let ?is = "32 # [33..<48] @ [43 :: nat]"
  have f: "timerInterrupt = (\<lambda>frame w. Returns 0 w)" "noInterruptHandler = (\<lambda>frame w. Returns 0 w)"
    "freePeripherals = (\<lambda>frame w. Returns 0 w)"
    by (simp_all add: fun_eq_iff handler_defs)
  have u: "unat (of_nat i :: u16) = i" if "i < 48" for i :: nat
    using that by (intro unat_of_nat_small) simp
  have l: "map (\<lambda>(v, h). (unat v, h)) ((32 :: u16, timerInterrupt) # map (\<lambda>i. (of_nat i, noInterruptHandler)) [33..<48] @ [(43, freePeripherals)]) =
      map (\<lambda>i. (i, \<lambda>frame w. Returns 0 w)) ?is"
    using u by (simp add: f)
  have "map_of (rev (map (\<lambda>i. (i, (\<lambda>frame w. Returns 0 w) :: 'w TRAPHANDLER)) ?is)) = (Some \<circ> (\<lambda>i frame w. Returns 0 w)) |` set (rev ?is)"
    by (simp only: rev_map map_of_map_restrict)
  moreover have "i \<in> set (rev ?is) \<longleftrightarrow> 32 \<le> i \<and> i < 48"
    by (simp only: set_rev set_append list.set set_upt) auto
  ultimately show ?thesis unfolding l by (simp only: restrict_map_def comp_def)
qed

text \<open>
  Property C36. After the initialisation, which always succeeds, an interrupt of the controller (vectors 32
  to 47) returns after exactly one acknowledgement at port \<^verbatim>\<open>0x20\<close>, an exception with a handler panics
  with its message, and a vector from 256 on is ignored. For every other vector the report that
  there is no handler is followed by a call through \<^verbatim>\<open>NULL\<close>.
\<close>

theorem trapHandler_dispatch:
  "\<exists>s. idtInit junk addrs address s0 = Some s \<and> loadedIdt s = Some (4095, address) \<and>
    (\<forall>vector errorCode frame w. trapHandler io vector errorCode frame s w =
      (if 256 \<le> unat vector then Some (Returns 0 w)
       else if 32 \<le> unat vector \<and> unat vector < 48 then Some (Returns 0 (outb io 0x20 0x20 w))
       else case map_of exceptions (unat vector) of
         Some message \<Rightarrow> Some (Panics PANIC_TYPE_EXCEPTION (Some frame) message w)
       | None \<Rightarrow> None))"
proof -
  let ?s1 = "s0\<lparr>idt := replicate (256 * 16) 0, handlerList := replicate 256 None\<rparr>"
  obtain l where l: "fillIdt junk addrs ?s1 = Some (?s1\<lparr>idt := l\<rparr>)"
    using filled [of ?s1 256 0 junk addrs] by (auto simp: fillIdt_def BOBAOS_TOTAL_INTERRUPTS_def)
  let ?s2 = "?s1\<lparr>idt := l\<rparr>"
  obtain hs where hs: "initIrqHandler ?s2 = Some (?s2\<lparr>handlerList := hs\<rparr>)" "length hs = 256"
    "\<forall>i < 256. hs ! i = (if 32 \<le> i \<and> i < 48 then Some (\<lambda>frame w. Returns 0 w) else None)"
  proof -
    have "\<exists>hs. initIrqHandler ?s2 = Some (?s2\<lparr>handlerList := hs\<rparr>) \<and> length hs = 256 \<and> (\<forall>i < 256. hs ! i =
        (case (if 32 \<le> i \<and> i < 48 then Some (\<lambda>frame w. Returns 0 w) else None) of Some h \<Rightarrow> Some h | None \<Rightarrow> handlerList ?s2 ! i))"
      unfolding initIrqHandler_def irq_handlers [symmetric]
      by (rule registered) (auto simp: unat_of_nat)
    then show thesis using that by (force split: option.splits)
  qed
  let ?s3 = "?s2\<lparr>handlerList := hs\<rparr>"
  obtain ts where ts: "initExceptionHandler ?s3 = Some (?s3\<lparr>handlerList := ts\<rparr>)" "length ts = 256"
    "\<forall>i < 256. ts ! i = (case map_of (map (\<lambda>(v, msg). (v, \<lambda>frame w. Panics PANIC_TYPE_EXCEPTION (Some frame) msg w)) (rev exceptions)) i
      of Some h \<Rightarrow> Some h | None \<Rightarrow> hs ! i)"
  proof -
    have "\<exists>ts. initExceptionHandler ?s3 = Some (?s3\<lparr>handlerList := ts\<rparr>) \<and> length ts = 256 \<and> (\<forall>i < 256. ts ! i =
        (case map_of (map (\<lambda>(v, msg). (v, \<lambda>frame w. Panics PANIC_TYPE_EXCEPTION (Some frame) msg w)) (rev exceptions)) i
          of Some h \<Rightarrow> Some h | None \<Rightarrow> handlerList ?s3 ! i))"
      unfolding initExceptionHandler_def exception_handlers [symmetric]
      by (rule registered) (use hs(2) in simp_all)
    then show thesis using that by (simp cong: option.case_cong) blast
  qed
  have "distinct (map fst exceptions)" by (simp add: exceptions_def)
  then have rev: "map_of (rev exceptions) = map_of exceptions" by (simp add: map_of_inject_set rev_map [symmetric])
  have apart: "map_of exceptions v = None" if "32 \<le> v" for v
    using that by (auto simp: map_of_eq_None_iff exceptions_def)
  have t: "ts ! i = (if 32 \<le> i \<and> i < 48 then Some (\<lambda>frame w. Returns 0 w)
      else map_option (\<lambda>msg frame w. Panics PANIC_TYPE_EXCEPTION (Some frame) msg w) (map_of exceptions i))" if "i < 256" for i
    using ts(3) hs(3) that apart [of i] by (simp add: map_of_map rev split: option.splits)
  let ?s = "?s3\<lparr>handlerList := ts, idtPtr_offset := address, idtPtr_size := 4095, loadedIdt := Some (4095, address)\<rparr>"
  have "idtInit junk addrs address s0 = Some ?s"
    using l hs(1) ts(1) by (simp add: idtInit_def idt_const_defs)
  moreover have "trapHandler io vector errorCode frame ?s w =
      (if 256 \<le> unat vector then Some (Returns 0 w)
       else if 32 \<le> unat vector \<and> unat vector < 48 then Some (Returns 0 (outb io 0x20 0x20 w))
       else case map_of exceptions (unat vector) of
         Some message \<Rightarrow> Some (Panics PANIC_TYPE_EXCEPTION (Some frame) message w)
       | None \<Rightarrow> None)" for vector errorCode frame w
  proof (cases "256 \<le> unat vector")
    case False
    have irq: "vector > 31 \<and> vector < 48 \<longleftrightarrow> 32 \<le> unat vector \<and> unat vector < 48"
      by (auto simp: word_less_nat_alt)
    have "rd ts (unat vector) = Some (ts ! unat vector)" using False ts(2) by (simp add: rd_def)
    with t [of "unat vector"] False show ?thesis
      unfolding trapHandler_def irq by (auto simp: BOBAOS_TOTAL_INTERRUPTS_def split: option.splits)
  qed (simp add: trapHandler_def BOBAOS_TOTAL_INTERRUPTS_def)
  ultimately show ?thesis by (intro exI [of _ ?s]) simp
qed

definition idt_start :: "unit idt_state" where
  "idt_start = \<lparr>idt = replicate 4096 0, idtPtr_size = 0, idtPtr_offset = 0, handlerList = replicate 256 None, loadedIdt = None\<rparr>"

theorem idtSet_gate_witness:
  "\<exists>l. idtSet 0 14 0xFFFF800000110000 0xE 0 8 idt_start = Some (idt_start\<lparr>idt := l\<rparr>) \<and> gate_offset (gate l 14) = 0xFFFF800000110000"
  using idtSet_gate [of idt_start 0 "0xE" 14 0 "0xFFFF800000110000" 8]
  by (auto simp: idt_start_def idt_const_defs)

end
