(* ===== verification/Process.thy ===== *)
theory Process
  imports Vfsl Idt Paging
begin

text \<open>
  Tasks and processes: \<^verbatim>\<open>task/task.c\<close>, \<^verbatim>\<open>task/process.c\<close> and the empty functions of \<^verbatim>\<open>task/scheduler.c\<close>. The state
  contains the one of the file system layer, which holds the heap as well. Tasks, trap frames and
  processes live in stores indexed by the addresses that the heap returned.
\<close>

section \<open>State\<close>

datatype taskState = TASK_STATE_READY | TASK_STATE_RUNNING | TASK_STATE_SLEEP | TASK_STATE_KERNEL

record task =
  task_id :: u32
  task_pid :: u32
  task_frame :: u64
  task_state :: taskState
  task_kernelStack :: u64
  task_head :: u64
  task_tail :: u64

record process =
  proc_pid :: u32
  proc_parentProcess :: u64
  proc_path :: "byte list"
  proc_mainTask :: u64
  proc_flags :: u32
  proc_allocations :: u64
  proc_pageTable :: u64
  proc_returnCode :: byte

record 'h process_state =
  vfs :: "'h vfsl_state"
  nextTaskId :: u32
  nextProcess :: u32
  nextProcessId :: u32
  processList :: "process list"
  tasks :: "u64 \<Rightarrow> task"
  frames :: "u64 \<Rightarrow> trapFrame"
  processes :: "u64 \<Rightarrow> process"

definition BOBAOS_USER_SELECTOR_CODE :: u64 where "BOBAOS_USER_SELECTOR_CODE = 0x1B"
definition BOBAOS_USER_SELECTOR_DATA :: u64 where "BOBAOS_USER_SELECTOR_DATA = 0x23"
definition BOBAOS_MAX_PROCESSES :: nat where "BOBAOS_MAX_PROCESSES = 12"
definition BOBAOS_DEFAULT_PROCESS_ENTRY :: u64 where "BOBAOS_DEFAULT_PROCESS_ENTRY = 0x400000"
definition BOBAOS_DEFAULT_TASK_STACK :: u64 where "BOBAOS_DEFAULT_TASK_STACK = 0x3FFFF0"
definition BOBAOS_DEFAULT_TASK_KERNEL_STACK :: u64 where "BOBAOS_DEFAULT_TASK_KERNEL_STACK = 0xffff900000000000"
definition PROCESS_FLAG_FORMAT_BINARY :: u32 where "PROCESS_FLAG_FORMAT_BINARY = 1"
definition PROCESS_FLAG_TYPE_KERNEL :: byte where "PROCESS_FLAG_TYPE_KERNEL = 8"
definition PROCESS_FLAG_STATE_ALIVE :: u32 where "PROCESS_FLAG_STATE_ALIVE = 16"
definition sizeof_task :: u64 where "sizeof_task = 48"
definition sizeof_process :: u64 where "sizeof_process = 312"
definition sizeof_pointer :: u64 where "sizeof_pointer = 8"

definition zero_frame :: trapFrame where
  "zero_frame = \<lparr>tf_r15 = 0, tf_r14 = 0, tf_r13 = 0, tf_r12 = 0, tf_r11 = 0, tf_r10 = 0, tf_r9 = 0, tf_r8 = 0,
     tf_rbp = 0, tf_rdi = 0, tf_rsi = 0, tf_rdx = 0, tf_rcx = 0, tf_rbx = 0, tf_rax = 0, tf_rip = 0, tf_cs = 0,
     tf_flags = 0, tf_rsp = 0, tf_ds = 0\<rparr>"

definition zero_process :: process where
  "zero_process = \<lparr>proc_pid = 0, proc_parentProcess = 0, proc_path = replicate BOBAOS_MAX_PATH_SIZE 0, proc_mainTask = 0,
     proc_flags = 0, proc_allocations = 0, proc_pageTable = 0, proc_returnCode = 0\<rparr>"

section \<open>Tasks\<close>

text \<open>Heap operations on the state.\<close>

definition alloc :: "u64 \<Rightarrow> 'h process_state \<Rightarrow> (u64 \<times> 'h process_state) option" where
  "alloc sz s = do { (p, v) \<leftarrow> kzalloc sz (vfs s); Some (p, s\<lparr>vfs := v\<rparr>) }"

definition release :: "u64 \<Rightarrow> 'h process_state \<Rightarrow> 'h process_state option" where
  "release p s = do { (_, v) \<leftarrow> kzfree p (vfs s); Some (s\<lparr>vfs := v\<rparr>) }"

text \<open>
  The results are the pointer, the error code behind \<^verbatim>\<open>oErrCode\<close>, and the state. The request for the frame
  is for the size of a pointer, and the function returns \<^verbatim>\<open>NULL\<close> although it has made the frame.
\<close>

definition createNewTaskFrame :: "u64 \<Rightarrow> u64 \<Rightarrow> int \<Rightarrow> 'h process_state \<Rightarrow> (u64 \<times> int \<times> 'h process_state) option" where
  "createNewTaskFrame taskStack taskEntry err s = do {
     (frame, s) \<leftarrow> alloc sizeof_pointer s;
     if frame = 0 then Some (0, - ENMEM, s)
     else Some (0, err, s\<lparr>frames := (frames s)(frame := zero_frame\<lparr>tf_rsp := taskStack, tf_rip := taskEntry,
       tf_cs := BOBAOS_USER_SELECTOR_CODE, tf_ds := BOBAOS_USER_SELECTOR_DATA\<rparr>)\<rparr>)
   }"

definition createTaskFromBinFile :: "byte list \<Rightarrow> u32 \<Rightarrow> 'h process_state \<Rightarrow> (u64 \<times> int \<times> 'h process_state) option" where
  "createTaskFromBinFile path pid s = do {
     (fl, err, v) \<leftarrow> fopen path [114, 0] (vfs s);
     let s = s\<lparr>vfs := v\<rparr>;
     if fl = 0 then Some (0, err, s)
     else do {
       (task, s) \<leftarrow> alloc sizeof_task s;
       if task = 0 then Some (0, - ENMEM, s)
       else do {
         (frame, err, s) \<leftarrow> createNewTaskFrame BOBAOS_DEFAULT_TASK_STACK BOBAOS_DEFAULT_PROCESS_ENTRY err s;
         if frame = 0 then Some (0, err, s)
         else Some (task, err, s\<lparr>nextTaskId := nextTaskId s + 1, tasks := (tasks s)(task :=
           \<lparr>task_id = nextTaskId s, task_pid = pid, task_frame = frame, task_state = TASK_STATE_READY,
            task_kernelStack = BOBAOS_DEFAULT_TASK_KERNEL_STACK, task_head = 0, task_tail = 0\<rparr>)\<rparr>)
       }
     }
   }"

definition createTaskFromFile :: "byte list \<Rightarrow> u32 \<Rightarrow> 'h process_state \<Rightarrow> (u64 \<times> int \<times> 'h process_state) option" where
  "createTaskFromFile path pid s = createTaskFromBinFile path pid s"

section \<open>Processes\<close>

definition addToProcessList :: "u64 \<Rightarrow> 'h process_state \<Rightarrow> (int \<times> 'h process_state) option" where
  "addToProcessList process s =
     (if unat (nextProcess s) \<ge> BOBAOS_MAX_PROCESSES then Some (- ENSPACE, s)
      else do {
        l \<leftarrow> wr (processList s) (unat (nextProcess s)) (processes s process);
        Some (SUCCESS, s\<lparr>processList := l, nextProcess := nextProcess s + 1\<rparr>)
      })"

definition processInit :: "'h process_state \<Rightarrow> 'h process_state" where
  "processInit s = s\<lparr>processList := replicate BOBAOS_MAX_PROCESSES zero_process\<rparr>"

text \<open>The label \<^verbatim>\<open>error\<close>.\<close>

definition createProcess_error :: "u64 \<Rightarrow> u64 \<Rightarrow> int \<Rightarrow> 'h process_state \<Rightarrow> (u64 \<times> int \<times> 'h process_state) option" where
  "createProcess_error process task err s = do {
     let s = s\<lparr>nextProcessId := nextProcessId s - 1\<rparr>;
     s \<leftarrow> (if process \<noteq> 0 then release process s else Some s);
     s \<leftarrow> (if task \<noteq> 0 then release task s else Some s);
     Some (0, err, s)
   }"

definition createProcess ::
  "byte list \<Rightarrow> u64 \<Rightarrow> byte \<Rightarrow> 'h process_state \<Rightarrow> (u64 \<times> int \<times> 'h process_state) option" where
  "createProcess path parentProcess processType s =
     (if processType = PROCESS_FLAG_TYPE_KERNEL then Some (0, - ENIMPLEMENTED, s)
      else do {
        (process, s) \<leftarrow> alloc sizeof_process s;
        if process = 0 then Some (0, - ENMEM, s)
        else do {
          let newProcessId = nextProcessId s;
          (task, err, s) \<leftarrow> createTaskFromFile path newProcessId (s\<lparr>nextProcessId := nextProcessId s + 1\<rparr>);
          if task = 0 then createProcess_error process task err s
          else do {
            (table, v) \<leftarrow> createEmptyPageTable (vfs s);
            let s = s\<lparr>vfs := v\<rparr>;
            if table = 0 then createProcess_error process task (- ENMEM) s
            else do {
              pth \<leftarrow> strcpym (proc_path zero_process) path (of_nat BOBAOS_MAX_PATH_SIZE);
              let s = s\<lparr>processes := (processes s)(process := zero_process\<lparr>proc_pid := newProcessId, proc_mainTask := task,
                proc_flags := PROCESS_FLAG_FORMAT_BINARY OR PROCESS_FLAG_STATE_ALIVE OR ucast processType,
                proc_parentProcess := parentProcess, proc_pageTable := table, proc_path := pth\<rparr>)\<rparr>;
              (err, s) \<leftarrow> addToProcessList process s;
              if err < 0 then createProcess_error process task err s else Some (process, err, s)
            }
          }
        }
      })"

definition runProcess :: "u64 \<Rightarrow> int" where
  "runProcess process = (if process = 0 then - EIARG else SUCCESS)"

section \<open>The scheduler\<close>

definition runScheduler :: int where
  "runScheduler = SUCCESS"

definition addTask :: "u64 \<Rightarrow> int" where
  "addTask task = SUCCESS"

section \<open>No process is ever created\<close>

text \<open>The tables of processes and tasks are the same.\<close>

definition tables_kept :: "'h process_state \<Rightarrow> 'h process_state \<Rightarrow> bool" where
  "tables_kept s s' \<longleftrightarrow> processList s' = processList s \<and> nextProcess s' = nextProcess s \<and>
     nextProcessId s' = nextProcessId s \<and> processes s' = processes s \<and> nextTaskId s' = nextTaskId s \<and> tasks s' = tasks s"

text \<open>Two states of the file system layer with the same open files.\<close>

definition same_files :: "'h vfsl_state \<Rightarrow> 'h vfsl_state \<Rightarrow> bool" where
  "same_files v v' \<longleftrightarrow> openFiles v' = openFiles v \<and> listEntries v' = listEntries v \<and> files v' = files v"

lemma same_files_hmem [simp]: "same_files v (v\<lparr>hmem := m\<rparr>)"
  by (simp add: same_files_def)

lemma same_files_trans: "same_files u v \<Longrightarrow> same_files v w \<Longrightarrow> same_files u w"
  by (simp add: same_files_def)

lemma kzalloc_same_files:
  "selected v = KERNEL_HEAP_TYPE_PAGE \<Longrightarrow> kzalloc n v = Some (p, v') \<Longrightarrow> same_files v v' \<and> selected v' = KERNEL_HEAP_TYPE_PAGE"
  using kzalloc_frame [of v n p v'] by auto

lemma kzfree_same_files:
  "selected v = KERNEL_HEAP_TYPE_PAGE \<Longrightarrow> kzfree p v = Some (r, v') \<Longrightarrow> same_files v v'"
  using kzfree_frame [of v p r v'] by auto

lemma createTaskFromFile_null:
  assumes "createTaskFromFile path pid s = Some (task, err, s')"
  shows "task = 0 \<and> tables_kept s s'"
  using assms
  by (auto simp: createTaskFromFile_def createTaskFromBinFile_def createNewTaskFrame_def alloc_def Let_def tables_kept_def
      split: if_splits)

lemma createTaskFromFile_opened:
  assumes "createTaskFromFile path pid s = Some (task, err, s')"
    and "fopen path [114, 0] (vfs s) = Some (fl, e, v)" "fl \<noteq> 0" "selected v = KERNEL_HEAP_TYPE_PAGE"
  shows "same_files v (vfs s') \<and> selected (vfs s') = KERNEL_HEAP_TYPE_PAGE \<and> (err = e \<or> err = - ENMEM)"
proof -
  obtain t v1 where t: "kzalloc sizeof_task v = Some (t, v1)"
    using assms(1-3) by (auto simp: createTaskFromFile_def createTaskFromBinFile_def alloc_def Let_def split: if_splits)
  note k = kzalloc_same_files [OF assms(4) t]
  show ?thesis
  proof (cases "t = 0")
    case True
    then show ?thesis using assms t k
      by (auto simp: createTaskFromFile_def createTaskFromBinFile_def alloc_def Let_def)
  next
    case False
    then obtain f v2 where f: "kzalloc sizeof_pointer v1 = Some (f, v2)" "vfs s' = v2" "err = e \<or> err = - ENMEM"
      using assms(1-3) t
      by (auto simp: createTaskFromFile_def createTaskFromBinFile_def createNewTaskFrame_def alloc_def Let_def split: if_splits)
    then show ?thesis using k kzalloc_same_files [OF _ f(1)] same_files_trans by blast
  qed
qed

lemma createProcess_run:
  assumes "createProcess path parentProcess processType s = Some (p, err, s')" "processType \<noteq> PROCESS_FLAG_TYPE_KERNEL"
    and "kzalloc sizeof_process (vfs s) = Some (process, v)" "process \<noteq> 0"
  obtains s1 w r where "createTaskFromFile path (nextProcessId s) (s\<lparr>vfs := v, nextProcessId := nextProcessId s + 1\<rparr>) = Some (0, err, s1)"
    "kzfree process (vfs s1) = Some (r, w)" "p = 0" "s' = s1\<lparr>nextProcessId := nextProcessId s1 - 1, vfs := w\<rparr>"
proof -
  let ?s = "s\<lparr>vfs := v, nextProcessId := nextProcessId s + 1\<rparr>"
  obtain t e s1 where t: "createTaskFromFile path (nextProcessId s) ?s = Some (t, e, s1)"
    using assms by (auto simp: createProcess_def alloc_def Let_def split: if_splits)
  then have "t = 0" using createTaskFromFile_null by blast
  with t assms obtain r w where "kzfree process (vfs s1) = Some (r, w)" "p = 0" "e = err"
    "s' = s1\<lparr>nextProcessId := nextProcessId s1 - 1, vfs := w\<rparr>"
    by (auto simp: createProcess_def createProcess_error_def alloc_def release_def Let_def)
  with t \<open>t = 0\<close> show thesis by (intro that [of s1 r w]) simp_all
qed

text \<open>
  Property C39. No call of \<^verbatim>\<open>createProcess\<close> creates a process: whenever it returns, the result is \<^verbatim>\<open>NULL\<close> and the
  lists of processes, the counters and the tasks are as before, since \<^verbatim>\<open>createNewTaskFrame\<close> always returns
  \<^verbatim>\<open>NULL\<close>. When the file was opened, it stays open, and the error code is that of the successful
  \<^verbatim>\<open>fopen\<close> unless the heap is full, so that the caller sees no error.
\<close>

theorem createProcess_never:
  assumes run: "createProcess path parentProcess processType s = Some (p, err, s')"
  shows "p = 0 \<and> tables_kept s s' \<and>
    (\<forall>process v fl e w. processType \<noteq> PROCESS_FLAG_TYPE_KERNEL \<and> kzalloc sizeof_process (vfs s) = Some (process, v) \<and>
       process \<noteq> 0 \<and> fopen path [114, 0] v = Some (fl, e, w) \<and> fl \<noteq> 0 \<and> selected w = KERNEL_HEAP_TYPE_PAGE \<longrightarrow>
       same_files w (vfs s') \<and> (err = e \<or> err = - ENMEM))"
proof (cases "processType = PROCESS_FLAG_TYPE_KERNEL")
  case True
  then show ?thesis using run by (simp add: createProcess_def tables_kept_def)
next
  case False
  obtain process v where k: "kzalloc sizeof_process (vfs s) = Some (process, v)"
    using run False by (auto simp: createProcess_def alloc_def split: if_splits)
  show ?thesis
  proof (cases "process = 0")
    case True
    then show ?thesis using run False k by (auto simp: createProcess_def alloc_def tables_kept_def)
  next
    case nz: False
    obtain s1 w r where s1: "createTaskFromFile path (nextProcessId s) (s\<lparr>vfs := v, nextProcessId := nextProcessId s + 1\<rparr>) = Some (0, err, s1)"
      "kzfree process (vfs s1) = Some (r, w)" "p = 0" "s' = s1\<lparr>nextProcessId := nextProcessId s1 - 1, vfs := w\<rparr>"
      by (rule createProcess_run [OF run False k nz])
    have "tables_kept s s'" using createTaskFromFile_null [OF s1(1)] s1(4) by (simp add: tables_kept_def)
    moreover have "same_files u (vfs s') \<and> (err = e \<or> err = - ENMEM)"
      if "fopen path [114, 0] v = Some (fl, e, u)" "fl \<noteq> 0" "selected u = KERNEL_HEAP_TYPE_PAGE" for fl e u
      using createTaskFromFile_opened [OF s1(1) _ that(2,3)] that(1) kzfree_same_files [OF _ s1(2)] s1(4) same_files_trans
      by fastforce
    ultimately show ?thesis using s1(3) k by auto
  qed
qed

section \<open>Witness\<close>

definition process_start :: "byte list process_state" where
  "process_start = \<lparr>vfs = vfsl_open, nextTaskId = 0, nextProcess = 0, nextProcessId = 0,
     processList = replicate BOBAOS_MAX_PROCESSES zero_process,
     tasks = (\<lambda>_. \<lparr>task_id = 0, task_pid = 0, task_frame = 0, task_state = TASK_STATE_READY, task_kernelStack = 0, task_head = 0, task_tail = 0\<rparr>),
     frames = (\<lambda>_. zero_frame), processes = (\<lambda>_. zero_process)\<rparr>"

lemma vfsl_open_busy: "fopen [97, 0] mode (vfsl_open\<lparr>hmem := m\<rparr>) = Some (0, - EIUSE, vfsl_open\<lparr>hmem := m\<rparr>)"
proof -
  obtain i where "i < 1024" "slot_of [97, 0] = Some i" using slot_of_total [of "[97, 0]"] by auto
  then have "checkIfFileIsOpenString [97, 0] (vfsl_open\<lparr>hmem := m\<rparr>) = Some True"
    by (simp add: checkIfFileIsOpenString_def rd_def vfsl_open_def checkOpen_loop.simps vfsl_ram_def ram_file_def
        fat_state.defs vfsl_state.defs)
  then show ?thesis by (simp add: fopen_def)
qed

theorem createProcess_never_witness:
  "\<exists>s'. createProcess [97, 0] 0 4 process_start = Some (0, - EIUSE, s') \<and> tables_kept process_start s'"
proof -
  have eq: "live vfsl_open = live path_ram" "kheap_wf vfsl_open \<longleftrightarrow> kheap_wf path_ram" "table_size vfsl_open = table_size small_heap"
    by ((rule same_heap)?; simp add: vfsl_open_def vfsl_ram_def vfsl_state.defs fat_ram_defs)+
  have wf: "kheap_wf vfsl_open" "selected vfsl_open = KERNEL_HEAP_TYPE_PAGE"
    using eq path_ram_heap by (simp_all add: kheap_wf_def)
  have sz: "size_ok sizeof_process" "pages_for sizeof_process = 1"
    by (simp_all add: sizeof_process_def size_ok_def pages_for_def)
  obtain process v where k: "kzalloc sizeof_process vfsl_open = Some (process, v)" using kh.alloc_total [OF wf(1) sz(1)] by blast
  obtain m where m: "v = vfsl_open\<lparr>hmem := m\<rparr>" using kzalloc_frame [OF wf(2) k] by blast
  have nz: "process \<noteq> 0"
    using kheap_serves_page [OF wf(1), of "{}" sizeof_process v] eq(1,3) path_ram_heap small_heap_pages sz k by auto
  obtain r w where "kzfree process v = Some (r, w)" using wf(2) nz by (cases "kzfreePage process v") (auto simp: kzfree_def m)
  then obtain s' where r: "createProcess [97, 0] 0 4 process_start = Some (0, - EIUSE, s')"
    using k nz vfsl_open_busy [of "[114, 0]" m]
    by (simp add: createProcess_def alloc_def release_def process_start_def PROCESS_FLAG_TYPE_KERNEL_def Let_def m
        createTaskFromFile_def createTaskFromBinFile_def createProcess_error_def)
  then show ?thesis using createProcess_never [OF r] by blast
qed

end
