(* ===== verification/Memory_Map.thy ===== *)
theory Memory_Map
  imports Paging
begin

text \<open>
  The memory map: what \<^verbatim>\<open>readMemoryMap\<close> of \<^verbatim>\<open>memory/paging/paging.c\<close> makes of the entries that the boot
  loader left at \<^verbatim>\<open>0xF000\<close>. The entries below 1 MiB become one free entry of 1 MiB.
\<close>

section \<open>Reading the entries\<close>

text \<open>\<open>es\<close> are the entries in the memory, up to the first one of type 0.\<close>

definition boot_map :: "mem \<Rightarrow> memoryMap list \<Rightarrow> bool" where
  "boot_map m es \<longleftrightarrow>
     (\<forall>i < length es. memoryMap_at m (0xF000 + of_nat (20 * i)) = es ! i \<and> mm_type (es ! i) \<noteq> 0) \<and>
     mm_type (memoryMap_at m (0xF000 + of_nat (20 * length es))) = 0"

definition map_bytes :: "memoryMap list \<Rightarrow> u64" where
  "map_bytes es = sum_list (map mm_length es)"

definition is_upper :: "memoryMap \<Rightarrow> bool" where
  "is_upper e \<longleftrightarrow> SIZE_1MB \<le> mm_address e"

lemma map_bytes_simps [simp]: "map_bytes [] = 0" "map_bytes (e # es) = mm_length e + map_bytes es"
  "map_bytes (es @ fs) = map_bytes es + map_bytes fs"
  by (simp_all add: map_bytes_def)

lemma entry_address: "n \<le> 15 \<Longrightarrow> (0xF000 + ucast (of_nat n * sizeof_memoryMap) :: u64) = 0xF000 + of_nat (20 * n)"
proof -
  assume n: "n \<le> 15"
  have "unat (of_nat n * 20 :: u16) = 20 * n" using n by (simp add: unat_word_ariths unat_of_nat)
  then have "unat (ucast (of_nat n * 20 :: u16) :: u64) = 20 * n"
    using n by (simp add: unsigned_ucast_eq take_bit_nat_eq_self)
  moreover have "unat (of_nat (20 * n) :: u64) = 20 * n" by (rule unat_of_nat_small) (use n in simp)
  ultimately have "(ucast (of_nat n * 20 :: u16) :: u64) = of_nat (20 * n)" by (simp only: word_unat_eq_iff)
  then show ?thesis by (simp add: sizeof_memoryMap_def)
qed

lemma readMemoryMap_loop_reads:
  assumes "boot_map (hmem s) es" "length es \<le> length (memoryMap s)" "length (memoryMap s) \<le> 15" "n \<le> length es"
  shows "readMemoryMap_loop n s = Some (length es, s\<lparr>
    memoryMap := take n (memoryMap s) @ drop n es @ drop (length es) (memoryMap s),
    totalMemorySize := totalMemorySize s + map_bytes (drop n es),
    upperMemorySize := upperMemorySize s + map_bytes (filter is_upper (drop n es))\<rparr>)"
  using assms
proof (induction "length es - n" arbitrary: n s)
  case 0
  then have n: "n = length es" by simp
  have "mm_type (memoryMap_at (hmem s) (0xF000 + ucast (of_nat n * sizeof_memoryMap))) = 0"
    using entry_address [of n] 0 n by (simp add: boot_map_def del: of_nat_mult)
  then have "readMemoryMap_loop n s = Some (n, s)" by (simp add: readMemoryMap_loop.simps [of n s])
  then show ?case by (simp add: n)
next
  case (Suc k)
  let ?e = "es ! n"
  let ?s = "s\<lparr>memoryMap := (memoryMap s)[n := ?e], totalMemorySize := totalMemorySize s + mm_length ?e,
    upperMemorySize := (if SIZE_1MB \<le> mm_address ?e then upperMemorySize s + mm_length ?e else upperMemorySize s)\<rparr>"
  have n: "n < length es" "n < length (memoryMap s)" "n \<le> 15" using Suc by simp_all
  have e: "memoryMap_at (hmem s) (0xF000 + ucast (of_nat n * sizeof_memoryMap)) = ?e" "mm_type ?e \<noteq> 0"
    using entry_address [OF n(3)] Suc.prems(1) n(1) by (simp_all add: boot_map_def)
  have "readMemoryMap_loop n s = readMemoryMap_loop (Suc n) ?s"
    using e n by (simp add: readMemoryMap_loop.simps [of n s] Let_def)
  also have "\<dots> = Some (length es, ?s\<lparr>
    memoryMap := take (Suc n) (memoryMap ?s) @ drop (Suc n) es @ drop (length es) (memoryMap ?s),
    totalMemorySize := totalMemorySize ?s + map_bytes (drop (Suc n) es),
    upperMemorySize := upperMemorySize ?s + map_bytes (filter is_upper (drop (Suc n) es))\<rparr>)"
    by (rule Suc.hyps(1)) (use Suc n in simp_all)
  also have "drop n es = ?e # drop (Suc n) es" using n(1) by (simp add: Cons_nth_drop_Suc)
  moreover have "take (Suc n) (memoryMap ?s) = take n (memoryMap s) @ [?e]" using n(2) by (simp add: take_Suc_conv_app_nth)
  ultimately show ?case using n by (simp add: is_upper_def add.assoc)
qed

section \<open>One entry for the low memory\<close>

lemma lowEntries_prefix:
  "\<forall>e \<in> set low. mm_type e \<noteq> 0 \<and> \<not> is_upper e \<Longrightarrow> is_upper h \<Longrightarrow> lowEntries (low @ h # hs) = Some (length low)"
  by (induction low) (auto simp: is_upper_def SIZE_1MB_def)

definition low_memory :: memoryMap where
  "low_memory = \<lparr>mm_address = 0, mm_length = 0x100000, mm_type = MEMORY_TYPE_FREE\<rparr>"

lemma reworkMemoryMap_joins:
  assumes mm: "memoryMap s = low @ high @ rest" and len: "memoryMapLength s = of_nat (length low + length high)"
    and low: "low \<noteq> []" "\<forall>e \<in> set low. mm_type e \<noteq> 0 \<and> \<not> is_upper e"
    and high: "high \<noteq> []" "is_upper (hd high)" and rest: "rest \<noteq> []" "length low + length high < 256"
  shows "\<exists>mm. reworkMemoryMap s = Some (s\<lparr>memoryMap := mm, memoryMapLength := of_nat (Suc (length high))\<rparr>) \<and>
    length mm = length (memoryMap s) \<and> take (Suc (length high)) mm = low_memory # high"
proof -
  let ?n = "length low"
  let ?mm = "(replicate ?n no_memoryMap @ drop ?n (memoryMap s))[0 := low_memory]"
  obtain h hs where h: "high = h # hs" using high(1) by (cases high) auto
  have le: "lowEntries (memoryMap s) = Some ?n" using lowEntries_prefix [OF low(2), of h "hs @ rest"] high(2) by (simp add: mm h)
  obtain n' where n': "?n = Suc n'" using low(1) by (cases low) auto
  have mm': "?mm = low_memory # replicate n' no_memoryMap @ high @ rest" by (simp add: mm n')
  have c: "(of_nat ?n - 1 :: byte) = of_nat n'" by (simp add: n')
  have u: "unat (of_nat n' :: byte) = n'" "unat (memoryMapLength s) = ?n + length high"
    unfolding len by (rule unat_of_nat_small; use rest(2) n' in simp)+
  show ?thesis
  proof (cases "n' = 0")
    case True
    then have "reworkMemoryMap s = Some (s\<lparr>memoryMap := ?mm\<rparr>)"
      using le c by (simp add: reworkMemoryMap_def low_memory_def [symmetric])
    moreover have "s\<lparr>memoryMap := ?mm\<rparr> = s\<lparr>memoryMap := ?mm, memoryMapLength := of_nat (Suc (length high))\<rparr>"
      using len True n' by (cases s) simp
    ultimately show ?thesis using True n' by (intro exI [of _ ?mm]) (simp add: mm' mm)
  next
    case False
    have pos: "(of_nat n' :: byte) > 0" "\<not> memoryMapLength s < of_nat n'"
      using False u n' by (simp_all add: word_less_nat_alt)
    have cnt: "unat (memoryMapLength s) - unat (of_nat n' :: byte) = Suc (length high)" using u n' by simp
    obtain h' rs where rr: "rest = h' # rs" using rest(1) by (cases rest) auto
    define r where "r = overwrite ?mm 1 (take (Suc (length high)) (drop (Suc n') ?mm))"
    have r1: "memcpy_buf (Suc (length high)) 1 (Suc n') ?mm = Some r"
      unfolding r_def by (rule memcpy_buf_forward) (simp_all add: mm n' rr)
    have r2: "r = low_memory # high @ [h'] @ drop (length high + 2) ?mm"
      by (simp add: r_def overwrite_def mm' rr)
    have "reworkMemoryMap s = Some (s\<lparr>memoryMap := r, memoryMapLength := memoryMapLength s - of_nat n'\<rparr>)"
      using le c pos cnt r1 u(1) by (simp add: reworkMemoryMap_def low_memory_def [symmetric] Let_def)
    moreover have "memoryMapLength s - of_nat n' = of_nat (Suc (length high))" by (simp add: len n')
    moreover have "take (Suc (length high)) r = low_memory # high" by (simp add: r2)
    moreover have "length r = length (memoryMap s)" by (simp add: r2 mm n' rr)
    ultimately show ?thesis by (intro exI [of _ r]) simp
  qed
qed

text \<open>
  Both together, for at most 14 entries of which the first ones lie below 1 MiB: the sizes are the sums of
  the lengths, and the map begins with the low memory.
\<close>

lemma readMemoryMap_spec:
  assumes "boot_map (hmem s) (low @ high)" "length (memoryMap s) = BOBAOS_MEMORY_MAP_MAX_ENTRIES"
    and "length (low @ high) < BOBAOS_MEMORY_MAP_MAX_ENTRIES"
    and "totalMemorySize s = 0" "upperMemorySize s = 0"
    and "low \<noteq> []" "\<forall>e \<in> set low. \<not> is_upper e" "high \<noteq> []" "\<forall>e \<in> set high. is_upper e"
  obtains mm where "readMemoryMap s = Some (s\<lparr>memoryMap := mm, memoryMapLength := of_nat (Suc (length high)),
      totalMemorySize := map_bytes (low @ high), upperMemorySize := map_bytes high\<rparr>)"
    "length mm = BOBAOS_MEMORY_MAP_MAX_ENTRIES" "take (Suc (length high)) mm = low_memory # high"
proof -
  let ?es = "low @ high" and ?rest = "drop (length (low @ high)) (memoryMap s)"
  let ?s = "s\<lparr>memoryMap := ?es @ ?rest, totalMemorySize := map_bytes ?es, upperMemorySize := map_bytes high\<rparr>"
  have f: "filter is_upper ?es = high" using assms(7,9) by simp
  have loop: "readMemoryMap_loop 0 s = Some (length ?es, ?s)"
    using readMemoryMap_loop_reads [OF assms(1), of 0] assms(2-5) unfolding drop_0 f
    by (simp add: BOBAOS_MEMORY_MAP_MAX_ENTRIES_def)
  have t: "\<forall>e \<in> set low. mm_type e \<noteq> 0 \<and> \<not> is_upper e"
  proof
    fix e assume e: "e \<in> set low"
    then obtain i where i: "i < length low" "low ! i = e" by (auto simp: in_set_conv_nth)
    then have "mm_type (?es ! i) \<noteq> 0" using assms(1) by (simp add: boot_map_def)
    with i assms(7) e show "mm_type e \<noteq> 0 \<and> \<not> is_upper e" by (simp add: nth_append)
  qed
  let ?t = "?s\<lparr>memoryMapLength := of_nat (length ?es)\<rparr>"
  obtain mm where "reworkMemoryMap ?t = Some (?t\<lparr>memoryMap := mm, memoryMapLength := of_nat (Suc (length high))\<rparr>)"
    "length mm = length (memoryMap ?t)" "take (Suc (length high)) mm = low_memory # high"
    using reworkMemoryMap_joins [of ?t low high ?rest] t assms(2,3,6,8,9)
    by (auto simp: BOBAOS_MEMORY_MAP_MAX_ENTRIES_def)
  with loop assms(2,3) show thesis
    by (intro that [of mm]) (simp_all add: readMemoryMap_def)
qed

end
