(* ===== verification/Kernel_Table.thy ===== *)
theory Kernel_Table
  imports Page_Frame
begin

text \<open>
  The page table of the kernel: what \<^verbatim>\<open>createKernelTable\<close> maps. The free entries of the memory map are
  placed one after the other in the virtual address space, from address 0 on.
\<close>

section \<open>The ranges\<close>

text \<open>For each free entry the physical start, the virtual start and the size that are mapped.\<close>

fun kernel_ranges :: "memoryMap list \<Rightarrow> u64 \<Rightarrow> (u64 \<times> u64 \<times> u64) list" where
  "kernel_ranges [] v = []"
| "kernel_ranges (e # es) v =
     (if mm_type e = MEMORY_TYPE_FREE
      then (downToPage (mm_address e), v, downToPage (mm_length e)) # kernel_ranges es (v + downToPage (mm_length e))
      else kernel_ranges es v)"

definition ranges_ok :: "(u64 \<times> u64 \<times> u64) list \<Rightarrow> bool" where
  "ranges_ok rs \<longleftrightarrow> (\<forall>(p, v, n) \<in> set rs. 0 < n \<and> unat n \<le> 2 ^ 31 \<and> unat p + unat n \<le> 2 ^ 48 \<and> unat v + unat n \<le> 2 ^ 48)"

definition ranges_tables :: "(u64 \<times> u64 \<times> u64) list \<Rightarrow> nat" where
  "ranges_tables rs = sum_list (map (\<lambda>(p, v, n). range_tables (unat n div 4096)) rs)"

lemma ranges_simps [simp]:
  "ranges_ok []" "ranges_tables [] = 0"
  "ranges_ok ((p, v, n) # rs) \<longleftrightarrow> 0 < n \<and> unat n \<le> 2 ^ 31 \<and> unat p + unat n \<le> 2 ^ 48 \<and> unat v + unat n \<le> 2 ^ 48 \<and> ranges_ok rs"
  "ranges_tables ((p, v, n) # rs) = range_tables (unat n div 4096) + ranges_tables rs"
  by (simp_all add: ranges_ok_def ranges_tables_def)

lemma range_pages_aligned:
  assumes "unat sz mod 4096 = 0" "0 < sz"
  shows "range_pages sz * 4096 = unat sz" "range_pages sz = unat sz div 4096"
proof -
  have pos: "0 < unat sz" using assms(2) by (simp add: word_less_nat_alt)
  have e: "(unat sz + 4095) div 4096 * 4096 = unat sz" using roundup_aligned [of 4096 "unat sz"] assms(1) by simp
  then have "0 < (unat sz + 4095) div 4096" using pos by (intro gr0I) simp
  with e show s: "range_pages sz * 4096 = unat sz" by (simp add: range_pages_def max_def)
  show "range_pages sz = unat sz div 4096" by (simp flip: s)
qed

section \<open>What a range maps\<close>

text \<open>The frame of an address, and the rest of it.\<close>

lemma frame_rest:
  assumes "unat x < 2 ^ 48"
  shows "page_frame x + (x AND 0xFFF) = x"
proof -
  have e: "(0xFFF :: u64) = mask 12" by (simp add: mask_eq_exp_minus_1)
  have x: "bit x n \<Longrightarrow> n < 48" for n
  proof -
    have "take_bit 48 x = x" using assms by (simp add: word_unat_eq_iff unsigned_take_bit_eq take_bit_nat_eq_self)
    then show "bit x n \<Longrightarrow> n < 48" by (metis bit_take_bit_iff)
  qed
  have "page_frame x + (x AND 0xFFF) = page_frame x OR (x AND 0xFFF)"
    by (rule disjunctive_add) (auto simp: e bit_frame bit_and_iff bit_mask_iff)
  also have "\<dots> = x" by (intro bit_word_eqI) (auto simp: e bit_simps bit_frame dest: x)
  finally show ?thesis .
qed

lemma frame_le: "unat (page_frame x) \<le> unat x"
  unfolding page_frame_def by (simp add: word_and_le2 flip: word_le_nat_alt)

lemma map_pages_inside:
  assumes al: "unat virt mod 4096 = 0" "unat phys mod 4096 = 0" and n: "n \<le> 2 ^ 20" and i: "i < n * 4096"
  shows "map_pages n phys virt M (indices (virt + of_nat i)) = Some (page_frame (phys + of_nat i))"
    "(virt + of_nat i) AND 0xFFF = (phys + of_nat i) AND 0xFFF"
proof -
  define k j where "k = i div 4096" and "j = i mod 4096"
  have k: "k < n" "j < 4096" "i = k * 4096 + j" using i by (auto simp: k_def j_def div_less_iff_less_mult)
  have j: "unat (of_nat j :: u64) < 4096" using k(2) by (simp add: unat_of_nat_small)
  have a: "unat (virt + of_nat (k * 4096)) mod 4096 = 0" "unat (phys + of_nat (k * 4096)) mod 4096 = 0"
    using aligned_page al k(1) n by simp_all
  have sum: "x + of_nat i = (x + of_nat (k * 4096)) + of_nat j" for x :: u64 using k(3) by simp
  show "map_pages n phys virt M (indices (virt + of_nat i)) = Some (page_frame (phys + of_nat i))"
    using map_pages_lookup(1) [OF al(1) n k(1), of phys M] frame_add_offset(1) [OF a(2) j]
      frame_indices [OF frame_add_offset(1) [OF a(1) j]] unfolding sum by simp
  show "(virt + of_nat i) AND 0xFFF = (phys + of_nat i) AND 0xFFF"
    using frame_add_offset(2) [OF a(1) j] frame_add_offset(2) [OF a(2) j] unfolding sum by simp
qed

lemma map_pages_below:
  assumes al: "unat virt mod 4096 = 0" and n: "n \<le> 2 ^ 20" "unat virt + n * 4096 \<le> 2 ^ 48" and w: "unat w < unat virt"
  shows "map_pages n phys virt M (indices w) = M (indices w)"
proof (rule map_pages_lookup(2) [OF al n(1)], intro allI impI notI)
  fix k assume k: "k < n" "indices w = indices (virt + of_nat (k * 4096))"
  have "unat (of_nat (k * 4096) :: u64) = k * 4096" by (rule unat_of_nat_small) (use k n in simp)
  then have u: "unat (virt + of_nat (k * 4096)) = unat virt + k * 4096"
    using k(1) n(2) by (subst unat_add_small) simp_all
  then have "unat (virt + of_nat (k * 4096)) < 2 ^ 48" using k(1) n(2) by simp
  then have "page_frame (virt + of_nat (k * 4096)) = virt + of_nat (k * 4096)"
    using aligned_page [OF al, of k] k(1) n(1) by (intro frame_page) simp_all
  then have "unat (page_frame w) = unat virt + k * 4096" using indices_frame [OF k(2)] u by simp
  with frame_le [of w] w show False by simp
qed

section \<open>The table\<close>

text \<open>
  The loop over the memory map keeps what is mapped below the current virtual address and adds the ranges
  of the entries that are left.
\<close>

lemma createKernelTable_loop_maps:
  fixes s :: "'a kheap_scheme"
  assumes "kheap_wf s" "page_table s root" "unat (vs + sm) mod 4096 = 0"
    and "ranges_ok (kernel_ranges es (vs + sm))" "room s (k + 3 * ranges_tables (kernel_ranges es (vs + sm)))"
  shows "\<exists>m. createKernelTable_loop es root vs sm s = Some (SUCCESS, s\<lparr>hmem := m\<rparr>) \<and>
    kheap_wf (s\<lparr>hmem := m\<rparr>) \<and> page_table (s\<lparr>hmem := m\<rparr>) root \<and> live s \<subseteq> live (s\<lparr>hmem := m\<rparr>) \<and> room (s\<lparr>hmem := m\<rparr>) k \<and>
    (\<forall>w. unat w < unat (vs + sm) \<longrightarrow> page_map m root (indices w) = page_map (hmem s) root (indices w)) \<and>
    (\<forall>(p, v, n) \<in> set (kernel_ranges es (vs + sm)). \<forall>i < unat n.
       page_map m root (indices (v + of_nat i)) = Some (page_frame (p + of_nat i)) \<and>
       (v + of_nat i) AND 0xFFF = (p + of_nat i) AND 0xFFF)"
  using assms
proof (induction es arbitrary: sm s)
  case Nil
  then show ?case by (intro exI [of _ "hmem s"]) simp
next
  case (Cons e es)
  show ?case
  proof (cases "mm_type e = MEMORY_TYPE_FREE")
    case False
    then show ?thesis using Cons.IH [OF Cons.prems(1-3)] Cons.prems(4,5) by simp
  next
    case True
    let ?p = "downToPage (mm_address e)" and ?n = "downToPage (mm_length e)" and ?v = "vs + sm"
    let ?rs = "kernel_ranges es (?v + ?n)"
    have ok: "0 < ?n" "unat ?n \<le> 2 ^ 31" "unat ?p + unat ?n \<le> 2 ^ 48" "unat ?v + unat ?n \<le> 2 ^ 48" "ranges_ok ?rs"
      using Cons.prems(4) True by simp_all
    have al: "unat ?n mod 4096 = 0" "unat ?p mod 4096 = 0" by (rule downToPage_aligned)+
    note rp = range_pages_aligned [OF al(1) ok(1)]
    have N: "range_pages ?n \<le> 2 ^ 20" "range_pages ?n * 4096 \<le> 2 ^ 31" using ok(2) rp(1) by simp_all
    have free: "room s ((k + 3 * ranges_tables ?rs) + 3 * range_tables (range_pages ?n))"
      using Cons.prems(5) True by (simp add: rp(2) algebra_simps)
    have vn: "unat (?v + ?n) = unat ?v + unat ?n" using ok(4) by (subst unat_add_small) simp_all
    show ?thesis
    proof (rule mapOrCreateRange_cases [OF Cons.prems(1,2) N(2), of ?p ?v])
      assume "\<not> room s (3 * range_tables (range_pages ?n))"
      with room_less [OF free, of "3 * range_tables (range_pages ?n)"] show ?thesis by simp
    next
      fix m
      let ?s = "s\<lparr>hmem := m\<rparr>" and ?M = "page_map (hmem s) root"
      assume m: "mapOrCreateRange root ?p ?v ?n s = Some (0, ?s)" "kheap_wf ?s" "page_table ?s root" "live s \<subseteq> live ?s"
        "page_map m root = map_pages (range_pages ?n) ?p ?v ?M" "\<And>i. room s (i + 3 * range_tables (range_pages ?n)) \<Longrightarrow> room ?s i"
      have a: "unat (vs + (sm + ?n)) mod 4096 = 0"
        using vn al(1) Cons.prems(3) by (simp add: add.assoc [symmetric] mod_add_eq [symmetric] del: mod_add_eq)
      have e: "vs + (sm + ?n) = ?v + ?n" by (simp add: add.assoc)
      from Cons.IH [OF m(2,3) a, unfolded e, OF ok(5) m(6) [OF free]]
      obtain m' where m': "createKernelTable_loop es root vs (sm + ?n) ?s = Some (SUCCESS, s\<lparr>hmem := m'\<rparr>)"
        "kheap_wf (s\<lparr>hmem := m'\<rparr>)" "page_table (s\<lparr>hmem := m'\<rparr>) root" "live ?s \<subseteq> live (s\<lparr>hmem := m'\<rparr>)" "room (s\<lparr>hmem := m'\<rparr>) k"
        "\<forall>w. unat w < unat (?v + ?n) \<longrightarrow> page_map m' root (indices w) = page_map m root (indices w)"
        "\<forall>(p, v, n) \<in> set ?rs. \<forall>i < unat n. page_map m' root (indices (v + of_nat i)) = Some (page_frame (p + of_nat i)) \<and>
           (v + of_nat i) AND 0xFFF = (p + of_nat i) AND 0xFFF"
        by auto
      have run: "createKernelTable_loop (e # es) root vs sm s = Some (SUCCESS, s\<lparr>hmem := m'\<rparr>)"
        using True m(1) m'(1) by simp
      have below: "page_map m' root (indices w) = ?M (indices w)" if "unat w < unat ?v" for w
        using m'(6) that vn map_pages_below [OF Cons.prems(3) N(1) _ that, where phys = ?p and M = ?M] ok(4) rp(1) m(5) by simp
      have here: "page_map m' root (indices (?v + of_nat i)) = Some (page_frame (?p + of_nat i)) \<and>
          (?v + of_nat i) AND 0xFFF = (?p + of_nat i) AND 0xFFF" if i: "i < unat ?n" for i
      proof -
        have "unat (of_nat i :: u64) = i" by (rule unat_of_nat_small) (use i ok(2) in simp)
        then have "unat (?v + of_nat i) < unat (?v + ?n)" using i ok(4) vn by (subst unat_add_small) simp_all
        then show ?thesis
          using m'(6) m(5) map_pages_inside(1) [OF Cons.prems(3) al(2) N(1), where i = i and M = ?M] map_pages_inside(2) [OF Cons.prems(3) al(2) N(1), where i = i] i rp(1) by simp
      qed
      show ?thesis
        using run m' m(4) below here True by (intro exI [of _ m']) auto
    qed
  qed
qed

lemma createKernelTable_run:
  fixes s :: "'a paging_scheme"
  assumes wf: "kheap_wf s" and rs: "rs = kernel_ranges (take (unat (memoryMapLength s)) (memoryMap s)) 0" "ranges_ok rs"
    and free: "room s (Suc (3 * ranges_tables rs))"
  obtains root m where "createKernelTable 0 s = Some (root, s\<lparr>hmem := m, loadedTable := root\<rparr>)" "root \<noteq> 0"
    "kheap_wf (s\<lparr>hmem := m\<rparr>)" "page_table (s\<lparr>hmem := m\<rparr>) root"
    "\<And>p v n i. (p, v, n) \<in> set rs \<Longrightarrow> i < unat n \<Longrightarrow> virtualToPhysical (v + of_nat i) root m = p + of_nat i"
proof (rule createEmptyPageTable_cases [OF wf])
  assume "createEmptyPageTable s = Some (0, s)"
  then show thesis using room_serves [OF wf free] by (simp add: createEmptyPageTable_def SIZE_4KB_def)
next
  fix root s1
  assume a: "createEmptyPageTable s = Some (root, s1)" "root \<noteq> 0" "kheap_wf s1" "live s1 = insert (root, 4096) (live s)"
    "page_table s1 root" "\<exists>m. s1 = s\<lparr>hmem := m\<rparr>"
  then obtain m1 where m1: "s1 = s\<lparr>hmem := m1\<rparr>" by blast
  have "room s1 (0 + 3 * ranges_tables (kernel_ranges (take (unat (memoryMapLength s)) (memoryMap s)) (0 + 0)))"
    using room_alloc [OF free a(4)] rs(1) by (simp add: m1)
  from createKernelTable_loop_maps [OF a(3,5) _ _ this] rs
  obtain m where m: "createKernelTable_loop (take (unat (memoryMapLength s)) (memoryMap s)) root 0 0 s1 = Some (SUCCESS, s1\<lparr>hmem := m\<rparr>)"
    "kheap_wf (s1\<lparr>hmem := m\<rparr>)" "page_table (s1\<lparr>hmem := m\<rparr>) root"
    "\<forall>(p, v, n) \<in> set rs. \<forall>i < unat n. page_map m root (indices (v + of_nat i)) = Some (page_frame (p + of_nat i)) \<and>
       (v + of_nat i) AND 0xFFF = (p + of_nat i) AND 0xFFF"
    by auto
  show thesis
  proof (rule that [of root m])
    show "createKernelTable 0 s = Some (root, s\<lparr>hmem := m, loadedTable := root\<rparr>)"
      using a(1,2) m(1) by (simp add: createKernelTable_def createEmptyPageTable_def SIZE_4KB_def m1)
    fix p v n and i :: nat
    assume r: "(p, v, n) \<in> set rs" "i < unat n"
    have "unat p + unat n \<le> 2 ^ 48" "unat n \<le> 2 ^ 31" using rs(2) r(1) by (auto simp: ranges_ok_def)
    moreover from this r(2) have "unat (of_nat i :: u64) = i" by (intro unat_of_nat_small) simp
    ultimately have "unat (p + of_nat i) < 2 ^ 48" using r(2) by (subst unat_add_small) simp_all
    from frame_rest [OF this] m(4) r show "virtualToPhysical (v + of_nat i) root m = p + of_nat i"
      using virtualToPhysical_map [OF m(2,3), of "v + of_nat i"] by (fastforce simp: m1)
  qed (use a(2) m(2,3) in \<open>simp_all add: m1\<close>)
qed

text \<open>
  When the heap has room for the tables, the page table of the kernel is created and loaded, and
  translates each free entry of the memory map: the entry appears at the virtual address that is the
  sum of the lengths of the free entries before it. So the kernel sees the memory at its physical addresses up
  to the first gap between the free entries, and at lower addresses behind it.
\<close>

theorem createKernelTable_maps:
  fixes s :: "'a paging_scheme"
  assumes "kheap_wf s" and "rs = kernel_ranges (take (unat (memoryMapLength s)) (memoryMap s)) 0" "ranges_ok rs"
    and "room s (Suc (3 * ranges_tables rs))"
  shows "\<exists>root s'. createKernelTable 0 s = Some (root, s') \<and> root \<noteq> 0 \<and> loadedTable s' = root \<and>
    kheap_wf s' \<and> page_table s' root \<and>
    (\<forall>(p, v, n) \<in> set rs. \<forall>i < unat n. virtualToPhysical (v + of_nat i) root (hmem s') = p + of_nat i)"
proof (rule createKernelTable_run [OF assms])
  fix root m
  assume a: "createKernelTable 0 s = Some (root, s\<lparr>hmem := m, loadedTable := root\<rparr>)" "root \<noteq> 0"
    "kheap_wf (s\<lparr>hmem := m\<rparr>)" "page_table (s\<lparr>hmem := m\<rparr>) root"
    "\<And>p v n i. (p, v, n) \<in> set rs \<Longrightarrow> i < unat n \<Longrightarrow> virtualToPhysical (v + of_nat i) root m = p + of_nat i"
  let ?s = "s\<lparr>hmem := m, loadedTable := root\<rparr>"
  have "kheap_wf ?s" "page_table ?s root"
    using a(3,4) same_heap [of ?s "s\<lparr>hmem := m\<rparr>"] by (simp_all add: page_table_def)
  with a show ?thesis by (intro exI [of _ root] exI [of _ ?s]) auto
qed

section \<open>Witness\<close>

text \<open>Low memory, one page above a gap: it is mapped behind the low memory.\<close>

definition paging_of :: "kheap \<Rightarrow> memoryMap list \<Rightarrow> paging" where
  "paging_of h es = kheap.extend h (paging.fields es (of_nat (length es)) 0 0 0)"

lemma paging_of_simps [simp]:
  "hmem (paging_of h es) = hmem h" "table_size (paging_of h es) = table_size h" "selected (paging_of h es) = selected h"
  "memoryMap (paging_of h es) = es" "memoryMapLength (paging_of h es) = of_nat (length es)"
  by (simp_all add: paging_of_def kheap.defs paging.defs)

theorem createKernelTable_maps_witness:
  "\<exists>root s'. createKernelTable 0 (paging_of (empty_kheap 8) [\<lparr>mm_address = 0, mm_length = 0x1000, mm_type = 1\<rparr>,
       \<lparr>mm_address = 0x9000, mm_length = 0x1000, mm_type = 2\<rparr>, \<lparr>mm_address = 0x8000, mm_length = 0x1000, mm_type = 1\<rparr>])
     = Some (root, s') \<and> virtualToPhysical 0x24 root (hmem s') = 0x24 \<and> virtualToPhysical 0x1024 root (hmem s') = 0x8024"
proof -
  let ?es = "[\<lparr>mm_address = 0, mm_length = 0x1000, mm_type = 1\<rparr>,
    \<lparr>mm_address = 0x9000, mm_length = 0x1000, mm_type = 2\<rparr>, \<lparr>mm_address = 0x8000, mm_length = 0x1000, mm_type = 1\<rparr>]"
  let ?h = "empty_kheap 8" and ?s = "paging_of (empty_kheap 8) ?es"
  have "unat (8 :: u64) \<le> 25600" by simp
  note h = empty_kheap [OF this]
  have s: "kheap_wf ?s" "live ?s = {}" using same_heap [of ?s ?h] h by simp_all
  have rs: "kernel_ranges (take (unat (memoryMapLength ?s)) (memoryMap ?s)) 0 = [(0, 0, 0x1000), (0x8000, 0x1000, 0x1000)]"
    by (simp add: MEMORY_TYPE_FREE_def downToPage_word)
  have ok: "ranges_ok [(0, 0, 0x1000), (0x8000, 0x1000, 0x1000)]" by simp
  have "room ?s (Suc (3 * ranges_tables [(0, 0, 0x1000), (0x8000, 0x1000, 0x1000)]))"
    unfolding room_def by (rule exI [of _ "{}"]) (use s h in simp)
  from createKernelTable_maps [OF s(1) rs [symmetric] ok this] obtain root s' where
    r: "createKernelTable 0 ?s = Some (root, s')"
    "\<forall>i < 4096. virtualToPhysical (of_nat i) root (hmem s') = of_nat i"
    "\<forall>i < 4096. virtualToPhysical (0x1000 + of_nat i) root (hmem s') = 0x8000 + of_nat i"
    by auto
  have "virtualToPhysical (of_nat 0x24) root (hmem s') = of_nat 0x24" using r(2) [rule_format, of "0x24"] by simp
  moreover have "virtualToPhysical (0x1000 + of_nat 0x24) root (hmem s') = 0x8000 + of_nat 0x24"
    using r(3) [rule_format, of "0x24"] by simp
  ultimately show ?thesis using r(1) by simp
qed

end
