(* ===== verification/Koal.thy ===== *)
theory Koal
  imports Kstring
begin

text \<open>
  The kernel's output: the output layer of \<^verbatim>\<open>koal/koal.c\<close>, a table of attached devices of which one
  is selected, and the formatted printing of \<^verbatim>\<open>print.c\<close>. A device is its \<^verbatim>\<open>outChar\<close> callback, a
  function on the state of the devices, of type \<open>'d\<close>. The locale \<open>output_device\<close> is what the
  layer expects of a device.
\<close>

section \<open>The output layer\<close>

record 'd koal_entry =
  koal_name :: "byte list"
  outChar :: "byte \<Rightarrow> 'd \<Rightarrow> (int \<times> 'd) option"

record 'd koal =
  koals :: "'d koal_entry option list"
  currentIndex :: byte
  selectedOutput :: int
  dev :: 'd

definition BOBAOS_MAX_KOAL_ENTRIES :: nat where "BOBAOS_MAX_KOAL_ENTRIES = 12"

text \<open>The entry at an index of the table; outside the table, or where the entry is \<open>NULL\<close>, a fault.\<close>

definition koal_at :: "int \<Rightarrow> 'd koal \<Rightarrow> 'd koal_entry option" where
  "koal_at i s = (if 0 \<le> i then Option.bind (rd (koals s) (nat i)) id else None)"

definition koalInit :: "'d koal \<Rightarrow> 'd koal" where
  "koalInit s = s\<lparr>koals := replicate BOBAOS_MAX_KOAL_ENTRIES None\<rparr>"

definition checkCurrentSelected :: "'d koal \<Rightarrow> int option" where
  "checkCurrentSelected s =
     (if selectedOutput s < 0 then Some (- ENFOUND)
      else do {
        e \<leftarrow> rd (koals s) (nat (selectedOutput s));
        Some (if e = None then - ENFOUND else 0)
      })"

primrec koalSelect_loop :: "nat \<Rightarrow> nat \<Rightarrow> byte list \<Rightarrow> 'd koal \<Rightarrow> (int \<times> 'd koal) option" where
  "koalSelect_loop 0 i name s = Some (- ENFOUND, s)"
| "koalSelect_loop (Suc k) i name s = do {
     e \<leftarrow> koal_at (int i) s;
     c \<leftarrow> strcmp name (koal_name e);
     if c = 0 then Some (0, s\<lparr>selectedOutput := int i\<rparr>) else koalSelect_loop k (Suc i) name s
   }"

definition koalSelectCurrentOutputByName :: "byte list \<Rightarrow> 'd koal \<Rightarrow> (int \<times> 'd koal) option" where
  "koalSelectCurrentOutputByName name s = koalSelect_loop (unat (currentIndex s)) 0 name s"

definition koalAttach :: "'d koal_entry \<Rightarrow> 'd koal \<Rightarrow> (int \<times> 'd koal) option" where
  "koalAttach k s =
     (if unat (currentIndex s) \<ge> BOBAOS_MAX_KOAL_ENTRIES then Some (- ENMEM, s)
      else do {
        ks \<leftarrow> wr (koals s) (unat (currentIndex s)) (Some k);
        Some (0, s\<lparr>koals := ks, currentIndex := currentIndex s + 1\<rparr>)
      })"

definition koalPrintChar :: "byte \<Rightarrow> 'd koal \<Rightarrow> (int \<times> 'd koal) option" where
  "koalPrintChar c s = do {
     ret \<leftarrow> checkCurrentSelected s;
     if ret < 0 then Some (ret, s)
     else do {
       e \<leftarrow> koal_at (selectedOutput s) s;
       (ret, d) \<leftarrow> outChar e c (dev s);
       Some (ret, s\<lparr>dev := d\<rparr>)
     }
   }"

primrec koalPrint_loop :: "nat \<Rightarrow> nat \<Rightarrow> byte list \<Rightarrow> int \<Rightarrow> 'd koal \<Rightarrow> (int \<times> 'd koal) option" where
  "koalPrint_loop 0 i str ret s = Some (ret, s)"
| "koalPrint_loop (Suc k) i str ret s = do {
     c \<leftarrow> rd str i;
     (ret, s) \<leftarrow> koalPrintChar c s;
     if ret < 0 then Some (ret, s) else koalPrint_loop k (Suc i) str ret s
   }"

definition koalPrint :: "byte list \<Rightarrow> 'd koal \<Rightarrow> (int \<times> 'd koal) option" where
  "koalPrint str s = do {
     n \<leftarrow> strlen str;
     koalPrint_loop (unat n) 0 str 0 s
   }"

section \<open>Formatted printing\<close>

definition numberMap :: "byte list" where
  "numberMap = [48, 49, 50, 51, 52, 53, 54, 55, 56, 57, 65, 66, 67, 68, 69, 70]"

text \<open>
  The digit loop of both conversions: \<open>k\<close> rounds are left; digit \<open>i\<close> goes to \<open>oRes[hi - i]\<close>. The
  result is the value of \<open>i\<close> after the loop and the buffer.
\<close>

primrec digits_loop ::
  "nat \<Rightarrow> u64 \<Rightarrow> nat \<Rightarrow> nat \<Rightarrow> u64 \<Rightarrow> byte list \<Rightarrow> (nat \<times> byte list) option" where
  "digits_loop 0 base hi i num oRes = Some (i, oRes)"
| "digits_loop (Suc k) base hi i num oRes = do {
     c \<leftarrow> rd numberMap (unat (num mod base));
     oRes \<leftarrow> wr oRes (hi - i) c;
     let num = num div base;
     if num = 0 then Some (i, oRes) else digits_loop k base hi (Suc i) num oRes
   }"

definition strToUInt :: "u64 \<Rightarrow> byte list \<Rightarrow> byte list option" where
  "strToUInt num oRes = do {
     (i, oRes) \<leftarrow> digits_loop 20 10 19 0 num oRes;
     oRes \<leftarrow> memcpy_buf (i + 1) 0 (19 - i) oRes;
     wr oRes (i + 1) 0
   }"

definition strToHex :: "u64 \<Rightarrow> byte list \<Rightarrow> byte list option" where
  "strToHex num oRes = do {
     oRes \<leftarrow> wr oRes 0 48;
     oRes \<leftarrow> wr oRes 1 120;
     (i, oRes) \<leftarrow> digits_loop 20 16 22 2 num oRes;
     oRes \<leftarrow> memcpy_buf (i + 1) 2 (22 - i) oRes;
     wr oRes (i + 1) 0
   }"

text \<open>
  The variadic arguments, in order; a conversion without an argument of its kind is a fault. The
  local arrays \<^verbatim>\<open>hexChar\<close> and \<^verbatim>\<open>uIntChar\<close> are not initialised: \<open>garbage\<close> stands for what they hold.
\<close>

datatype va = VaU64 u64 | VaStr "byte list"

primrec kprintf_loop ::
  "byte list \<Rightarrow> nat \<Rightarrow> nat \<Rightarrow> byte list \<Rightarrow> bool \<Rightarrow> va list \<Rightarrow> 'd koal \<Rightarrow> 'd koal option" where
  "kprintf_loop garbage 0 i str specialChar args s = Some s"
| "kprintf_loop garbage (Suc k) i str specialChar args s = do {
     c \<leftarrow> rd str i;
     if specialChar then
       (if c = 120 then
          (case args of VaU64 n # args \<Rightarrow> do {
             hexChar \<leftarrow> strToHex n garbage;
             (_, s) \<leftarrow> koalPrint hexChar s;
             kprintf_loop garbage k (Suc i) str False args s }
           | _ \<Rightarrow> None)
        else if c = 117 then
          (case args of VaU64 n # args \<Rightarrow> do {
             uIntChar \<leftarrow> strToUInt n garbage;
             (_, s) \<leftarrow> koalPrint uIntChar s;
             kprintf_loop garbage k (Suc i) str False args s }
           | _ \<Rightarrow> None)
        else if c = 115 then
          (case args of VaStr t # args \<Rightarrow> do {
             (_, s) \<leftarrow> koalPrint t s;
             kprintf_loop garbage k (Suc i) str False args s }
           | _ \<Rightarrow> None)
        else kprintf_loop garbage k (Suc i) str False args s)
     else if c = 37 then kprintf_loop garbage k (Suc i) str True args s
     else do {
       (_, s) \<leftarrow> koalPrintChar c s;
       kprintf_loop garbage k (Suc i) str False args s
     }
   }"

definition kprintf :: "byte list \<Rightarrow> byte list \<Rightarrow> va list \<Rightarrow> 'd koal \<Rightarrow> 'd koal option" where
  "kprintf garbage str args s = do {
     n \<leftarrow> strlen str;
     kprintf_loop garbage (unat n) 0 str False args s
   }"

definition kprint :: "byte list \<Rightarrow> 'd koal \<Rightarrow> 'd koal option" where
  "kprint str s = map_option snd (koalPrint str s)"


section \<open>Number conversion\<close>

text \<open>The digits of a number, most significant first, without leading zeros.\<close>

fun digits :: "nat \<Rightarrow> nat \<Rightarrow> nat list" where
  "digits b n = (if n < b \<or> b < 2 then [n] else digits b (n div b) @ [n mod b])"

declare digits.simps [simp del]

lemma digits_small: "n < b \<Longrightarrow> digits b n = [n]"
  by (subst digits.simps) simp

lemma digits_step: "\<lbrakk> 2 \<le> b; b \<le> n \<rbrakk> \<Longrightarrow> digits b n = digits b (n div b) @ [n mod b]"
  by (subst digits.simps) simp

lemma digits_nonempty: "digits b n \<noteq> []"
  by (subst digits.simps) simp

lemma digits_induct [consumes 1, case_names small step]:
  assumes "2 \<le> (b :: nat)" and "\<And>n. n < b \<Longrightarrow> P n" and "\<And>n. b \<le> n \<Longrightarrow> P (n div b) \<Longrightarrow> P n"
  shows "P n"
proof (induction n rule: less_induct)
  case (less n)
  then show ?case using assms by (cases "n < b") auto
qed

lemma digits_value:
  assumes b: "2 \<le> b"
  shows "foldl (\<lambda>a d. a * b + d) 0 (digits b n) = n"
  using b by (induction n rule: digits_induct) (simp_all add: digits_small digits_step [OF b])

lemma digits_less:
  assumes b: "2 \<le> b"
  shows "d \<in> set (digits b n) \<Longrightarrow> d < b"
  using b by (induction n rule: digits_induct) (use b in \<open>auto simp: digits_small digits_step [OF b]\<close>)

lemma digits_hd:
  assumes b: "2 \<le> b"
  shows "0 < n \<Longrightarrow> hd (digits b n) \<noteq> 0"
  using b
proof (induction n rule: digits_induct)
  case (step n)
  then have "0 < n div b" using b by (simp add: div_greater_zero_iff)
  then show ?case using step b digits_nonempty by (simp add: digits_step)
qed (simp add: digits_small)

lemma digits_length:
  assumes b: "2 \<le> b"
  shows "\<lbrakk> n < b ^ k; 0 < k \<rbrakk> \<Longrightarrow> length (digits b n) \<le> k"
  using b
proof (induction n arbitrary: k rule: digits_induct)
  case (step n)
  then obtain j where k: "k = Suc j" by (cases k) auto
  have "0 < j" using step(1,3) k by (cases j) auto
  moreover have "n div b < b ^ j" using step(3) k by (simp add: less_mult_imp_div_less mult.commute)
  ultimately have "length (digits b (n div b)) \<le> j" using step(2) by blast
  then show ?case using step(1) b k by (simp add: digits_step)
qed (simp add: digits_small)

definition digit_char :: "nat \<Rightarrow> byte" where
  "digit_char d = numberMap ! d"

lemma digit_char_nonzero: "d < 16 \<Longrightarrow> digit_char d \<noteq> 0"
proof -
  assume "d < 16"
  then have "digit_char d \<in> set numberMap"
    unfolding digit_char_def by (intro nth_mem) (simp add: numberMap_def)
  moreover have "0 \<notin> set numberMap" by (simp add: numberMap_def)
  ultimately show ?thesis by auto
qed

lemma digits_loop_spec:
  assumes "2 \<le> base" and "base \<le> 16"
    and "length (digits (unat base) (unat num)) \<le> k"
    and "i + length (digits (unat base) (unat num)) \<le> Suc hi" and "hi < length buf"
  shows "digits_loop k base hi i num buf =
    Some (i + length (digits (unat base) (unat num)) - 1,
      overwrite buf (Suc (hi - i) - length (digits (unat base) (unat num)))
        (map digit_char (digits (unat base) (unat num))))"
  using assms(3-5)
proof (induction k arbitrary: i num buf)
  case 0
  then show ?case by (simp add: digits_nonempty)
next
  case (Suc k)
  have b: "2 \<le> unat base" "unat base \<le> 16" using assms(1,2) by (simp_all add: word_le_nat_alt)
  let ?n = "unat num" and ?b = "unat base"
  let ?c = "digit_char (?n mod ?b)"
  have "?n mod ?b < ?b" using b by simp
  then have rd: "rd numberMap (unat (num mod base)) = Some ?c"
    using b(2) by (simp add: rd_def unat_mod_distrib digit_char_def numberMap_def)
  have d: "unat (num div base) = ?n div ?b" by (simp add: unat_div_distrib)
  have z: "num div base = 0 \<longleftrightarrow> ?n < ?b"
    using b by (simp flip: unat_eq_0 add: d div_eq_0_iff)
  show ?case
  proof (cases "?n < ?b")
    case True
    then show ?thesis
      using Suc.prems rd z by (simp add: digits_small wr_def Let_def overwrite_def upd_conv_take_nth_drop)
  next
    case False
    let ?ds = "digits ?b (?n div ?b)" and ?buf = "buf[hi - i := ?c]"
    have ds: "digits ?b ?n = ?ds @ [?n mod ?b]" using False b by (simp add: digits_step)
    have len: "i + length ?ds \<le> hi" using Suc.prems(2) ds by simp
    have "hi - i < length buf" using Suc.prems(3) by simp
    then have "digits_loop (Suc k) base hi i num buf = digits_loop k base hi (Suc i) (num div base) ?buf"
      using rd z False by (simp add: wr_def Let_def)
    also have "\<dots> = Some (Suc i + length ?ds - 1,
        overwrite ?buf (Suc (hi - Suc i) - length ?ds) (map digit_char ?ds))"
      using Suc.IH [of "num div base" "Suc i" ?buf] Suc.prems ds by (simp add: d)
    also have "overwrite ?buf (Suc (hi - Suc i) - length ?ds) (map digit_char ?ds)
      = overwrite buf (Suc (hi - i) - length (digits ?b ?n)) (map digit_char (digits ?b ?n))"
    proof -
      have "hi - i < length buf" using Suc.prems(3) by simp
      then have "drop (hi - i) ?buf = ?c # drop (Suc (hi - i)) buf"
        by (simp add: Cons_nth_drop_Suc [symmetric] del: Cons_nth_drop_Suc)
      moreover have "Suc (hi - Suc i) = hi - i" "hi - i - length ?ds + length ?ds = hi - i"
        using len digits_nonempty [of ?b "?n div ?b"] by (cases ?ds; simp)+
      ultimately show ?thesis unfolding ds by (simp add: overwrite_def)
    qed
    finally show ?thesis using ds by simp
  qed
qed

lemma digit_chars_nonzero: "\<lbrakk> 2 \<le> b; b \<le> 16 \<rbrakk> \<Longrightarrow> 0 \<notin> set (map digit_char (digits b n))"
  using digits_less [of b] digit_char_nonzero by fastforce

lemma cstr_written:
  assumes "0 \<notin> set D" and "length D < length B"
  shows "cstr ((overwrite B 0 D)[length D := 0]) = D"
proof -
  have "(overwrite B 0 D)[length D := 0] = D @ 0 # drop (Suc (length D)) B"
    using assms(2) by (simp add: overwrite_def list_update_append Cons_nth_drop_Suc [symmetric]
        del: Cons_nth_drop_Suc)
  then show ?thesis using assms(1) by (simp add: cstr_append)
qed

lemma strToUInt_spec:
  assumes "length buf = 32"
  shows "\<exists>b. strToUInt num buf = Some b \<and> length b = 32 \<and>
    terminated b \<and> cstr b = map digit_char (digits 10 (unat num))"
proof -
  let ?D = "map digit_char (digits 10 (unat num))" and ?L = "length (digits 10 (unat num))"
  have L: "?L \<le> 20" "0 < ?L"
    using digits_length [of 10 "unat num" 20] unat_less_pow64 [of num] digits_nonempty by simp_all
  let ?B = "overwrite buf (20 - ?L) ?D"
  have loop: "digits_loop 20 10 19 0 num buf = Some (?L - 1, ?B)"
    using digits_loop_spec [of 10 num 20 0 19 buf] L assms by simp
  have lenB: "length ?B = 32" using L assms by simp
  have e: "?L - 1 + 1 = ?L" "19 - (?L - 1) = 20 - ?L" using L by linarith+
  have "memcpy_buf (?L - 1 + 1) 0 (19 - (?L - 1)) ?B = Some (overwrite ?B 0 (take ?L (drop (20 - ?L) ?B)))"
    unfolding e using memcpy_buf_forward [of 0 "20 - ?L" ?L ?B] L lenB by simp
  also have "take ?L (drop (20 - ?L) ?B) = ?D"
    using read_overwrite [of "20 - ?L" ?D buf] L assms by simp
  finally have "strToUInt num buf = Some ((overwrite ?B 0 ?D)[?L := 0])"
    unfolding strToUInt_def loop using L lenB e by (simp add: wr_def del: memcpy_buf.simps)
  moreover have "cstr ((overwrite ?B 0 ?D)[?L := 0]) = ?D"
    using cstr_written [of ?D ?B] digit_chars_nonzero [of 10] L lenB by simp
  moreover have "terminated ((overwrite ?B 0 ?D)[?L := 0])"
    using L lenB by (auto simp: terminated_def set_update_memI)
  ultimately show ?thesis using L lenB by simp
qed

lemma strToHex_spec:
  assumes "length buf = 32"
  shows "\<exists>b. strToHex num buf = Some b \<and> length b = 32 \<and>
    terminated b \<and> cstr b = [48, 120] @ map digit_char (digits 16 (unat num))"
proof -
  let ?D = "map digit_char (digits 16 (unat num))" and ?L = "length (digits 16 (unat num))"
  have L: "?L \<le> 16" "0 < ?L"
    using digits_length [of 16 "unat num" 16] unat_less_pow64 [of num] digits_nonempty by simp_all
  let ?b = "buf[0 := 48, 1 := 120]"
  let ?B = "overwrite ?b (21 - ?L) ?D"
  have e: "2 + ?L - 1 + 1 = ?L + 2" "22 - (2 + ?L - 1) = 21 - ?L" using L by linarith+
  have loop: "digits_loop 20 16 22 2 num ?b = Some (2 + ?L - 1, ?B)"
    using digits_loop_spec [of 16 num 20 2 22 ?b] L assms by simp
  have lenB: "length ?B = 32" using L assms by simp
  have "memcpy_buf (2 + ?L - 1 + 1) 2 (22 - (2 + ?L - 1)) ?B
    = Some (overwrite ?B 2 (take (?L + 2) (drop (21 - ?L) ?B)))"
    unfolding e using memcpy_buf_forward [of 2 "21 - ?L" "?L + 2" ?B] L lenB by simp
  also have "take (?L + 2) (drop (21 - ?L) ?B) = ?D @ take 2 (drop 21 ?b)"
    using L assms by (simp add: overwrite_def)
  finally have copy: "memcpy_buf (2 + ?L - 1 + 1) 2 (22 - (2 + ?L - 1)) ?B
    = Some (overwrite ?B 2 (?D @ take 2 (drop 21 ?b)))" .
  have two: "take 2 ?B = [48, 120]"
    using L assms by (cases buf; cases "tl buf") (auto simp: overwrite_def numeral_2_eq_2)
  let ?R = "(overwrite ?B 2 (?D @ take 2 (drop 21 ?b)))[?L + 2 := 0]"
  have R: "strToHex num buf = Some ?R"
    unfolding strToHex_def using loop copy e L lenB assms
    by (simp add: wr_def del: memcpy_buf.simps)
  have "\<exists>tl. ?R = ([48, 120] @ ?D) @ 0 # tl"
  proof -
    have "overwrite ?B 2 (?D @ take 2 (drop 21 ?b)) = [48, 120] @ ?D @ (take 2 (drop 21 ?b) @
        drop (2 + length (?D @ take 2 (drop 21 ?b))) ?B)"
      unfolding overwrite_def [of ?B] two by simp
    moreover obtain x xs where "take 2 (drop 21 ?b) = x # xs" using assms by (cases "take 2 (drop 21 ?b)") auto
    ultimately show ?thesis by (simp add: list_update_append)
  qed
  then obtain tl where tl: "?R = ([48, 120] @ ?D) @ 0 # tl" by blast
  have "cstr ?R = [48, 120] @ ?D" "terminated ?R"
    unfolding tl using digit_chars_nonzero [of 16 "unat num"]
    by (subst cstr_append; simp) (simp add: terminated_def)
  then show ?thesis using R L lenB assms by simp
qed

text \<open>
  Property C12. For every 64-bit number the two conversions stay inside their 32-byte buffer and leave
  in it, whatever it held before, the terminated string of its decimal digits, or of its
  hexadecimal digits behind \<^verbatim>\<open>0x\<close>, without leading zeros: read back, the digits are the number.
\<close>

theorem number_conversion_correct:
  assumes "length buf = 32"
  shows "\<exists>u h. strToUInt num buf = Some u \<and> strToHex num buf = Some h \<and> terminated u \<and> terminated h \<and>
    (\<exists>ds. cstr u = map digit_char ds \<and> set ds \<subseteq> {0..<10} \<and> (hd ds = 0 \<longrightarrow> length ds = 1) \<and>
      foldl (\<lambda>a d. a * 10 + d) 0 ds = unat num) \<and>
    (\<exists>ds. cstr h = [48, 120] @ map digit_char ds \<and> set ds \<subseteq> {0..<16} \<and> (hd ds = 0 \<longrightarrow> length ds = 1) \<and>
      foldl (\<lambda>a d. a * 16 + d) 0 ds = unat num)"
proof -
  have hd0: "hd (digits b n) = 0 \<longrightarrow> length (digits b n) = 1" if "2 \<le> b" for b n
    using digits_hd [OF that, of n] that by (cases "n = 0") (auto simp: digits_small)
  obtain u where u: "strToUInt num buf = Some u" "terminated u" "cstr u = map digit_char (digits 10 (unat num))"
    using strToUInt_spec [OF assms] by blast
  obtain h where h: "strToHex num buf = Some h" "terminated h"
    "cstr h = [48, 120] @ map digit_char (digits 16 (unat num))"
    using strToHex_spec [OF assms] by blast
  have ds: "set (digits b n) \<subseteq> {0..<b}" if "2 \<le> b" for b n
    using digits_less [OF that] by auto
  have "\<exists>ds. cstr u = map digit_char ds \<and> set ds \<subseteq> {0..<10} \<and> (hd ds = 0 \<longrightarrow> length ds = 1) \<and>
      foldl (\<lambda>a d. a * 10 + d) 0 ds = unat num"
    by (rule exI [of _ "digits 10 (unat num)"], intro conjI u(3) ds hd0 digits_value) simp_all
  moreover have "\<exists>ds. cstr h = [48, 120] @ map digit_char ds \<and> set ds \<subseteq> {0..<16} \<and>
      (hd ds = 0 \<longrightarrow> length ds = 1) \<and> foldl (\<lambda>a d. a * 16 + d) 0 ds = unat num"
    by (rule exI [of _ "digits 16 (unat num)"], intro conjI h(3) ds hd0 digits_value) simp_all
  ultimately show ?thesis
    by (intro exI [of _ u] exI [of _ h] conjI u(1,2) h(1,2))
qed

theorem number_conversion_correct_witness:
  "\<exists>u h. strToUInt 2026 (replicate 32 7) = Some u \<and> strToHex 2026 (replicate 32 7) = Some h \<and>
    terminated u \<and> terminated h"
  using number_conversion_correct [of "replicate 32 7" 2026] by auto


section \<open>The device contract\<close>

text \<open>What a format string and its arguments print; \<open>None\<close> where an argument is missing.\<close>

fun render :: "bool \<Rightarrow> byte list \<Rightarrow> va list \<Rightarrow> byte list option" where
  "render specialChar [] args = Some []"
| "render True (c # f) args =
     (if c = 120 then
        (case args of VaU64 n # args \<Rightarrow>
           map_option ((@) ([48, 120] @ map digit_char (digits 16 (unat n)))) (render False f args)
         | _ \<Rightarrow> None)
      else if c = 117 then
        (case args of VaU64 n # args \<Rightarrow>
           map_option ((@) (map digit_char (digits 10 (unat n)))) (render False f args)
         | _ \<Rightarrow> None)
      else if c = 115 then
        (case args of VaStr t # args \<Rightarrow>
           (if terminated t \<and> length t < 2 ^ 64 then map_option ((@) (cstr t)) (render False f args) else None)
         | _ \<Rightarrow> None)
      else render False f args)"
| "render False (c # f) args =
     (if c = 37 then render True f args else map_option ((#) c) (render False f args))"

text \<open>The selected device is the one with the callback \<open>putc\<close>.\<close>

definition koal_ready :: "(byte \<Rightarrow> 'd \<Rightarrow> (int \<times> 'd) option) \<Rightarrow> 'd koal \<Rightarrow> bool" where
  "koal_ready putc s \<longleftrightarrow> 0 \<le> selectedOutput s \<and>
     (\<exists>e. koal_at (selectedOutput s) s = Some e \<and> outChar e = putc)"

lemma koal_ready_dev [simp]: "koal_ready putc (s\<lparr>dev := d\<rparr>) = koal_ready putc s"
  by (simp add: koal_ready_def koal_at_def)

lemma koalPrintChar_ready:
  assumes "koal_ready putc s"
  shows "koalPrintChar c s = map_option (\<lambda>(ret, d). (ret, s\<lparr>dev := d\<rparr>)) (putc c (dev s))"
proof -
  obtain e where e: "0 \<le> selectedOutput s" "koal_at (selectedOutput s) s = Some e" "outChar e = putc"
    using assms by (auto simp: koal_ready_def)
  then have "rd (koals s) (nat (selectedOutput s)) = Some (Some e)"
    by (auto simp: koal_at_def)
  then have "checkCurrentSelected s = Some 0"
    using e(1) by (simp add: checkCurrentSelected_def)
  with e show ?thesis by (cases "putc c (dev s)") (auto simp: koalPrintChar_def)
qed

text \<open>
  A device accepts every printable character while its invariant holds, and what it shows
  changes by \<open>show_char\<close>.
\<close>

locale output_device =
  fixes putc :: "byte \<Rightarrow> 'd \<Rightarrow> (int \<times> 'd) option"
    and inv :: "'d \<Rightarrow> bool"
    and printable :: "byte \<Rightarrow> bool"
    and shown :: "'d \<Rightarrow> 'v"
    and show_char :: "byte \<Rightarrow> 'v \<Rightarrow> 'v"
  assumes putc_ok: "\<lbrakk> inv d; printable c \<rbrakk> \<Longrightarrow>
    \<exists>d'. putc c d = Some (0, d') \<and> inv d' \<and> shown d' = show_char c (shown d)"
begin

lemma koalPrintChar_shown:
  assumes "koal_ready putc s" "inv (dev s)" "printable c"
  shows "\<exists>d. koalPrintChar c s = Some (0, s\<lparr>dev := d\<rparr>) \<and> inv d \<and> shown d = show_char c (shown (dev s))"
  using putc_ok [OF assms(2,3)] by (auto simp: koalPrintChar_ready [OF assms(1)])

lemma koalPrint_loop_shown:
  assumes "i + k = length (cstr str)" "koal_ready putc s" "inv (dev s)" "\<forall>c \<in> set (cstr str). printable c"
  shows "\<exists>d. koalPrint_loop k i str 0 s = Some (0, s\<lparr>dev := d\<rparr>) \<and> inv d \<and>
    shown d = fold show_char (drop i (cstr str)) (shown (dev s))"
  using assms(1-3)
proof (induction k arbitrary: i s)
  case 0
  then show ?case by (auto intro: exI [of _ "dev s"])
next
  case (Suc k)
  have i: "i < length (cstr str)" using Suc.prems(1) by simp
  have c: "rd str i = Some (cstr str ! i)" using cstr_nth [OF i] by (simp add: rd_def)
  have p: "printable (cstr str ! i)" using assms(4) i by simp
  obtain d where d: "koalPrintChar (cstr str ! i) s = Some (0, s\<lparr>dev := d\<rparr>)" "inv d"
    "shown d = show_char (cstr str ! i) (shown (dev s))"
    using koalPrintChar_shown [OF Suc.prems(2,3) p] by blast
  have "\<exists>d'. koalPrint_loop k (Suc i) str 0 (s\<lparr>dev := d\<rparr>) = Some (0, s\<lparr>dev := d'\<rparr>) \<and> inv d' \<and>
    shown d' = fold show_char (drop (Suc i) (cstr str)) (shown d)"
    using Suc.IH [of "Suc i" "s\<lparr>dev := d\<rparr>"] Suc.prems d(2) by simp
  then show ?case using c d i by (auto simp: Cons_nth_drop_Suc [symmetric] simp del: Cons_nth_drop_Suc)
qed

lemma koalPrint_shown:
  assumes "koal_ready putc s" "inv (dev s)" "terminated str" "length str < 2 ^ 64"
    "\<forall>c \<in> set (cstr str). printable c"
  shows "\<exists>d. koalPrint str s = Some (0, s\<lparr>dev := d\<rparr>) \<and> inv d \<and>
    shown d = fold show_char (cstr str) (shown (dev s))"
proof -
  have "unat (of_nat (length (cstr str)) :: u64) = length (cstr str)"
    using terminated_length [OF assms(3)] assms(4) by (simp add: unat_of_nat_small)
  then show ?thesis
    using koalPrint_loop_shown [of 0 "length (cstr str)" str s] assms
    by (simp add: koalPrint_def strlen_cstr)
qed

lemma kprintf_loop_shown:
  assumes "length garbage = 32" "i + k = length (cstr str)"
    "render sp (drop i (cstr str)) args = Some out" "\<forall>c \<in> set out. printable c"
    "koal_ready putc s" "inv (dev s)"
  shows "\<exists>d. kprintf_loop garbage k i str sp args s = Some (s\<lparr>dev := d\<rparr>) \<and> inv d \<and>
    shown d = fold show_char out (shown (dev s))"
  using assms(2-6)
proof (induction k arbitrary: i sp args out s)
  case 0
  then show ?case by (auto intro: exI [of _ "dev s"])
next
  case (Suc k)
  have i: "i < length (cstr str)" using Suc.prems(1) by simp
  let ?c = "cstr str ! i" and ?f = "drop (Suc i) (cstr str)"
  have c: "rd str i = Some ?c" using cstr_nth [OF i] by (simp add: rd_def)
  have r: "render sp (?c # ?f) args = Some out"
    using Suc.prems(2) i by (simp add: Cons_nth_drop_Suc)
  have plain: ?case
    if "kprintf_loop garbage (Suc k) i str sp args s = kprintf_loop garbage k (Suc i) str sp' args s"
      "render sp' ?f args = Some out" for sp'
    using Suc.IH [of "Suc i" sp' args out s] Suc.prems that by simp
  have out: ?case
    if "kprintf_loop garbage (Suc k) i str sp args s = kprintf_loop garbage k (Suc i) str False args' (s\<lparr>dev := d\<rparr>)"
      "inv d" "shown d = fold show_char t (shown (dev s))" "render False ?f args' = Some out'" "out = t @ out'"
    for t out' args' d
    using Suc.IH [of "Suc i" False args' out' "s\<lparr>dev := d\<rparr>"] Suc.prems that by auto
  have strs: "\<exists>d. koalPrint t s = Some (0, s\<lparr>dev := d\<rparr>) \<and> inv d \<and> shown d = fold show_char (cstr t) (shown (dev s))"
    if "terminated t" "length t < 2 ^ 64" "out = cstr t @ out'" for t out'
    using koalPrint_shown [OF Suc.prems(4,5) that(1,2)] Suc.prems(3) that(3) by simp
  show ?case
  proof (cases sp)
    case False
    show ?thesis
    proof (cases "?c = 37")
      case True
      then show ?thesis using False c r by (intro plain [of True]) (simp_all)
    next
      case ne: False
      then obtain out' where o: "render False ?f args = Some out'" "out = [?c] @ out'" using r False by auto
      obtain d where d: "koalPrintChar ?c s = Some (0, s\<lparr>dev := d\<rparr>)" "inv d" "shown d = show_char ?c (shown (dev s))"
        using koalPrintChar_shown [of s ?c] Suc.prems(3-5) o(2) by auto
      show ?thesis by (rule out [OF _ d(2) _ o]) (use d ne False c in simp_all)
    qed
  next
    case True
    consider (hex) "?c = 120" | (dec) "?c = 117" | (str) "?c = 115" | (other) "?c \<notin> {120, 117, 115}" by blast
    then show ?thesis
    proof cases
      case hex
      then obtain n args' out' where o: "args = VaU64 n # args'" "render False ?f args' = Some out'"
        "out = ([48, 120] @ map digit_char (digits 16 (unat n))) @ out'"
        using r True by (auto split: list.splits va.splits)
      obtain b where b: "strToHex n garbage = Some b" "length b = 32" "terminated b"
        "cstr b = [48, 120] @ map digit_char (digits 16 (unat n))" using strToHex_spec [OF assms(1)] by blast
      obtain d where d: "koalPrint b s = Some (0, s\<lparr>dev := d\<rparr>)" "inv d" "shown d = fold show_char (cstr b) (shown (dev s))"
        using strs [OF b(3)] b(2,4) o(3) by auto
      show ?thesis by (rule out [OF _ d(2) _ o(2,3)]) (use d b hex True c o(1) in simp_all)
    next
      case dec
      then obtain n args' out' where o: "args = VaU64 n # args'" "render False ?f args' = Some out'"
        "out = map digit_char (digits 10 (unat n)) @ out'"
        using r True by (auto split: list.splits va.splits)
      obtain b where b: "strToUInt n garbage = Some b" "length b = 32" "terminated b"
        "cstr b = map digit_char (digits 10 (unat n))" using strToUInt_spec [OF assms(1)] by blast
      obtain d where d: "koalPrint b s = Some (0, s\<lparr>dev := d\<rparr>)" "inv d" "shown d = fold show_char (cstr b) (shown (dev s))"
        using strs [OF b(3)] b(2,4) o(3) by auto
      show ?thesis by (rule out [OF _ d(2) _ o(2,3)]) (use d b dec True c o(1) in simp_all)
    next
      case str
      then obtain t args' out' where o: "args = VaStr t # args'" "render False ?f args' = Some out'"
        "out = cstr t @ out'" "terminated t" "length t < 2 ^ 64"
        using r True by (auto split: list.splits va.splits if_splits)
      obtain d where d: "koalPrint t s = Some (0, s\<lparr>dev := d\<rparr>)" "inv d" "shown d = fold show_char (cstr t) (shown (dev s))"
        using strs [OF o(4,5,3)] by auto
      show ?thesis by (rule out [OF _ d(2) _ o(2,3)]) (use d str True c o(1) in simp_all)
    next
      case other
      then show ?thesis using True c r by (intro plain [of False]) simp_all
    qed
  qed
qed

lemma kprintf_shown:
  assumes "length garbage = 32" "terminated str" "length str < 2 ^ 64"
    "render False (cstr str) args = Some out" "\<forall>c \<in> set out. printable c"
    "koal_ready putc s" "inv (dev s)"
  shows "\<exists>d. kprintf garbage str args s = Some (s\<lparr>dev := d\<rparr>) \<and> inv d \<and>
    shown d = fold show_char out (shown (dev s))"
proof -
  have "unat (of_nat (length (cstr str)) :: u64) = length (cstr str)"
    using terminated_length [OF assms(2)] assms(3) by (simp add: unat_of_nat_small)
  then show ?thesis
    using kprintf_loop_shown [of garbage 0 "length (cstr str)" str False args out s] assms
    by (simp add: kprintf_def strlen_cstr)
qed

end

end
