(* ===== verification/Terminal.thy ===== *)
theory Terminal
  imports Koal
begin

text \<open>
  The text terminal of \<^verbatim>\<open>terminal.c\<close>: 25 rows of 80 cells of video memory, a cursor, scrolling. A
  cell is a 16-bit word, the character in its low byte. The screen is refined to a text: the
  sequence of the characters up to the cursor.
\<close>

section \<open>Operations\<close>

record terminal =
  videoMemory :: "u16 list"
  curRow :: byte
  curCol :: byte

definition VGA_WIDTH :: nat where "VGA_WIDTH = 80"
definition VGA_HEIGHT :: nat where "VGA_HEIGHT = 25"
definition TERMINAL_BACKCOLOR :: u16 where "TERMINAL_BACKCOLOR = 0x5"
definition TERMINAL_FORECOLOR :: u16 where "TERMINAL_FORECOLOR = 0xF"

text \<open>The loops over the cells; writing outside the video memory is a fault.\<close>

primrec fill_upto :: "nat \<Rightarrow> u16 \<Rightarrow> u16 list \<Rightarrow> u16 list option" where
  "fill_upto 0 v vm = Some vm"
| "fill_upto (Suc i) v vm = do { vm \<leftarrow> fill_upto i v vm; wr vm i v }"

definition terminalClear :: "byte \<Rightarrow> terminal \<Rightarrow> terminal option" where
  "terminalClear color t = do {
     vm \<leftarrow> fill_upto (VGA_WIDTH * VGA_HEIGHT)
             (push_bit 12 (ucast color) + push_bit 8 TERMINAL_FORECOLOR) (videoMemory t);
     Some (t\<lparr>videoMemory := vm, curRow := 0, curCol := 0\<rparr>)
   }"

primrec clearLetters_upto :: "nat \<Rightarrow> u16 list \<Rightarrow> u16 list option" where
  "clearLetters_upto 0 vm = Some vm"
| "clearLetters_upto (Suc i) vm = do {
     vm \<leftarrow> clearLetters_upto i vm;
     let test = VGA_WIDTH * (VGA_HEIGHT - 1) + i;
     w \<leftarrow> rd vm test;
     wr vm test (w AND 0xFF00)
   }"

text \<open>
  The copy moves whole cells upwards by a row; done cell by cell it reads and writes in the order
  of the byte loop of \<^verbatim>\<open>memcpy\<close>.
\<close>

definition terminalMoveUp :: "terminal \<Rightarrow> terminal option" where
  "terminalMoveUp t = do {
     vm \<leftarrow> memcpy_buf (VGA_WIDTH * VGA_HEIGHT - VGA_WIDTH) 0 VGA_WIDTH (videoMemory t);
     vm \<leftarrow> clearLetters_upto VGA_WIDTH vm;
     Some (t\<lparr>videoMemory := vm, curRow := curRow t - 1\<rparr>)
   }"

definition terminalPutchar :: "byte \<Rightarrow> terminal \<Rightarrow> (int \<times> terminal) option" where
  "terminalPutchar c t = do {
     let t = (if unat (curCol t) = VGA_WIDTH then t\<lparr>curRow := curRow t + 1, curCol := 0\<rparr> else t);
     t \<leftarrow> (if unat (curRow t) = VGA_HEIGHT then terminalMoveUp t else Some t);
     if c = 0xA then Some (0, t\<lparr>curRow := curRow t + 1, curCol := 0\<rparr>)
     else do {
       let pos = unat (curCol t) + unat (curRow t) * VGA_WIDTH;
       w \<leftarrow> rd (videoMemory t) pos;
       vm \<leftarrow> wr (videoMemory t) pos (w + scast c);
       Some (0, t\<lparr>videoMemory := vm, curCol := curCol t + 1\<rparr>)
     }
   }"

fun terminalPrint :: "byte list \<Rightarrow> terminal \<Rightarrow> (int \<times> terminal) option" where
  "terminalPrint [] t = None"
| "terminalPrint (c # str) t =
     (if c \<noteq> 0 then do { (_, t) \<leftarrow> terminalPutchar c t; terminalPrint str t } else Some (0, t))"

text \<open>The name \<^verbatim>\<open>TEXT_TERMINAL\<close> and the entry that the terminal attaches; both have static storage.\<close>

definition TEXT_TERMINAL :: "byte list" where
  "TEXT_TERMINAL = [84, 69, 88, 84, 95, 84, 69, 82, 77, 73, 78, 65, 76, 0]"

definition terminalInit :: "terminal koal \<Rightarrow> terminal koal option" where
  "terminalInit s = do {
     name \<leftarrow> strcpym (replicate 32 0) TEXT_TERMINAL 32;
     (_, s) \<leftarrow> koalAttach \<lparr>koal_name = name, outChar = terminalPutchar\<rparr> s;
     vm \<leftarrow> fill_upto (VGA_WIDTH * VGA_HEIGHT)
             (push_bit 12 TERMINAL_BACKCOLOR + push_bit 8 TERMINAL_FORECOLOR) (videoMemory (dev s));
     Some (s\<lparr>dev := (dev s)\<lparr>videoMemory := vm\<rparr>\<rparr>)
   }"

section \<open>The screen as a text\<close>

definition cursor :: "terminal \<Rightarrow> nat" where
  "cursor t = unat (curRow t) * 80 + unat (curCol t)"

definition low :: "u16 \<Rightarrow> byte" where "low w = ucast w"

definition screen_text :: "terminal \<Rightarrow> byte list" where
  "screen_text t = map low (take (cursor t) (videoMemory t))"

text \<open>The cells from the cursor on are blank: writing a character adds it to an empty low byte.\<close>

definition term_wf :: "terminal \<Rightarrow> bool" where
  "term_wf t \<longleftrightarrow> length (videoMemory t) = 2000 \<and> unat (curCol t) \<le> 80 \<and> cursor t \<le> 2000 \<and>
     (\<forall>i. cursor t \<le> i \<and> i < 2000 \<longrightarrow> low (videoMemory t ! i) = 0)"

definition text_put :: "byte \<Rightarrow> byte list \<Rightarrow> byte list" where
  "text_put c txt =
     (let txt = (if length txt = 2000 then drop 80 txt else txt)
      in if c = 0xA then txt @ replicate (80 - length txt mod 80) 0 else txt @ [c])"

section \<open>Scrolling\<close>

lemma clearLetters_upto_spec:
  "\<lbrakk> length vm = 2000; n \<le> 80 \<rbrakk> \<Longrightarrow>
   clearLetters_upto n vm = Some (map (\<lambda>i. if 1920 \<le> i \<and> i < 1920 + n then (vm ! i) AND 0xFF00 else vm ! i) [0..<2000])"
proof (induction n)
  case 0
  then show ?case by (auto intro!: nth_equalityI)
next
  case (Suc n)
  then show ?case
    by (auto simp: rd_def wr_def VGA_WIDTH_def VGA_HEIGHT_def nth_list_update Let_def intro!: nth_equalityI)
qed

lemma fill_upto_spec: "n \<le> length vm \<Longrightarrow> fill_upto n v vm = Some (replicate n v @ drop n vm)"
proof (induction n)
  case (Suc n)
  then have "wr (replicate n v @ drop n vm) n v = Some (replicate n v @ v # drop (Suc n) vm)"
    by (simp add: wr_def list_update_append Cons_nth_drop_Suc [symmetric] del: Cons_nth_drop_Suc)
  with Suc show ?case by (simp add: replicate_append_same [symmetric] del: replicate_append_same)
qed simp

lemma terminalMoveUp_spec:
  assumes "length (videoMemory t) = 2000"
  shows "terminalMoveUp t = Some (t\<lparr>videoMemory := drop 80 (videoMemory t) @
      map (\<lambda>w. w AND 0xFF00) (drop 1920 (videoMemory t)), curRow := curRow t - 1\<rparr>)"
proof -
  let ?v = "videoMemory t"
  let ?c = "overwrite ?v 0 (take 1920 (drop 80 ?v))"
  have c: "memcpy_buf 1920 0 80 ?v = Some ?c" using assms memcpy_buf_forward [of 0 80 1920 ?v] by simp
  have v: "?c = drop 80 ?v @ drop 1920 ?v" using assms by (simp add: overwrite_def)
  have "clearLetters_upto 80 ?c = Some (drop 80 ?v @ map (\<lambda>w. w AND 0xFF00) (drop 1920 ?v))"
    unfolding v using assms
    by (subst clearLetters_upto_spec) (auto simp: nth_append intro!: nth_equalityI)
  then show ?thesis by (simp add: terminalMoveUp_def VGA_WIDTH_def VGA_HEIGHT_def c)
qed

lemma low_blank: "low (w AND 0xFF00) = 0"
  unfolding low_def by transfer (simp add: take_bit_and)


section \<open>Writing a character\<close>

text \<open>The two adjustments before a character is written: to the next row, and scrolling.\<close>

definition next_cell :: "terminal \<Rightarrow> terminal option" where
  "next_cell t =
     (let t = (if unat (curCol t) = VGA_WIDTH then t\<lparr>curRow := curRow t + 1, curCol := 0\<rparr> else t)
      in if unat (curRow t) = VGA_HEIGHT then terminalMoveUp t else Some t)"

lemma term_wf_bounds:
  assumes "term_wf t"
  shows "unat (curRow t) \<le> 25" "unat (curCol t) \<le> 80" "unat (curRow t) = 25 \<Longrightarrow> curCol t = 0"
  using assms by (auto simp: term_wf_def cursor_def unat_eq_0)

lemma next_cell_spec:
  assumes "term_wf t"
  obtains t' where "next_cell t = Some t'" "term_wf t'" "unat (curCol t') < 80" "unat (curRow t') < 25"
    "screen_text t' = (if length (screen_text t) = 2000 then drop 80 (screen_text t) else screen_text t)"
proof -
  define u where "u = (if unat (curCol t) = VGA_WIDTH then t\<lparr>curRow := curRow t + 1, curCol := 0\<rparr> else t)"
  have b: "unat (curRow t) \<le> 25" "unat (curCol t) \<le> 80" using term_wf_bounds [OF assms] by auto
  have full: "unat (curCol t) = 80 \<Longrightarrow> unat (curRow t) < 25"
    using assms by (auto simp: term_wf_def cursor_def)
  have r1: "unat (curRow t + 1) = Suc (unat (curRow t))"
    using b(1) by (subst unat_add_small) auto
  have cu: "cursor u = cursor t"
    using r1 by (simp add: u_def cursor_def VGA_WIDTH_def)
  have vm: "videoMemory u = videoMemory t" by (simp add: u_def)
  have tx: "screen_text u = screen_text t" by (simp add: screen_text_def cu vm)
  have wfu: "term_wf u" using assms cu vm b by (simp add: term_wf_def) (simp add: u_def)
  have cu80: "unat (curCol u) < 80" using b by (auto simp: u_def VGA_WIDTH_def)
  have len: "length (screen_text t) = cursor t" using assms by (simp add: screen_text_def term_wf_def)
  have n: "next_cell t = (if unat (curRow u) = 25 then terminalMoveUp u else Some u)"
    by (simp add: next_cell_def u_def VGA_HEIGHT_def Let_def)
  show thesis
  proof (cases "unat (curRow u) = 25")
    case False
    then have "unat (curRow u) < 25" using term_wf_bounds(1) [OF wfu] by simp
    moreover from this have "cursor u < 2000" using cu80 by (simp add: cursor_def)
    ultimately show thesis using that [of u] False n wfu cu80 tx len cu by simp
  next
    case True
    then have col: "curCol u = 0" using term_wf_bounds(3) [OF wfu] by simp
    have lv: "length (videoMemory u) = 2000" using wfu by (simp add: term_wf_def)
    define v where "v = u\<lparr>videoMemory := drop 80 (videoMemory u) @
      map (\<lambda>w. w AND 0xFF00) (drop 1920 (videoMemory u)), curRow := curRow u - 1\<rparr>"
    have r: "unat (curRow u - 1) = 24" using True by (subst unat_minus_one) auto
    then have cv: "cursor v = 1920" using col by (simp add: cursor_def v_def)
    have c2000: "cursor u = 2000" using True col by (simp add: cursor_def)
    have "term_wf v"
      using lv cv col by (auto simp: term_wf_def nth_append low_blank) (simp_all add: v_def nth_append low_blank)
    moreover have "screen_text v = drop 80 (screen_text u)"
      using lv by (simp add: screen_text_def cv c2000 drop_map) (simp add: v_def)
    ultimately show thesis
      using that [of v] n True terminalMoveUp_spec [OF lv] r col tx len cu c2000
      by (simp add: v_def)
  qed
qed

lemma low_add: "low w = 0 \<Longrightarrow> low (w + scast c) = c"
proof -
  have m: "x mod 65536 mod 256 = x mod (256 :: int)" for x by (simp add: mod_mod_cancel)
  have "(x + ((y + 128) mod 256 - 128)) mod 65536 mod 256 = (x mod 65536 + y) mod (256 :: int)" for x y
  proof -
    have "(x mod 65536 + y) mod 256 = (x + y) mod 256" by (metis m mod_add_left_eq)
    moreover have "x + ((y + 128) mod 256 - 128) = (x + y) + 256 * - ((y + 128) div 256)"
      by (simp flip: minus_mult_div_eq_mod)
    then have "(x + ((y + 128) mod 256 - 128)) mod 256 = (x + y) mod 256" by (simp only: mod_mult_self2)
    ultimately show ?thesis by (simp only: m)
  qed
  then have "low (w + scast c) = low w + c" for c :: byte
    unfolding low_def by transfer (simp add: take_bit_eq_mod mod_simps signed_take_bit_eq_take_bit_shift)
  then show "low w = 0 \<Longrightarrow> low (w + scast c) = c" by simp
qed


lemma terminalPutchar_next:
  "terminalPutchar c t = Option.bind (next_cell t) (\<lambda>t.
     if c = 0xA then Some (0, t\<lparr>curRow := curRow t + 1, curCol := 0\<rparr>)
     else do {
       let pos = unat (curCol t) + unat (curRow t) * VGA_WIDTH;
       w \<leftarrow> rd (videoMemory t) pos;
       vm \<leftarrow> wr (videoMemory t) pos (w + scast c);
       Some (0, t\<lparr>videoMemory := vm, curCol := curCol t + 1\<rparr>)
     })"
  by (simp add: terminalPutchar_def next_cell_def Let_def)

lemma terminalPutchar_spec:
  assumes "term_wf t"
  shows "\<exists>t'. terminalPutchar c t = Some (0, t') \<and> term_wf t' \<and>
    screen_text t' = text_put c (screen_text t)"
proof -
  obtain u where u: "next_cell t = Some u" "term_wf u" "unat (curCol u) < 80" "unat (curRow u) < 25"
    "screen_text u = (if length (screen_text t) = 2000 then drop 80 (screen_text t) else screen_text t)"
    using next_cell_spec [OF assms] .
  have lv: "length (videoMemory u) = 2000"
    and blank: "\<And>i. cursor u \<le> i \<Longrightarrow> i < 2000 \<Longrightarrow> low (videoMemory u ! i) = 0"
    using u(2) by (auto simp: term_wf_def)
  have cu: "cursor u = unat (curRow u) * 80 + unat (curCol u)" "cursor u < 2000"
    using u(3,4) by (simp_all add: cursor_def)
  have len: "length (screen_text u) = cursor u" using cu lv by (simp add: screen_text_def)
  show ?thesis
  proof (cases "c = 0xA")
    case True
    let ?t = "u\<lparr>curRow := curRow u + 1, curCol := 0\<rparr>"
    have "unat (curRow u + 1) = Suc (unat (curRow u))" using u(4) by (subst unat_add_small) auto
    then have c': "cursor ?t = Suc (unat (curRow u)) * 80" by (simp add: cursor_def)
    then have c2: "cursor ?t = cursor u + (80 - cursor u mod 80)" using cu u(3) by simp
    have "map low (take (80 - cursor u mod 80) (drop (cursor u) (videoMemory u)))
      = replicate (80 - cursor u mod 80) 0"
      using lv blank c' c2 u(4) by (intro nth_equalityI) auto
    then have "screen_text ?t = screen_text u @ replicate (80 - cursor u mod 80) 0"
      unfolding screen_text_def c2 take_add by simp
    moreover have "term_wf ?t" using u(2,4) c' c2 by (auto simp: term_wf_def)
    ultimately show ?thesis
      using u(1,5) True len by (simp add: terminalPutchar_next text_put_def Let_def)
  next
    case False
    let ?vm = "(videoMemory u)[cursor u := videoMemory u ! cursor u + scast c]"
    let ?t = "u\<lparr>videoMemory := ?vm, curCol := curCol u + 1\<rparr>"
    have "unat (curCol u + 1) = Suc (unat (curCol u))" using u(3) by (subst unat_add_small) auto
    then have c': "cursor ?t = Suc (cursor u)" "unat (curCol ?t) \<le> 80" using cu u(3) by (simp_all add: cursor_def)
    have "screen_text ?t = screen_text u @ [c]"
      using cu(2) lv low_add [OF blank [of "cursor u"]] by (simp add: screen_text_def c' take_Suc_conv_app_nth)
    moreover have "term_wf ?t" using c' lv cu(2) blank by (simp add: term_wf_def)
    moreover have "unat (curCol u) + unat (curRow u) * VGA_WIDTH = cursor u" by (simp add: cu VGA_WIDTH_def)
    ultimately show ?thesis
      using u(1,5) False lv cu(2) by (simp add: terminalPutchar_next text_put_def Let_def rd_def wr_def)
  qed
qed

text \<open>The terminal is a device of the output layer: it accepts every character.\<close>

interpretation vga: output_device terminalPutchar term_wf "\<lambda>_. True" screen_text text_put
  by unfold_locales (rule terminalPutchar_spec)

text \<open>
  Property C14. From every state in which the cursor is on the screen and the cells behind it are blank, a
  character is written without touching memory outside the 2000 cells; the state stays of that
  form, and the text up to the cursor grows by that character, or by blanks up to the next row for
  a newline, after losing its first row when the screen was full.
\<close>

theorem terminalPutchar_correct:
  assumes "term_wf t"
  shows "\<exists>t'. terminalPutchar c t = Some (0, t') \<and> term_wf t' \<and>
    screen_text t' = (let txt = screen_text t; txt = (if length txt = 2000 then drop 80 txt else txt)
      in if c = 0xA then txt @ replicate (80 - length txt mod 80) 0 else txt @ [c])"
  using terminalPutchar_spec [OF assms, of c] by (simp only: text_put_def Let_def)

text \<open>
  Property C13. \<^verbatim>\<open>kprintf\<close> on a selected terminal writes to the screen exactly what the format string and
  its arguments denote, character by character, whatever its uninitialised local buffers held.
\<close>

theorem kprintf_on_terminal:
  assumes "length garbage = 32" and "terminated str" and "length str < 2 ^ 64"
    and "render False (cstr str) args = Some out"
    and "koal_ready terminalPutchar s" and "term_wf (dev s)"
  shows "\<exists>t. kprintf garbage str args s = Some (s\<lparr>dev := t\<rparr>) \<and> term_wf t \<and>
    screen_text t = fold text_put out (screen_text (dev s))"
  using vga.kprintf_shown [OF assms(1-4) _ assms(5,6)] by simp

text \<open>A cleared terminal, attached and selected.\<close>

definition blank_terminal :: terminal where
  "blank_terminal = \<lparr>videoMemory = replicate 2000 0x5F00, curRow = 0, curCol = 0\<rparr>"

definition ready_koal :: "terminal koal" where
  "ready_koal = \<lparr>koals = Some \<lparr>koal_name = TEXT_TERMINAL, outChar = terminalPutchar\<rparr> # replicate 11 None,
     currentIndex = 1, selectedOutput = 0, dev = blank_terminal\<rparr>"

lemma blank_terminal_wf: "term_wf blank_terminal" "screen_text blank_terminal = []"
  by (simp_all add: term_wf_def blank_terminal_def cursor_def screen_text_def low_def)

theorem terminalPutchar_correct_witness:
  "\<exists>t'. terminalPutchar 66 blank_terminal = Some (0, t') \<and> screen_text t' = [66]"
  using terminalPutchar_correct [OF blank_terminal_wf(1), of 66] blank_terminal_wf(2) by (auto simp: Let_def)

theorem kprintf_on_terminal_witness:
  "\<exists>t. kprintf (replicate 32 9) [110, 61, 37, 117, 0] [VaU64 7] ready_koal = Some (ready_koal\<lparr>dev := t\<rparr>) \<and>
     screen_text t = [110, 61, 55]"
proof -
  have "koal_ready terminalPutchar ready_koal" and w: "term_wf (dev ready_koal)"
    by (simp_all add: ready_koal_def koal_ready_def koal_at_def rd_def blank_terminal_wf)
  moreover have "render False (cstr [110, 61, 37, 117, 0]) [VaU64 7] = Some [110, 61, 55]"
    by (simp add: digits_small digit_char_def numberMap_def)
  ultimately obtain t where
    "kprintf (replicate 32 9) [110, 61, 37, 117, 0] [VaU64 7] ready_koal = Some (ready_koal\<lparr>dev := t\<rparr>)"
    "screen_text t = fold text_put [110, 61, 55] (screen_text (dev ready_koal))"
    using kprintf_on_terminal [of "replicate 32 9" "[110, 61, 37, 117, 0]" "[VaU64 7]" "[110, 61, 55]" ready_koal]
    by auto
  moreover have "screen_text (dev ready_koal) = []" by (simp add: ready_koal_def blank_terminal_wf)
  ultimately show ?thesis by (auto simp: text_put_def)
qed

end
