(* ===== verification/Panic.thy ===== *)
theory Panic
  imports Terminal Idt
begin

text \<open>
  What a panic shows: \<^verbatim>\<open>panic\<close> of \<^verbatim>\<open>kernel.c\<close> and \<^verbatim>\<open>printTrapFrame\<close> of \<^verbatim>\<open>idt/idt.c\<close>, on the output layer with the
  text terminal. \<^verbatim>\<open>panic\<close> does not return; the definition gives what the machine shows from then on.
\<close>

section \<open>Operations\<close>

text \<open>A string constant of the code, and the end of a line.\<close>

definition cstring :: "string \<Rightarrow> byte list" where
  "cstring s = map of_char s @ [0]"

abbreviation nl :: string where
  "nl \<equiv> [CHR 0x0A]"

definition printTrapFrame :: "byte list \<Rightarrow> u64 \<Rightarrow> trapFrame \<Rightarrow> 'd koal \<Rightarrow> 'd koal option" where
  "printTrapFrame garbage address frame s = do {
     s \<leftarrow> kprintf garbage (cstring (''Trap frame: %x'' @ nl @ nl)) [VaU64 address] s;
     s \<leftarrow> kprintf garbage (cstring (''RAX: %x  RBX: %x  RCX: %x  RDX: %x'' @ nl))
       [VaU64 (tf_rax frame), VaU64 (tf_rbx frame), VaU64 (tf_rcx frame), VaU64 (tf_rdx frame)] s;
     s \<leftarrow> kprintf garbage (cstring (''RSI: %x  RDI: %x  RBP: %x'' @ nl @ nl))
       [VaU64 (tf_rsi frame), VaU64 (tf_rdi frame), VaU64 (tf_rbp frame)] s;
     s \<leftarrow> kprintf garbage (cstring (''R15: %x  R14: %x  R13: %x  R12: %x'' @ nl))
       [VaU64 (tf_r15 frame), VaU64 (tf_r14 frame), VaU64 (tf_r13 frame), VaU64 (tf_r12 frame)] s;
     s \<leftarrow> kprintf garbage (cstring (''R11: %x  R10: %x  R09: %x  R08: %x'' @ nl @ nl))
       [VaU64 (tf_r11 frame), VaU64 (tf_r10 frame), VaU64 (tf_r9 frame), VaU64 (tf_r8 frame)] s;
     kprintf garbage (cstring (''RIP: %x  CS: %x  FLAGS: %x  RSP: %x  DS: %x'' @ nl @ nl))
       [VaU64 (tf_rip frame), VaU64 (tf_cs frame), VaU64 (tf_flags frame), VaU64 (tf_rsp frame), VaU64 (tf_ds frame)] s
   }"

text \<open>
  \<open>frame\<close> is the address of the trap frame with the frame itself, or no frame for \<^verbatim>\<open>NULL\<close>. The type is one of the
  two, so that the branch \<^verbatim>\<open>default\<close> is not taken.
\<close>

definition printPanicType ::
  "byte list \<Rightarrow> panicType \<Rightarrow> (u64 \<times> trapFrame) option \<Rightarrow> 'd koal \<Rightarrow> 'd koal option" where
  "printPanicType garbage type frame s =
     (case type of
        PANIC_TYPE_KERNEL \<Rightarrow> kprint (cstring (''Panic Type: KERNEL'' @ nl)) s
      | PANIC_TYPE_EXCEPTION \<Rightarrow> do {
          s \<leftarrow> kprint (cstring (''Panic Type: EXCEPTION'' @ nl)) s;
          (case frame of None \<Rightarrow> Some s | Some (address, f) \<Rightarrow> printTrapFrame garbage address f s)
        })"

definition printPanic ::
  "byte list \<Rightarrow> panicType \<Rightarrow> (u64 \<times> trapFrame) option \<Rightarrow> byte list \<Rightarrow> 'd koal \<Rightarrow> 'd koal option" where
  "printPanic garbage type frame message s = do {
     s \<leftarrow> kprint (cstring (''KERNEL PANIC'' @ nl @ nl)) s;
     s \<leftarrow> printPanicType garbage type frame s;
     kprintf garbage (cstring ''Panic message: %s'') [VaStr message] s
   }"

definition panicScreen ::
  "byte list \<Rightarrow> panicType \<Rightarrow> (u64 \<times> trapFrame) option \<Rightarrow> byte list \<Rightarrow> terminal koal \<Rightarrow> terminal koal option" where
  "panicScreen garbage type frame message s = do {
     t \<leftarrow> terminalClear 1 (dev s);
     printPanic garbage type frame message (s\<lparr>dev := t\<rparr>)
   }"

section \<open>The text\<close>

definition text_of :: "string \<Rightarrow> byte list" where
  "text_of = map of_char"

definition hex :: "u64 \<Rightarrow> byte list" where
  "hex n = [48, 120] @ map digit_char (digits 16 (unat n))"

fun register_line :: "(string \<times> u64) list \<Rightarrow> byte list" where
  "register_line [] = []"
| "register_line [(r, v)] = text_of r @ text_of '': '' @ hex v"
| "register_line ((r, v) # rvs) = text_of r @ text_of '': '' @ hex v @ text_of ''  '' @ register_line rvs"

definition frame_text :: "u64 \<Rightarrow> trapFrame \<Rightarrow> byte list" where
  "frame_text a f = text_of ''Trap frame: '' @ hex a @ [10, 10] @
     register_line [(''RAX'', tf_rax f), (''RBX'', tf_rbx f), (''RCX'', tf_rcx f), (''RDX'', tf_rdx f)] @ [10] @
     register_line [(''RSI'', tf_rsi f), (''RDI'', tf_rdi f), (''RBP'', tf_rbp f)] @ [10, 10] @
     register_line [(''R15'', tf_r15 f), (''R14'', tf_r14 f), (''R13'', tf_r13 f), (''R12'', tf_r12 f)] @ [10] @
     register_line [(''R11'', tf_r11 f), (''R10'', tf_r10 f), (''R09'', tf_r9 f), (''R08'', tf_r8 f)] @ [10, 10] @
     register_line [(''RIP'', tf_rip f), (''CS'', tf_cs f), (''FLAGS'', tf_flags f), (''RSP'', tf_rsp f), (''DS'', tf_ds f)] @ [10, 10]"

definition panic_text :: "panicType \<Rightarrow> (u64 \<times> trapFrame) option \<Rightarrow> byte list \<Rightarrow> byte list" where
  "panic_text type frame message = text_of ''KERNEL PANIC'' @ [10, 10] @
     (case type of
        PANIC_TYPE_KERNEL \<Rightarrow> text_of ''Panic Type: KERNEL'' @ [10]
      | PANIC_TYPE_EXCEPTION \<Rightarrow> text_of ''Panic Type: EXCEPTION'' @ [10] @
          (case frame of None \<Rightarrow> [] | Some (a, f) \<Rightarrow> frame_text a f)) @
     text_of ''Panic message: '' @ message"

section \<open>What is printed\<close>

text \<open>An operation that shows a text on the ready terminal and changes nothing else.\<close>

definition prints :: "(terminal koal \<Rightarrow> terminal koal option) \<Rightarrow> byte list \<Rightarrow> bool" where
  "prints f out \<longleftrightarrow> (\<forall>s. koal_ready terminalPutchar s \<and> term_wf (dev s) \<longrightarrow>
     (\<exists>t. f s = Some (s\<lparr>dev := t\<rparr>) \<and> term_wf t \<and> screen_text t = fold text_put out (screen_text (dev s))))"

lemma printsD:
  "prints f out \<Longrightarrow> koal_ready terminalPutchar s \<Longrightarrow> term_wf (dev s) \<Longrightarrow>
   \<exists>t. f s = Some (s\<lparr>dev := t\<rparr>) \<and> term_wf t \<and> screen_text t = fold text_put out (screen_text (dev s))"
  by (simp add: prints_def)

lemma prints_none: "prints Some []"
  unfolding prints_def
proof (intro allI impI)
  fix s :: "terminal koal" assume "koal_ready terminalPutchar s \<and> term_wf (dev s)"
  then show "\<exists>t. Some s = Some (s\<lparr>dev := t\<rparr>) \<and> term_wf t \<and> screen_text t = fold text_put [] (screen_text (dev s))"
    by (intro exI [of _ "dev s"]) simp
qed

lemma prints_seq:
  assumes "prints f a" and "prints g b"
  shows "prints (\<lambda>s. Option.bind (f s) g) (a @ b)"
  unfolding prints_def
proof (intro allI impI)
  fix s :: "terminal koal" assume s: "koal_ready terminalPutchar s \<and> term_wf (dev s)"
  with printsD [OF assms(1), of s] obtain t where
    t: "f s = Some (s\<lparr>dev := t\<rparr>)" "term_wf t" "screen_text t = fold text_put a (screen_text (dev s))" by auto
  with printsD [OF assms(2), of "s\<lparr>dev := t\<rparr>"] s
  show "\<exists>t. Option.bind (f s) g = Some (s\<lparr>dev := t\<rparr>) \<and> term_wf t \<and> screen_text t = fold text_put (a @ b) (screen_text (dev s))"
    by auto
qed

lemma prints_kprintf:
  assumes "length garbage = 32" and "terminated str" "length str < 2 ^ 64" and "render False (cstr str) args = Some out"
  shows "prints (kprintf garbage str args) out"
  using vga.kprintf_shown [OF assms(1-4)] by (simp add: prints_def)

lemma prints_kprint:
  assumes "terminated str" "length str < 2 ^ 64"
  shows "prints (kprint str) (cstr str)"
  unfolding prints_def
proof (intro allI impI)
  fix s :: "terminal koal" assume "koal_ready terminalPutchar s \<and> term_wf (dev s)"
  with vga.koalPrint_shown [OF _ _ assms, of s]
  show "\<exists>t. kprint str s = Some (s\<lparr>dev := t\<rparr>) \<and> term_wf t \<and> screen_text t = fold text_put (cstr str) (screen_text (dev s))"
    by (auto simp: kprint_def)
qed

lemma terminated_cstring [simp]: "terminated (cstring s)"
  by (simp add: cstring_def terminated_def)

lemma prints_printTrapFrame:
  assumes "length garbage = 32"
  shows "prints (printTrapFrame garbage a f) (frame_text a f)"
proof -
  have "prints (printTrapFrame garbage a f)
    ((text_of ''Trap frame: '' @ hex a @ [10, 10]) @
     (register_line [(''RAX'', tf_rax f), (''RBX'', tf_rbx f), (''RCX'', tf_rcx f), (''RDX'', tf_rdx f)] @ [10]) @
     (register_line [(''RSI'', tf_rsi f), (''RDI'', tf_rdi f), (''RBP'', tf_rbp f)] @ [10, 10]) @
     (register_line [(''R15'', tf_r15 f), (''R14'', tf_r14 f), (''R13'', tf_r13 f), (''R12'', tf_r12 f)] @ [10]) @
     (register_line [(''R11'', tf_r11 f), (''R10'', tf_r10 f), (''R09'', tf_r9 f), (''R08'', tf_r8 f)] @ [10, 10]) @
     (register_line [(''RIP'', tf_rip f), (''CS'', tf_cs f), (''FLAGS'', tf_flags f), (''RSP'', tf_rsp f), (''DS'', tf_ds f)] @ [10, 10]))"
    unfolding printTrapFrame_def
    by (intro prints_seq prints_kprintf assms terminated_cstring; simp add: cstring_def text_of_def hex_def)
  then show ?thesis by (simp add: frame_text_def)
qed

lemma terminalClear_spec:
  assumes "length (videoMemory t) = 2000"
  shows "\<exists>t'. terminalClear c t = Some t' \<and> term_wf t' \<and> screen_text t' = []"
proof -
  have "fill_upto 2000 v (videoMemory t) = Some (replicate 2000 v)" for v
    using fill_upto_spec [of 2000 "videoMemory t" v] assms by simp
  moreover have "low (push_bit 12 (ucast c) + push_bit 8 TERMINAL_FORECOLOR) = 0"
  proof -
    have "push_bit 12 (ucast c) + push_bit 8 0xF = (push_bit 8 (push_bit 4 (ucast c) + 0xF) :: u16)"
      by (simp add: push_bit_eq_mult algebra_simps)
    moreover have "low (push_bit 8 w) = 0" for w :: u16
      unfolding low_def by (rule bit_word_eqI) (auto simp: bit_simps dest: bit_imp_le_length)
    ultimately show ?thesis by (simp only: TERMINAL_FORECOLOR_def)
  qed
  ultimately show ?thesis
    by (simp add: terminalClear_def VGA_WIDTH_def VGA_HEIGHT_def term_wf_def cursor_def screen_text_def)
qed

lemma prints_printPanicType:
  assumes "length garbage = 32"
  shows "prints (printPanicType garbage type frame) (case type of PANIC_TYPE_KERNEL \<Rightarrow> text_of ''Panic Type: KERNEL'' @ [10]
    | PANIC_TYPE_EXCEPTION \<Rightarrow> (text_of ''Panic Type: EXCEPTION'' @ [10]) @
        (case frame of None \<Rightarrow> [] | Some (a, f) \<Rightarrow> frame_text a f))"
proof (cases type)
  case PANIC_TYPE_KERNEL
  have "prints (kprint (cstring (''Panic Type: KERNEL'' @ nl))) (text_of ''Panic Type: KERNEL'' @ [10])"
    using prints_kprint [of "cstring (''Panic Type: KERNEL'' @ nl)"] by (simp add: cstring_def text_of_def)
  then show ?thesis unfolding printPanicType_def PANIC_TYPE_KERNEL panicType.case .
next
  case PANIC_TYPE_EXCEPTION
  have "prints (kprint (cstring (''Panic Type: EXCEPTION'' @ nl))) (text_of ''Panic Type: EXCEPTION'' @ [10])"
    using prints_kprint [of "cstring (''Panic Type: EXCEPTION'' @ nl)"] by (simp add: cstring_def text_of_def)
  moreover have "prints (\<lambda>s. case frame of None \<Rightarrow> Some s | Some (address, f) \<Rightarrow> printTrapFrame garbage address f s)
      (case frame of None \<Rightarrow> [] | Some (a, f) \<Rightarrow> frame_text a f)"
    by (cases frame) (auto simp: prints_none prints_printTrapFrame [OF assms(1)])
  ultimately show ?thesis unfolding printPanicType_def PANIC_TYPE_EXCEPTION panicType.case by (rule prints_seq)
qed

lemma prints_printPanic:
  assumes "length garbage = 32" "terminated message" "length message < 2 ^ 64"
  shows "prints (printPanic garbage type frame message) (panic_text type frame (cstr message))"
proof -
  have head: "prints (kprint (cstring (''KERNEL PANIC'' @ nl @ nl))) (text_of ''KERNEL PANIC'' @ [10, 10])"
    using prints_kprint [of "cstring (''KERNEL PANIC'' @ nl @ nl)"] by (simp add: cstring_def text_of_def)
  have msg: "prints (kprintf garbage (cstring ''Panic message: %s'') [VaStr message]) (text_of ''Panic message: '' @ cstr message)"
    by (intro prints_kprintf assms(1) terminated_cstring; simp add: cstring_def text_of_def assms(2) assms(3) [simplified])
  have "prints (printPanic garbage type frame message) ((text_of ''KERNEL PANIC'' @ [10, 10]) @
      (case type of PANIC_TYPE_KERNEL \<Rightarrow> text_of ''Panic Type: KERNEL'' @ [10]
       | PANIC_TYPE_EXCEPTION \<Rightarrow> (text_of ''Panic Type: EXCEPTION'' @ [10]) @
           (case frame of None \<Rightarrow> [] | Some (a, f) \<Rightarrow> frame_text a f)) @ (text_of ''Panic message: '' @ cstr message))"
    unfolding printPanic_def by (intro prints_seq head msg prints_printPanicType assms(1))
  then show ?thesis by (simp add: panic_text_def split: panicType.splits)
qed

text \<open>
  Property C40. On a machine whose text terminal is attached and selected a panic clears the screen and shows its
  text: the kind of the panic, for an exception with a trap frame the twenty registers in
  hexadecimal, and the message. No message or register makes the output itself fail.
\<close>

theorem panic_on_terminal:
  assumes "length garbage = 32" and "koal_ready terminalPutchar s" and "length (videoMemory (dev s)) = 2000"
    and "terminated message" and "length message < 2 ^ 64"
  shows "\<exists>t. panicScreen garbage type frame message s = Some (s\<lparr>dev := t\<rparr>) \<and> term_wf t \<and>
    screen_text t = fold text_put (panic_text type frame (cstr message)) []"
proof -
  obtain t where t: "terminalClear 1 (dev s) = Some t" "term_wf t" "screen_text t = []"
    using terminalClear_spec [OF assms(3), of 1] by blast
  with printsD [OF prints_printPanic [OF assms(1,4,5)], of "s\<lparr>dev := t\<rparr>" type frame] assms(2)
  show ?thesis by (auto simp: panicScreen_def)
qed

text \<open>Lines on a screen that does not scroll.\<close>

lemma fold_text_put_line:
  "10 \<notin> set xs \<Longrightarrow> length u + length xs < 2000 \<Longrightarrow> fold text_put xs u = u @ xs"
  by (induction xs arbitrary: u) (auto simp: text_put_def Let_def)

lemma text_put_line: "length u < 2000 \<Longrightarrow> text_put 10 u = u @ replicate (80 - length u mod 80) 0"
  by (simp add: text_put_def)

lemma three_lines:
  assumes "10 \<notin> set K \<union> set P \<union> set M" and l: "length K = 12" "length P = 18" "length M = 30"
  shows "fold text_put (K @ 10 # 10 # P @ 10 # M) [] = K @ replicate 68 0 @ replicate 80 0 @ P @ replicate 62 0 @ M"
proof -
  note F = fold_text_put_line and L = text_put_line
  have "fold text_put K [] = K" using F [of K "[]"] assms by simp
  moreover have "text_put 10 K = K @ replicate 68 0" using L [of K] l by simp
  moreover have "text_put 10 (K @ replicate 68 0) = K @ replicate 68 0 @ replicate 80 0"
    using L [of "K @ replicate 68 0"] l by simp
  moreover have "fold text_put P (K @ replicate 68 0 @ replicate 80 0) = K @ replicate 68 0 @ replicate 80 0 @ P"
    using F [of P "K @ replicate 68 0 @ replicate 80 0"] assms by simp
  moreover have "text_put 10 (K @ replicate 68 0 @ replicate 80 0 @ P) = K @ replicate 68 0 @ replicate 80 0 @ P @ replicate 62 0"
    using L [of "K @ replicate 68 0 @ replicate 80 0 @ P"] l by simp
  moreover have "fold text_put M (K @ replicate 68 0 @ replicate 80 0 @ P @ replicate 62 0) =
      K @ replicate 68 0 @ replicate 80 0 @ P @ replicate 62 0 @ M"
    using F [of M "K @ replicate 68 0 @ replicate 80 0 @ P @ replicate 62 0"] assms by simp
  ultimately show ?thesis by simp
qed

text \<open>The screen after a panic of the kernel: the lines are padded to 80 columns.\<close>

theorem panic_on_terminal_witness:
  "\<exists>t. panicScreen (replicate 32 9) PANIC_TYPE_KERNEL None (cstring ''ACPI not found.'') ready_koal = Some (ready_koal\<lparr>dev := t\<rparr>) \<and>
     screen_text t = text_of ''KERNEL PANIC'' @ replicate 68 0 @ replicate 80 0 @
       text_of ''Panic Type: KERNEL'' @ replicate 62 0 @ text_of ''Panic message: ACPI not found.''"
proof -
  have "koal_ready terminalPutchar ready_koal" "length (videoMemory (dev ready_koal)) = 2000"
    by (simp_all add: ready_koal_def koal_ready_def koal_at_def rd_def blank_terminal_def)
  moreover have "terminated (cstring ''ACPI not found.'')" "length (cstring ''ACPI not found.'') < 2 ^ 64"
    by (simp_all add: cstring_def terminated_def)
  ultimately obtain t where
    "panicScreen (replicate 32 9) PANIC_TYPE_KERNEL None (cstring ''ACPI not found.'') ready_koal = Some (ready_koal\<lparr>dev := t\<rparr>)"
    "screen_text t = fold text_put (panic_text PANIC_TYPE_KERNEL None (cstr (cstring ''ACPI not found.''))) []"
    using panic_on_terminal [of "replicate 32 9" ready_koal "cstring ''ACPI not found.''" PANIC_TYPE_KERNEL None] by auto
  moreover have "panic_text PANIC_TYPE_KERNEL None (cstr (cstring ''ACPI not found.'')) =
      text_of ''KERNEL PANIC'' @ 10 # 10 # text_of ''Panic Type: KERNEL'' @ 10 # text_of ''Panic message: ACPI not found.''"
    by (simp add: panic_text_def cstring_def text_of_def)
  moreover have "10 \<notin> set (text_of ''KERNEL PANIC'') \<union> set (text_of ''Panic Type: KERNEL'') \<union>
      set (text_of ''Panic message: ACPI not found.'')" "length (text_of ''KERNEL PANIC'') = 12"
    "length (text_of ''Panic Type: KERNEL'') = 18" "length (text_of ''Panic message: ACPI not found.'') = 30"
    by (simp_all add: text_of_def)
  ultimately show ?thesis
    using three_lines [of "text_of ''KERNEL PANIC''" "text_of ''Panic Type: KERNEL''" "text_of ''Panic message: ACPI not found.''"]
    by metis
qed

end
