(* ===== verification/Gdt.thy ===== *)
theory Gdt
  imports Stream
begin

text \<open>
  The segment descriptors, \<^verbatim>\<open>gdt/gdt.c\<close>, the task state segment, \<^verbatim>\<open>task/tss.c\<close>, and the table of the kernel in
  \<^verbatim>\<open>kernel.c\<close>. The static array \<^verbatim>\<open>realGdt\<close> is a byte list; a write behind its end is a fault. The
  instructions that load the tables are assembly: the state keeps what they load.
\<close>

section \<open>State\<close>

record gdt =
  gdt_limit :: u64
  gdt_base :: u64
  gdt_access :: byte
  gdt_flags :: byte

record tss =
  tss_reserved0 :: u32
  tss_rsp0 :: u64
  tss_rsp1 :: u64
  tss_rsp2 :: u64
  tss_reserved1 :: u64
  tss_ist1 :: u64
  tss_ist2 :: u64
  tss_ist3 :: u64
  tss_ist4 :: u64
  tss_ist5 :: u64
  tss_ist6 :: u64
  tss_ist7 :: u64
  tss_reserved2 :: u64
  tss_iopb_reserved :: u32

record gdt_state =
  realGdt :: "byte list"
  totalSystemDescriptors :: byte
  gdtPtr_size :: u16
  gdtPtr_offset :: u64
  loadedGdt :: "(u16 \<times> u64) option"
  tss :: tss
  loadedTss :: "u16 option"

definition BOBAOS_GDT_ENTRIES :: nat where "BOBAOS_GDT_ENTRIES = 6"
definition GDT_ACCESS_SYSTEM :: byte where "GDT_ACCESS_SYSTEM = 0x10"
definition BOBAOS_TSS_ENTRY_DESCRIPTOR :: u16 where "BOBAOS_TSS_ENTRY_DESCRIPTOR = 0x28"
definition sizeof_realGdt :: nat where "sizeof_realGdt = 8"
definition sizeof_tss :: u64 where "sizeof_tss = 104"

lemmas gdt_const_defs =
  BOBAOS_GDT_ENTRIES_def GDT_ACCESS_SYSTEM_def BOBAOS_TSS_ENTRY_DESCRIPTOR_def sizeof_realGdt_def sizeof_tss_def

section \<open>Descriptors\<close>

text \<open>The bytes of \<^verbatim>\<open>struct realGdt\<close> and \<^verbatim>\<open>struct realGdtSystemPart\<close>.\<close>

definition encodeGdt :: "gdt \<Rightarrow> byte list" where
  "encodeGdt g =
     bytes16 (ucast (gdt_limit g AND 0xFFFF)) @
     bytes32 (ucast (gdt_base g AND 0xFFFFFF) OR push_bit 24 (ucast (gdt_access g))) @
     [ucast (drop_bit 16 (gdt_limit g) AND 0xF) OR push_bit 4 (gdt_flags g), ucast (drop_bit 24 (gdt_base g) AND 0xFF)]"

definition encodeGdtSystemPart :: "gdt \<Rightarrow> byte list" where
  "encodeGdtSystemPart g = bytes32 (ucast (drop_bit 32 (gdt_base g) AND 0xFFFF)) @ bytes32 0"

definition isSystem :: "nat \<Rightarrow> gdt \<Rightarrow> bool" where
  "isSystem i g \<longleftrightarrow> i \<noteq> 0 \<and> gdt_access g AND GDT_ACCESS_SYSTEM = 0"

definition put_entry :: "nat \<Rightarrow> byte list \<Rightarrow> gdt_state \<Rightarrow> gdt_state option" where
  "put_entry n bs s = do {
     a \<leftarrow> memcpy_between (realGdt s) (sizeof_realGdt * n) bs 0 (length bs);
     Some (s\<lparr>realGdt := a\<rparr>)
   }"

fun toRealGdt_loop :: "nat \<Rightarrow> nat \<Rightarrow> gdt list \<Rightarrow> gdt_state \<Rightarrow> gdt_state option" where
  "toRealGdt_loop i realGdtCounter [] s = Some s"
| "toRealGdt_loop i realGdtCounter (g # gs) s = do {
     s \<leftarrow> put_entry realGdtCounter (encodeGdt g) s;
     if isSystem i g then do {
       s \<leftarrow> put_entry (realGdtCounter + 1) (encodeGdtSystemPart g)
         (s\<lparr>totalSystemDescriptors := totalSystemDescriptors s + 1\<rparr>);
       toRealGdt_loop (Suc i) (realGdtCounter + 2) gs s
     }
     else toRealGdt_loop (Suc i) (realGdtCounter + 1) gs s
   }"

text \<open>The argument is an array of six entries.\<close>

definition toRealGdt :: "gdt list \<Rightarrow> gdt_state \<Rightarrow> gdt_state option" where
  "toRealGdt gdt s =
     (if length gdt < BOBAOS_GDT_ENTRIES then None else toRealGdt_loop 0 0 (take BOBAOS_GDT_ENTRIES gdt) s)"

text \<open>\<open>address\<close> is the one of the array \<^verbatim>\<open>realGdt\<close>.\<close>

definition loadGdt :: "u64 \<Rightarrow> gdt list \<Rightarrow> gdt_state \<Rightarrow> gdt_state option" where
  "loadGdt address gdt s = do {
     s \<leftarrow> toRealGdt gdt s;
     let sz = of_nat (sizeof_realGdt * (BOBAOS_GDT_ENTRIES + unat (totalSystemDescriptors s)) - 1);
     Some (s\<lparr>gdtPtr_size := sz, gdtPtr_offset := address, loadedGdt := Some (sz, address)\<rparr>)
   }"

section \<open>The task state segment\<close>

definition zero_tss :: tss where
  "zero_tss = \<lparr>tss_reserved0 = 0, tss_rsp0 = 0, tss_rsp1 = 0, tss_rsp2 = 0, tss_reserved1 = 0, tss_ist1 = 0, tss_ist2 = 0,
     tss_ist3 = 0, tss_ist4 = 0, tss_ist5 = 0, tss_ist6 = 0, tss_ist7 = 0, tss_reserved2 = 0, tss_iopb_reserved = 0\<rparr>"

definition initTss :: "gdt_state \<Rightarrow> gdt_state" where
  "initTss s = s\<lparr>tss := zero_tss, loadedTss := Some BOBAOS_TSS_ENTRY_DESCRIPTOR\<rparr>"

definition updateTssKernelStack :: "u64 \<Rightarrow> gdt_state \<Rightarrow> gdt_state" where
  "updateTssKernelStack newRsp0 s = s\<lparr>tss := (tss s)\<lparr>tss_rsp0 := newRsp0\<rparr>\<rparr>"

text \<open>The table of the kernel, with the address of the task state segment filled in.\<close>

definition kernel_gdt :: "u64 \<Rightarrow> gdt list" where
  "kernel_gdt tssAddress =
     [\<lparr>gdt_limit = 0, gdt_base = 0, gdt_access = 0, gdt_flags = 0\<rparr>,
      \<lparr>gdt_limit = 0, gdt_base = 0, gdt_access = 0x9A, gdt_flags = 2\<rparr>,
      \<lparr>gdt_limit = 0, gdt_base = 0, gdt_access = 0x92, gdt_flags = 2\<rparr>,
      \<lparr>gdt_limit = 0, gdt_base = 0, gdt_access = 0xFA, gdt_flags = 2\<rparr>,
      \<lparr>gdt_limit = 0, gdt_base = 0, gdt_access = 0xF2, gdt_flags = 2\<rparr>,
      \<lparr>gdt_limit = sizeof_tss - 1, gdt_base = tssAddress, gdt_access = 0x89, gdt_flags = 0\<rparr>]"

section \<open>What the processor reads\<close>

definition desc_limit :: "byte list \<Rightarrow> u64" where
  "desc_limit d = ucast (d ! 0) OR push_bit 8 (ucast (d ! 1)) OR push_bit 16 (ucast (d ! 6 AND 0xF))"

definition desc_base :: "byte list \<Rightarrow> u64" where
  "desc_base d = ucast (d ! 2) OR push_bit 8 (ucast (d ! 3)) OR push_bit 16 (ucast (d ! 4)) OR push_bit 24 (ucast (d ! 7))"

text \<open>A system descriptor has 16 bytes.\<close>

definition desc_system_base :: "byte list \<Rightarrow> u64" where
  "desc_system_base d = desc_base d OR push_bit 32 (ucast (d ! 8)) OR push_bit 40 (ucast (d ! 9)) OR
     push_bit 48 (ucast (d ! 10)) OR push_bit 56 (ucast (d ! 11))"

definition decodeGdt :: "byte list \<Rightarrow> gdt" where
  "decodeGdt d = \<lparr>gdt_limit = desc_limit d, gdt_base = desc_base d, gdt_access = d ! 5, gdt_flags = drop_bit 4 (d ! 6)\<rparr>"

definition decodeSystem :: "byte list \<Rightarrow> gdt" where
  "decodeSystem d = (decodeGdt d)\<lparr>gdt_base := desc_system_base d\<rparr>"

lemma length_encodeGdt [simp]: "length (encodeGdt g) = 8" "length (encodeGdtSystemPart g) = 8"
  by (simp_all add: encodeGdt_def encodeGdtSystemPart_def bytes16_def bytes32_def)

lemma encodeGdt_bytes:
  "encodeGdt g ! 0 = ucast (gdt_limit g)" "encodeGdt g ! 1 = ucast (drop_bit 8 (gdt_limit g))"
  "encodeGdt g ! 2 = ucast (gdt_base g)" "encodeGdt g ! 3 = ucast (drop_bit 8 (gdt_base g))"
  "encodeGdt g ! 4 = ucast (drop_bit 16 (gdt_base g))" "encodeGdt g ! 5 = gdt_access g"
  "encodeGdt g ! 6 = ucast (take_bit 4 (drop_bit 16 (gdt_limit g))) OR push_bit 4 (gdt_flags g)"
  "encodeGdt g ! 7 = ucast (drop_bit 24 (gdt_base g))"
proof -
  have m: "(0xFFFF :: u64) = mask 16" "(0xFFFFFF :: u64) = mask 24" "(0xF :: u64) = mask 4" "(0xFF :: u64) = mask 8"
    by (simp_all add: mask_eq_exp_minus_1)
  show "encodeGdt g ! 0 = ucast (gdt_limit g)" "encodeGdt g ! 1 = ucast (drop_bit 8 (gdt_limit g))"
    "encodeGdt g ! 2 = ucast (gdt_base g)" "encodeGdt g ! 3 = ucast (drop_bit 8 (gdt_base g))"
    "encodeGdt g ! 4 = ucast (drop_bit 16 (gdt_base g))" "encodeGdt g ! 5 = gdt_access g"
    "encodeGdt g ! 6 = ucast (take_bit 4 (drop_bit 16 (gdt_limit g))) OR push_bit 4 (gdt_flags g)"
    "encodeGdt g ! 7 = ucast (drop_bit 24 (gdt_base g))"
    unfolding encodeGdt_def bytes16_def bytes32_def m
    by (simp_all del: drop_bit_or drop_bit_and) (rule bit_word_eqI; auto simp: bit_simps dest: bit_imp_le_length)+
qed

section \<open>Properties\<close>

lemma append8:
  "length xs = 8 \<Longrightarrow> i < 8 \<Longrightarrow> (xs @ ys) ! i = xs ! i"
  "length xs = 8 \<Longrightarrow> (xs @ ys) ! (8 + i) = ys ! i"
  by (simp_all add: nth_append)

lemma systemPart_bytes:
  "encodeGdtSystemPart g ! 0 = ucast (drop_bit 32 (gdt_base g))"
  "encodeGdtSystemPart g ! 1 = ucast (drop_bit 40 (gdt_base g))"
  "encodeGdtSystemPart g ! 2 = 0" "encodeGdtSystemPart g ! 3 = 0"
proof -
  have m: "(0xFFFF :: u64) = mask 16" by (simp add: mask_eq_exp_minus_1)
  show "encodeGdtSystemPart g ! 0 = ucast (drop_bit 32 (gdt_base g))"
    "encodeGdtSystemPart g ! 1 = ucast (drop_bit 40 (gdt_base g))"
    "encodeGdtSystemPart g ! 2 = 0" "encodeGdtSystemPart g ! 3 = 0"
    unfolding encodeGdtSystemPart_def bytes32_def m
    by (simp_all del: drop_bit_or drop_bit_and) (rule bit_word_eqI; auto simp: bit_simps dest: bit_imp_le_length)+
qed

lemma join_bits:
  fixes w :: u64
  shows "ucast (ucast w :: byte) OR push_bit 8 (ucast (ucast (drop_bit 8 w) :: byte)) = take_bit 16 w"
    "take_bit 16 w OR push_bit 16 (ucast (ucast (drop_bit 16 w) :: byte)) = take_bit 24 w"
    "take_bit 24 w OR push_bit 24 (ucast (ucast (drop_bit 24 w) :: byte)) = take_bit 32 w"
    "take_bit 32 w OR push_bit 32 (ucast (ucast (drop_bit 32 w) :: byte)) = take_bit 40 w"
    "take_bit 40 w OR push_bit 40 (ucast (ucast (drop_bit 40 w) :: byte)) = take_bit 48 w"
  by (rule bit_word_eqI, auto simp: bit_simps; metis le_add_diff_inverse linorder_not_le)+

lemma decode_fields:
  assumes "\<And>i. i < 8 \<Longrightarrow> d ! i = encodeGdt g ! i"
  shows "desc_limit d = take_bit 20 (gdt_limit g)" "desc_base d = take_bit 32 (gdt_base g)"
    "d ! 5 = gdt_access g" "drop_bit 4 (d ! 6) = take_bit 4 (gdt_flags g)"
proof -
  have f: "(0xF :: byte) = mask 4" by (simp add: mask_eq_exp_minus_1)
  have "ucast ((ucast (take_bit 4 (drop_bit 16 w)) OR push_bit 4 a) AND mask 4) = take_bit 4 (drop_bit 16 w)"
    for w :: u64 and a :: byte
    by (rule bit_word_eqI) (auto simp: bit_simps)
  note low = this
  have "take_bit 16 w OR push_bit 16 (take_bit 4 (drop_bit 16 w)) = take_bit 20 w" for w :: u64
    by (rule bit_word_eqI, auto simp: bit_simps; metis le_add_diff_inverse linorder_not_le)
  then show "desc_limit d = take_bit 20 (gdt_limit g)"
    by (simp add: desc_limit_def assms encodeGdt_bytes f low join_bits encodeGdt_bytes(2) [simplified] flip: or.assoc)
  show "desc_base d = take_bit 32 (gdt_base g)"
    by (simp add: desc_base_def assms encodeGdt_bytes join_bits flip: or.assoc)
  show "d ! 5 = gdt_access g" by (simp add: assms encodeGdt_bytes)
  have "drop_bit 4 (ucast (take_bit 4 (drop_bit 16 (gdt_limit g))) OR push_bit 4 (gdt_flags g)) = take_bit 4 (gdt_flags g)"
    by (rule bit_word_eqI) (auto simp: bit_simps dest: bit_imp_le_length)
  then show "drop_bit 4 (d ! 6) = take_bit 4 (gdt_flags g)" by (simp add: assms encodeGdt_bytes)
qed

lemma descriptor_both:
  "decodeGdt (encodeGdt g) =
     g\<lparr>gdt_limit := take_bit 20 (gdt_limit g), gdt_base := take_bit 32 (gdt_base g), gdt_flags := take_bit 4 (gdt_flags g)\<rparr> \<and>
   decodeSystem (encodeGdt g @ encodeGdtSystemPart g) =
     g\<lparr>gdt_limit := take_bit 20 (gdt_limit g), gdt_base := take_bit 48 (gdt_base g), gdt_flags := take_bit 4 (gdt_flags g)\<rparr>"
proof -
  let ?d = "encodeGdt g @ encodeGdtSystemPart g"
  have d: "?d ! i = encodeGdt g ! i" if "i < 8" for i using that by (simp add: nth_append)
  have "?d ! 8 = encodeGdtSystemPart g ! 0" "?d ! 9 = encodeGdtSystemPart g ! 1"
    "?d ! 10 = encodeGdtSystemPart g ! 2" "?d ! 11 = encodeGdtSystemPart g ! 3"
    by (simp_all add: nth_append)
  then have "desc_system_base ?d = take_bit 48 (gdt_base g)"
    by (simp add: desc_system_base_def decode_fields(2) [OF d] systemPart_bytes systemPart_bytes [simplified] join_bits flip: or.assoc)
  then show ?thesis
    using decode_fields [of "encodeGdt g" g] decode_fields [of ?d g] d
    by (simp add: decodeSystem_def decodeGdt_def)
qed

lemmas descriptor_decode = descriptor_both [THEN conjunct1] descriptor_both [THEN conjunct2]

text \<open>
  Property C33. What the processor reads from a descriptor is the entry that was encoded, up to the widths
  of the fields: 20 bits of the limit, 4 bits of flags, and 32 bits of the base. A system descriptor
  carries 48 bits of the base: the upper 16 are lost, although the format has room for them.
\<close>

theorem descriptor_roundtrip:
  "decodeGdt (encodeGdt g) =
     g\<lparr>gdt_limit := take_bit 20 (gdt_limit g), gdt_base := take_bit 32 (gdt_base g), gdt_flags := take_bit 4 (gdt_flags g)\<rparr> \<and>
   decodeSystem (encodeGdt g @ encodeGdtSystemPart g) =
     g\<lparr>gdt_limit := take_bit 20 (gdt_limit g), gdt_base := take_bit 48 (gdt_base g), gdt_flags := take_bit 4 (gdt_flags g)\<rparr>"
  by (rule descriptor_both)

text \<open>Entries are appended as long as the array has room for them.\<close>

lemma put_entry_append:
  assumes "realGdt s = P @ R" "length P = 8 * n" "length bs = 8"
  shows "put_entry n bs s = (if 8 \<le> length R then Some (s\<lparr>realGdt := (P @ bs) @ drop 8 R\<rparr>) else None)"
  using assms by (simp add: put_entry_def memcpy_between_def overwrite_def sizeof_realGdt_def)

definition blocks :: "gdt list \<Rightarrow> byte list" where
  "blocks gs = concat (map encodeGdt gs)"

lemma length_blocks [simp]: "length (blocks gs) = 8 * length gs"
  by (induction gs) (simp_all add: blocks_def)

lemma toRealGdt_plain:
  assumes "realGdt s = P @ R" "length P = 8 * n" "8 * length gs \<le> length R"
    and "\<forall>j < length gs. \<not> isSystem (i + j) (gs ! j)"
  shows "toRealGdt_loop i n (gs @ hs) s =
    toRealGdt_loop (i + length gs) (n + length gs) hs (s\<lparr>realGdt := (P @ blocks gs) @ drop (8 * length gs) R\<rparr>)"
  using assms
proof (induction gs arbitrary: i n P R s)
  case (Cons g gs)
  have g: "\<not> isSystem i g" using Cons.prems(4) by force
  have gs: "\<forall>j < length gs. \<not> isSystem (Suc i + j) (gs ! j)" using Cons.prems(4) by force
  let ?s = "s\<lparr>realGdt := (P @ encodeGdt g) @ drop 8 R\<rparr>"
  have "put_entry n (encodeGdt g) s = Some ?s"
    using put_entry_append [OF Cons.prems(1,2), of "encodeGdt g"] Cons.prems(3) by simp
  moreover have "toRealGdt_loop (Suc i) (n + 1) (gs @ hs) ?s = toRealGdt_loop (Suc i + length gs) (n + 1 + length gs) hs
      (?s\<lparr>realGdt := ((P @ encodeGdt g) @ blocks gs) @ drop (8 * length gs) (drop 8 R)\<rparr>)"
    by (rule Cons.IH) (use Cons.prems gs in simp_all)
  ultimately show ?case using g by (simp add: blocks_def add.commute)
next
  case Nil
  then have "s\<lparr>realGdt := P @ R\<rparr> = s" by simp
  then show ?case unfolding blocks_def by (simp only: list.map concat.simps append_Nil append_Nil2 list.size mult_0_right add_0_right drop_0)
qed

lemma less_5: "j < (5 :: nat) \<longleftrightarrow> j = 0 \<or> j = 1 \<or> j = 2 \<or> j = 3 \<or> j = 4"
  by auto

lemma length_kernel_gdt [simp]: "length (kernel_gdt t) = 6"
  by (simp add: kernel_gdt_def)

lemma kernel_gdt_parts:
  "kernel_gdt t = take 5 (kernel_gdt t) @ [kernel_gdt t ! 5]" "length (take 5 (kernel_gdt t)) = 5"
  "j < 5 \<Longrightarrow> \<not> isSystem j (take 5 (kernel_gdt t) ! j)" "isSystem 5 (kernel_gdt t ! 5)"
  by (auto simp: kernel_gdt_def isSystem_def GDT_ACCESS_SYSTEM_def less_5)

lemma toRealGdt_kernel:
  assumes "40 \<le> length (realGdt s)"
  shows "toRealGdt (kernel_gdt t) s = (if length (realGdt s) < 56 then None else
    Some (s\<lparr>totalSystemDescriptors := totalSystemDescriptors s + 1,
      realGdt := blocks (kernel_gdt t) @ encodeGdtSystemPart (kernel_gdt t ! 5) @ drop 56 (realGdt s)\<rparr>))"
proof -
  let ?g = "kernel_gdt t ! 5" and ?f = "take 5 (kernel_gdt t)"
  let ?s = "s\<lparr>realGdt := blocks ?f @ drop 40 (realGdt s)\<rparr>"
  have "toRealGdt (kernel_gdt t) s = toRealGdt_loop 0 0 (?f @ [?g]) s"
    by (simp add: toRealGdt_def BOBAOS_GDT_ENTRIES_def kernel_gdt_def)
  also have "\<dots> = toRealGdt_loop 5 5 [?g] ?s"
    using toRealGdt_plain [of s "[]" "realGdt s" 0 ?f 0 "[?g]"] assms kernel_gdt_parts(2,3) by simp
  finally have e: "toRealGdt (kernel_gdt t) s = toRealGdt_loop 5 5 [?g] ?s" .
  have all: "blocks (kernel_gdt t) = blocks ?f @ encodeGdt ?g"
    by (subst kernel_gdt_parts(1)) (simp add: blocks_def)
  have p: "put_entry 5 (encodeGdt ?g) ?s = (if 48 \<le> length (realGdt s)
      then Some (s\<lparr>realGdt := blocks (kernel_gdt t) @ drop 48 (realGdt s)\<rparr>) else None)"
  proof -
    have "put_entry 5 (encodeGdt ?g) ?s = (if 8 \<le> length (drop 40 (realGdt s))
        then Some (?s\<lparr>realGdt := (blocks ?f @ encodeGdt ?g) @ drop 8 (drop 40 (realGdt s))\<rparr>) else None)"
      by (rule put_entry_append) simp_all
    moreover have "8 \<le> length (drop 40 (realGdt s)) \<longleftrightarrow> 48 \<le> length (realGdt s)" by auto
    ultimately show ?thesis unfolding all [symmetric] by simp
  qed
  let ?t = "s\<lparr>realGdt := blocks (kernel_gdt t) @ drop 48 (realGdt s), totalSystemDescriptors := totalSystemDescriptors s + 1\<rparr>"
  have "put_entry 6 (encodeGdtSystemPart ?g) ?t = (if 8 \<le> length (drop 48 (realGdt s))
      then Some (?t\<lparr>realGdt := (blocks (kernel_gdt t) @ encodeGdtSystemPart ?g) @ drop 8 (drop 48 (realGdt s))\<rparr>) else None)"
    by (rule put_entry_append) (simp_all add: kernel_gdt_def)
  note q = this
  show ?thesis
  proof (cases "length (realGdt s) < 56")
    case True
    with q have "put_entry 6 (encodeGdtSystemPart ?g) ?t = None" by simp
    with True show ?thesis using kernel_gdt_parts(4) [of t] unfolding e by (simp add: p)
  next
    case False
    with q have "put_entry 6 (encodeGdtSystemPart ?g) ?t =
        Some (?t\<lparr>realGdt := blocks (kernel_gdt t) @ encodeGdtSystemPart ?g @ drop 56 (realGdt s)\<rparr>)" by simp
    with False show ?thesis using kernel_gdt_parts(4) [of t] unfolding e by (simp add: p)
  qed
qed

text \<open>
  Property C34. The table of the kernel has six entries, of which the last takes two places, but the array
  has six places: the second half of the descriptor of the task state segment is written behind the
  array. With a seventh place the table is what it should be: the size that is loaded covers it,
  each entry reads as it was given, and so does the segment of the task state below \<open>2 ^ 48\<close>.
\<close>

theorem kernel_gdt_overflow:
  assumes "length (realGdt s) = sizeof_realGdt * BOBAOS_GDT_ENTRIES" and "totalSystemDescriptors s = 0"
    and "length behind = 8" and "tssAddress < 2 ^ 48"
  shows "loadGdt address (kernel_gdt tssAddress) s = None \<and>
    (\<exists>s'. loadGdt address (kernel_gdt tssAddress) (s\<lparr>realGdt := realGdt s @ behind\<rparr>) = Some s' \<and>
      loadedGdt s' = Some (55, address) \<and>
      (\<forall>i < 5. decodeGdt (take 8 (drop (8 * i) (realGdt s'))) = kernel_gdt tssAddress ! i) \<and>
      decodeSystem (take 16 (drop 40 (realGdt s'))) = kernel_gdt tssAddress ! 5)"
proof -
  let ?K = "kernel_gdt tssAddress"
  let ?a = "blocks ?K @ encodeGdtSystemPart (?K ! 5)"
  have len: "length (realGdt s) = 48" using assms(1) by (simp add: gdt_const_defs)
  then have none: "loadGdt address ?K s = None" by (simp add: loadGdt_def toRealGdt_kernel)
  have some: "loadGdt address ?K (s\<lparr>realGdt := realGdt s @ behind\<rparr>) = Some (s\<lparr>totalSystemDescriptors := 1, realGdt := ?a,
      gdtPtr_size := 55, gdtPtr_offset := address, loadedGdt := Some (55, address)\<rparr>)"
    using len assms(2,3) by (simp add: loadGdt_def toRealGdt_kernel gdt_const_defs)
  have "take 8 (drop (8 * i) ?a) = encodeGdt (?K ! i)" if "i < 5" for i
    using that by (auto simp: blocks_def kernel_gdt_def less_5)
  moreover have "decodeGdt (encodeGdt (?K ! i)) = ?K ! i" if "i < 5" for i
    using that by (auto simp: descriptor_decode kernel_gdt_def less_5 take_bit_eq_mod)
  moreover have "take 16 (drop 40 ?a) = encodeGdt (?K ! 5) @ encodeGdtSystemPart (?K ! 5)"
    by (simp add: blocks_def kernel_gdt_def)
  moreover have "take_bit 48 tssAddress = tssAddress" 
    using assms(4) by (simp add: word_unat_eq_iff unsigned_take_bit_eq take_bit_nat_eq_self word_less_nat_alt)
  then have "decodeSystem (encodeGdt (?K ! 5) @ encodeGdtSystemPart (?K ! 5)) = ?K ! 5"
    by (simp add: descriptor_decode kernel_gdt_def sizeof_tss_def take_bit_eq_mod)
  ultimately show ?thesis using none some by simp
qed

definition gdt_start :: gdt_state where
  "gdt_start = \<lparr>realGdt = replicate 48 0, totalSystemDescriptors = 0, gdtPtr_size = 0, gdtPtr_offset = 0, loadedGdt = None,
     tss = zero_tss, loadedTss = None\<rparr>"

theorem kernel_gdt_overflow_witness:
  "loadGdt 0x112000 (kernel_gdt 0x113000) gdt_start = None"
  using kernel_gdt_overflow [of gdt_start "replicate 8 0" "0x113000" "0x112000"]
  by (simp add: gdt_start_def gdt_const_defs)

end
