(* ===== verification/Disk_Init.thy ===== *)
theory Disk_Init
  imports Stream
begin

text \<open>
  The search for disks, partitions and the kernel's own disk at start-up: the rest of
  \<^verbatim>\<open>disk/disk.c\<close>. The scan of a driver for its disks is a parameter; it returns the addresses of the
  disks found. \<open>stack\<close> is what lies in memory behind the local sector buffer, which the partition
  table check reads, and \<open>junk\<close> what an uninitialised sector buffer holds.
\<close>

section \<open>Operations\<close>

text \<open>
  The macro \<^verbatim>\<open>RETERROR\<close> evaluates its argument once for the test and once more for the result: after a
  failed read the sector is read again, and the second result is returned.
\<close>

definition checkDiskPartition ::
  "byte list \<Rightarrow> byte list \<Rightarrow> u64 \<Rightarrow> ('h, 'a) disk_state_scheme \<Rightarrow> (int \<times> ('h, 'a) disk_state_scheme) option" where
  "checkDiskPartition stack junk d s = do {
     dk \<leftarrow> at (disks s) d;
     drv \<leftarrow> at (drivers s) (disk_driver dk);
     (ret, buff, h) \<leftarrow> drv_read drv 0 1 junk (hw s);
     let s = s\<lparr>hw := h\<rparr>;
     if ret < 0 then do {
       (ret, buff, h) \<leftarrow> drv_read drv 0 1 buff (hw s);
       Some (ret, s\<lparr>hw := h\<rparr>)
     }
     else do {
       (mbrPartitions, s) \<leftarrow> checkMbrPartition d (buff @ stack) s;
       if mbrPartitions \<noteq> 0 then do {
         dk \<leftarrow> at (disks s) d;
         Some (SUCCESS, s\<lparr>disks := (disks s)(d := dk\<lparr>disk_partitionCount := of_nat mbrPartitions\<rparr>)\<rparr>)
       }
       else Some (SUCCESS, s)
     }
   }"

text \<open>The loop over the disks a driver has found; it ends early when the list of disks is full.\<close>

primrec addDisks ::
  "byte list \<Rightarrow> byte list \<Rightarrow> u64 list \<Rightarrow> ('h, 'a) disk_state_scheme \<Rightarrow> ('h, 'a) disk_state_scheme option" where
  "addDisks stack junk [] s = Some s"
| "addDisks stack junk (d # ds) s = do {
     dk \<leftarrow> at (disks s) d;
     drv \<leftarrow> at (drivers s) (disk_driver dk);
     ((name, sz), hp, h) \<leftarrow> drv_getInfo drv (kheap.truncate s) (hw s);
     name \<leftarrow> strncpy (disk_name dk) name 64;
     let s = (kheap.extend hp (kheap.more s))\<lparr>hw := h, disks := (disks s)(d := dk\<lparr>disk_sizeBytes := sz, disk_name := name\<rparr>)\<rparr>;
     (_, s) \<leftarrow> checkDiskPartition stack junk d s;
     (ret, s) \<leftarrow> insertDisk d s;
     if ret < 0 then Some s else addDisks stack junk ds s
   }"

definition scanDriver ::
  "diskDriverType \<Rightarrow> (u64 \<Rightarrow> u16 \<Rightarrow> ('h, 'a) disk_state_scheme \<Rightarrow> (u64 list \<times> ('h, 'a) disk_state_scheme) option) \<Rightarrow>
    byte list \<Rightarrow> byte list \<Rightarrow> ('h, 'a) disk_state_scheme \<Rightarrow> ('h, 'a) disk_state_scheme option" where
  "scanDriver type scanForDisk stack junk s = do {
     driver \<leftarrow> getDriver type s;
     if driver \<noteq> 0 then do {
       (found, s) \<leftarrow> scanForDisk driver (currentDisk s) s;
       addDisks stack junk found s
     }
     else Some s
   }"

definition scanLegacyPorts ::
  "(u64 \<Rightarrow> u16 \<Rightarrow> ('h, 'a) disk_state_scheme \<Rightarrow> (u64 list \<times> ('h, 'a) disk_state_scheme) option) \<Rightarrow>
    byte list \<Rightarrow> byte list \<Rightarrow> ('h, 'a) disk_state_scheme \<Rightarrow> ('h, 'a) disk_state_scheme option" where
  "scanLegacyPorts = scanDriver DISK_DRIVER_TYPE_ATA_LEGACY"

definition scanSata ::
  "(u64 \<Rightarrow> u16 \<Rightarrow> ('h, 'a) disk_state_scheme \<Rightarrow> (u64 list \<times> ('h, 'a) disk_state_scheme) option) \<Rightarrow>
    byte list \<Rightarrow> byte list \<Rightarrow> ('h, 'a) disk_state_scheme \<Rightarrow> ('h, 'a) disk_state_scheme option" where
  "scanSata = scanDriver DISK_DRIVER_TYPE_AHCI"

definition scanDisks ::
  "(u64 \<Rightarrow> u16 \<Rightarrow> ('h, 'a) disk_state_scheme \<Rightarrow> (u64 list \<times> ('h, 'a) disk_state_scheme) option) \<Rightarrow>
    byte list \<Rightarrow> byte list \<Rightarrow> ('h, 'a) disk_state_scheme \<Rightarrow> ('h, 'a) disk_state_scheme option" where
  "scanDisks scanForDisk stack junk s = do {
     s \<leftarrow> scanLegacyPorts scanForDisk stack junk s;
     scanSata scanForDisk stack junk s
   }"

text \<open>The signatures \<^verbatim>\<open>BOBAOS BOOT\<close> and \<^verbatim>\<open>BOBA\<close>.\<close>

definition bobaOSSignature :: "byte list" where
  "bobaOSSignature = [66, 79, 66, 65, 79, 83, 32, 66, 79, 79, 84, 0]"

definition bobaOsSignature :: "byte list" where
  "bobaOsSignature = [66, 79, 66, 65]"

primrec findKernelPartition_loop ::
  "nat \<Rightarrow> nat \<Rightarrow> u64 \<Rightarrow> u64 \<Rightarrow> byte list \<Rightarrow> ('h, 'a) disk_state_scheme \<Rightarrow>
    (bool \<times> ('h, 'a) disk_state_scheme) option" where
  "findKernelPartition_loop 0 i d stream buff s = Some (False, s)"
| "findKernelPartition_loop (Suc k) i d stream buff s = do {
     p \<leftarrow> partition_at (d, i) s;
     (_, s) \<leftarrow> diskStreamSeek stream (part_offsetBytes p + 0x47) s;
     (_, buff, s) \<leftarrow> diskStreamRead stream buff 11 s;
     c \<leftarrow> strcmp bobaOSSignature buff;
     if c = 0 then do {
       p \<leftarrow> partition_at (d, i) s;
       if part_label p = BOBAOS_DEFAULT_VOLUME_LABEL then Some (True, s)
       else do {
         temp \<leftarrow> rd (partitionList s) 0;
         let idx = unat (word_of_int (sint (part_label p) - LABEL_ASCII_OFFSET) :: u16);
         l \<leftarrow> wr (partitionList s) 0 (Some (d, i));
         l \<leftarrow> wr l idx temp;
         let s = s\<lparr>partitionList := l\<rparr>;
         a \<leftarrow> Option.bind (rd l idx) id;
         z \<leftarrow> Option.bind (rd l 0) id;
         pz \<leftarrow> partition_at z s;
         s \<leftarrow> set_partition_label a (part_label pz) s;
         s \<leftarrow> set_partition_label z BOBAOS_DEFAULT_VOLUME_LABEL s;
         Some (True, s)
       }
     }
     else findKernelPartition_loop k (Suc i) d stream buff s
   }"

definition findKernelPartition :: "('h, 'a) disk_state_scheme \<Rightarrow> (bool \<times> ('h, 'a) disk_state_scheme) option" where
  "findKernelPartition s = do {
     (stream, s) \<leftarrow> diskStreamCreate 0 0 s;
     if stream = 0 then Some (False, s)
     else do {
       d \<leftarrow> rd (diskList s) 0;
       dk \<leftarrow> at (disks s) d;
       findKernelPartition_loop (unat (disk_partitionCount dk)) 0 d stream (replicate 12 0) s
     }
   }"

definition set_disk_id :: "u64 \<Rightarrow> byte \<Rightarrow> ('h, 'a) disk_state_scheme \<Rightarrow> ('h, 'a) disk_state_scheme option" where
  "set_disk_id d i s = do {
     dk \<leftarrow> at (disks s) d;
     Some (s\<lparr>disks := (disks s)(d := dk\<lparr>disk_id := i\<rparr>)\<rparr>)
   }"

primrec findKernelDisk_loop ::
  "nat \<Rightarrow> nat \<Rightarrow> byte list \<Rightarrow> ('h, 'a) disk_state_scheme \<Rightarrow> (bool \<times> ('h, 'a) disk_state_scheme) option" where
  "findKernelDisk_loop 0 i junk s = Some (False, s)"
| "findKernelDisk_loop (Suc k) i junk s = do {
     d \<leftarrow> rd (diskList s) i;
     if d = 0 then Some (False, s)
     else do {
       dk \<leftarrow> at (disks s) d;
       drv \<leftarrow> at (drivers s) (disk_driver dk);
       (_, buff, h) \<leftarrow> drv_read drv 0 1 junk (hw s);
       let s = s\<lparr>hw := h\<rparr>;
       if take 4 (drop 442 buff) = bobaOsSignature then
         (if i \<noteq> 0 then do {
            temp \<leftarrow> rd (diskList s) 0;
            l \<leftarrow> wr (diskList s) 0 d;
            l \<leftarrow> wr l i temp;
            let s = s\<lparr>diskList := l\<rparr>;
            s \<leftarrow> set_disk_id d 0 s;
            s \<leftarrow> set_disk_id temp (of_nat i) s;
            Some (True, s)
          }
          else Some (True, s))
       else findKernelDisk_loop k (Suc i) junk s
     }
   }"

definition findKernelDisk :: "byte list \<Rightarrow> ('h, 'a) disk_state_scheme \<Rightarrow> (bool \<times> ('h, 'a) disk_state_scheme) option" where
  "findKernelDisk junk s = findKernelDisk_loop (unat (currentDisk s)) 0 junk s"

definition diskInit ::
  "(u64 \<Rightarrow> u16 \<Rightarrow> ('h, 'a) disk_state_scheme \<Rightarrow> (u64 list \<times> ('h, 'a) disk_state_scheme) option) \<Rightarrow>
    byte list \<Rightarrow> byte list \<Rightarrow> ('h, 'a) disk_state_scheme \<Rightarrow> (int \<times> ('h, 'a) disk_state_scheme) option" where
  "diskInit scanForDisk stack junk s = do {
     let s = s\<lparr>diskList := replicate BOBAOS_MAX_DISKS 0\<rparr>;
     s \<leftarrow> scanDisks scanForDisk stack junk s;
     (b, s) \<leftarrow> findKernelDisk junk s;
     if b then do {
       (b, s) \<leftarrow> findKernelPartition s;
       Some (if b then SUCCESS else - ENFOUND, s)
     }
     else Some (- ENFOUND, s)
   }"

section \<open>Partition tables\<close>

lemma four: "(4 :: nat) = Suc (Suc (Suc (Suc 0)))"
  by simp

lemma mbr_inactive:
  "\<lbrakk> base + i * 16 < length buf; buf ! (base + i * 16) \<noteq> MBR_ACTIVE_FLAG \<rbrakk> \<Longrightarrow>
   checkMbrPartition_loop (Suc k) i base n d buf s = checkMbrPartition_loop k (Suc i) (base + 16) n d buf s"
  by (simp add: rd_def sizeof_mbrPartitionTable_def)

text \<open>
  The check of a partition table looks at four bytes: those of the entries 0 and 2, the
  signature byte 510 and byte 542, behind the sector, since the pointer advances while it is also
  indexed. Active flags of the entries 1 and 3 have no effect, and on a buffer of one sector the
  check reads out of bounds unless it returned before.
\<close>

theorem checkMbrPartition_skips_entries:
  assumes "510 < length buf" and "buf ! 446 \<noteq> MBR_ACTIVE_FLAG" and "buf ! 478 \<noteq> MBR_ACTIVE_FLAG"
    and "buf ! 510 \<noteq> MBR_ACTIVE_FLAG"
  shows "(length buf \<le> 542 \<longrightarrow> checkMbrPartition d buf s = None) \<and>
    (542 < length buf \<and> buf ! 542 \<noteq> MBR_ACTIVE_FLAG \<longrightarrow> checkMbrPartition d buf s = Some (0, s))"
  using assms
  by (simp add: checkMbrPartition_def four rd_def MBR_PARITION_TABLES_OFFSET_def sizeof_mbrPartitionTable_def)

theorem checkMbrPartition_skips_entries_witness:
  "checkMbrPartition 8 ((replicate 512 0)[462 := 0x80, 494 := 0x80]) (ram_state small_heap 0) = None \<and>
   checkMbrPartition 8 ((replicate 600 0)[462 := 0x80, 494 := 0x80]) (ram_state small_heap 0)
     = Some (0, ram_state small_heap 0)"
  using checkMbrPartition_skips_entries [of "(replicate 512 0)[462 := 0x80, 494 := 0x80]" 8 "ram_state small_heap 0"]
    checkMbrPartition_skips_entries [of "(replicate 600 0)[462 := 0x80, 494 := 0x80]" 8 "ram_state small_heap 0"]
  by (simp add: MBR_ACTIVE_FLAG_def)

text \<open>
  Where the first entry is active and the other three bytes looked at are not, the disk gets
  one partition with the current label; its offset and size are the sector numbers of the entry
  times 512 modulo \<open>2 ^ 32\<close>, so that partitions from 4 GiB on are placed wrongly.
\<close>

theorem checkMbrPartition_first_entry:
  assumes "542 < length buf" and "buf ! 446 = MBR_ACTIVE_FLAG" and "buf ! 478 \<noteq> MBR_ACTIVE_FLAG"
    and "buf ! 510 \<noteq> MBR_ACTIVE_FLAG" and "buf ! 542 \<noteq> MBR_ACTIVE_FLAG"
    and "unat (currentPartition s) < 1020" and "length (partitionList s) = 1020"
    and "d \<noteq> 0" and "length (disk_partition (disks s d)) = 4"
    and "le32 buf 454 = Some start" and "le32 buf 458 = Some total'"
  shows "\<exists>s' p. checkMbrPartition d buf s = Some (1, s') \<and> partition_at (d, 0) s' = Some p \<and>
    part_label p = currentPartitionLabel s \<and> part_disk p = d \<and>
    unat (part_offsetBytes p) = unat start * 512 mod 2 ^ 32 \<and>
    unat (part_sizeBytes p) = unat total' * 512 mod 2 ^ 32 \<and>
    currentPartition s' = currentPartition s + 1 \<and>
    partitionList s' ! unat (currentPartition s) = Some (d, 0)"
proof -
  let ?p = "\<lparr>part_id = 0, part_label = currentPartitionLabel s, part_offsetBytes = ucast (start * 512),
    part_sizeBytes = ucast (total' * 512), part_disk = d, part_fileSystem = 0\<rparr>"
  define s1 where "s1 = s\<lparr>disks := (disks s)(d := (disks s d)\<lparr>disk_partition := (disk_partition (disks s d))[0 := ?p]\<rparr>),
    currentPartitionLabel := currentPartitionLabel s + 1,
    partitionList := (partitionList s)[unat (currentPartition s) := Some (d, 0)],
    currentPartition := currentPartition s + 1\<rparr>"
  have ne: "disk_partition (disks s d) \<noteq> []"
    using assms(9) by (metis list.size(3) zero_neq_numeral)
  then have "checkMbrPartition d buf s = checkMbrPartition_loop (Suc (Suc (Suc 0))) 1 462 1 d buf s1"
    using assms
    unfolding checkMbrPartition_def four
    by (subst checkMbrPartition_loop.simps(2))
      (simp add: rd_def wr_def at_def disk_const_defs s1_def del: checkMbrPartition_loop.simps)
  also have "\<dots> = Some (1, s1)" using assms by (simp add: mbr_inactive del: checkMbrPartition_loop.simps(2))
  finally have "checkMbrPartition d buf s = Some (1, s1)" .
  moreover have "partition_at (d, 0) s1 = Some ?p"
    using assms(8) ne by (simp add: partition_at_def at_def rd_def s1_def)
  moreover have "unat (ucast (x * 512 :: u32) :: u64) = unat x * 512 mod 2 ^ 32" for x :: u32
    by (simp add: unsigned_ucast_eq unat_word_ariths take_bit_eq_mod)
  ultimately show ?thesis using assms(6,7) by (intro exI [of _ s1] exI [of _ ?p]) (simp add: s1_def)
qed

theorem checkMbrPartition_first_entry_witness:
  "\<exists>s' p. checkMbrPartition 8 ((replicate 600 0)[446 := 0x80, 457 := 0x1, 458 := 0x10]) (ram_state small_heap 0)
      = Some (1, s') \<and> partition_at (8, 0) s' = Some p \<and>
    unat (part_offsetBytes p) = 0 \<and> unat (part_sizeBytes p) = 0x2000"
proof -
  let ?buf = "(replicate 600 0)[446 := 0x80, 457 := 0x1, 458 := 0x10] :: byte list"
  let ?s = "ram_state small_heap 0"
  have le: "le32 ?buf 454 = Some 0x1000000" "le32 ?buf 458 = Some 0x10"
    by (simp_all add: le32_def rd_def)
  have buf: "542 < length ?buf" "?buf ! 446 = MBR_ACTIVE_FLAG" "?buf ! 478 \<noteq> MBR_ACTIVE_FLAG"
    "?buf ! 510 \<noteq> MBR_ACTIVE_FLAG" "?buf ! 542 \<noteq> MBR_ACTIVE_FLAG"
    by (simp_all add: MBR_ACTIVE_FLAG_def)
  have st: "unat (currentPartition ?s) < 1020" "length (partitionList ?s) = 1020"
    "length (disk_partition (disks ?s 8)) = 4"
    by (simp_all add: ram_state_def ram_disk_def)
  have "(8 :: u64) \<noteq> 0" by simp
  from checkMbrPartition_first_entry [OF buf st(1,2) this st(3) le] obtain s' p where
    "checkMbrPartition 8 ?buf ?s = Some (1, s')" "partition_at (8, 0) s' = Some p"
    "unat (part_offsetBytes p) = unat (0x1000000 :: u32) * 512 mod 2 ^ 32"
    "unat (part_sizeBytes p) = unat (0x10 :: u32) * 512 mod 2 ^ 32" by blast
  then show ?thesis by (intro exI [of _ s'] exI [of _ p]) simp
qed

end
