(* ===== verification/Kmain.thy ===== *)
theory Kmain
  imports Acpi Memory_Map Kernel_Table Panic Gdt Disk_Init Vfsl
begin

text \<open>
  The start of the kernel, \<^verbatim>\<open>kmain\<close> of \<^verbatim>\<open>kernel.c\<close>: the components in the order in which they are initialised, on
  one state, and the panics on the way. A panic is the end of the run: the screen then shows it. The
  other text that the components print on their way is left out. That interrupts are enabled has no
  effect in the model.
\<close>

section \<open>State\<close>

record ('h, 'w) kernel = "'h vfsl_state" +
  gdts :: gdt_state
  idts :: "'w idt_state"
  console :: "terminal koal"

datatype boot = Running | Panicked

definition BOBAOS_MIN_MEMORY :: u64 where "BOBAOS_MIN_MEMORY = 0x100000 * 512"
definition KERNEL_VERSION_MAJOR :: u64 where "KERNEL_VERSION_MAJOR = 0"
definition KERNEL_VERSION_MINOR :: u64 where "KERNEL_VERSION_MINOR = 2"
definition KERNEL_VERSION_PATCH :: u64 where "KERNEL_VERSION_PATCH = 0"

section \<open>The steps\<close>

text \<open>\<open>garbage\<close> are the indeterminate buffers of \<^verbatim>\<open>kprintf\<close>.\<close>

definition says :: "byte list \<Rightarrow> string \<Rightarrow> va list \<Rightarrow> ('h, 'w) kernel \<Rightarrow> ('h, 'w) kernel option" where
  "says garbage str args s = do {
     c \<leftarrow> kprintf garbage (cstring str) args (console s);
     Some (s\<lparr>console := c\<rparr>)
   }"

definition panics :: "byte list \<Rightarrow> string \<Rightarrow> ('h, 'w) kernel \<Rightarrow> (boot \<times> ('h, 'w) kernel) option" where
  "panics garbage message s = do {
     c \<leftarrow> panicScreen garbage PANIC_TYPE_KERNEL None (cstring message) (console s);
     Some (Panicked, s\<lparr>console := c\<rparr>)
   }"

definition kmainTables :: "u64 \<Rightarrow> u64 \<Rightarrow> ('h, 'w) kernel \<Rightarrow> ('h, 'w) kernel option" where
  "kmainTables tssAddress address s = do {
     g \<leftarrow> loadGdt address (kernel_gdt tssAddress) (gdts s);
     Some (s\<lparr>gdts := initTss g\<rparr>)
   }"

definition kmainConsole :: "byte list \<Rightarrow> ('h, 'w) kernel \<Rightarrow> ('h, 'w) kernel option" where
  "kmainConsole garbage s = do {
     c \<leftarrow> terminalInit (koalInit (console s));
     (_, c) \<leftarrow> koalSelectCurrentOutputByName (cstring ''TEXT_TERMINAL'') c;
     says garbage (''BobaOS v%u.%u.%u - Tapioca Core'' @ nl @ nl)
       [VaU64 KERNEL_VERSION_MAJOR, VaU64 KERNEL_VERSION_MINOR, VaU64 KERNEL_VERSION_PATCH] (s\<lparr>console := c\<rparr>)
   }"

text \<open>From \<^verbatim>\<open>acpiInit\<close> to the page table of the kernel, with the page heap, as \<^verbatim>\<open>config.h\<close> selects it.\<close>

definition kmainHeap :: "byte list \<Rightarrow> u64 \<Rightarrow> ('h, 'w) kernel \<Rightarrow> (boot \<times> ('h, 'w) kernel) option" where
  "kmainHeap garbage maxMemory s = do {
     (ret, s) \<leftarrow> kheapInit maxMemory (getUpperMemorySize s) KERNEL_HEAP_TYPE_PAGE s;
     if ret < 0 then panics garbage ''Not enough memory to initialize Kernel page Heap'' s
     else do {
       (table, s) \<leftarrow> createKernelTable 0 s;
       let s = s\<lparr>kernelPageTable := table\<rparr>;
       if table = 0 then panics garbage ''Not enough kernel heap to init paging'' s
       else Some (Running, s)
     }
   }"

definition kmainMemory :: "byte list \<Rightarrow> ('h, 'w) kernel \<Rightarrow> (boot \<times> ('h, 'w) kernel) option" where
  "kmainMemory garbage s = do {
     (ret, s) \<leftarrow> acpiInit s;
     if ret < 0 then
       if ret = - EWMODE then panics garbage ''ACPI v1.0 is not supported. At least v2.0 is required.'' s
       else panics garbage ''ACPI not found.'' s
     else do {
       let s = mmioEngineInit s;
       s \<leftarrow> readMemoryMap s;
       let maxMemory = getMaxMemorySize s;
       s \<leftarrow> says garbage (''Memory'' @ nl @ ''  Available memory: %x'' @ nl @ ''  Available upper memory: %x'' @ nl @ nl)
         [VaU64 maxMemory, VaU64 (getUpperMemorySize s)] s;
       if maxMemory < BOBAOS_MIN_MEMORY
       then panics garbage ''At least 512MB of memory is required to run BobaOS'' s
       else kmainHeap garbage maxMemory s
     }
   }"

text \<open>The result of \<^verbatim>\<open>saveAcpiTables\<close> is not looked at.\<close>

definition kmainDevices :: "nat \<Rightarrow> 'h port_io \<Rightarrow> ('h, 'w) kernel \<Rightarrow> ('h, 'w) kernel option" where
  "kmainDevices depth io s = do {
     (_, s) \<leftarrow> saveAcpiTables s;
     pciInit depth io s
   }"

text \<open>A kernel without a file system goes on.\<close>

definition kmainFiles :: "byte list \<Rightarrow> u64 \<Rightarrow> ('h, 'w) kernel \<Rightarrow> (boot \<times> ('h, 'w) kernel) option" where
  "kmainFiles garbage fs s = do {
     (vfslInitErr, s) \<leftarrow> vfslInit fs s;
     if vfslInitErr < 0 then
       if vfslInitErr = - ENFOUND then do {
         c \<leftarrow> kprint (cstring (''No Filesystem found on any disk. Disks are unusable'' @ nl)) (console s);
         Some (Running, s\<lparr>console := c\<rparr>)
       }
       else panics garbage ''Error init the virtual filesystem layer'' s
     else Some (Running, s)
   }"

definition kmainDisks ::
  "byte list \<Rightarrow> u64 \<Rightarrow> u64 \<Rightarrow> u64 \<Rightarrow>
   (u64 \<Rightarrow> u16 \<Rightarrow> ('h, 'w) kernel \<Rightarrow> (u64 list \<times> ('h, 'w) kernel) option) \<Rightarrow>
   byte list \<Rightarrow> byte list \<Rightarrow> ('h, 'w) kernel \<Rightarrow> (boot \<times> ('h, 'w) kernel) option" where
  "kmainDisks garbage ataPio ahci fs scanForDisk stack sector s = do {
     (ret, s) \<leftarrow> diskDriverInit ataPio ahci s;
     if ret < 0 then panics garbage ''Failed to init diskDriver-system'' s
     else do {
       c \<leftarrow> kprint (cstring (''Disk scan:'' @ nl)) (console s);
       (ret, s) \<leftarrow> diskInit scanForDisk stack sector (s\<lparr>console := c\<rparr>);
       if ret < 0 then panics garbage ''Kernel disk or partition not found'' s
       else kmainFiles garbage fs s
     }
   }"

text \<open>
  The addresses are those of the tables and of the structures that the drivers and the file system
  register. \<^verbatim>\<open>Running\<close> is the endless loop at the end.
\<close>

definition kmain ::
  "byte list \<Rightarrow> u64 \<Rightarrow> u64 \<Rightarrow> u32 \<Rightarrow> (nat \<Rightarrow> u64) \<Rightarrow> u64 \<Rightarrow> nat \<Rightarrow> 'h port_io \<Rightarrow> u64 \<Rightarrow> u64 \<Rightarrow> u64 \<Rightarrow>
   (u64 \<Rightarrow> u16 \<Rightarrow> ('h, 'w) kernel \<Rightarrow> (u64 list \<times> ('h, 'w) kernel) option) \<Rightarrow>
   byte list \<Rightarrow> byte list \<Rightarrow> ('h, 'w) kernel \<Rightarrow> (boot \<times> ('h, 'w) kernel) option" where
  "kmain garbage tssAddress gdtAddress reserved idtAddressList idtAddress depth io ataPio ahci fs scanForDisk stack sector s = do {
     s \<leftarrow> kmainTables tssAddress gdtAddress s;
     s \<leftarrow> kmainConsole garbage s;
     i \<leftarrow> idtInit reserved idtAddressList idtAddress (idts s);
     (b, s) \<leftarrow> kmainMemory garbage (s\<lparr>idts := i\<rparr>);
     if b = Panicked then Some (b, s)
     else do {
       s \<leftarrow> kmainDevices depth io s;
       kmainDisks garbage ataPio ahci fs scanForDisk stack sector s
     }
   }"

section \<open>What is shown\<close>

definition console_ready :: "('h, 'w) kernel \<Rightarrow> bool" where
  "console_ready s \<longleftrightarrow> koal_ready terminalPutchar (console s) \<and> term_wf (dev (console s))"

text \<open>The screen of a panic of the kernel.\<close>

definition panic_screen :: "string \<Rightarrow> ('h, 'w) kernel \<Rightarrow> bool" where
  "panic_screen message s \<longleftrightarrow>
     screen_text (dev (console s)) = fold text_put (panic_text PANIC_TYPE_KERNEL None (text_of message)) []"

lemma says_shown:
  assumes "console_ready s" "length garbage = 32" "length (cstring str) < 2 ^ 64" "render False (cstr (cstring str)) args = Some out"
  obtains t where "says garbage str args s = Some (s\<lparr>console := (console s)\<lparr>dev := t\<rparr>\<rparr>)" "term_wf t"
    "screen_text t = fold text_put out (screen_text (dev (console s)))"
proof -
  have "koal_ready terminalPutchar (console s)" "term_wf (dev (console s))"
    using assms(1) by (simp_all add: console_ready_def)
  from printsD [OF prints_kprintf [OF assms(2) terminated_cstring assms(3,4)] this] obtain t
    where "kprintf garbage (cstring str) args (console s) = Some ((console s)\<lparr>dev := t\<rparr>)" "term_wf t"
      "screen_text t = fold text_put out (screen_text (dev (console s)))" by blast
  then show thesis by (intro that [of t]) (simp_all add: says_def)
qed

lemma cstr_cstring: "0 \<notin> set (text_of message) \<Longrightarrow> cstr (cstring message) = text_of message"
  using cstr_append [of "text_of message" "[0]"] by (simp add: cstring_def text_of_def)

lemma panics_shown:
  assumes "console_ready s" "length garbage = 32" "length (cstring message) < 2 ^ 64" "0 \<notin> set (text_of message)"
  shows "\<exists>s'. panics garbage message s = Some (Panicked, s') \<and> panic_screen message s'"
proof -
  let ?c = "console s"
  have c: "koal_ready terminalPutchar ?c" "length (videoMemory (dev ?c)) = 2000"
    using assms(1) by (simp_all add: console_ready_def term_wf_def)
  obtain t where t: "terminalClear 1 (dev ?c) = Some t" "term_wf t" "screen_text t = []"
    using terminalClear_spec [OF c(2), of 1] by blast
  with printsD [OF prints_printPanic [OF assms(2) terminated_cstring assms(3)], of "?c\<lparr>dev := t\<rparr>" PANIC_TYPE_KERNEL None] c(1)
  show ?thesis by (auto simp: panics_def panicScreen_def panic_screen_def cstr_cstring [OF assms(4)])
qed

section \<open>The console\<close>

lemma version_banner:
  "render False (cstr (cstring (''BobaOS v%u.%u.%u - Tapioca Core'' @ nl @ nl)))
     [VaU64 KERNEL_VERSION_MAJOR, VaU64 KERNEL_VERSION_MINOR, VaU64 KERNEL_VERSION_PATCH] =
   Some (text_of ''BobaOS v0.2.0 - Tapioca Core'' @ [10, 10])"
  by (simp add: cstring_def text_of_def KERNEL_VERSION_MAJOR_def KERNEL_VERSION_MINOR_def KERNEL_VERSION_PATCH_def
      digit_char_def digits_small numberMap_def)

lemma koal_selects:
  assumes "koals c = Some \<lparr>koal_name = cstring ''TEXT_TERMINAL'' @ replicate 18 0, outChar = terminalPutchar\<rparr> # replicate 11 None"
    "currentIndex c = 1"
  shows "koalSelectCurrentOutputByName (cstring ''TEXT_TERMINAL'') c = Some (0, c\<lparr>selectedOutput := 0\<rparr>)"
  using assms by (simp add: koalSelectCurrentOutputByName_def koal_at_def rd_def cstring_def)

section \<open>Memory\<close>

text \<open>The heap that \<^verbatim>\<open>kheapInit\<close> leaves.\<close>

definition fresh_heap :: "u64 \<Rightarrow> 'a kheap_scheme \<Rightarrow> 'a kheap_scheme" where
  "fresh_heap avail s = s\<lparr>table_size := 25600, tableMaxSize := avail, hmem := memset 0 0 25600 (hmem s), selected := KERNEL_HEAP_TYPE_PAGE\<rparr>"

lemma kheapInit_page:
  "kheapInit maxMem upperMem KERNEL_HEAP_TYPE_PAGE s =
     (if 25600 \<le> maxMem - upperMem then Some (0, fresh_heap (maxMem - upperMem) s)
      else Some (- ENMEM, s\<lparr>table_size := 25600, tableMaxSize := maxMem - upperMem, selected := KERNEL_HEAP_TYPE_PAGE\<rparr>))"
  by (simp add: kheapInit_def kheapInitPage_def kheapInitTable_def fresh_heap_def heap_const_defs Let_def not_less
      flip: not_le)

lemma fresh_heap: "kheap_wf (fresh_heap avail s)" "live (fresh_heap avail s) = {}"
proof -
  have "memset 0 0 25600 m (of_nat j) = 0" if "j < 25600" for m j using that by (simp add: unat_of_nat)
  then show "kheap_wf (fresh_heap avail s)" "live (fresh_heap avail s) = {}"
    by (auto simp: fresh_heap_def kheap_wf_def heap_wf_def table_wf_def live_def is_block_def ent_def simp del: memset_apply)
qed

text \<open>What the kernel has when the memory is set up: a heap, and a page table that translates \<open>rs\<close>.\<close>

definition memory_up :: "(u64 \<times> u64 \<times> u64) list \<Rightarrow> ('h, 'w) kernel \<Rightarrow> bool" where
  "memory_up rs s \<longleftrightarrow> kheap_wf s \<and> kernelPageTable s \<noteq> 0 \<and> loadedTable s = kernelPageTable s \<and>
     page_table s (kernelPageTable s) \<and>
     (\<forall>(p, v, n) \<in> set rs. \<forall>i < unat n. virtualToPhysical (v + of_nat i) (kernelPageTable s) (hmem s) = p + of_nat i)"

lemma kmainHeap_spec:
  fixes s :: "('h, 'w) kernel"
  assumes con: "console_ready s" "length garbage = 32"
    and rs: "rs = kernel_ranges (take (unat (memoryMapLength s)) (memoryMap s)) 0" "ranges_ok rs" "3 * ranges_tables rs < 25600"
  shows "\<exists>b s'. kmainHeap garbage maxMem s = Some (b, s') \<and>
    (if 25600 \<le> maxMem - upperMemorySize s then b = Running \<and> memory_up rs s'
     else b = Panicked \<and> panic_screen ''Not enough memory to initialize Kernel page Heap'' s')"
proof (cases "25600 \<le> maxMem - upperMemorySize s")
  case False
  let ?s = "s\<lparr>table_size := 25600, tableMaxSize := maxMem - upperMemorySize s, selected := KERNEL_HEAP_TYPE_PAGE\<rparr>"
  have "console_ready ?s" using con(1) by (simp add: console_ready_def)
  then have "\<exists>s'. panics garbage ''Not enough memory to initialize Kernel page Heap'' ?s = Some (Panicked, s') \<and>
      panic_screen ''Not enough memory to initialize Kernel page Heap'' s'"
    by (rule panics_shown) (simp_all add: con(2) cstring_def text_of_def)
  with False show ?thesis by (auto simp: kmainHeap_def kheapInit_page getUpperMemorySize_def)
next
  case True
  let ?s = "fresh_heap (maxMem - upperMemorySize s) s"
  have same: "memoryMap ?s = memoryMap s" "memoryMapLength ?s = memoryMapLength s" "table_size ?s = 25600"
    by (simp_all add: fresh_heap_def)
  have "room ?s (Suc (3 * ranges_tables rs))"
    unfolding room_def by (rule exI [of _ "{}"]) (use rs(3) in \<open>simp add: fresh_heap same\<close>)
  note run = createKernelTable_run [of ?s rs, unfolded same, OF fresh_heap(1) rs(1,2) this]
  obtain root m where
    t: "createKernelTable 0 ?s = Some (root, ?s\<lparr>hmem := m, loadedTable := root\<rparr>)" "root \<noteq> 0"
      "kheap_wf (?s\<lparr>hmem := m\<rparr>)" "page_table (?s\<lparr>hmem := m\<rparr>) root"
      "\<And>p v n i. (p, v, n) \<in> set rs \<Longrightarrow> i < unat n \<Longrightarrow> virtualToPhysical (v + of_nat i) root m = p + of_nat i"
    by (rule run) (rule that; assumption)
  let ?t = "?s\<lparr>hmem := m, loadedTable := root, kernelPageTable := root\<rparr>"
  have "kheap_wf ?t" "page_table ?t root"
    using t(3,4) same_heap [of ?t "?s\<lparr>hmem := m\<rparr>"] page_table_same [of ?t "?s\<lparr>hmem := m\<rparr>" root] by simp_all
  then have "memory_up rs ?t" using t(2,5) by (auto simp: memory_up_def)
  moreover have "kmainHeap garbage maxMem s = Some (Running, ?t)"
    using True t(1,2) by (simp add: kmainHeap_def kheapInit_page getUpperMemorySize_def)
  ultimately show ?thesis using True by simp
qed

section \<open>Properties\<close>

lemma terminalInit_first:
  assumes "currentIndex c = 0" "length (videoMemory (dev c)) = 2000"
  shows "terminalInit (koalInit c) = Some (c\<lparr>
    koals := Some \<lparr>koal_name = cstring ''TEXT_TERMINAL'' @ replicate 18 0, outChar = terminalPutchar\<rparr> # replicate 11 None,
    currentIndex := 1, dev := (dev c)\<lparr>videoMemory := replicate 2000 0x5F00\<rparr>\<rparr>)"
proof -
  have n: "strcpym (replicate 32 0) TEXT_TERMINAL 32 = Some (cstring ''TEXT_TERMINAL'' @ replicate 18 0)"
    using strcpym_loop_spec [of TEXT_TERMINAL 0 "replicate 32 0" 32]
    by (simp add: strcpym_def TEXT_TERMINAL_def cstring_def overwrite_def terminated_def)
  have r: "replicate 12 None = None # replicate 11 None" by (simp add: numeral_eq_Suc)
  show ?thesis
    using fill_upto_spec [of 2000 "videoMemory (dev c)"] assms
    by (simp add: terminalInit_def n koalInit_def koalAttach_def wr_def BOBAOS_MAX_KOAL_ENTRIES_def VGA_WIDTH_def VGA_HEIGHT_def
        TERMINAL_BACKCOLOR_def TERMINAL_FORECOLOR_def r)
qed

text \<open>
  The console of \<^verbatim>\<open>kmain\<close>: from the state of a fresh machine the text terminal is attached and selected, so that
  everything that is printed from then on is shown, and the screen holds the line with the version and
  an empty line.
\<close>

theorem kmainConsole_banner:
  assumes "length garbage = 32" and "currentIndex (console s) = 0"
    and "length (videoMemory (dev (console s))) = 2000" "curRow (dev (console s)) = 0" "curCol (dev (console s)) = 0"
  shows "\<exists>s'. kmainConsole garbage s = Some s' \<and> console_ready s' \<and>
    screen_text (dev (console s')) = text_of ''BobaOS v0.2.0 - Tapioca Core'' @ replicate 52 0 @ replicate 80 0"
proof -
  let ?c = "console s"
  let ?k = "?c\<lparr>koals := Some \<lparr>koal_name = cstring ''TEXT_TERMINAL'' @ replicate 18 0, outChar = terminalPutchar\<rparr> # replicate 11 None,
    currentIndex := 1, dev := (dev ?c)\<lparr>videoMemory := replicate 2000 0x5F00\<rparr>, selectedOutput := 0\<rparr>"
  let ?s = "s\<lparr>console := ?k\<rparr>" and ?banner = "text_of ''BobaOS v0.2.0 - Tapioca Core''"
  have d: "dev ?k = blank_terminal" using assms(4,5) by (simp add: blank_terminal_def)
  have ready: "console_ready ?s"
    unfolding console_ready_def by (simp add: koal_ready_def koal_at_def rd_def) (use d blank_terminal_wf(1) in simp)
  have l: "length (cstring (''BobaOS v%u.%u.%u - Tapioca Core'' @ nl @ nl)) < 2 ^ 64" by (simp add: cstring_def)
  obtain t where t: "says garbage (''BobaOS v%u.%u.%u - Tapioca Core'' @ nl @ nl)
      [VaU64 KERNEL_VERSION_MAJOR, VaU64 KERNEL_VERSION_MINOR, VaU64 KERNEL_VERSION_PATCH] ?s = Some (?s\<lparr>console := ?k\<lparr>dev := t\<rparr>\<rparr>)"
    "term_wf t" "screen_text t = fold text_put (?banner @ [10, 10]) []"
    using says_shown [OF ready assms(1) l version_banner] d blank_terminal_wf(2) by auto
  have b: "length ?banner = 28" "10 \<notin> set ?banner" by (simp_all add: text_of_def)
  have "fold text_put ?banner [] = ?banner" using fold_text_put_line [of ?banner "[]"] b by simp
  then have "screen_text t = ?banner @ replicate 52 0 @ replicate 80 0"
    using t(3) b(1) text_put_line [of ?banner] text_put_line [of "?banner @ replicate 52 0"] by simp
  moreover have "kmainConsole garbage s = Some (?s\<lparr>console := ?k\<lparr>dev := t\<rparr>\<rparr>)"
    using t(1) terminalInit_first [OF assms(2,3)] koal_selects by (simp add: kmainConsole_def)
  moreover have "console_ready (?s\<lparr>console := ?k\<lparr>dev := t\<rparr>\<rparr>)"
    using t(2) by (simp add: console_ready_def koal_ready_def koal_at_def rd_def)
  ultimately show ?thesis by (intro exI [of _ "?s\<lparr>console := ?k\<lparr>dev := t\<rparr>\<rparr>"]) simp
qed

text \<open>
  Property C37. The memory phase of \<^verbatim>\<open>kmain\<close>, for any memory map of at most 14 entries of which the first ones,
  at least one, lie below 1 MiB and the others, at least one, above. Without a root pointer of the firmware, with less
  than 512 MiB of memory, or with less than 25600 bytes below 1 MiB the machine stops with the panic that says so on the
  screen. Otherwise the kernel has a well-formed heap, and its page table is loaded and translates the first MiB and every
  free entry above it (\<open>memory_up\<close>). The console is set up and the counters of memory are zero, as they are at
  this point of the start. The provisos are those of the loop that maps a range: every free entry has at least one page and at most 2 GiB
  and lies below \<open>2 ^ 48\<close> (\<open>ranges_ok\<close>), and the heap has the tables for all of them, as it has up to about 16 GiB.
\<close>

theorem kmainMemory_boots:
  fixes s :: "('h, 'w) kernel"
  assumes map: "boot_map (hmem s) (lo @ hi)" "length (memoryMap s) = BOBAOS_MEMORY_MAP_MAX_ENTRIES"
      "length (lo @ hi) < BOBAOS_MEMORY_MAP_MAX_ENTRIES" "totalMemorySize s = 0" "upperMemorySize s = 0"
      "lo \<noteq> []" "\<forall>e \<in> set lo. \<not> is_upper e" "hi \<noteq> []" "\<forall>e \<in> set hi. is_upper e"
    and con: "console_ready s" "length garbage = 32"
    and rs: "rs = kernel_ranges (low_memory # hi) 0" "ranges_ok rs" "3 * ranges_tables rs < 25600"
  shows "\<exists>b s'. kmainMemory garbage s = Some (b, s') \<and>
    (if find (\<lambda>a. bytes_at (hmem s) a 8 = signature) rsdp_candidates = None
     then b = Panicked \<and> panic_screen ''ACPI not found.'' s'
     else if map_bytes (lo @ hi) < BOBAOS_MIN_MEMORY
     then b = Panicked \<and> panic_screen ''At least 512MB of memory is required to run BobaOS'' s'
     else if map_bytes lo < 25600
     then b = Panicked \<and> panic_screen ''Not enough memory to initialize Kernel page Heap'' s'
     else b = Running \<and> memory_up rs s')"
proof (cases "find (\<lambda>a. bytes_at (hmem s) a 8 = signature) rsdp_candidates")
  case None
  have "\<exists>s'. panics garbage ''ACPI not found.'' s = Some (Panicked, s') \<and> panic_screen ''ACPI not found.'' s'"
    by (rule panics_shown [OF con]) (simp_all add: cstring_def text_of_def)
  with None show ?thesis by (auto simp: kmainMemory_def acpiInit_def findRsdp_first)
next
  case (Some rsdp)
  let ?s1 = "mmioEngineInit (s\<lparr>systemDescriptorTableAddress := tableOfRsdp rsdp (hmem s)\<rparr>)"
  have s1: "hmem ?s1 = hmem s" "memoryMap ?s1 = memoryMap s" "totalMemorySize ?s1 = 0" "upperMemorySize ?s1 = 0"
    "console ?s1 = console s" using map(4,5) by (simp_all add: mmioEngineInit_def)
  obtain mm where mm: "readMemoryMap ?s1 = Some (?s1\<lparr>memoryMap := mm, memoryMapLength := of_nat (Suc (length hi)),
      totalMemorySize := map_bytes (lo @ hi), upperMemorySize := map_bytes hi\<rparr>)"
    "take (Suc (length hi)) mm = low_memory # hi"
    using readMemoryMap_spec [of ?s1 lo hi] map s1 by metis
  let ?s2 = "?s1\<lparr>memoryMap := mm, memoryMapLength := of_nat (Suc (length hi)),
      totalMemorySize := map_bytes (lo @ hi), upperMemorySize := map_bytes hi\<rparr>"
  have c2: "console_ready ?s2" using con(1) s1(5) by (simp add: console_ready_def)
  let ?fmt = "''Memory'' @ nl @ ''  Available memory: %x'' @ nl @ ''  Available upper memory: %x'' @ nl @ nl"
    and ?args = "[VaU64 (map_bytes (lo @ hi)), VaU64 (map_bytes hi)]"
  have "length (cstring ?fmt) < 2 ^ 64" by (simp add: cstring_def)
  moreover have "\<exists>out. render False (cstr (cstring ?fmt)) ?args = Some out" by (simp add: cstring_def)
  then obtain out where "render False (cstr (cstring ?fmt)) ?args = Some out" ..
  ultimately obtain t where t: "says garbage ?fmt ?args ?s2 = Some (?s2\<lparr>console := (console ?s2)\<lparr>dev := t\<rparr>\<rparr>)" "term_wf t"
    by (rule says_shown [OF c2 con(2)])
  let ?s3 = "?s2\<lparr>console := (console ?s2)\<lparr>dev := t\<rparr>\<rparr>"
  have c3: "console_ready ?s3" using c2 t(2) by (simp add: console_ready_def)
  have run: "kmainMemory garbage s = (if map_bytes (lo @ hi) < BOBAOS_MIN_MEMORY
      then panics garbage ''At least 512MB of memory is required to run BobaOS'' ?s3
      else kmainHeap garbage (map_bytes (lo @ hi)) ?s3)"
    using Some mm(1) t(1)
    by (simp add: kmainMemory_def acpiInit_def findRsdp_first getMaxMemorySize_def getUpperMemorySize_def Let_def)
  show ?thesis
  proof (cases "map_bytes (lo @ hi) < BOBAOS_MIN_MEMORY")
    case True
    have "\<exists>s'. panics garbage ''At least 512MB of memory is required to run BobaOS'' ?s3 = Some (Panicked, s') \<and>
        panic_screen ''At least 512MB of memory is required to run BobaOS'' s'"
      by (rule panics_shown [OF c3 con(2)]) (simp_all add: cstring_def text_of_def)
    with True Some run show ?thesis by auto
  next
    case False
    have "length hi < 15" using map(3) by (simp add: BOBAOS_MEMORY_MAP_MAX_ENTRIES_def)
    then have u: "unat (memoryMapLength ?s3) = Suc (length hi)" by (simp add: unat_of_nat del: of_nat_Suc)
    have "rs = kernel_ranges (take (unat (memoryMapLength ?s3)) (memoryMap ?s3)) 0"
      unfolding u using mm(2) rs(1) by simp
    from kmainHeap_spec [OF c3 con(2) this rs(2,3), of "map_bytes (lo @ hi)"] obtain b s' where
      h: "kmainHeap garbage (map_bytes (lo @ hi)) ?s3 = Some (b, s')"
        "if 25600 \<le> map_bytes (lo @ hi) - upperMemorySize ?s3 then b = Running \<and> memory_up rs s'
         else b = Panicked \<and> panic_screen ''Not enough memory to initialize Kernel page Heap'' s'"
      by blast
    have d: "25600 \<le> map_bytes (lo @ hi) - upperMemorySize ?s3 \<longleftrightarrow> \<not> map_bytes lo < 25600" by (simp add: not_less)
    have "kmainMemory garbage s = Some (b, s')" unfolding run using h(1) False by simp
    with h(2) d Some False show ?thesis by (intro exI [of _ b] exI [of _ s']) (auto split: if_splits)
  qed
qed

text \<open>
  The whole of \<^verbatim>\<open>kmain\<close> is undefined from its first call on: \<^verbatim>\<open>loadGdt\<close> writes behind the array of descriptors.
\<close>

lemma kmain_undefined:
  assumes "length (realGdt (gdts s)) = sizeof_realGdt * BOBAOS_GDT_ENTRIES"
  shows "kmain garbage tssAddress gdtAddress reserved idtAddressList idtAddress depth io ataPio ahci fs scanForDisk stack sector s = None"
  using toRealGdt_kernel [of "gdts s" tssAddress] assms
  by (simp add: kmain_def kmainTables_def loadGdt_def gdt_const_defs)

section \<open>Witnesses\<close>

theorem kmainConsole_banner_witness:
  "\<exists>(s :: (unit, unit) kernel) s'. console s = koalInit (ready_koal\<lparr>currentIndex := 0\<rparr>) \<and>
     kmainConsole (replicate 32 9) s = Some s' \<and> take 28 (screen_text (dev (console s'))) = text_of ''BobaOS v0.2.0 - Tapioca Core''"
proof -
  let ?s = "(undefined :: (unit, unit) kernel)\<lparr>console := koalInit (ready_koal\<lparr>currentIndex := 0\<rparr>)\<rparr>"
  have "length (replicate 32 9 :: byte list) = 32" "currentIndex (console ?s) = 0"
    "length (videoMemory (dev (console ?s))) = 2000" "curRow (dev (console ?s)) = 0" "curCol (dev (console ?s)) = 0"
    by (simp_all add: koalInit_def ready_koal_def blank_terminal_def)
  from kmainConsole_banner [OF this] obtain s' where
    "kmainConsole (replicate 32 9) ?s = Some s'" "screen_text (dev (console s')) = text_of ''BobaOS v0.2.0 - Tapioca Core'' @ replicate 52 0 @ replicate 80 0"
    by blast
  moreover have "length (text_of ''BobaOS v0.2.0 - Tapioca Core'') = 28" by (simp add: text_of_def)
  ultimately show ?thesis by (intro exI [of _ ?s] exI [of _ s']) simp
qed

text \<open>A machine with 639 KiB of low memory and 512 MiB from 1 MiB on, with a root pointer at 512 KiB.\<close>

definition boot_entries :: "memoryMap list" where
  "boot_entries = [\<lparr>mm_address = 0, mm_length = 0x9FC00, mm_type = 1\<rparr>, \<lparr>mm_address = 0x100000, mm_length = 0x20000000, mm_type = 1\<rparr>]"

definition boot_bytes :: "byte list" where
  "boot_bytes = concat (map (\<lambda>e. bytes64 (mm_address e) @ bytes64 (mm_length e) @ bytes32 (mm_type e)) boot_entries)"

definition boot_memory :: mem where
  "boot_memory a = (if a - 0xF000 < 40 then boot_bytes ! unat (a - 0xF000)
     else if a - 0x80000 < 8 then signature ! unat (a - 0x80000) else 0)"

lemma boot_memory_map: "boot_map boot_memory boot_entries"
proof -
  have b: "boot_bytes = [0,0,0,0,0,0,0,0, 0,0xFC,9,0,0,0,0,0, 1,0,0,0, 0,0,0x10,0,0,0,0,0, 0,0,0,0x20,0,0,0,0, 1,0,0,0]"
    by (simp add: boot_bytes_def boot_entries_def bytes64_def bytes32_def upt_conv_Cons)
  have "memoryMap_at boot_memory 0xF000 = boot_entries ! 0" "memoryMap_at boot_memory 0xF014 = boot_entries ! 1"
    "mm_type (memoryMap_at boot_memory 0xF028) = 0"
    by (simp_all add: memoryMap_at_def le64_at_def le32_at_def bytes_at_def upt_conv_Cons boot_memory_def b boot_entries_def)
  then show ?thesis by (auto simp: boot_map_def boot_entries_def less_Suc_eq)
qed

lemma boot_memory_rsdp: "find (\<lambda>a. bytes_at boot_memory a 8 = signature) rsdp_candidates \<noteq> None"
proof -
  have "bytes_at boot_memory 0x80000 8 = signature"
    by (simp add: bytes_at_def boot_memory_def signature_def upt_conv_Cons)
  moreover have "0x80000 \<in> set rsdp_candidates"
    by (auto simp: rsdp_candidates_def image_iff intro!: bexI [of _ 0])
  ultimately show ?thesis by (auto simp: find_None_iff)
qed

theorem kmainMemory_boots_witness:
  "\<exists>(s :: (unit, unit) kernel) s'. hmem s = boot_memory \<and> kmainMemory (replicate 32 9) s = Some (Running, s') \<and>
     virtualToPhysical 0x100024 (kernelPageTable s') (hmem s') = 0x100024"
proof -
  let ?s = "(undefined :: (unit, unit) kernel)\<lparr>hmem := boot_memory, memoryMap := replicate 15 no_memoryMap,
    totalMemorySize := 0, upperMemorySize := 0, console := ready_koal\<rparr>"
  let ?lo = "[boot_entries ! 0]" and ?hi = "[boot_entries ! 1]"
  have e: "?lo @ ?hi = boot_entries" by (simp add: boot_entries_def)
  have con: "console_ready ?s" "length (replicate 32 9 :: byte list) = 32"
    by (simp_all add: console_ready_def ready_koal_def koal_ready_def koal_at_def rd_def blank_terminal_wf)
  have rs: "kernel_ranges (low_memory # ?hi) 0 = [(0, 0, 0x100000), (0x100000, 0x100000, 0x20000000)]"
    by (simp add: low_memory_def boot_entries_def MEMORY_TYPE_FREE_def downToPage_word)
  have ok: "ranges_ok [(0, 0, 0x100000), (0x100000, 0x100000, 0x20000000)]"
    "3 * ranges_tables [(0, 0, 0x100000), (0x100000, 0x100000, 0x20000000)] < 25600"
    by (simp_all add: range_tables_def)
  have m1: "boot_map (hmem ?s) (?lo @ ?hi)" unfolding e by (simp add: boot_memory_map)
  have m2: "length (memoryMap ?s) = BOBAOS_MEMORY_MAP_MAX_ENTRIES" "length (?lo @ ?hi) < BOBAOS_MEMORY_MAP_MAX_ENTRIES"
    "totalMemorySize ?s = 0" "upperMemorySize ?s = 0" "?lo \<noteq> []" "?hi \<noteq> []"
    by (simp_all add: BOBAOS_MEMORY_MAP_MAX_ENTRIES_def)
  have m3: "\<forall>e \<in> set ?lo. \<not> is_upper e" "\<forall>e \<in> set ?hi. is_upper e"
    by (simp_all add: is_upper_def boot_entries_def SIZE_1MB_def)
  obtain b s' where r: "kmainMemory (replicate 32 9) ?s = Some (b, s')"
    "if find (\<lambda>a. bytes_at (hmem ?s) a 8 = signature) rsdp_candidates = None
     then b = Panicked \<and> panic_screen ''ACPI not found.'' s'
     else if map_bytes (?lo @ ?hi) < BOBAOS_MIN_MEMORY
     then b = Panicked \<and> panic_screen ''At least 512MB of memory is required to run BobaOS'' s'
     else if map_bytes ?lo < 25600
     then b = Panicked \<and> panic_screen ''Not enough memory to initialize Kernel page Heap'' s'
     else b = Running \<and> memory_up [(0, 0, 0x100000), (0x100000, 0x100000, 0x20000000)] s'"
    using kmainMemory_boots [OF m1 m2(1-5) m3(1) m2(6) m3(2) con rs [symmetric] ok] by (elim exE conjE) (rule that)
  have "\<not> map_bytes (?lo @ ?hi) < BOBAOS_MIN_MEMORY" "\<not> map_bytes ?lo < 25600"
    by (simp_all add: boot_entries_def BOBAOS_MIN_MEMORY_def)
  with r(2) boot_memory_rsdp have b: "b = Running" "memory_up [(0, 0, 0x100000), (0x100000, 0x100000, 0x20000000)] s'"
    by (auto split: if_splits)
  from b(2) have "\<forall>i < 0x20000000. virtualToPhysical (0x100000 + of_nat i) (kernelPageTable s') (hmem s') = 0x100000 + of_nat i"
    by (simp add: memory_up_def)
  from this [rule_format, of "0x24"] have v: "virtualToPhysical 0x100024 (kernelPageTable s') (hmem s') = 0x100024" by simp
  show ?thesis by (rule exI [of _ ?s], rule exI [of _ s']) (use r(1) b(1) v in simp)
qed

end
