(* ===== verification/Spec2Isabelle.thy ===== *)
theory Spec2Isabelle
  imports Ata_Device Byte_Stream Pci_Config Ahci_Device Process Kmain
begin

text \<open>
  BobaOS is a small 64-bit kernel written in C. This library models the kernel below
  \<^verbatim>\<open>src/kernel\<close> as definitions over explicit states and proves what its parts do.

  Parts of the kernel and theories, from the bottom up.

  \<^item> \<^verbatim>\<open>status.h\<close> and generic facts: Prelude. Words are kept at their width; a C function that
    may run into undefined behaviour has an option result, \<open>None\<close> being that fault.
  \<^item> \<^verbatim>\<open>memory/memory.c\<close>: Memory. The memory of the kernel is a function from 64-bit addresses
    to bytes; \<open>memset\<close> and \<open>memcpy\<close> are the byte loops of the code.
  \<^item> \<^verbatim>\<open>memory/kheap\<close>: Heap_Page, Heap_Buddy and Kheap. The state \<open>heap_page\<close> is the memory with the
    table of the page allocator in it, the state \<open>heap_buddy\<close> adds the block entries, levels and
    metadata pages of the buddy allocator, the state \<open>kheap\<close> the selected allocator. The locale
    \<open>allocator\<close> in Kheap is the contract of \<open>kzalloc\<close> and \<open>kzfree\<close>; the page allocator meets it.
    \<open>live s\<close> are the live blocks with their sizes, \<open>kheap_wf s\<close> is the invariant.
  \<^item> \<^verbatim>\<open>string/string.c\<close>: Kstring. Strings in memory for the functions whose callers share buffers,
    lists of characters for the conversions of numbers.
  \<^item> \<^verbatim>\<open>memory/paging/paging.c\<close>: Paging has the operations on the page tables, which lie in the memory
    of the heap. Page_Map has the invariant \<open>page_table\<close> and the abstract view \<open>page_map\<close>, a map from the
    indices of pages to frames, which mapping updates and translation reads. Page_Frame shows that
    memory outside the heap stays as it is, Memory_Map what becomes of the map of the boot
    loader, Kernel_Table what the page table of the kernel translates.
  \<^item> \<^verbatim>\<open>memory/mmioEngine.c\<close>: Mmio, the window for the registers of devices.
  \<^item> \<^verbatim>\<open>powerManagement/acpi.c\<close>: Acpi, the search for the root pointer and the list of tables.
  \<^item> \<^verbatim>\<open>koal/koal.c\<close>, \<^verbatim>\<open>print.c\<close> and \<^verbatim>\<open>terminal.c\<close>: Koal and Terminal. The output layer is a table of
    output functions; the locale \<open>output_device\<close> is what the printing functions need, the VGA
    terminal meets it.
  \<^item> \<^verbatim>\<open>hardware/pci/pci.c\<close>: Pci, and Pci_Config with a configuration space.
  \<^item> \<^verbatim>\<open>disk\<close>: Disk (driver registry, disks, partition list), Disk_Init (scan for disks and MBR),
    Stream (\<^verbatim>\<open>stream.c\<close>) and Partition_Stream (\<^verbatim>\<open>partitionStream.c\<close>). The read and write functions
    of a disk driver are parameters of the streams; the predicate \<open>lawful\<close> is what they need of a driver. The
    locale \<open>byte_stream\<close> in Byte_Stream is the contract of seek, read and write; both kinds of streams meet it.
  \<^item> \<^verbatim>\<open>disk/driver\<close>: Ata_Pio with Ata_Device, and Ahci with Ahci_Device. The first of each pair has the
    driver, over the port operations of Port_Io (\<^verbatim>\<open>io/io.h\<close>) or over register accesses; the second has a device
    as the standards describe it and what the driver does with it. The ATA driver meets what the disk streams need.
  \<^item> \<^verbatim>\<open>vfsl/pathTracer.c\<close>: Path_Tracer. The tracers and their doubly linked parts are stores from
    addresses to records; the addresses come from \<open>kzalloc\<close>.
  \<^item> \<^verbatim>\<open>vfsl/driver/fat32.c\<close>: Fat32 (data structures and the reading side), Fat32_Write (free
    entries, short names, creating, reading and writing files) and Fat32_Table (lemmas on the
    allocation table, long names and checksums).
  \<^item> \<^verbatim>\<open>vfsl/virtualFilesystemLayer.c\<close>: Vfsl, with the registered file systems and the hash table of
    open files.
  \<^item> \<^verbatim>\<open>gdt/gdt.c\<close> and \<^verbatim>\<open>task/tss.c\<close>: Gdt. \<^verbatim>\<open>idt\<close>: Idt, with every handler and the dispatch.
  \<^item> \<^verbatim>\<open>task/task.c\<close>, \<^verbatim>\<open>task/process.c\<close> and \<^verbatim>\<open>task/scheduler.c\<close>: Process.
  \<^item> \<^verbatim>\<open>kernel.c\<close>: Panic (\<^verbatim>\<open>panic\<close> and what it shows) and Kmain (\<^verbatim>\<open>kmain\<close>).

  State. The components share the heap, so that their states form one chain of record extensions, from \<open>heap_page\<close>
  over \<open>paging\<close>, \<open>mmio\<close>, \<open>acpi\<close>, \<open>pci\<close>, \<open>disk_state\<close> and the streams to \<open>vfsl_state\<close>; \<open>kernel\<close> in Kmain adds the
  descriptor tables and the console, which use no heap. The field \<open>hw\<close> is the hardware. The drivers' callbacks
  are functions on it with an option result, because a driver may wait forever.

  What the lemmas show. The heap theories prove the invariant of the page table, freshness,
  zeroing and release, and that the buddy allocator cannot serve a first request. Page_Map proves that mapping
  refines the update of the map and translation its lookup, with a bound on the tables that a range needs;
  Mmio, Kernel_Table and Acpi rest on it. Stream and
  Partition_Stream prove that reads and writes transfer exactly the addressed bytes of the disk
  and of the partition, and inside them fail exactly when the heap has no buffer for the sectors, which depends on
  the live blocks only (\<open>kzalloc_null_iff\<close>). Ata_Device and Ahci_Device prove which sectors the drivers transfer, and for which requests
  they return. Path_Tracer proves that parsing represents the path and that the tracer
  owns exactly its blocks. Fat32_Table proves round trips of table entries and long names. Vfsl
  proves the handling of modes and of the table of open files. Gdt and Idt prove what the processor reads from the tables.
  Kmain proves with which panic the start of the kernel ends, or that it ends with a heap and the page table. Where the
  code departs from what its names and comments promise, a theorem states what it does.

  Bounds and fuel. Loops that follow data in memory or on disk are \<open>partial_function (option)\<close>,
  so that not ending is \<open>None\<close>, unless a bound of the code limits them. \<open>merge\<close> in Heap_Buddy has
  fuel 256: the recursion climbs one of at most 256 levels each time (\<open>merge_fuel\<close>). The chain of
  clusters in \<open>getDirEntries\<close> is followed for 256 rounds: the code stores the clusters in an array
  of 255 elements and faults behind it. \<open>readPciDevice\<close> has the depth of its recursion as fuel, because it need not end
  (\<open>readPciDevice_endless\<close>): a device needs depth 1, one with several functions depth 2. Indeterminate locals are
  filled from a parameter \<open>junk\<close> or \<open>garbage\<close>.

  Separation of stores. Structures that the code allocates and reaches only through typed
  pointers (path parts, open files, directory entries, PCI headers, tasks) live in stores of their own, indexed by
  the address that \<open>kzalloc\<close> returned; reading an address that holds no such structure is a fault.
  Byte buffers, the page tables, the table of the heap, strings, and the structures that a disk
  controller reads live in the memory. The kernel runs on the identity mapping of its heap, so that the memory is
  addressed by the addresses of the code; only the window of \<open>saveAcpiTables\<close> is read through the page table.

  Not modelled. The text that drivers, interrupt handlers and the start of the components print on their way; the printing
  functions, \<^verbatim>\<open>panic\<close> and the text of \<^verbatim>\<open>kmain\<close> are modelled. The moments at which interrupts arrive. Assembly routines: port
  access is a parameter, the loading of tables is recorded in the state. The AHCI driver is not a driver of the streams
  in the model, because it is given the physical address of a buffer and not its contents. \<^verbatim>\<open>removeTask\<close>, which is
  declared and never defined. As it stands \<^verbatim>\<open>kmain\<close> is undefined at its first call (\<open>kmain_undefined\<close>), so that the theorems
  on the start are about its phases.
\<close>

end
